(* ===== verification/Prelude.thy ===== *)
theory Prelude
  imports Main "HOL-Library.Word" "HOL-Library.Code_Target_Nat"
begin

text \<open>
  Shared vocabulary of the development: pointers, error codes, handler return values, the
  event type bits of \<^verbatim>\<open>include/beyond/common.h\<close>, the outcome of code that may block, abort
  or run into undefined behaviour, and generic list lemmas the components use.

  Conventions. A C pointer is a natural number and \<open>nullptr\<close> is 0. A C \<open>int\<close> return value is
  an \<open>int\<close>; a failing call returns a negated errno, as the source does. The \<open>int\<close> bit masks of
  event types are 32 bit words.
\<close>

unbundle bit_operations_syntax

named_theorems errno_defs \<comment> \<open>values of the errno constants\<close>
named_theorems evt_defs \<comment> \<open>values of the event type constants\<close>
named_theorems fd_simps \<comment> \<open>how the system calls change the descriptor table\<close>

section \<open>Pointers and error codes\<close>

type_synonym ptr = nat

abbreviation (input) nullptr :: ptr where "nullptr \<equiv> 0"

definition ENOENT :: int where [errno_defs]: "ENOENT = 2"
definition EINTR :: int where [errno_defs]: "EINTR = 4"
definition EBADF :: int where [errno_defs]: "EBADF = 9"
definition EAGAIN :: int where [errno_defs]: "EAGAIN = 11"
definition EEXIST :: int where [errno_defs]: "EEXIST = 17"
definition ENOMEM :: int where [errno_defs]: "ENOMEM = 12"
definition EFAULT :: int where [errno_defs]: "EFAULT = 14"
definition EINVAL :: int where [errno_defs]: "EINVAL = 22"
definition ENOSYS :: int where [errno_defs]: "ENOSYS = 38"
definition EILSEQ :: int where [errno_defs]: "EILSEQ = 84"
definition ENOTSUP :: int where [errno_defs]: "ENOTSUP = 95"
definition ETIMEDOUT :: int where [errno_defs]: "ETIMEDOUT = 110"
definition EALREADY :: int where [errno_defs]: "EALREADY = 114"

section \<open>Outcomes\<close>

text \<open>
  \<open>Ret v\<close>: the call returns \<open>v\<close>. \<open>Blocked\<close>: it waits for ever (a read on an empty pipe that
  nobody writes to). \<open>Aborted\<close>: a failing \<^verbatim>\<open>assert\<close> of a debug build. \<open>Undefined\<close>: undefined
  behaviour of C++ (a dereference of a null or deleted pointer, an invalidated iterator).
\<close>

datatype 'a outcome = Ret 'a | Blocked | Aborted | Undefined

fun obind :: "'a outcome \<Rightarrow> ('a \<Rightarrow> 'b outcome) \<Rightarrow> 'b outcome" where
  "obind (Ret v) f = f v"
| "obind Blocked f = Blocked"
| "obind Aborted f = Aborted"
| "obind Undefined f = Undefined"

lemma obind_eq_Ret: "obind m f = Ret b \<longleftrightarrow> (\<exists>a. m = Ret a \<and> f a = Ret b)"
  by (cases m) auto

lemma obind_cong [fundef_cong]:
  "m = m' \<Longrightarrow> (\<And>v. m' = Ret v \<Longrightarrow> f v = f' v) \<Longrightarrow> obind m f = obind m' f'"
  by (cases m') auto

section \<open>Event types\<close>

datatype handler_return = RETURN_CANCEL | RETURN_RENEW

type_synonym evtype = "32 word"

text \<open>The enumerators of \<open>enum beyond_event_type\<close> in their order of declaration.\<close>

datatype beyond_event_type =
    TYPE_NONE | TYPE_READ | TYPE_WRITE | TYPE_ERROR | TYPE_EVENT_MASK
  | INFERENCE_UNKNOWN | INFERENCE_READY | INFERENCE_SUCCESS | INFERENCE_STOPPED
  | INFERENCE_CANCELED | INFERENCE_ERROR | INFERENCE_MASK
  | PEER_UNKNOWN | PEER_CONNECTED | PEER_DISCONNECTED | PEER_INFO_UPDATED | PEER_ERROR | PEER_MASK
  | DISCOVERY_UNKNOWN | DISCOVERY_DISCOVERED | DISCOVERY_REMOVED | DISCOVERY_REGISTERED
  | DISCOVERY_ERROR | DISCOVERY_MASK
  | AUTHENTICATOR_UNKNOWN | AUTHENTICATOR_COMPLETED | AUTHENTICATOR_ERROR | AUTHENTICATOR_MASK

primrec event_code :: "beyond_event_type \<Rightarrow> evtype" where
  "event_code TYPE_NONE = 0x00000000"
| "event_code TYPE_READ = 0x00000010"
| "event_code TYPE_WRITE = 0x00000020"
| "event_code TYPE_ERROR = 0x00000040"
| "event_code TYPE_EVENT_MASK = 0x000000FF"
| "event_code INFERENCE_UNKNOWN = 0x01000000"
| "event_code INFERENCE_READY = 0x01000100"
| "event_code INFERENCE_SUCCESS = 0x01000200"
| "event_code INFERENCE_STOPPED = 0x01000400"
| "event_code INFERENCE_CANCELED = 0x01000800"
| "event_code INFERENCE_ERROR = 0x01001000"
| "event_code INFERENCE_MASK = 0x0100FF00"
| "event_code PEER_UNKNOWN = 0x02000000"
| "event_code PEER_CONNECTED = 0x02000100"
| "event_code PEER_DISCONNECTED = 0x02000200"
| "event_code PEER_INFO_UPDATED = 0x02000400"
| "event_code PEER_ERROR = 0x02000800"
| "event_code PEER_MASK = 0x0200FF00"
| "event_code DISCOVERY_UNKNOWN = 0x04000000"
| "event_code DISCOVERY_DISCOVERED = 0x04000100"
| "event_code DISCOVERY_REMOVED = 0x04000200"
| "event_code DISCOVERY_REGISTERED = 0x04000400"
| "event_code DISCOVERY_ERROR = 0x04000800"
| "event_code DISCOVERY_MASK = 0x0400FF00"
| "event_code AUTHENTICATOR_UNKNOWN = 0x08000000"
| "event_code AUTHENTICATOR_COMPLETED = 0x80000100"
| "event_code AUTHENTICATOR_ERROR = 0x08000200"
| "event_code AUTHENTICATOR_MASK = 0x0800FF00"

abbreviation EVT_READ :: evtype where "EVT_READ \<equiv> event_code TYPE_READ"
abbreviation EVT_WRITE :: evtype where "EVT_WRITE \<equiv> event_code TYPE_WRITE"
abbreviation EVT_ERROR :: evtype where "EVT_ERROR \<equiv> event_code TYPE_ERROR"

text \<open>The component byte Aa of the layout 0xAaBbCcDd.\<close>

definition component_byte :: "evtype \<Rightarrow> evtype" where
  "component_byte t = drop_bit 24 t"

section \<open>Lists\<close>

text \<open>\<open>erase i xs\<close> is \<^verbatim>\<open>vector.erase(begin() + i)\<close>.\<close>

definition erase :: "nat \<Rightarrow> 'a list \<Rightarrow> 'a list" where
  "erase i xs = take i xs @ drop (Suc i) xs"

lemma erase_Nil [simp]: "erase i [] = []"
  by (simp add: erase_def)

lemma erase_0_Cons [simp]: "erase 0 (x # xs) = xs"
  by (simp add: erase_def)

lemma erase_Suc_Cons [simp]: "erase (Suc i) (x # xs) = x # erase i xs"
  by (simp add: erase_def)

lemma length_erase [simp]: "i < length xs \<Longrightarrow> length (erase i xs) = length xs - 1"
  by (simp add: erase_def)

lemma set_erase_subset: "set (erase i xs) \<subseteq> set xs"
  by (auto simp: erase_def dest: in_set_takeD in_set_dropD)

lemma take_erase [simp]: "i \<le> length xs \<Longrightarrow> take i (erase i xs) = take i xs"
  by (simp add: erase_def)

lemma drop_erase [simp]: "i \<le> length xs \<Longrightarrow> drop i (erase i xs) = drop (Suc i) xs"
  by (simp add: erase_def)

lemma distinct_erase: "distinct xs \<Longrightarrow> distinct (erase i xs)"
  by (auto simp: erase_def distinct_append dest: in_set_takeD)
    (metis Suc_n_not_le_n append_take_drop_id disjoint_iff distinct_append le_SucI nat_le_linear
      set_drop_subset_set_drop subset_eq)

text \<open>Index of the first element that satisfies a predicate.\<close>

fun find_index :: "('a \<Rightarrow> bool) \<Rightarrow> 'a list \<Rightarrow> nat option" where
  "find_index P [] = None"
| "find_index P (x # xs) = (if P x then Some 0 else map_option Suc (find_index P xs))"

lemma find_index_None: "find_index P xs = None \<longleftrightarrow> (\<forall>x \<in> set xs. \<not> P x)"
  by (induction xs) auto

lemma find_index_Some:
  "find_index P xs = Some i \<Longrightarrow> i < length xs \<and> P (xs ! i) \<and> (\<forall>j < i. \<not> P (xs ! j))"
proof (induction xs arbitrary: i)
  case (Cons x xs)
  show ?case
  proof (cases "P x")
    case False
    with Cons.prems obtain k where "find_index P xs = Some k" and [simp]: "i = Suc k" by auto
    with Cons.IH False show ?thesis by (auto simp: less_Suc_eq_0_disj)
  qed (use Cons.prems in auto)
qed simp

lemma find_index_append:
  "find_index P (xs @ ys) =
    (case find_index P xs of Some i \<Rightarrow> Some i | None \<Rightarrow> map_option ((+) (length xs)) (find_index P ys))"
  by (induction xs; cases "find_index P ys") (auto split: option.splits)

end
