(* ===== verification/Event_Object.thy ===== *)
theory Event_Object
  imports Prelude
begin

text \<open>
  \<^verbatim>\<open>libbeyond/src/event_object.cc\<close>: the list of event handlers of an object and the dispatch of one
  fetched event to them. The vector of pointers to \<open>HandlerData\<close> owns its elements, so it is a
  list of records and an iterator is an index. A handler runs while it is marked \<open>in_use\<close> and may
  call back into the object; the calls it makes are part of what it returns.
\<close>

section \<open>State\<close>

record handler_data =
  hd_handler :: nat \<comment> \<open>the function\<close>
  hd_type :: evtype
  hd_data :: ptr
  hd_in_use :: bool
  hd_is_deleted :: bool

record event_object =
  eo_handlers :: "handler_data list"
  eo_handle :: int

record event_data =
  ed_type :: evtype
  ed_data :: ptr

text \<open>What \<^verbatim>\<open>select\<close> with a zero timeout reports for the handle.\<close>

datatype select_result = SelectError nat | SelectTimeout
  | is_SelectReady: SelectReady (sel_read: bool) (sel_write: bool) (sel_except: bool)

text \<open>A call that a running handler makes on the object it is registered at.\<close>

datatype reg_call = CallAdd nat evtype ptr | CallRemove nat evtype ptr

type_synonym 's event_handler =
  "nat \<Rightarrow> evtype \<Rightarrow> event_data \<Rightarrow> ptr \<Rightarrow> 's \<Rightarrow> handler_return \<times> reg_call list \<times> 's"

type_synonym 's event_fetcher =
  "evtype \<Rightarrow> event_data option \<Rightarrow> 's \<Rightarrow> handler_return \<times> event_data option \<times> 's"

section \<open>Operations\<close>

definition EventObject_new :: "int \<Rightarrow> event_object" where
  "EventObject_new h = \<lparr>eo_handlers = [], eo_handle = h\<rparr>"

definition GetHandle :: "event_object \<Rightarrow> int" where
  "GetHandle eo = eo_handle eo"

definition conflicts :: "nat \<Rightarrow> evtype \<Rightarrow> ptr \<Rightarrow> handler_data \<Rightarrow> bool" where
  "conflicts h t d info \<longleftrightarrow> hd_handler info = h \<and> hd_type info AND t \<noteq> 0 \<and> hd_data info = d"

text \<open>The first argument says whether \<^verbatim>\<open>new HandlerData()\<close> succeeds.\<close>

definition AddHandler ::
    "bool \<Rightarrow> nat \<Rightarrow> evtype \<Rightarrow> ptr \<Rightarrow> event_object \<Rightarrow> int \<times> event_object" where
  "AddHandler mem h t d eo =
    (if list_ex (conflicts h t d) (eo_handlers eo) then (- EALREADY, eo)
     else if \<not> mem then (- ENOMEM, eo)
     else (0, eo\<lparr>eo_handlers := eo_handlers eo @
              [\<lparr>hd_handler = h, hd_type = t, hd_data = d, hd_in_use = False, hd_is_deleted = False\<rparr>]\<rparr>))"

definition same_handler :: "nat \<Rightarrow> evtype \<Rightarrow> ptr \<Rightarrow> handler_data \<Rightarrow> bool" where
  "same_handler h t d info \<longleftrightarrow> hd_handler info = h \<and> hd_type info = t \<and> hd_data info = d"

definition RemoveHandler :: "nat \<Rightarrow> evtype \<Rightarrow> ptr \<Rightarrow> event_object \<Rightarrow> int \<times> event_object" where
  "RemoveHandler h t d eo =
    (case find_index (same_handler h t d) (eo_handlers eo) of
      None \<Rightarrow> (- ENOENT, eo)
    | Some i \<Rightarrow>
        let info = eo_handlers eo ! i in
        if hd_is_deleted info then (- EALREADY, eo)
        else if hd_in_use info
        then (0, eo\<lparr>eo_handlers := (eo_handlers eo)[i := info\<lparr>hd_is_deleted := True\<rparr>]\<rparr>)
        else (0, eo\<lparr>eo_handlers := erase i (eo_handlers eo)\<rparr>))"

text \<open>
  A call made by the handler at index \<open>i\<close> while the dispatch loop holds an iterator to it.
  Growing the vector may reallocate it, and erasing an element at or before \<open>i\<close> moves what the
  iterator points to: in both cases the iterator is invalid afterwards (\<open>None\<close>).
\<close>

primrec reenter :: "nat \<Rightarrow> reg_call \<Rightarrow> event_object \<Rightarrow> event_object option" where
  "reenter i (CallAdd h t d) eo =
    (let (ret, eo') = AddHandler True h t d eo in if ret = 0 then None else Some eo')"
| "reenter i (CallRemove h t d) eo =
    (case find_index (same_handler h t d) (eo_handlers eo) of
      None \<Rightarrow> Some eo
    | Some j \<Rightarrow>
        if j \<le> i \<and> \<not> hd_is_deleted (eo_handlers eo ! j) \<and> \<not> hd_in_use (eo_handlers eo ! j) then None
        else Some (snd (RemoveHandler h t d eo)))"

fun reenter_all :: "nat \<Rightarrow> reg_call list \<Rightarrow> event_object \<Rightarrow> event_object option" where
  "reenter_all i [] eo = Some eo"
| "reenter_all i (c # cs) eo =
    (case reenter i c eo of None \<Rightarrow> None | Some eo' \<Rightarrow> reenter_all i cs eo')"

definition set_in_use :: "nat \<Rightarrow> bool \<Rightarrow> event_object \<Rightarrow> event_object" where
  "set_in_use i b eo =
    eo\<lparr>eo_handlers := (eo_handlers eo)[i := (eo_handlers eo ! i)\<lparr>hd_in_use := b\<rparr>]\<rparr>"

lemma length_RemoveHandler:
  "length (eo_handlers (snd (RemoveHandler h t d eo))) \<le> length (eo_handlers eo)"
  by (auto simp: RemoveHandler_def Let_def erase_def split: option.split)

lemma length_reenter:
  "reenter i c eo = Some eo' \<Longrightarrow> length (eo_handlers eo') \<le> length (eo_handlers eo)"
  by (cases c)
    (auto simp: AddHandler_def Let_def errno_defs length_RemoveHandler split: if_splits option.splits)

lemma length_reenter_all:
  "reenter_all i cs eo = Some eo' \<Longrightarrow> length (eo_handlers eo') \<le> length (eo_handlers eo)"
  by (induction cs arbitrary: eo) (fastforce split: option.splits dest: length_reenter)+

lemma length_set_in_use [simp]: "length (eo_handlers (set_in_use i b eo)) = length (eo_handlers eo)"
  by (simp add: set_in_use_def)

text \<open>The loop over the handlers in \<open>FetchEventData\<close>, from the iterator's index on.\<close>

function dispatch ::
    "'s event_handler \<Rightarrow> event_data \<Rightarrow> nat \<Rightarrow> event_object \<Rightarrow> 's \<Rightarrow> (event_object \<times> 's) outcome" where
  "dispatch cb ed i eo s =
    (if i < length (eo_handlers eo) then
       (let info = eo_handlers eo ! i in
        if hd_type info AND ed_type ed \<noteq> 0 then
          (case cb (hd_handler info) (ed_type ed AND hd_type info) ed (hd_data info) s of
            (ret, calls, s') \<Rightarrow>
              (case reenter_all i calls (set_in_use i True eo) of
                None \<Rightarrow> Undefined
              | Some eo1 \<Rightarrow>
                  let eo2 = set_in_use i False eo1 in
                  if ret = RETURN_CANCEL \<or> hd_is_deleted (eo_handlers eo2 ! i)
                  then dispatch cb ed i (eo2\<lparr>eo_handlers := erase i (eo_handlers eo2)\<rparr>) s'
                  else dispatch cb ed (Suc i) eo2 s'))
        else dispatch cb ed (Suc i) eo s)
     else Ret (eo, s))"
  by pat_completeness auto
termination
  by (relation "measure (\<lambda>(cb, ed, i, eo, s). length (eo_handlers eo) - i)")
    (auto simp: erase_def dest!: length_reenter_all)

declare dispatch.simps [simp del]

definition select_type :: "select_result \<Rightarrow> evtype" where
  "select_type r =
    (case r of
      SelectReady rd wr ex \<Rightarrow>
        (if ex then EVT_ERROR else 0) OR (if rd then EVT_READ else 0) OR (if wr then EVT_WRITE else 0)
    | _ \<Rightarrow> 0)"

text \<open>
  \<open>data = None\<close> is the null pointer. When the fetcher leaves it null and there is a handler, the
  loop dereferences it.
\<close>

definition FetchEventData ::
    "'s event_fetcher option \<Rightarrow> 's event_handler \<Rightarrow> select_result \<Rightarrow> event_data option \<Rightarrow>
     event_object \<Rightarrow> 's \<Rightarrow> (int \<times> event_data option \<times> event_object \<times> 's) outcome" where
  "FetchEventData fetcher cb sel data eo s =
    (case fetcher of
      None \<Rightarrow> Ret (- EINVAL, data, eo, s)
    | Some fetch \<Rightarrow>
        if 0 \<le> eo_handle eo \<and> \<not> is_SelectReady sel
        then (case sel of SelectError e \<Rightarrow> Ret (- int e, data, eo, s) | _ \<Rightarrow> Ret (- EAGAIN, data, eo, s))
        else
          (let type = (if 0 \<le> eo_handle eo then select_type sel else 0) in
           case fetch type data s of
             (RETURN_CANCEL, data', s') \<Rightarrow> Ret (0, data', eo, s')
           | (RETURN_RENEW, None, s') \<Rightarrow>
               if eo_handlers eo = [] then Ret (0, None, eo, s') else Undefined
           | (RETURN_RENEW, Some ed, s') \<Rightarrow>
               obind (dispatch cb ed 0 eo s') (\<lambda>(eo', s''). Ret (0, Some ed, eo', s''))))"

text \<open>The overload without a fetcher passes one that keeps the data it is given.\<close>

definition keep_data :: "'s event_fetcher" where
  "keep_data type data s = (RETURN_RENEW, data, s)"

definition FetchEventData_default ::
    "'s event_handler \<Rightarrow> select_result \<Rightarrow> event_data option \<Rightarrow> event_object \<Rightarrow> 's \<Rightarrow>
     (int \<times> event_data option \<times> event_object \<times> 's) outcome" where
  "FetchEventData_default = FetchEventData (Some keep_data)"

definition DestroyEventData :: "event_data option \<Rightarrow> int \<times> event_data option" where
  "DestroyEventData data = (0, None)"

section \<open>The registry a client sees\<close>

type_synonym reg_key = "nat \<times> evtype \<times> ptr"

definition hd_key :: "handler_data \<Rightarrow> reg_key" where
  "hd_key info = (hd_handler info, hd_type info, hd_data info)"

definition registry :: "event_object \<Rightarrow> reg_key list" where
  "registry eo = map hd_key (eo_handlers eo)"

fun key_clash :: "reg_key \<Rightarrow> reg_key \<Rightarrow> bool" where
  "key_clash (h, t, d) (h', t', d') \<longleftrightarrow> h = h' \<and> t AND t' \<noteq> 0 \<and> d = d'"

text \<open>No two registrations of one function with one datum share an event bit.\<close>

definition registry_ok :: "event_object \<Rightarrow> bool" where
  "registry_ok eo \<longleftrightarrow> sorted_wrt (\<lambda>a b. \<not> key_clash a b) (registry eo)"

text \<open>No handler is running.\<close>

definition idle :: "event_object \<Rightarrow> bool" where
  "idle eo \<longleftrightarrow> list_all (\<lambda>info. \<not> hd_in_use info \<and> \<not> hd_is_deleted info) (eo_handlers eo)"

lemma conflicts_key: "conflicts h t d info \<longleftrightarrow> key_clash (hd_key info) (h, t, d)"
  by (auto simp: conflicts_def hd_key_def)

lemma same_handler_key: "same_handler h t d info \<longleftrightarrow> hd_key info = (h, t, d)"
  by (auto simp: same_handler_def hd_key_def)

lemma hd_key_flags [simp]:
  "hd_key (info\<lparr>hd_in_use := b\<rparr>) = hd_key info" "hd_key (info\<lparr>hd_is_deleted := b\<rparr>) = hd_key info"
  by (simp_all add: hd_key_def)

lemma list_ex_conflicts:
  "list_ex (conflicts h t d) (eo_handlers eo) \<longleftrightarrow> (\<exists>k \<in> set (registry eo). key_clash k (h, t, d))"
  by (auto simp: registry_def list_ex_iff conflicts_key)

lemma find_index_map: "find_index P (map f xs) = find_index (P \<circ> f) xs"
  by (induction xs) auto

lemma find_same_handler:
  "find_index (same_handler h t d) (eo_handlers eo) = find_index ((=) (h, t, d)) (registry eo)"
  by (auto simp: registry_def find_index_map comp_def same_handler_key intro!: arg_cong2 [of _ _ _ _ find_index])

lemma registry_erase: "map hd_key (erase i xs) = erase i (map hd_key xs)"
  by (simp add: erase_def take_map drop_map)

lemma map_key_update: "i < length xs \<Longrightarrow> hd_key x = hd_key (xs ! i) \<Longrightarrow> map hd_key (xs[i := x]) = map hd_key xs"
  by (simp add: map_update list_update_same_conv)

lemma registry_set_in_use [simp]: "registry (set_in_use i b eo) = registry eo"
  by (cases "i < length (eo_handlers eo)")
    (simp_all add: registry_def set_in_use_def map_key_update list_update_beyond)

lemma sorted_wrt_erase: "sorted_wrt P xs \<Longrightarrow> sorted_wrt P (erase i xs)"
  by (induction xs arbitrary: i; case_tac i) (use set_erase_subset in fastforce)+

lemma registry_ok_erase: "registry_ok eo \<Longrightarrow> registry_ok (eo\<lparr>eo_handlers := erase i (eo_handlers eo)\<rparr>)"
  by (simp add: registry_ok_def registry_def registry_erase sorted_wrt_erase)

lemma registry_ok_set_in_use [simp]: "registry_ok (set_in_use i b eo) = registry_ok eo"
  by (simp add: registry_ok_def)

section \<open>Registration\<close>

lemma AddHandler_Ret_0:
  "AddHandler mem h t d eo = (0, eo') \<Longrightarrow>
    registry eo' = registry eo @ [(h, t, d)] \<and> (\<forall>k \<in> set (registry eo). \<not> key_clash k (h, t, d))"
  unfolding AddHandler_def list_ex_conflicts
  by (auto simp: errno_defs registry_def hd_key_def split: if_splits)

lemma AddHandler_fails: "AddHandler mem h t d eo = (ret, eo') \<Longrightarrow> ret \<noteq> 0 \<Longrightarrow> eo' = eo \<and> ret < 0"
  by (auto simp: AddHandler_def errno_defs split: if_splits)

lemma AddHandler_EALREADY:
  "fst (AddHandler mem h t d eo) = - EALREADY \<longleftrightarrow> (\<exists>k \<in> set (registry eo). key_clash k (h, t, d))"
  by (auto simp: AddHandler_def list_ex_conflicts errno_defs)

lemma registry_ok_AddHandler: "registry_ok eo \<Longrightarrow> registry_ok (snd (AddHandler mem h t d eo))"
proof (cases "fst (AddHandler mem h t d eo) = 0")
  case True
  then have "AddHandler mem h t d eo = (0, snd (AddHandler mem h t d eo))" by (simp add: prod_eq_iff)
  moreover assume "registry_ok eo"
  ultimately show ?thesis using AddHandler_Ret_0 by (auto simp: registry_ok_def sorted_wrt_append)
next
  case False
  moreover assume "registry_ok eo"
  ultimately show ?thesis by (metis AddHandler_fails prod.collapse)
qed

lemma idle_AddHandler: "idle eo \<Longrightarrow> idle (snd (AddHandler mem h t d eo))"
  by (auto simp: AddHandler_def idle_def)

lemma RemoveHandler_missing:
  "(h, t, d) \<notin> set (registry eo) \<Longrightarrow> RemoveHandler h t d eo = (- ENOENT, eo)"
proof -
  assume "(h, t, d) \<notin> set (registry eo)"
  then have "find_index ((=) (h, t, d)) (registry eo) = None" by (auto simp: find_index_None)
  then show ?thesis by (simp add: RemoveHandler_def find_same_handler)
qed

lemma erase_find_index: "find_index ((=) x) xs = Some i \<Longrightarrow> erase i xs = remove1 x xs"
  by (induction xs arbitrary: i) auto

lemma RemoveHandler_idle:
  assumes "idle eo" and "(h, t, d) \<in> set (registry eo)"
  shows "fst (RemoveHandler h t d eo) = 0"
    and "registry (snd (RemoveHandler h t d eo)) = remove1 (h, t, d) (registry eo)"
    and "idle (snd (RemoveHandler h t d eo))"
proof -
  obtain i where i: "find_index ((=) (h, t, d)) (registry eo) = Some i"
    using assms(2) by (metis find_index_None not_None_eq)
  then have "i < length (eo_handlers eo)"
    using find_index_Some by (fastforce simp: registry_def)
  with i assms(1) have R: "RemoveHandler h t d eo = (0, eo\<lparr>eo_handlers := erase i (eo_handlers eo)\<rparr>)"
    by (simp add: RemoveHandler_def find_same_handler idle_def list_all_length)
  show "fst (RemoveHandler h t d eo) = 0" by (simp add: R)
  show "registry (snd (RemoveHandler h t d eo)) = remove1 (h, t, d) (registry eo)"
    using i by (simp add: R registry_def registry_erase erase_find_index)
  show "idle (snd (RemoveHandler h t d eo))"
    using assms(1) set_erase_subset [of i "eo_handlers eo"] by (auto simp: R idle_def list_all_iff)
qed

lemma registry_RemoveHandler:
  "registry (snd (RemoveHandler h t d eo)) = registry eo \<or>
   (\<exists>i. registry (snd (RemoveHandler h t d eo)) = erase i (registry eo))"
  using find_index_Some [of "same_handler h t d" "eo_handlers eo"]
  by (auto simp: RemoveHandler_def Let_def registry_def registry_erase map_key_update split: option.split)

lemma registry_ok_RemoveHandler: "registry_ok eo \<Longrightarrow> registry_ok (snd (RemoveHandler h t d eo))"
  using registry_RemoveHandler [of h t d eo] by (auto simp: registry_ok_def sorted_wrt_erase)

section \<open>Dispatch\<close>

text \<open>
  The reference behaviour of one dispatch over the registered handlers: each handler whose type
  meets the event runs once, in the order of registration, with the common bits; it stays unless it
  returns CANCEL or removed its own registration.
\<close>

fun notify ::
    "'s event_handler \<Rightarrow> event_data \<Rightarrow> handler_data list \<Rightarrow> 's \<Rightarrow> handler_data list \<times> 's" where
  "notify cb ed [] s = ([], s)"
| "notify cb ed (info # infos) s =
    (if hd_type info AND ed_type ed \<noteq> 0 then
       (let (ret, calls, s') = cb (hd_handler info) (ed_type ed AND hd_type info) ed (hd_data info) s;
            (rest, s'') = notify cb ed infos s' in
        (if ret = RETURN_CANCEL \<or> calls \<noteq> [] then rest else info # rest, s''))
     else (let (rest, s') = notify cb ed infos s in (info # rest, s')))"

text \<open>The only call a handler makes on the object it is registered at is the removal of itself.\<close>

definition self_contained :: "'s event_handler \<Rightarrow> event_data \<Rightarrow> event_object \<Rightarrow> bool" where
  "self_contained cb ed eo \<longleftrightarrow>
    (\<forall>info \<in> set (eo_handlers eo). \<forall>t s.
      set (fst (snd (cb (hd_handler info) t ed (hd_data info) s)))
        \<subseteq> {CallRemove (hd_handler info) (hd_type info) (hd_data info)})"

lemma find_self:
  assumes "registry_ok eo" and "eo_handlers eo = pre @ info # rest" and "hd_type info \<noteq> 0"
    and "hd_key info' = hd_key info"
  shows "find_index (same_handler (hd_handler info) (hd_type info) (hd_data info))
    (pre @ info' # rest) = Some (length pre)"
proof -
  have "\<not> key_clash (hd_key x) (hd_key info)" if "x \<in> set pre" for x
    using assms(1,2) that by (auto simp: registry_ok_def registry_def sorted_wrt_append)
  then have "\<not> same_handler (hd_handler info) (hd_type info) (hd_data info) x" if "x \<in> set pre" for x
    using assms(3) that by (fastforce simp: same_handler_def hd_key_def)
  then have "find_index (same_handler (hd_handler info) (hd_type info) (hd_data info)) pre = None"
    by (simp add: find_index_None)
  then show ?thesis
    using assms(4) by (simp add: find_index_append same_handler_key hd_key_def)
qed

lemma reenter_self:
  assumes "registry_ok eo" and hs: "eo_handlers eo = pre @ info # rest" and "hd_type info \<noteq> 0"
    and "eo_handlers eo' = pre @ info' # rest" and "hd_key info' = hd_key info" and "hd_in_use info'"
    and "set calls \<subseteq> {CallRemove (hd_handler info) (hd_type info) (hd_data info)}"
  shows "reenter_all (length pre) calls eo' =
    Some (eo'\<lparr>eo_handlers := pre @ info'\<lparr>hd_is_deleted := hd_is_deleted info' \<or> calls \<noteq> []\<rparr> # rest\<rparr>)"
  using assms(4-7)
proof (induction calls arbitrary: eo' info')
  case Nil
  then show ?case by simp
next
  case (Cons c calls)
  have f: "find_index (same_handler (hd_handler info) (hd_type info) (hd_data info))
      (eo_handlers eo') = Some (length pre)"
    using find_self [OF assms(1-3) Cons.prems(2)] Cons.prems(1) by simp
  let ?eo = "eo'\<lparr>eo_handlers := pre @ info'\<lparr>hd_is_deleted := True\<rparr> # rest\<rparr>"
  from f Cons.prems have r: "reenter (length pre) c eo' = Some ?eo"
    by (cases "hd_is_deleted info'") (auto simp: RemoveHandler_def)
  have "reenter_all (length pre) calls ?eo =
      Some (?eo\<lparr>eo_handlers := pre @ info'\<lparr>hd_is_deleted := True\<rparr> # rest\<rparr>)"
    using Cons.IH [of ?eo "info'\<lparr>hd_is_deleted := True\<rparr>"] Cons.prems by simp
  with r show ?case by simp
qed

lemma registry_ok_tail:
  "registry_ok eo \<Longrightarrow> eo_handlers eo = pre @ info # rest \<Longrightarrow> registry_ok (eo\<lparr>eo_handlers := pre @ rest\<rparr>)"
  by (auto simp: registry_ok_def registry_def sorted_wrt_append)

lemma self_contained_subset:
  "self_contained cb ed eo \<Longrightarrow> set (eo_handlers eo') \<subseteq> set (eo_handlers eo) \<Longrightarrow> self_contained cb ed eo'"
  by (auto simp: self_contained_def)

lemma erase_middle: "erase (length pre) (pre @ x # rest) = pre @ rest"
  by (simp add: erase_def)

text \<open>One round of the loop at a handler that meets the event.\<close>

lemma dispatch_step:
  assumes ok: "registry_ok eo" and hs: "eo_handlers eo = pre @ info # rest"
    and fresh: "\<not> hd_in_use info" "\<not> hd_is_deleted info"
    and sc: "self_contained cb ed eo" and meets: "hd_type info AND ed_type ed \<noteq> 0"
    and cb: "cb (hd_handler info) (ed_type ed AND hd_type info) ed (hd_data info) s = (ret, calls, s')"
  shows "dispatch cb ed (length pre) eo s =
    (if ret = RETURN_CANCEL \<or> calls \<noteq> []
     then dispatch cb ed (length pre) (eo\<lparr>eo_handlers := pre @ rest\<rparr>) s'
     else dispatch cb ed (length (pre @ [info])) eo s')"
proof -
  from meets have nz: "hd_type info \<noteq> 0" by auto
  have calls: "set calls \<subseteq> {CallRemove (hd_handler info) (hd_type info) (hd_data info)}"
  proof -
    have "set (fst (snd (cb (hd_handler info) (ed_type ed AND hd_type info) ed (hd_data info) s)))
        \<subseteq> {CallRemove (hd_handler info) (hd_type info) (hd_data info)}"
      using sc hs unfolding self_contained_def by (metis in_set_conv_decomp)
    then show ?thesis by (simp add: cb)
  qed
  let ?run = "set_in_use (length pre) True eo"
  have run: "eo_handlers ?run = pre @ info\<lparr>hd_in_use := True\<rparr> # rest" "eo_handle ?run = eo_handle eo"
    by (simp_all add: set_in_use_def hs)
  from reenter_self [OF ok hs nz run(1) _ _ calls] fresh
  have re: "reenter_all (length pre) calls ?run =
      Some (?run\<lparr>eo_handlers := pre @ info\<lparr>hd_in_use := True, hd_is_deleted := calls \<noteq> []\<rparr> # rest\<rparr>)"
    by simp
  have info: "info\<lparr>hd_is_deleted := False, hd_in_use := False\<rparr> = info" using fresh by simp
  have eo: "eo\<lparr>eo_handlers := pre @ info\<lparr>hd_is_deleted := False, hd_in_use := False\<rparr> # rest\<rparr> = eo"
    using hs unfolding info by simp
  show ?thesis
    by (subst dispatch.simps)
      (use hs meets cb re eo in \<open>simp add: set_in_use_def erase_middle Let_def\<close>)
qed

lemma dispatch_notify:
  assumes "registry_ok eo" and "eo_handlers eo = pre @ hs" and "self_contained cb ed eo"
    and "\<forall>info \<in> set hs. \<not> hd_in_use info \<and> \<not> hd_is_deleted info"
  shows "dispatch cb ed (length pre) eo s =
    Ret (eo\<lparr>eo_handlers := pre @ fst (notify cb ed hs s)\<rparr>, snd (notify cb ed hs s))"
  using assms
proof (induction hs arbitrary: pre eo s)
  case Nil
  then show ?case by (subst dispatch.simps) auto
next
  case (Cons info hs)
  show ?case
  proof (cases "hd_type info AND ed_type ed = 0")
    case True
    then have "dispatch cb ed (length pre) eo s = dispatch cb ed (length (pre @ [info])) eo s"
      by (subst dispatch.simps) (simp add: Cons.prems(2))
    also have "\<dots> = Ret (eo\<lparr>eo_handlers := (pre @ [info]) @ fst (notify cb ed hs s)\<rparr>, snd (notify cb ed hs s))"
      by (rule Cons.IH) (use Cons.prems in simp_all)
    finally show ?thesis using True by (simp add: case_prod_beta)
  next
    case False
    obtain ret calls s' where cb:
      "cb (hd_handler info) (ed_type ed AND hd_type info) ed (hd_data info) s = (ret, calls, s')"
      by (metis prod_cases3)
    let ?eo = "eo\<lparr>eo_handlers := pre @ hs\<rparr>"
    have gone: "dispatch cb ed (length pre) ?eo s' =
        Ret (?eo\<lparr>eo_handlers := pre @ fst (notify cb ed hs s')\<rparr>, snd (notify cb ed hs s'))"
      using Cons.prems registry_ok_tail [OF Cons.prems(1,2)]
        self_contained_subset [OF Cons.prems(3), of ?eo] by (intro Cons.IH) auto
    have kept: "dispatch cb ed (length (pre @ [info])) eo s' =
        Ret (eo\<lparr>eo_handlers := (pre @ [info]) @ fst (notify cb ed hs s')\<rparr>, snd (notify cb ed hs s'))"
      by (rule Cons.IH) (use Cons.prems in simp_all)
    show ?thesis
      using dispatch_step [OF Cons.prems(1,2) _ _ Cons.prems(3) False cb] Cons.prems(4) gone kept False cb
      by (simp add: case_prod_beta)
  qed
qed

section \<open>The interface of a handler registry\<close>

text \<open>
  What the clients of \<open>AddHandler\<close> and \<open>RemoveHandler\<close> rely on. \<open>armed\<close> keys are the ones with at
  least one event bit: only for those does the registry refuse a second registration.
\<close>

locale handler_registry =
  fixes add :: "bool \<Rightarrow> reg_key \<Rightarrow> 'o \<Rightarrow> int \<times> 'o"
    and remove :: "reg_key \<Rightarrow> 'o \<Rightarrow> int \<times> 'o"
    and keys :: "'o \<Rightarrow> reg_key list"
    and inv :: "'o \<Rightarrow> bool"
  assumes inv_add: "inv r \<Longrightarrow> inv (snd (add m k r))"
    and inv_remove: "inv r \<Longrightarrow> inv (snd (remove k r))"
    and add_done: "add m k r = (0, r') \<Longrightarrow> keys r' = keys r @ [k] \<and> (\<forall>k' \<in> set (keys r). \<not> key_clash k' k)"
    and add_clash: "k' \<in> set (keys r) \<Longrightarrow> key_clash k' k \<Longrightarrow> add m k r = (- EALREADY, r)"
    and add_fails: "add m k r = (ret, r') \<Longrightarrow> ret \<noteq> 0 \<Longrightarrow> r' = r \<and> ret < 0"
    and remove_present: "inv r \<Longrightarrow> k \<in> set (keys r) \<Longrightarrow>
      fst (remove k r) = 0 \<and> keys (snd (remove k r)) = remove1 k (keys r)"
    and remove_absent: "k \<notin> set (keys r) \<Longrightarrow> remove k r = (- ENOENT, r)"
begin

lemma key_clash_refl: "key_clash (h, t, d) (h, t, d) \<longleftrightarrow> t \<noteq> 0"
  by simp

lemma add_then_add:
  assumes "add m (h, t, d) r = (0, r')" and "t \<noteq> 0"
  shows "add m' (h, t, d) r' = (- EALREADY, r')"
  using add_done [OF assms(1)] assms(2) by (intro add_clash [of "(h, t, d)"]) auto

lemma add_then_remove:
  assumes "inv r" and "add m (h, t, d) r = (0, r')" and "t \<noteq> 0"
  shows "fst (remove (h, t, d) r') = 0 \<and> keys (snd (remove (h, t, d) r')) = keys r"
proof -
  from add_done [OF assms(2)] have k: "keys r' = keys r @ [(h, t, d)]"
    and fresh: "(h, t, d) \<notin> set (keys r)"
    using assms(3) by force+
  moreover have "inv r'" using inv_add [OF assms(1), of m "(h, t, d)"] assms(2) by simp
  ultimately show ?thesis using remove_present [of r' "(h, t, d)"] by (simp add: remove1_append)
qed

end

interpretation eo_reg: handler_registry
  "\<lambda>m (h, t, d). AddHandler m h t d" "\<lambda>(h, t, d). RemoveHandler h t d" registry
  "\<lambda>eo. registry_ok eo \<and> idle eo"
proof (unfold_locales, goal_cases)
  case (1 r m k)
  then show ?case by (cases k) (simp add: registry_ok_AddHandler idle_AddHandler)
next
  case (2 r k)
  obtain h t d where k: "k = (h, t, d)" by (cases k)
  show ?case
    using 2 registry_ok_RemoveHandler [of r h t d] RemoveHandler_idle(3) [of r h t d]
      RemoveHandler_missing [of h t d r]
    by (cases "k \<in> set (registry r)") (auto simp: k)
next
  case (3 m k r r')
  then show ?case using AddHandler_Ret_0 by (cases k) fastforce
next
  case (4 k' r k m)
  then show ?case by (cases k) (auto simp: AddHandler_def list_ex_conflicts)
next
  case (5 m k r ret r')
  then show ?case using AddHandler_fails by (cases k) fastforce
next
  case (6 r k)
  then show ?case by (cases k) (simp add: RemoveHandler_idle)
next
  case (7 k r)
  then show ?case by (cases k) (simp add: RemoveHandler_missing)
qed

section \<open>Properties\<close>

lemma registry_ok_reenter: "registry_ok eo \<Longrightarrow> reenter i c eo = Some eo' \<Longrightarrow> registry_ok eo'"
proof (cases c)
  case (CallAdd h t d)
  moreover assume "registry_ok eo" "reenter i c eo = Some eo'"
  ultimately show ?thesis
    using registry_ok_AddHandler [of eo True h t d] by (auto split: prod.splits if_splits)
next
  case (CallRemove h t d)
  moreover assume "registry_ok eo" "reenter i c eo = Some eo'"
  ultimately show ?thesis
    using registry_ok_RemoveHandler [of eo h t d] by (auto split: option.splits if_splits)
qed

lemma registry_ok_reenter_all: "registry_ok eo \<Longrightarrow> reenter_all i cs eo = Some eo' \<Longrightarrow> registry_ok eo'"
  by (induction cs arbitrary: eo) (auto split: option.splits dest: registry_ok_reenter)


text \<open>A concrete object: handler 1 removes itself when it runs, handler 2 stays, handler 3 cancels.\<close>

definition ex_entry :: "nat \<Rightarrow> evtype \<Rightarrow> handler_data" where
  "ex_entry h t = \<lparr>hd_handler = h, hd_type = t, hd_data = 7, hd_in_use = False, hd_is_deleted = False\<rparr>"

definition ex_object :: event_object where
  "ex_object = \<lparr>eo_handlers = [ex_entry 1 EVT_READ, ex_entry 2 (EVT_READ OR EVT_ERROR), ex_entry 3 EVT_READ,
    ex_entry 4 EVT_WRITE], eo_handle = 5\<rparr>"

definition ex_callback :: "(nat \<times> evtype) list event_handler" where
  "ex_callback h t ed d s =
    (if h = 3 then RETURN_CANCEL else RETURN_RENEW, if h = 1 then [CallRemove h EVT_READ d] else [], s @ [(h, t)])"

lemma ex_object_ok: "registry_ok ex_object" "idle ex_object"
  by (simp_all add: registry_ok_def registry_def ex_object_def ex_entry_def hd_key_def idle_def)

lemma ex_dispatch:
  "dispatch ex_callback \<lparr>ed_type = EVT_READ, ed_data = 0\<rparr> 0 ex_object [] =
    Ret (\<lparr>eo_handlers = [ex_entry 2 (EVT_READ OR EVT_ERROR), ex_entry 4 EVT_WRITE], eo_handle = 5\<rparr>,
      [(1, EVT_READ), (2, EVT_READ), (3, EVT_READ)])"
  by code_simp


text \<open>
  C2. When the only call handlers make on the object that runs them is the removal of their own
  registration, the dispatch loop (with its \<open>in_use\<close> and \<open>is_deleted\<close> marks and its erasing iterator)
  is the plain notification: it returns, every handler whose type meets the event runs exactly once in
  the order of registration with the common event bits, and exactly the handlers that returned CANCEL
  or removed themselves are gone.
\<close>

theorem dispatch_refines_notify:
  assumes "registry_ok eo" and "idle eo" and "self_contained cb ed eo"
  shows "dispatch cb ed 0 eo s =
    Ret (eo\<lparr>eo_handlers := fst (notify cb ed (eo_handlers eo) s)\<rparr>, snd (notify cb ed (eo_handlers eo) s))"
  using dispatch_notify [of eo "[]" "eo_handlers eo" cb ed s] assms by (simp add: idle_def list_all_iff)

lemma dispatch_refines_notify_witness:
  "registry_ok ex_object \<and> idle ex_object \<and>
   self_contained ex_callback \<lparr>ed_type = EVT_READ, ed_data = 0\<rparr> ex_object \<and>
   dispatch ex_callback \<lparr>ed_type = EVT_READ, ed_data = 0\<rparr> 0 ex_object [] =
    Ret (ex_object\<lparr>eo_handlers := fst (notify ex_callback \<lparr>ed_type = EVT_READ, ed_data = 0\<rparr> (eo_handlers ex_object) [])\<rparr>,
      snd (notify ex_callback \<lparr>ed_type = EVT_READ, ed_data = 0\<rparr> (eo_handlers ex_object) []))"
proof -
  have sc: "self_contained ex_callback \<lparr>ed_type = EVT_READ, ed_data = 0\<rparr> ex_object"
    by (auto simp: self_contained_def ex_object_def ex_entry_def ex_callback_def)
  from dispatch_refines_notify [OF ex_object_ok sc, of "[]"] ex_object_ok sc show ?thesis by simp
qed

text \<open>
  C3. The life of a registration with at least one event bit, from any idle object: a successful
  \<open>AddHandler\<close> appends it; while it is there, adding the same function and datum for any event in common is refused with
  -EALREADY and changes nothing; \<open>RemoveHandler\<close> then succeeds and gives back exactly the registrations
  there were before, and a second removal is refused with -ENOENT.
\<close>

theorem registration_lifecycle:
  assumes "registry_ok eo" and "idle eo" and "AddHandler True h t d eo = (0, eo1)" and "t \<noteq> 0"
  shows "registry eo1 = registry eo @ [(h, t, d)]
    \<and> (t AND t' \<noteq> 0 \<longrightarrow> AddHandler mem h t' d eo1 = (- EALREADY, eo1))
    \<and> fst (RemoveHandler h t d eo1) = 0
    \<and> registry (snd (RemoveHandler h t d eo1)) = registry eo
    \<and> RemoveHandler h t d (snd (RemoveHandler h t d eo1)) = (- ENOENT, snd (RemoveHandler h t d eo1))"
proof -
  have inv: "registry_ok eo \<and> idle eo" and add: "(\<lambda>m (h, t, d). AddHandler m h t d) True (h, t, d) eo = (0, eo1)"
    using assms(1-3) by simp_all
  have keys: "registry eo1 = registry eo @ [(h, t, d)]" and fresh: "(h, t, d) \<notin> set (registry eo)"
    using eo_reg.add_done [OF add] assms(4) by force+
  moreover have "AddHandler mem h t' d eo1 = (- EALREADY, eo1)" if "t AND t' \<noteq> 0"
    using eo_reg.add_clash [of "(h, t, d)" eo1 "(h, t', d)" mem] that keys by simp
  moreover have rem: "fst (RemoveHandler h t d eo1) = 0 \<and> registry (snd (RemoveHandler h t d eo1)) = registry eo"
    using eo_reg.add_then_remove [OF inv add assms(4)] by simp
  ultimately show ?thesis
    using eo_reg.remove_absent [of "(h, t, d)" "snd (RemoveHandler h t d eo1)"] by simp
qed

lemma registration_lifecycle_witness:
  "registry (snd (AddHandler True 9 EVT_READ 7 ex_object)) = registry ex_object @ [(9, EVT_READ, 7)] \<and>
   fst (RemoveHandler 9 EVT_READ 7 (snd (AddHandler True 9 EVT_READ 7 ex_object))) = 0"
proof -
  have "AddHandler True 9 EVT_READ 7 ex_object = (0, snd (AddHandler True 9 EVT_READ 7 ex_object))"
    by (simp add: AddHandler_def ex_object_def ex_entry_def conflicts_def)
  from registration_lifecycle [OF ex_object_ok this] show ?thesis by simp
qed

text \<open>
  Fetching with the default fetcher and no event data (a null reference, as a caller of the base
  class passes it) runs into a null dereference as soon as one handler is registered, and returns 0
  without one; every other call without a ready event returns -EAGAIN or the negated errno of
  \<^verbatim>\<open>select\<close> and leaves the object alone.
\<close>

theorem FetchEventData_default_null:
  "FetchEventData_default cb sel None eo s =
    (if 0 \<le> eo_handle eo \<and> \<not> is_SelectReady sel
     then Ret (case sel of SelectError e \<Rightarrow> - int e | _ \<Rightarrow> - EAGAIN, None, eo, s)
     else if eo_handlers eo = [] then Ret (0, None, eo, s) else Undefined)"
  by (cases sel) (auto simp: FetchEventData_default_def FetchEventData_def keep_data_def)

end
