(* ===== verification/Command_Object.thy ===== *)
theory Command_Object
  imports Prelude
begin

text \<open>
  \<^verbatim>\<open>libbeyond/src/command_object.cc\<close>: commands between two threads of one process. \<open>Send\<close> allocates a
  \<open>CommandData\<close> and writes its address (8 bytes, little endian) into a pipe or socket; \<open>Recv\<close> reads an
  address, takes the command out of the object it points to and deletes it. A \<open>channel\<close> is one direction
  of such a pipe with the \<open>CommandData\<close> objects allocated for it; each end has its own handle. What the
  kernel answers to the next calls is scripted, partial transfers and errors included, so a theorem about
  every channel covers all of them.

  The last part is the contract the channel gives its clients: a queue of commands.
\<close>

section \<open>Addresses as bytes\<close>

fun le_bytes :: "nat \<Rightarrow> nat \<Rightarrow> 8 word list" where
  "le_bytes 0 p = []"
| "le_bytes (Suc n) p = word_of_nat (p mod 256) # le_bytes n (p div 256)"

fun le_value :: "8 word list \<Rightarrow> nat" where
  "le_value [] = 0"
| "le_value (b # bs) = unat b + 256 * le_value bs"

lemma length_le_bytes [simp]: "length (le_bytes n p) = n"
  by (induction n arbitrary: p) auto

lemma unat_byte: "unat (word_of_nat (p mod 256) :: 8 word) = p mod 256"
  by (simp add: unat_of_nat)

lemma le_value_bytes: "le_value (le_bytes n p) = p mod 256 ^ n"
proof (induction n arbitrary: p)
  case (Suc n)
  then show ?case by (simp add: unat_byte mod_mult2_eq)
qed simp

definition ptr_bytes :: "ptr \<Rightarrow> 8 word list" where
  "ptr_bytes = le_bytes 8"

lemma length_ptr_bytes [simp]: "length (ptr_bytes p) = 8"
  by (simp add: ptr_bytes_def)

lemma ptr_bytes_value: "p < 2 ^ 64 \<Longrightarrow> le_value (ptr_bytes p) = p"
  by (simp add: ptr_bytes_def le_value_bytes)

lemma ptr_bytes_unfold:
  "ptr_bytes p = le_bytes (Suc (Suc (Suc (Suc (Suc (Suc (Suc (Suc 0)))))))) p"
proof -
  have "(8::nat) = Suc (Suc (Suc (Suc (Suc (Suc (Suc (Suc 0)))))))" by simp
  then show ?thesis by (simp only: ptr_bytes_def)
qed

section \<open>State\<close>

record command_data =
  cd_id :: int
  cd_data :: ptr

datatype io = IoError nat | IoCount nat | IoBlock

record channel =
  ch_tx :: int \<comment> \<open>handle of the sending end\<close>
  ch_rx :: int \<comment> \<open>handle of the receiving end\<close>
  ch_heap :: "ptr \<Rightarrow> command_data option"
  ch_next :: ptr
  ch_bytes :: "8 word list" \<comment> \<open>written and not yet read\<close>
  ch_script :: "io list"
  ch_news :: "bool list" \<comment> \<open>whether the next allocations succeed\<close>

section \<open>System calls\<close>

text \<open>An exhausted script means that the call transfers all it can and waits while there is nothing.\<close>

definition sys_write :: "8 word list \<Rightarrow> channel \<Rightarrow> (int \<times> channel) outcome" where
  "sys_write bs c =
    (case ch_script c of
      [] \<Rightarrow> Ret (int (length bs), c\<lparr>ch_bytes := ch_bytes c @ bs\<rparr>)
    | IoError e # es \<Rightarrow> Ret (- int e, c\<lparr>ch_script := es\<rparr>)
    | IoCount n # es \<Rightarrow>
        Ret (int (min n (length bs)), c\<lparr>ch_script := es, ch_bytes := ch_bytes c @ take n bs\<rparr>)
    | IoBlock # es \<Rightarrow> Blocked)"

definition sys_read :: "nat \<Rightarrow> channel \<Rightarrow> (int \<times> 8 word list \<times> channel) outcome" where
  "sys_read k c =
    (case ch_script c of
      [] \<Rightarrow>
        if ch_bytes c = [] then Blocked
        else Ret (int (min k (length (ch_bytes c))), take k (ch_bytes c), c\<lparr>ch_bytes := drop k (ch_bytes c)\<rparr>)
    | IoError e # es \<Rightarrow> Ret (- int e, [], c\<lparr>ch_script := es\<rparr>)
    | IoCount n # es \<Rightarrow>
        if ch_bytes c = [] \<and> n \<noteq> 0 then Blocked
        else Ret (int (min (min n k) (length (ch_bytes c))), take (min n k) (ch_bytes c),
              c\<lparr>ch_script := es, ch_bytes := drop (min n k) (ch_bytes c)\<rparr>)
    | IoBlock # es \<Rightarrow> Blocked)"

section \<open>Operations\<close>

definition CommandObject_new :: "int \<Rightarrow> int \<Rightarrow> channel" where
  "CommandObject_new tx rx =
    \<lparr>ch_tx = tx, ch_rx = rx, ch_heap = Map.empty, ch_next = 1, ch_bytes = [], ch_script = [], ch_news = []\<rparr>"

definition Command_GetHandle :: "channel \<Rightarrow> int \<times> int" where
  "Command_GetHandle c = (ch_tx c, ch_rx c)"

definition NewCommandData :: "int \<Rightarrow> ptr \<Rightarrow> channel \<Rightarrow> ptr option \<times> channel" where
  "NewCommandData cid data c =
    (let c' = c\<lparr>ch_news := tl (ch_news c)\<rparr> in
     if (ch_news c \<noteq> [] \<and> \<not> hd (ch_news c)) \<or> 2 ^ 64 \<le> ch_next c then (None, c')
     else (Some (ch_next c),
           c'\<lparr>ch_heap := (ch_heap c)(ch_next c \<mapsto> \<lparr>cd_id = cid, cd_data = data\<rparr>), ch_next := ch_next c + 1\<rparr>))"

definition DeleteCommandData :: "ptr \<Rightarrow> channel \<Rightarrow> channel" where
  "DeleteCommandData cmd c = c\<lparr>ch_heap := (ch_heap c)(cmd := None)\<rparr>"

text \<open>\<open>ndebug\<close> says that \<^verbatim>\<open>assert\<close> is compiled out.\<close>

definition Send :: "bool \<Rightarrow> int \<Rightarrow> ptr \<Rightarrow> channel \<Rightarrow> (int \<times> channel) outcome" where
  "Send ndebug cid data c =
    (if ch_tx c < 0 then Ret (- EINVAL, c)
     else case NewCommandData cid data c of
       (None, c1) \<Rightarrow> Ret (- ENOMEM, c1)
     | (Some cmd, c1) \<Rightarrow>
         obind (sys_write (ptr_bytes cmd) c1) (\<lambda>(ret, c2).
           if ret < 0 then Ret (ret, DeleteCommandData cmd c2)
           else if ret \<noteq> 8 then
             if \<not> ndebug then Aborted
             else obind (sys_write (drop (nat ret) (ptr_bytes cmd)) c2) (\<lambda>(again, c3).
               if again \<noteq> 8 - ret then Ret (- EFAULT, DeleteCommandData cmd c3) else Ret (0, c3))
           else Ret (0, c2)))"

text \<open>The command read, if any: the output parameters are left alone otherwise.\<close>

definition Recv :: "bool \<Rightarrow> channel \<Rightarrow> (int \<times> command_data option \<times> channel) outcome" where
  "Recv ndebug c =
    (if ch_rx c < 0 then Ret (- EINVAL, None, c)
     else obind (sys_read 8 c) (\<lambda>(ret, bs, c1).
       let deliver = (\<lambda>bs c2.
         let cmd = le_value bs in
         if cmd = nullptr then (if ndebug then Ret (- EFAULT, None, c2) else Aborted)
         else case ch_heap c2 cmd of
           None \<Rightarrow> Undefined
         | Some cd \<Rightarrow> Ret (0, Some cd, DeleteCommandData cmd c2))
       in
       if ret < 0 then Ret (ret, None, c1)
       else if ret \<noteq> 8 then
         if \<not> ndebug then Aborted
         else obind (sys_read (8 - nat ret) c1) (\<lambda>(again, bs', c2).
           if again \<noteq> 8 - ret then Ret (- EFAULT, None, c2) else deliver (bs @ bs') c2)
       else deliver bs c1))"

definition Recv_id :: "bool \<Rightarrow> channel \<Rightarrow> (int \<times> int option \<times> channel) outcome" where
  "Recv_id ndebug c =
    obind (Recv ndebug c) (\<lambda>(ret, cmd, c'). Ret (ret, map_option cd_id cmd, c'))"

section \<open>The queue of commands in a channel\<close>

function ptrs_of :: "8 word list \<Rightarrow> ptr list" where
  "ptrs_of bs = (if length bs < 8 then [] else le_value (take 8 bs) # ptrs_of (drop 8 bs))"
  by pat_completeness auto
termination by (relation "measure length") auto

declare ptrs_of.simps [simp del]

definition commands :: "channel \<Rightarrow> command_data list" where
  "commands c = map (the \<circ> ch_heap c) (ptrs_of (ch_bytes c))"

text \<open>
  The kernel transfers addresses whole: POSIX guarantees it for pipes (8 is at most PIPE_BUF), and Linux
  does it for local stream sockets unless the socket's memory runs out in between.
\<close>

fun whole_io :: "io \<Rightarrow> bool" where
  "whole_io (IoError e) \<longleftrightarrow> 0 < e"
| "whole_io (IoCount n) \<longleftrightarrow> 8 \<le> n"
| "whole_io IoBlock \<longleftrightarrow> True"

definition channel_ok :: "channel \<Rightarrow> bool" where
  "channel_ok c \<longleftrightarrow>
    0 \<le> ch_tx c \<and> 0 \<le> ch_rx c \<and> list_all whole_io (ch_script c)
    \<and> length (ch_bytes c) mod 8 = 0 \<and> distinct (ptrs_of (ch_bytes c))
    \<and> dom (ch_heap c) = set (ptrs_of (ch_bytes c))
    \<and> (\<forall>p \<in> set (ptrs_of (ch_bytes c)). 0 < p \<and> p < ch_next c) \<and> 0 < ch_next c \<and> ch_next c \<le> 2 ^ 64"

text \<open>No call on the channel fails for lack of memory or blocks on a full pipe.\<close>

definition channel_calm :: "channel \<Rightarrow> bool" where
  "channel_calm c \<longleftrightarrow> ch_script c = [] \<and> ch_news c = []"

lemma ptrs_of_Nil [simp]: "ptrs_of [] = []"
  by (simp add: ptrs_of.simps)

lemma ptrs_of_append: "length bs mod 8 = 0 \<Longrightarrow> ptrs_of (bs @ cs) = ptrs_of bs @ ptrs_of cs"
proof (induction bs rule: ptrs_of.induct)
  case (1 bs)
  show ?case
  proof (cases "bs = []")
    case False
    with "1.prems" have "8 \<le> length bs" by (cases "length bs < 8") auto
    moreover from this "1.prems" have "(length bs - 8) mod 8 = 0" by (simp add: le_mod_geq)
    ultimately show ?thesis
      using "1.IH" by (simp add: ptrs_of.simps [of bs] ptrs_of.simps [of "bs @ cs"])
  qed simp
qed

lemma ptrs_of_ptr_bytes [simp]: "p < 2 ^ 64 \<Longrightarrow> ptrs_of (ptr_bytes p) = [p]"
  by (simp add: ptrs_of.simps ptr_bytes_value)

lemma ptrs_of_Cons:
  assumes "length bs mod 8 = 0" and "bs \<noteq> []"
  shows "8 \<le> length bs" and "ptrs_of bs = le_value (take 8 bs) # ptrs_of (drop 8 bs)"
    and "(length bs - 8) mod 8 = 0"
proof -
  from assms show 8: "8 \<le> length bs" by (cases "length bs < 8") auto
  then show "ptrs_of bs = le_value (take 8 bs) # ptrs_of (drop 8 bs)" by (simp add: ptrs_of.simps [of bs])
  from 8 assms(1) show "(length bs - 8) mod 8 = 0" by (simp add: le_mod_geq)
qed

lemma ptrs_of_eq_Nil: "length bs mod 8 = 0 \<Longrightarrow> ptrs_of bs = [] \<longleftrightarrow> bs = []"
  by (cases "bs = []") (simp_all add: ptrs_of_Cons(2))

section \<open>Whole transfers\<close>

lemma sys_write_whole:
  assumes "list_all whole_io (ch_script c)" and "length bs = 8" and "sys_write bs c = Ret (ret, c')"
  obtains (written) es where "list_all whole_io es" "ret = 8" "c' = c\<lparr>ch_script := es, ch_bytes := ch_bytes c @ bs\<rparr>"
    | (failed) es where "list_all whole_io es" "ret < 0" "c' = c\<lparr>ch_script := es\<rparr>"
proof (cases "ch_script c")
  case Nil
  with assms(2,3) show ?thesis by (intro written [of "[]"]) (auto simp: sys_write_def)
next
  case (Cons io es)
  with assms have es: "list_all whole_io es" by simp
  show ?thesis
  proof (cases io)
    case (IoError e)
    with Cons assms es show ?thesis by (intro failed [of es]) (auto simp: sys_write_def)
  next
    case (IoCount n)
    with Cons assms es show ?thesis by (intro written [of es]) (auto simp: sys_write_def)
  next
    case IoBlock
    with Cons assms show ?thesis by (simp add: sys_write_def)
  qed
qed

lemma sys_read_whole:
  assumes "list_all whole_io (ch_script c)" and "length (ch_bytes c) mod 8 = 0"
    and "sys_read 8 c = Ret (ret, bs, c')"
  obtains (read) es where "list_all whole_io es" "ret = 8" "ch_bytes c \<noteq> []" "bs = take 8 (ch_bytes c)"
      "c' = c\<lparr>ch_script := es, ch_bytes := drop 8 (ch_bytes c)\<rparr>"
    | (failed) es where "list_all whole_io es" "ret < 0" "c' = c\<lparr>ch_script := es\<rparr>"
proof (cases "ch_script c")
  case Nil
  with assms(2,3) ptrs_of_Cons(1) [of "ch_bytes c"] show ?thesis
    by (intro read [of "[]"]) (auto simp: sys_read_def split: if_splits)
next
  case (Cons io es)
  with assms have es: "list_all whole_io es" by simp
  show ?thesis
  proof (cases io)
    case (IoError e)
    with Cons assms es show ?thesis by (intro failed [of es]) (auto simp: sys_read_def)
  next
    case (IoCount n)
    with Cons assms es ptrs_of_Cons(1) [of "ch_bytes c"] show ?thesis
      by (intro read [of es]) (auto simp: sys_read_def min_def split: if_splits)
  next
    case IoBlock
    with Cons assms show ?thesis by (simp add: sys_read_def)
  qed
qed

lemma channel_okD:
  assumes "channel_ok c"
  shows "0 \<le> ch_tx c" "0 \<le> ch_rx c" "list_all whole_io (ch_script c)" "length (ch_bytes c) mod 8 = 0"
    "distinct (ptrs_of (ch_bytes c))" "dom (ch_heap c) = set (ptrs_of (ch_bytes c))"
    "0 < ch_next c" "ch_next c \<le> 2 ^ 64"
    "\<And>p. p \<in> set (ptrs_of (ch_bytes c)) \<Longrightarrow> 0 < p \<and> p < ch_next c"
  using assms by (simp_all add: channel_ok_def)

lemma channel_ok_script [simp]:
  "channel_ok c \<Longrightarrow> list_all whole_io es \<Longrightarrow> channel_ok (c\<lparr>ch_script := es\<rparr>)"
  "channel_ok (c\<lparr>ch_news := ns\<rparr>) = channel_ok c"
  by (simp_all add: channel_ok_def)

lemma commands_script [simp]:
  "commands (c\<lparr>ch_script := es\<rparr>) = commands c" "commands (c\<lparr>ch_news := ns\<rparr>) = commands c"
  by (simp_all add: commands_def)

text \<open>Whatever happens in a \<open>Send\<close> that returns, the channel holds whole commands and nothing else.\<close>

lemma Send_outcome:
  assumes ok: "channel_ok c" and send: "Send ndebug cid data c = Ret (ret, c')"
  shows "channel_ok c' \<and>
    (ret = 0 \<and> commands c' = commands c @ [\<lparr>cd_id = cid, cd_data = data\<rparr>] \<or> ret < 0 \<and> commands c' = commands c)"
proof (cases "(ch_news c \<noteq> [] \<and> \<not> hd (ch_news c)) \<or> 2 ^ 64 \<le> ch_next c")
  case True
  with ok send channel_okD(1) [OF ok] show ?thesis
    by (auto simp: Send_def NewCommandData_def Let_def errno_defs)
next
  case False
  let ?n = "ch_next c"
  let ?c = "c\<lparr>ch_news := tl (ch_news c), ch_heap := (ch_heap c)(?n \<mapsto> \<lparr>cd_id = cid, cd_data = data\<rparr>), ch_next := ?n + 1\<rparr>"
  from False have new: "NewCommandData cid data c = (Some ?n, ?c)"
    by (simp add: NewCommandData_def Let_def)
  with send channel_okD(1) [OF ok] obtain r c2 where wr: "sys_write (ptr_bytes ?n) ?c = Ret (r, c2)"
    by (auto simp: Send_def obind_eq_Ret)
  have whole: "list_all whole_io (ch_script ?c)" using channel_okD(3) [OF ok] by simp
  have fresh: "?n \<notin> set (ptrs_of (ch_bytes c))" using channel_okD(9) [OF ok] by blast
  show ?thesis
  proof (rule sys_write_whole [OF whole length_ptr_bytes wr])
    fix es assume "list_all whole_io es" "r = 8" "c2 = ?c\<lparr>ch_script := es, ch_bytes := ch_bytes ?c @ ptr_bytes ?n\<rparr>"
    moreover from this have "ret = 0" "c' = c2"
      using send new wr channel_okD(1) [OF ok] by (auto simp: Send_def)
    moreover have "ptrs_of (ch_bytes c @ ptr_bytes ?n) = ptrs_of (ch_bytes c) @ [?n]"
      using channel_okD(4) [OF ok] False by (simp add: ptrs_of_append)
    moreover have "map (the \<circ> (ch_heap c)(?n \<mapsto> \<lparr>cd_id = cid, cd_data = data\<rparr>)) (ptrs_of (ch_bytes c))
        = map (the \<circ> ch_heap c) (ptrs_of (ch_bytes c))"
      using fresh by (auto simp: map_eq_conv)
    ultimately show ?thesis
      using ok fresh False by (auto simp: channel_ok_def commands_def less_Suc_eq mod_add_eq)
  next
    fix es assume "list_all whole_io es" "r < 0" "c2 = ?c\<lparr>ch_script := es\<rparr>"
    moreover from this have "ret = r" "c' = DeleteCommandData ?n c2"
      using send new wr channel_okD(1) [OF ok] by (auto simp: Send_def)
    moreover have "(ch_heap c)(?n := None) = ch_heap c"
      using fresh channel_okD(6) [OF ok] by (auto simp: fun_eq_iff domIff)
    ultimately show ?thesis
      using ok fresh False by (auto simp: channel_ok_def commands_def DeleteCommandData_def less_SucI)
  qed
qed

lemma Recv_outcome:
  assumes ok: "channel_ok c" and recv: "Recv ndebug c = Ret (ret, cmd, c')"
  shows "channel_ok c' \<and>
    (ret = 0 \<and> (\<exists>m. cmd = Some m \<and> commands c = m # commands c') \<or>
     ret < 0 \<and> cmd = None \<and> commands c' = commands c)"
proof -
  from recv channel_okD(2) [OF ok] obtain r bs c1 where read: "sys_read 8 c = Ret (r, bs, c1)"
    by (auto simp: Recv_def obind_eq_Ret)
  show ?thesis
  proof (rule sys_read_whole [OF channel_okD(3,4) [OF ok] read])
    fix es assume r: "list_all whole_io es" "r = 8" "ch_bytes c \<noteq> []" "bs = take 8 (ch_bytes c)"
      "c1 = c\<lparr>ch_script := es, ch_bytes := drop 8 (ch_bytes c)\<rparr>"
    note P = ptrs_of_Cons [OF channel_okD(4) [OF ok] r(3)]
    define p where "p = le_value (take 8 (ch_bytes c))"
    have p: "0 < p" "p \<in> dom (ch_heap c)" "p \<notin> set (ptrs_of (drop 8 (ch_bytes c)))"
      using channel_okD(5,6,9) [OF ok] P(2) by (auto simp: p_def)
    then obtain m where m: "ch_heap c p = Some m" by auto
    have ret: "ret = 0 \<and> cmd = Some m \<and> c' = DeleteCommandData p c1"
      using recv read r m p channel_okD(2) [OF ok] by (auto simp: Recv_def p_def Let_def)
    have rest: "map (the \<circ> (ch_heap c)(p := None)) (ptrs_of (drop 8 (ch_bytes c)))
        = map (the \<circ> ch_heap c) (ptrs_of (drop 8 (ch_bytes c)))"
      using p by (auto simp: map_eq_conv)
    have "channel_ok c'"
      using ok P ret r p by (auto simp: channel_ok_def DeleteCommandData_def p_def)
    then show ?thesis
      using P ret r m rest by (auto simp: commands_def DeleteCommandData_def p_def)
  next
    fix es assume "list_all whole_io es" "r < 0" "c1 = c\<lparr>ch_script := es\<rparr>"
    then show ?thesis using ok recv read channel_okD(2) [OF ok] by (auto simp: Recv_def Let_def)
  qed
qed

text \<open>On a calm channel nothing fails, and only a receive on an empty channel waits.\<close>

lemma Send_calm:
  assumes "channel_ok c" and "channel_calm c" and "ch_next c < 2 ^ 64"
  shows "\<exists>c'. Send ndebug cid data c = Ret (0, c') \<and> channel_calm c' \<and> ch_next c' = ch_next c + 1"
  using assms channel_okD(1) [OF assms(1)]
  by (auto simp: Send_def NewCommandData_def Let_def sys_write_def channel_calm_def)

lemma Recv_calm:
  assumes "channel_ok c" and "channel_calm c" and "commands c = m # ms"
  shows "\<exists>c'. Recv ndebug c = Ret (0, Some m, c') \<and> channel_calm c' \<and> ch_next c' = ch_next c"
proof -
  have ne: "ch_bytes c \<noteq> []" using assms(3) by (auto simp: commands_def)
  note P = ptrs_of_Cons [OF channel_okD(4) [OF assms(1)] ne]
  define p where "p = le_value (take 8 (ch_bytes c))"
  have "p \<in> set (ptrs_of (ch_bytes c))" using P(2) by (simp add: p_def)
  then have "0 < p" "p \<in> dom (ch_heap c)" using channel_okD(6,9) [OF assms(1)] by auto
  moreover from this have "ch_heap c p = Some m"
    using P(2) assms(3) by (auto simp: commands_def p_def)
  ultimately have "0 < p" "ch_heap c p = Some m" by simp_all
  then show ?thesis
    using assms ne P(1) channel_okD(2) [OF assms(1)]
    by (auto simp: Recv_def sys_read_def Let_def channel_calm_def p_def DeleteCommandData_def)
qed

lemma Recv_empty: "channel_ok c \<Longrightarrow> channel_calm c \<Longrightarrow> commands c = [] \<Longrightarrow> Recv ndebug c = Blocked"
  using channel_okD(2,4) [of c] ptrs_of_eq_Nil [of "ch_bytes c"]
  by (simp add: Recv_def sys_read_def commands_def channel_calm_def)

lemma channel_ok_new [simp]: "0 \<le> tx \<Longrightarrow> 0 \<le> rx \<Longrightarrow> channel_ok (CommandObject_new tx rx)"
  by (simp add: channel_ok_def CommandObject_new_def)

lemma commands_new [simp]: "commands (CommandObject_new tx rx) = []"
  by (simp add: commands_def CommandObject_new_def)

lemma no_command_lost: "channel_ok c \<Longrightarrow> card (dom (ch_heap c)) = length (commands c)"
  using channel_okD(5,6) [of c] by (simp add: commands_def distinct_card)

section \<open>The contract: a queue of commands\<close>

fun send_all :: "('m \<Rightarrow> 'c \<Rightarrow> (int \<times> 'c) outcome) \<Rightarrow> 'm list \<Rightarrow> 'c \<Rightarrow> (int list \<times> 'c) outcome" where
  "send_all tx [] c = Ret ([], c)"
| "send_all tx (m # ms) c =
    obind (tx m c) (\<lambda>(r, c'). obind (send_all tx ms c') (\<lambda>(rs, c''). Ret (r # rs, c'')))"

fun recv_all :: "('c \<Rightarrow> (int \<times> 'm option \<times> 'c) outcome) \<Rightarrow> nat \<Rightarrow> 'c \<Rightarrow> (int list \<times> 'm list \<times> 'c) outcome" where
  "recv_all rx 0 c = Ret ([], [], c)"
| "recv_all rx (Suc n) c =
    obind (rx c) (\<lambda>(r, mo, c'). obind (recv_all rx n c') (\<lambda>(rs, ms, c'').
      Ret (r # rs, (case mo of None \<Rightarrow> ms | Some m \<Rightarrow> m # ms), c'')))"

text \<open>The messages whose send returned 0.\<close>

definition accepted :: "'m list \<Rightarrow> int list \<Rightarrow> 'm list" where
  "accepted ms rs = map fst (filter (\<lambda>(m, r). r = 0) (zip ms rs))"

locale message_channel =
  fixes send :: "'m \<Rightarrow> 'c \<Rightarrow> (int \<times> 'c) outcome"
    and recv :: "'c \<Rightarrow> (int \<times> 'm option \<times> 'c) outcome"
    and queue :: "'c \<Rightarrow> 'm list"
    and ok :: "'c \<Rightarrow> bool"
    and calm :: "nat \<Rightarrow> 'c \<Rightarrow> bool" \<comment> \<open>the next so many sends succeed\<close>
  assumes send_outcome: "ok c \<Longrightarrow> send m c = Ret (r, c') \<Longrightarrow>
      ok c' \<and> (r = 0 \<and> queue c' = queue c @ [m] \<or> r < 0 \<and> queue c' = queue c)"
    and recv_outcome: "ok c \<Longrightarrow> recv c = Ret (r, mo, c') \<Longrightarrow>
      ok c' \<and> (r = 0 \<and> (\<exists>m. mo = Some m \<and> queue c = m # queue c') \<or> r < 0 \<and> mo = None \<and> queue c' = queue c)"
    and send_calm: "ok c \<Longrightarrow> calm (Suc n) c \<Longrightarrow> \<exists>c'. send m c = Ret (0, c') \<and> calm n c'"
    and recv_calm: "ok c \<Longrightarrow> calm n c \<Longrightarrow> queue c = m # ms \<Longrightarrow> \<exists>c'. recv c = Ret (0, Some m, c') \<and> calm n c'"
    and recv_empty: "ok c \<Longrightarrow> calm n c \<Longrightarrow> queue c = [] \<Longrightarrow> recv c = Blocked"
begin

lemma send_all_queue:
  "ok c \<Longrightarrow> send_all send ms c = Ret (rs, c') \<Longrightarrow> ok c' \<and> queue c' = queue c @ accepted ms rs"
proof (induction ms arbitrary: c rs)
  case Nil
  then show ?case by (simp add: accepted_def)
next
  case (Cons m ms)
  from Cons.prems(2) obtain r c1 rs' where
    1: "send m c = Ret (r, c1)" "send_all send ms c1 = Ret (rs', c')" "rs = r # rs'"
    by (auto simp: obind_eq_Ret)
  with send_outcome [OF Cons.prems(1) 1(1)] Cons.IH [of c1 rs'] show ?case
    by (auto simp: accepted_def)
qed

lemma recv_all_queue:
  "ok c \<Longrightarrow> recv_all recv n c = Ret (rs, ms, c') \<Longrightarrow> ok c' \<and> queue c = ms @ queue c'"
proof (induction n arbitrary: c rs ms)
  case (Suc n)
  from Suc.prems(2) obtain r mo c1 rs' ms' where
    1: "recv c = Ret (r, mo, c1)" "recv_all recv n c1 = Ret (rs', ms', c')"
      "ms = (case mo of None \<Rightarrow> ms' | Some m \<Rightarrow> m # ms')"
    by (auto simp: obind_eq_Ret)
  with recv_outcome [OF Suc.prems(1) 1(1)] Suc.IH [of c1 rs' ms'] show ?case by auto
qed simp

lemma send_all_calm:
  "ok c \<Longrightarrow> calm (length ms + n) c \<Longrightarrow>
    \<exists>c'. send_all send ms c = Ret (replicate (length ms) 0, c') \<and> calm n c' \<and> ok c' \<and> queue c' = queue c @ ms"
proof (induction ms arbitrary: c)
  case (Cons m ms)
  from send_calm [of c "length ms + n" m] Cons.prems obtain c1 where
    1: "send m c = Ret (0, c1)" "calm (length ms + n) c1" by auto
  with send_outcome [OF Cons.prems(1) 1(1)] Cons.IH [of c1] show ?case by auto
qed simp

lemma recv_all_calm:
  "ok c \<Longrightarrow> calm n c \<Longrightarrow> queue c = ms @ q \<Longrightarrow>
    \<exists>c'. recv_all recv (length ms) c = Ret (replicate (length ms) 0, ms, c') \<and> ok c' \<and> queue c' = q"
proof (induction ms arbitrary: c)
  case (Cons m ms)
  from recv_calm [OF Cons.prems(1,2)] Cons.prems(3) obtain c1 where
    1: "recv c = Ret (0, Some m, c1)" "calm n c1" by auto
  with recv_outcome [OF Cons.prems(1) 1(1)] Cons.IH [of c1] Cons.prems(3) show ?case by auto
qed simp

end

interpretation command_channel: message_channel
  "\<lambda>m. Send ndebug (cd_id m) (cd_data m)" "Recv ndebug" commands channel_ok
  "\<lambda>n c. channel_calm c \<and> ch_next c + n \<le> 2 ^ 64" for ndebug
proof (unfold_locales, goal_cases)
  case (1 c m r c')
  then show ?case using Send_outcome by (cases m) fastforce
next
  case (2 c r mo c')
  then show ?case using Recv_outcome by blast
next
  case (3 c n m)
  then show ?case using Send_calm [of c ndebug "cd_id m" "cd_data m"] by fastforce
next
  case (4 c n m ms)
  then show ?case using Recv_calm by fastforce
next
  case (5 c n)
  then show ?case using Recv_empty by blast
qed

section \<open>Properties\<close>

abbreviation send_commands :: "bool \<Rightarrow> command_data list \<Rightarrow> channel \<Rightarrow> (int list \<times> channel) outcome" where
  "send_commands ndebug \<equiv> send_all (\<lambda>m. Send ndebug (cd_id m) (cd_data m))"

abbreviation recv_commands :: "bool \<Rightarrow> nat \<Rightarrow> channel \<Rightarrow> (int list \<times> command_data list \<times> channel) outcome" where
  "recv_commands ndebug \<equiv> recv_all (Recv ndebug)"

text \<open>
  C4. A channel is a queue, whatever mixture of errors the kernel and the allocator answer with: after any
  series of \<open>Send\<close>s that return and any series of \<open>Recv\<close>s that return, the commands received are, in order and with their
  data, a prefix of the ones that were queued followed by the ones whose \<open>Send\<close> returned 0; the rest is
  still queued, and the live \<open>CommandData\<close> objects are exactly the queued ones.
\<close>

theorem channel_is_fifo:
  assumes "channel_ok c" and "send_commands ndebug ms c = Ret (rs, c1)"
    and "recv_commands ndebug n c1 = Ret (rs', got, c2)"
  shows "commands c @ accepted ms rs = got @ commands c2 \<and> channel_ok c2
    \<and> card (dom (ch_heap c2)) = length (commands c2)"
  using command_channel.send_all_queue [OF assms(1,2)] command_channel.recv_all_queue [OF _ assms(3)]
    no_command_lost by fastforce

definition ex_channel :: channel where
  "ex_channel = (CommandObject_new 4 3)\<lparr>ch_script := [IoCount 8, IoError 4, IoCount 9, IoError 4], ch_news := [True, True, True, False]\<rparr>"

definition ex_messages :: "command_data list" where
  "ex_messages = [\<lparr>cd_id = 1, cd_data = 10\<rparr>, \<lparr>cd_id = 2, cd_data = 20\<rparr>, \<lparr>cd_id = 3, cd_data = 30\<rparr>, \<lparr>cd_id = 4, cd_data = 40\<rparr>]"

lemmas channel_evals = CommandObject_new_def Send_def Recv_def NewCommandData_def Let_def sys_write_def
  sys_read_def errno_defs DeleteCommandData_def ptr_bytes_unfold

text \<open>The results of a series of sends and one of receives.\<close>

definition run_channel :: "bool \<Rightarrow> command_data list \<Rightarrow> nat \<Rightarrow> channel \<Rightarrow> (int list \<times> int list \<times> command_data list) option" where
  "run_channel ndebug ms n c =
    (case send_commands ndebug ms c of
      Ret (rs, c1) \<Rightarrow> (case recv_commands ndebug n c1 of Ret (rs', got, c2) \<Rightarrow> Some (rs, rs', got) | _ \<Rightarrow> None)
    | _ \<Rightarrow> None)"

lemma run_channelE:
  assumes "run_channel ndebug ms n c = Some (rs, rs', got)"
  obtains c1 c2 where "send_commands ndebug ms c = Ret (rs, c1)" "recv_commands ndebug n c1 = Ret (rs', got, c2)"
  using assms by (auto simp: run_channel_def split: outcome.splits)

lemma ex_run: "run_channel False ex_messages 3 ex_channel = Some ([0, -4, 0, -12], [-4, 0, 0], [ex_messages ! 0, ex_messages ! 2])"
  by code_simp

lemma channel_is_fifo_witness:
  "\<exists>c1 c2. send_commands False ex_messages ex_channel = Ret ([0, -4, 0, -12], c1)
    \<and> recv_commands False 3 c1 = Ret ([-4, 0, 0], [ex_messages ! 0, ex_messages ! 2], c2)
    \<and> commands c2 = []"
proof -
  have ok: "channel_ok ex_channel" "commands ex_channel = []"
    using channel_ok_new [of 4 3] by (simp_all add: ex_channel_def channel_ok_def commands_def CommandObject_new_def)
  obtain c1 c2 where run: "send_commands False ex_messages ex_channel = Ret ([0, -4, 0, -12], c1)"
      "recv_commands False 3 c1 = Ret ([-4, 0, 0], [ex_messages ! 0, ex_messages ! 2], c2)"
    by (rule run_channelE [OF ex_run])
  from channel_is_fifo [OF ok(1) run] ok(2) have "commands c2 = []"
    by (simp add: accepted_def ex_messages_def)
  with run show ?thesis by blast
qed

text \<open>
  On a channel whose calls do not fail, sending any number of commands that still fits the address
  space and receiving as many as there are returns: every call gives 0, the received commands are the
  queued ones followed by the sent ones, and no \<open>CommandData\<close> is left.
\<close>

theorem channel_round_trip:
  assumes "channel_ok c" and "channel_calm c" and "ch_next c + length ms \<le> 2 ^ 64"
  shows "\<exists>c1 c2. send_commands ndebug ms c = Ret (replicate (length ms) 0, c1)
    \<and> recv_commands ndebug (length (commands c @ ms)) c1 =
        Ret (replicate (length (commands c @ ms)) 0, commands c @ ms, c2)
    \<and> dom (ch_heap c2) = {}"
proof -
  from command_channel.send_all_calm [of c ms 0 ndebug] assms obtain c1 where
    1: "send_commands ndebug ms c = Ret (replicate (length ms) 0, c1)" "channel_calm c1"
      "channel_ok c1" "ch_next c1 \<le> 2 ^ 64" "commands c1 = commands c @ ms" by auto
  with command_channel.recv_all_calm [of c1 0 "commands c @ ms" "[]" ndebug] obtain c2 where
    2: "recv_commands ndebug (length (commands c @ ms)) c1 =
        Ret (replicate (length (commands c @ ms)) 0, commands c @ ms, c2)"
      "channel_ok c2" "commands c2 = []" by auto
  from channel_okD(6) [OF 2(2)] 2(3) have "dom (ch_heap c2) = {}" by (simp add: commands_def)
  with 1 2 show ?thesis by blast
qed

lemma channel_round_trip_witness:
  "\<exists>c1 c2. send_commands True [\<lparr>cd_id = 9, cd_data = 77\<rparr>] (CommandObject_new 4 3) = Ret ([0], c1)
    \<and> recv_commands True 1 c1 = Ret ([0], [\<lparr>cd_id = 9, cd_data = 77\<rparr>], c2) \<and> dom (ch_heap c2) = {}"
  using channel_round_trip [of "CommandObject_new 4 3" "[\<lparr>cd_id = 9, cd_data = 77\<rparr>]" True]
  by (simp add: channel_calm_def) (simp add: CommandObject_new_def)

text \<open>
  The retry after a partial write does not undo it. In a build without assertions, a \<open>Send\<close> whose
  second write fails returns -EFAULT and deletes its command, and its first bytes stay in the pipe: the
  next \<open>Send\<close> returns 0 and the receiver then reads an address that no command has, which it dereferences.
\<close>

theorem partial_write_misaligns:
  "\<exists>c1 c2. Send True 1 10 ((CommandObject_new 4 3)\<lparr>ch_script := [IoCount 3, IoError 11]\<rparr>) = Ret (- EFAULT, c1)
    \<and> Send True 2 20 c1 = Ret (0, c2) \<and> Recv True c2 = Undefined"
  by (simp add: channel_evals)

end
