(* ===== verification/Posix.thy ===== *)
theory Posix
  imports Prelude
begin

text \<open>
  The operating system and heap services the library calls, as far as it uses them: the table of
  open descriptors, the number of live heap objects, and a script of faults. Every call takes the
  next entry of the script; 0 (or an empty script) means that it succeeds and \<open>e > 0\<close> that it
  fails with \<open>errno = e\<close>. A theorem about all states therefore covers every combination of
  failing calls.

  A failing call of the C library returns -1 and sets \<open>errno\<close>; the model returns the negated errno,
  which is what the callers make of the pair. \<^verbatim>\<open>close\<close> releases the descriptor even when it
  reports an error, as Linux documents, and fails with EBADF on a descriptor that is not open.
\<close>

record os =
  open_fds :: "int set"
  next_fd :: int
  live :: int
  faults :: "nat list"

definition fault :: "os \<Rightarrow> nat" where
  "fault s = (case faults s of [] \<Rightarrow> 0 | e # _ \<Rightarrow> e)"

definition pop :: "os \<Rightarrow> os" where
  "pop s = s\<lparr>faults := tl (faults s)\<rparr>"

definition os_wf :: "os \<Rightarrow> bool" where
  "os_wf s \<longleftrightarrow> 0 \<le> next_fd s \<and> (\<forall>fd \<in> open_fds s. 0 \<le> fd \<and> fd < next_fd s)"

text \<open>A call with no effect on the table: \<^verbatim>\<open>fcntl\<close>, \<^verbatim>\<open>epoll_ctl\<close>, \<^verbatim>\<open>pthread_create\<close> and the like.\<close>

definition os_call :: "os \<Rightarrow> int \<times> os" where
  "os_call s = (- int (fault s), pop s)"

text \<open>A call that opens one descriptor: \<^verbatim>\<open>epoll_create1\<close>, \<^verbatim>\<open>timerfd_create\<close>, \<^verbatim>\<open>signalfd\<close>.\<close>

definition os_open :: "os \<Rightarrow> int \<times> os" where
  "os_open s =
    (if fault s = 0
     then (next_fd s, (pop s)\<lparr>open_fds := insert (next_fd s) (open_fds s), next_fd := next_fd s + 1\<rparr>)
     else (- int (fault s), pop s))"

text \<open>A call that opens a pair: \<^verbatim>\<open>pipe\<close>, \<^verbatim>\<open>socketpair\<close>. The last two components are the pair.\<close>

definition os_pair :: "os \<Rightarrow> int \<times> os \<times> int \<times> int" where
  "os_pair s =
    (if fault s = 0
     then (0, (pop s)\<lparr>open_fds := insert (next_fd s) (insert (next_fd s + 1) (open_fds s)),
                       next_fd := next_fd s + 2\<rparr>, next_fd s, next_fd s + 1)
     else (- int (fault s), pop s, -1, -1))"

definition os_close :: "int \<Rightarrow> os \<Rightarrow> int \<times> os" where
  "os_close fd s =
    (if fd \<in> open_fds s then (- int (fault s), (pop s)\<lparr>open_fds := open_fds s - {fd}\<rparr>)
     else (- EBADF, pop s))"

text \<open>The callers only log the result of \<^verbatim>\<open>close\<close>.\<close>

definition close_fd :: "int \<Rightarrow> os \<Rightarrow> os" where
  "close_fd fd s = snd (os_close fd s)"

text \<open>\<^verbatim>\<open>new\<close>, \<^verbatim>\<open>malloc\<close>, \<^verbatim>\<open>strdup\<close>: whether the allocation succeeds. \<^verbatim>\<open>delete\<close>, \<^verbatim>\<open>free\<close> of a live object.\<close>

definition os_new :: "os \<Rightarrow> bool \<times> os" where
  "os_new s = (if fault s = 0 then (True, (pop s)\<lparr>live := live s + 1\<rparr>) else (False, pop s))"

definition os_delete :: "os \<Rightarrow> os" where
  "os_delete s = s\<lparr>live := live s - 1\<rparr>"

section \<open>Bookkeeping\<close>

text \<open>What is in use: the open descriptors and the number of live objects.\<close>

definition resources :: "os \<Rightarrow> int set \<times> int" where
  "resources s = (open_fds s, live s)"

lemmas os_defs = os_call_def os_open_def os_pair_def os_close_def close_fd_def os_new_def
  os_delete_def pop_def resources_def

lemma fault_update [simp]:
  "fault (s\<lparr>open_fds := a\<rparr>) = fault s"
  "fault (s\<lparr>next_fd := b\<rparr>) = fault s"
  "fault (s\<lparr>live := c\<rparr>) = fault s"
  by (simp_all add: fault_def)

lemma fault_Nil [simp]: "faults s = [] \<Longrightarrow> fault s = 0"
  by (simp add: fault_def)

lemma fault_literal [simp]: "fault (s\<lparr>faults := e # es\<rparr>) = e"
  by (simp add: fault_def)

lemma os_wf_pop [simp]: "os_wf (pop s) = os_wf s"
  by (simp add: os_wf_def pop_def)

lemma open_close_fd [simp]: "open_fds (close_fd fd s) = open_fds s - {fd}"
  by (auto simp: os_defs)

lemma live_close_fd [simp]: "live (close_fd fd s) = live s"
  by (simp add: os_defs)

lemma next_close_fd [simp]: "next_fd (close_fd fd s) = next_fd s"
  by (simp add: os_defs)

lemma os_wf_close_fd [simp]: "os_wf s \<Longrightarrow> os_wf (close_fd fd s)"
  by (auto simp: os_wf_def)

lemma os_wf_delete [simp]: "os_wf (os_delete s) = os_wf s"
  by (simp add: os_wf_def os_delete_def)

lemma os_delete_simps [simp]:
  "open_fds (os_delete s) = open_fds s" "next_fd (os_delete s) = next_fd s"
  "live (os_delete s) = live s - 1" "faults (os_delete s) = faults s"
  by (simp_all add: os_delete_def)

lemma pop_simps [simp]:
  "open_fds (pop s) = open_fds s" "next_fd (pop s) = next_fd s" "live (pop s) = live s"
  by (simp_all add: pop_def)

lemma os_wf_fresh [simp]:
  "os_wf s \<Longrightarrow> next_fd s \<notin> open_fds s"
  "os_wf s \<Longrightarrow> next_fd s + 1 \<notin> open_fds s"
  "os_wf s \<Longrightarrow> 0 \<le> next_fd s"
  by (auto simp: os_wf_def)

text \<open>
  One elimination rule per call: the two ways it can end, with everything the proofs need about
  the new state. The code's straight-line functions are then walked through call by call.
\<close>

lemma os_open_cases:
  assumes wf: "os_wf s"
  obtains (opened) s' where "os_open s = (next_fd s, s')" "os_wf s'" "live s' = live s"
      "open_fds s' = insert (next_fd s) (open_fds s)" "next_fd s' = next_fd s + 1"
    | (failed) e s' where "os_open s = (e, s')" "e < 0" "os_wf s'" "live s' = live s"
      "open_fds s' = open_fds s"
proof (cases "fault s = 0")
  case True
  show ?thesis
    by (rule opened [of "snd (os_open s)"]) (use True wf in \<open>auto simp: os_open_def os_wf_def\<close>)
next
  case False
  show ?thesis
    by (rule failed [of "fst (os_open s)" "snd (os_open s)"])
      (use False wf in \<open>simp_all add: os_open_def\<close>)
qed

lemma os_pair_cases:
  assumes wf: "os_wf s"
  obtains (opened) s' where "os_pair s = (0, s', next_fd s, next_fd s + 1)" "os_wf s'"
      "live s' = live s" "open_fds s' = insert (next_fd s) (insert (next_fd s + 1) (open_fds s))"
      "next_fd s' = next_fd s + 2"
    | (failed) e s' where "os_pair s = (e, s', -1, -1)" "e < 0" "os_wf s'" "live s' = live s"
      "open_fds s' = open_fds s"
proof (cases "fault s = 0")
  case True
  show ?thesis
    by (rule opened [of "fst (snd (os_pair s))"])
      (use True wf in \<open>auto simp: os_pair_def os_wf_def\<close>)
next
  case False
  show ?thesis
    by (rule failed [of "fst (os_pair s)" "fst (snd (os_pair s))"])
      (use False wf in \<open>simp_all add: os_pair_def\<close>)
qed

lemma os_call_cases:
  assumes "os_wf s"
  obtains e s' where "os_call s = (e, s')" "e \<le> 0" "os_wf s'" "live s' = live s"
      "open_fds s' = open_fds s" "next_fd s' = next_fd s"
  using assms by (simp add: os_call_def)

lemma os_new_cases:
  assumes wf: "os_wf s"
  obtains (allocated) s' where "os_new s = (True, s')" "os_wf s'" "live s' = live s + 1"
      "open_fds s' = open_fds s" "next_fd s' = next_fd s"
    | (failed) s' where "os_new s = (False, s')" "os_wf s'" "live s' = live s"
      "open_fds s' = open_fds s" "next_fd s' = next_fd s"
proof (cases "fault s = 0")
  case True
  show ?thesis
    by (rule allocated [of "snd (os_new s)"]) (use True wf in \<open>simp_all add: os_new_def os_wf_def\<close>)
next
  case False
  show ?thesis
    by (rule failed [of "snd (os_new s)"]) (use False wf in \<open>simp_all add: os_new_def\<close>)
qed

section \<open>Messages\<close>

text \<open>\<open>Send\<close> of a command object (\<open>Command_Object\<close> models it in detail): the command is allocated and its address written.\<close>

definition send_message :: "os \<Rightarrow> int \<times> os" where
  "send_message s =
    (let (allocated, s1) = os_new s in
     if \<not> allocated then (- ENOMEM, s1)
     else let (ret, s2) = os_call s1 in if ret < 0 then (ret, os_delete s2) else (0, s2))"

lemma send_messageD:
  "send_message s = (ret, s') \<Longrightarrow> open_fds s' = open_fds s \<and> ret \<le> 0 \<and> live s' = live s + (if ret < 0 then 0 else 1)"
  by (auto simp: send_message_def os_new_def os_call_def errno_defs split: if_splits)

lemma send_message_calm: "faults s = [] \<Longrightarrow> send_message s = (0, s\<lparr>live := live s + 1\<rparr>)"
  by (simp add: send_message_def os_new_def os_call_def pop_def)

end
