(* ===== verification/Event_Pipe.thy ===== *)
theory Event_Pipe
  imports Posix Event_Object
begin

text \<open>
  \<^verbatim>\<open>libbeyond/src/inference_impl_event_object.cc\<close>: the event object of an inference. A publisher writes the
  addresses of event data into a pipe; the event loop's owner fetches them one by one and the handlers
  run on each. The object that is published is owned by the pipe until it is fetched, so the pipe is
  modelled as the queue of the event data themselves (\<open>None\<close> for a published null pointer); addresses
  are transferred whole, being shorter than PIPE_BUF.

  The file's second half is the life cycle of the pipe: \<open>Create\<close> and \<open>Destroy\<close> over the descriptor table.
\<close>

section \<open>Life cycle\<close>

record event_pipe =
  ep_handle :: int \<comment> \<open>pfd[0], the handle of the event object\<close>
  ep_publish :: int \<comment> \<open>publishHandle, pfd[1]\<close>

definition EventPipe_Create :: "os \<Rightarrow> event_pipe option \<times> os" where
  "EventPipe_Create s =
    (let (ret, s1, rd, wr) = os_pair s in
     if ret < 0 then (None, s1)
     else let (ret, s2) = os_call s1 in
     if ret < 0 then (None, close_fd wr (close_fd rd s2))
     else let (ret, s3) = os_call s2 in
     if ret < 0 then (None, close_fd wr (close_fd rd s3))
     else let (allocated, s4) = os_new s3 in
     if \<not> allocated then (None, close_fd wr (close_fd rd s4))
     else (Some \<lparr>ep_handle = rd, ep_publish = wr\<rparr>, s4))"

definition EventPipe_Destroy :: "event_pipe \<Rightarrow> os \<Rightarrow> os" where
  "EventPipe_Destroy p s = os_delete (close_fd (ep_publish p) (close_fd (ep_handle p) s))"

lemma EventPipe_Create_cases:
  assumes wf: "os_wf s"
  obtains (created) s' p where "EventPipe_Create s = (Some p, s')" "os_wf s'" "live s' = live s + 1"
      "p = \<lparr>ep_handle = next_fd s, ep_publish = next_fd s + 1\<rparr>" "next_fd s' = next_fd s + 2"
      "open_fds s' = insert (next_fd s) (insert (next_fd s + 1) (open_fds s))"
    | (failed) s' where "EventPipe_Create s = (None, s')" "os_wf s'" "live s' = live s"
      "open_fds s' = open_fds s"
proof (rule os_pair_cases [OF wf])
  fix e s1
  assume "os_pair s = (e, s1, -1, -1)" "e < 0" "os_wf s1" "live s1 = live s" "open_fds s1 = open_fds s"
  then show ?thesis by (intro failed [of s1]) (simp_all add: EventPipe_Create_def)
next
  fix s1
  let ?r = "next_fd s" and ?w = "next_fd s + 1"
  assume 1: "os_pair s = (0, s1, ?r, ?w)" "os_wf s1" "live s1 = live s"
    "open_fds s1 = insert ?r (insert ?w (open_fds s))" "next_fd s1 = next_fd s + 2"
  have restored: "open_fds (close_fd ?w (close_fd ?r t)) = open_fds s" if "open_fds t = open_fds s1" for t
    using that 1(4) os_wf_fresh [OF wf] by auto
  obtain e2 s2 where 2: "os_call s1 = (e2, s2)" "os_wf s2" "live s2 = live s1"
    "open_fds s2 = open_fds s1" "next_fd s2 = next_fd s1"
    by (rule os_call_cases [OF 1(2)])
  obtain e3 s3 where 3: "os_call s2 = (e3, s3)" "os_wf s3" "live s3 = live s2"
    "open_fds s3 = open_fds s2" "next_fd s3 = next_fd s2"
    by (rule os_call_cases [OF 2(2)])
  show ?thesis
  proof (cases "e2 < 0 \<or> e3 < 0")
    case True
    then show ?thesis
      using 1 2 3 restored [of s2] restored [of s3]
      by (intro failed [of "close_fd ?w (close_fd ?r (if e2 < 0 then s2 else s3))"])
        (cases "e2 < 0", simp_all add: EventPipe_Create_def)
  next
    case False
    show ?thesis
    proof (rule os_new_cases [OF 3(2)])
      fix s4 assume 4: "os_new s3 = (True, s4)" "os_wf s4" "live s4 = live s3 + 1"
        "open_fds s4 = open_fds s3" "next_fd s4 = next_fd s3"
      show ?thesis
        by (rule created [of "\<lparr>ep_handle = ?r, ep_publish = ?w\<rparr>" s4])
          (use 1 2 3 4 False in \<open>simp_all add: EventPipe_Create_def\<close>)
    next
      fix s4 assume 4: "os_new s3 = (False, s4)" "os_wf s4" "live s4 = live s3"
        "open_fds s4 = open_fds s3" "next_fd s4 = next_fd s3"
      show ?thesis
        by (rule failed [of "close_fd ?w (close_fd ?r s4)"])
          (use 1 2 3 4 False restored [of s4] in \<open>simp_all add: EventPipe_Create_def\<close>)
    qed
  qed
qed

lemma EventPipe_Destroy_simps [simp]:
  "open_fds (EventPipe_Destroy p s) = open_fds s - {ep_handle p, ep_publish p}"
  "live (EventPipe_Destroy p s) = live s - 1"
  "os_wf s \<Longrightarrow> os_wf (EventPipe_Destroy p s)"
  by (auto simp: EventPipe_Destroy_def)

text \<open>
  Whatever calls fail, a failing \<open>Create\<close> of the event pipe leaves the descriptor table and the heap as it
  found them, and a successful one is undone by \<open>Destroy\<close>: nothing leaks and nothing that was open before is closed.
\<close>

theorem event_pipe_conserves_resources:
  assumes "os_wf s"
  shows "case EventPipe_Create s of
      (None, s') \<Rightarrow> resources s' = resources s
    | (Some p, s') \<Rightarrow> resources (EventPipe_Destroy p s') = resources s \<and> ep_handle p \<noteq> ep_publish p"
  by (rule EventPipe_Create_cases [OF assms])
    (use os_wf_fresh [OF assms] in \<open>auto simp: resources_def\<close>)

lemma event_pipe_conserves_resources_witness:
  "resources (snd (EventPipe_Create \<lparr>open_fds = {0, 1, 2}, next_fd = 3, live = 9, faults = [0, 0, 13]\<rparr>))
    = ({0, 1, 2}, 9)"
  using event_pipe_conserves_resources [of "\<lparr>open_fds = {0, 1, 2}, next_fd = 3, live = 9, faults = [0, 0, 13]\<rparr>"]
  by (simp add: os_wf_def) (simp add: EventPipe_Create_def os_pair_def os_call_def fault_def pop_def resources_def)

section \<open>Publishing and fetching\<close>

record published =
  pq_events :: "event_data option list"
  pq_errors :: "nat list" \<comment> \<open>script: 0 when the next read or write succeeds, its errno otherwise\<close>
  pq_new :: "bool list" \<comment> \<open>script of the allocations\<close>

definition pq_fault :: "published \<Rightarrow> nat" where
  "pq_fault q = (case pq_errors q of [] \<Rightarrow> 0 | e # _ \<Rightarrow> e)"

definition pq_step :: "published \<Rightarrow> published" where
  "pq_step q = q\<lparr>pq_errors := tl (pq_errors q)\<rparr>"

definition PublishEventData :: "event_data option \<Rightarrow> published \<Rightarrow> int \<times> published" where
  "PublishEventData evtData q =
    (if pq_fault q \<noteq> 0 then (- int (pq_fault q), pq_step q)
     else (0, (pq_step q)\<lparr>pq_events := pq_events q @ [evtData]\<rparr>))"

text \<open>
  The fetcher. \<^verbatim>\<open>read\<close> of an empty pipe would wait; \<open>select\<close> reports it ready first, so the fetcher is only
  called with an event in the pipe. \<open>'u\<close> is the state of the handlers.
\<close>

definition pipe_fetcher :: "(published \<times> 'u) event_fetcher" where
  "pipe_fetcher type data s =
    (case s of (q, u) \<Rightarrow>
      if data \<noteq> None then (RETURN_CANCEL, data, s)
      else
        let failed = pq_fault q \<noteq> 0;
            q1 = (if failed then pq_step q else (pq_step q)\<lparr>pq_events := tl (pq_events q)\<rparr>) in
        (case (if failed then None else hd (pq_events q)) of
          None \<Rightarrow>
            if pq_new q1 \<noteq> [] \<and> \<not> hd (pq_new q1)
            then (RETURN_CANCEL, None, q1\<lparr>pq_new := tl (pq_new q1)\<rparr>, u)
            else (RETURN_RENEW, Some \<lparr>ed_type = EVT_ERROR, ed_data = nullptr\<rparr>, q1\<lparr>pq_new := tl (pq_new q1)\<rparr>, u)
        | Some ed \<Rightarrow> (RETURN_RENEW, Some (ed\<lparr>ed_type := ed_type ed OR type\<rparr>), q1, u)))"

definition pipe_ready :: "published \<Rightarrow> select_result" where
  "pipe_ready q = (if pq_events q = [] then SelectTimeout else SelectReady True False False)"

definition Pipe_FetchEventData ::
    "bool \<Rightarrow> (published \<times> 'u) event_handler \<Rightarrow> event_data option \<Rightarrow> event_object \<Rightarrow> published \<times> 'u \<Rightarrow>
     (int \<times> event_data option \<times> event_object \<times> published \<times> 'u) outcome" where
  "Pipe_FetchEventData ndebug cb evtData eo s =
    (if evtData \<noteq> None \<and> \<not> ndebug \<and> (0 \<le> eo_handle eo \<longrightarrow> is_SelectReady (pipe_ready (fst s))) then Aborted
     else FetchEventData (Some pipe_fetcher) cb (pipe_ready (fst s)) evtData eo s)"

lemma fetch_one:
  assumes "registry_ok eo" and "idle eo" and "0 \<le> eo_handle eo" and "pq_events q = [Some ed]" and "pq_new q = []"
    and "self_contained cb (ed\<lparr>ed_type := ed_type ed OR EVT_READ\<rparr>) eo"
    and "self_contained cb \<lparr>ed_type = EVT_ERROR, ed_data = nullptr\<rparr> eo"
  shows "Pipe_FetchEventData ndebug cb None eo (q, u) =
    (if pq_fault q = 0
     then let ed' = ed\<lparr>ed_type := ed_type ed OR EVT_READ\<rparr>;
              (hs, s') = notify cb ed' (eo_handlers eo) ((pq_step q)\<lparr>pq_events := []\<rparr>, u) in
          Ret (0, Some ed', eo\<lparr>eo_handlers := hs\<rparr>, s')
     else let ed' = \<lparr>ed_type = EVT_ERROR, ed_data = nullptr\<rparr>;
              (hs, s') = notify cb ed' (eo_handlers eo) (pq_step q, u) in
          Ret (0, Some ed', eo\<lparr>eo_handlers := hs\<rparr>, s'))"
proof -
  have same: "(pq_step q)\<lparr>pq_new := []\<rparr> = pq_step q" using assms(5) by (simp add: pq_step_def)
  have "pq_new (pq_step q) = []" using assms(5) by (simp add: pq_step_def)
  moreover have "idle eo \<longleftrightarrow> (\<forall>info \<in> set (eo_handlers eo). \<not> hd_in_use info \<and> \<not> hd_is_deleted info)"
    by (simp add: idle_def list_all_iff)
  ultimately show ?thesis
    using dispatch_notify [of eo "[]" "eo_handlers eo" cb, OF assms(1) _ assms(6)]
      dispatch_notify [of eo "[]" "eo_handlers eo" cb, OF assms(1) _ assms(7)] assms(2,3,4)
    by (auto simp: same Pipe_FetchEventData_def FetchEventData_def pipe_ready_def pipe_fetcher_def
        select_type_def Let_def case_prod_beta)
qed

text \<open>
  Publish and fetch. What a successful publication puts into an empty pipe is what the next fetch
  returns, with the READ bit added to its type; every handler registered for one of its bits runs on it in
  order of registration, and the pipe is empty again. A read error is delivered to the handlers as an ERROR event
  of its own and leaves the published event in the pipe.
\<close>

theorem publish_then_fetch:
  assumes "registry_ok eo" and "idle eo" and "0 \<le> eo_handle eo"
    and "pq_events q = []" and "PublishEventData (Some ed) q = (0, q')"
    and "self_contained cb (ed\<lparr>ed_type := ed_type ed OR EVT_READ\<rparr>) eo"
    and "self_contained cb \<lparr>ed_type = EVT_ERROR, ed_data = nullptr\<rparr> eo"
    and "pq_new q' = []"
  shows "Pipe_FetchEventData ndebug cb None eo (q', u) =
    (if pq_fault q' = 0
     then let ed' = ed\<lparr>ed_type := ed_type ed OR EVT_READ\<rparr>;
              (hs, s') = notify cb ed' (eo_handlers eo) ((pq_step q')\<lparr>pq_events := []\<rparr>, u) in
          Ret (0, Some ed', eo\<lparr>eo_handlers := hs\<rparr>, s')
     else let ed' = \<lparr>ed_type = EVT_ERROR, ed_data = nullptr\<rparr>;
              (hs, s') = notify cb ed' (eo_handlers eo) (pq_step q', u) in
          Ret (0, Some ed', eo\<lparr>eo_handlers := hs\<rparr>, s'))"
proof -
  have "pq_events q' = [Some ed]" using assms(4,5) by (auto simp: PublishEventData_def split: if_splits)
  from fetch_one [OF assms(1-3) this assms(8,6,7)] show ?thesis .
qed

definition ex_log :: "(published \<times> (nat \<times> evtype \<times> event_data) list) event_handler" where
  "ex_log h t ed d s = (RETURN_RENEW, [], fst s, snd s @ [(h, t, ed)])"

lemma publish_then_fetch_witness:
  "Pipe_FetchEventData False ex_log None ex_object
      (snd (PublishEventData (Some \<lparr>ed_type = event_code INFERENCE_SUCCESS, ed_data = 5\<rparr>)
        \<lparr>pq_events = [], pq_errors = [], pq_new = []\<rparr>), []) =
    Ret (0, Some \<lparr>ed_type = 0x01000210, ed_data = 5\<rparr>, ex_object,
      \<lparr>pq_events = [], pq_errors = [], pq_new = []\<rparr>,
      map (\<lambda>h. (h, EVT_READ, \<lparr>ed_type = 0x01000210, ed_data = 5\<rparr>)) [1, 2, 3])"
proof -
  let ?ed = "\<lparr>ed_type = event_code INFERENCE_SUCCESS, ed_data = 5\<rparr>"
  let ?q = "\<lparr>pq_events = [], pq_errors = [], pq_new = []\<rparr>"
  have sc: "self_contained ex_log ed ex_object" for ed
    by (simp add: self_contained_def ex_log_def)
  have pub: "PublishEventData (Some ?ed) ?q = (0, ?q\<lparr>pq_events := [Some ?ed]\<rparr>)"
    by (simp add: PublishEventData_def pq_fault_def pq_step_def)
  have "0 \<le> eo_handle ex_object" "pq_events ?q = []" "pq_new (?q\<lparr>pq_events := [Some ?ed]\<rparr>) = []"
    by (simp_all add: ex_object_def)
  from publish_then_fetch [OF ex_object_ok this(1,2) pub sc sc this(3), of False "[]"]
  show ?thesis
    by (simp add: PublishEventData_def pq_fault_def pq_step_def ex_object_def ex_entry_def ex_log_def Let_def)
qed

end
