(* ===== verification/Timer_Object.thy ===== *)
theory Timer_Object
  imports Posix Event_Object Complex_Main
begin

text \<open>
  \<^verbatim>\<open>libbeyond/src/timer_impl.cc\<close> (Linux): a timer as an event object over a timerfd. An interval is given
  in seconds as a \<open>double\<close>; the model takes the exact rational and does not model the rounding of the
  product with 10^9. The state of the kernel's timer is the specification it was armed with last.
\<close>

section \<open>Life cycle\<close>

record itimerspec =
  int_sec :: int
  int_nsec :: int
  val_sec :: int
  val_nsec :: int

record timer =
  tm_object :: event_object
  registeredTime :: rat
  tm_armed :: "itimerspec option"

definition Timer_Create :: "os \<Rightarrow> timer option \<times> os" where
  "Timer_Create s =
    (let (ret, s1) = os_open s in
     if ret < 0 then (None, s1)
     else let (allocated, s2) = os_new s1 in
     if \<not> allocated then (None, close_fd ret s2)
     else (Some \<lparr>tm_object = EventObject_new ret, registeredTime = 0, tm_armed = None\<rparr>, s2))"

definition Timer_GetHandle :: "timer \<Rightarrow> int" where
  "Timer_GetHandle t = GetHandle (tm_object t)"

definition Timer_Destroy :: "timer \<Rightarrow> os \<Rightarrow> os" where
  "Timer_Destroy t s = os_delete (close_fd (Timer_GetHandle t) s)"

definition Timer_AddHandler :: "bool \<Rightarrow> nat \<Rightarrow> evtype \<Rightarrow> ptr \<Rightarrow> timer \<Rightarrow> int \<times> timer" where
  "Timer_AddHandler mem h type d t =
    (let (ret, eo) = AddHandler mem h type d (tm_object t) in (ret, t\<lparr>tm_object := eo\<rparr>))"

definition Timer_RemoveHandler :: "nat \<Rightarrow> evtype \<Rightarrow> ptr \<Rightarrow> timer \<Rightarrow> int \<times> timer" where
  "Timer_RemoveHandler h type d t =
    (let (ret, eo) = RemoveHandler h type d (tm_object t) in (ret, t\<lparr>tm_object := eo\<rparr>))"

text \<open>
  Whatever calls fail, a failing \<open>Timer::impl::Create\<close> leaves descriptors and heap as they were, and
  \<open>Destroy\<close> undoes a successful one.
\<close>

theorem timer_conserves_resources:
  assumes "os_wf s"
  shows "case Timer_Create s of
      (None, s') \<Rightarrow> resources s' = resources s
    | (Some t, s') \<Rightarrow> resources (Timer_Destroy t s') = resources s \<and> 0 \<le> Timer_GetHandle t"
proof (rule os_open_cases [OF assms])
  fix e s1 assume "os_open s = (e, s1)" "e < 0" "os_wf s1" "live s1 = live s" "open_fds s1 = open_fds s"
  then show ?thesis by (simp add: Timer_Create_def resources_def)
next
  fix s1 assume 1: "os_open s = (next_fd s, s1)" "os_wf s1" "live s1 = live s"
    "open_fds s1 = insert (next_fd s) (open_fds s)" "next_fd s1 = next_fd s + 1"
  show ?thesis
    by (rule os_new_cases [OF 1(2)])
      (use 1 os_wf_fresh [OF assms] in \<open>simp_all add: Timer_Create_def Timer_Destroy_def Timer_GetHandle_def
        GetHandle_def EventObject_new_def resources_def\<close>)
qed

lemma timer_conserves_resources_witness:
  "resources (snd (Timer_Create \<lparr>open_fds = {0, 1}, next_fd = 2, live = 0, faults = [0, 12]\<rparr>)) = ({0, 1}, 0)"
  using timer_conserves_resources [of "\<lparr>open_fds = {0, 1}, next_fd = 2, live = 0, faults = [0, 12]\<rparr>"]
  by (simp add: os_wf_def) (simp add: Timer_Create_def os_open_def os_new_def fault_def pop_def resources_def)

section \<open>Arming\<close>

text \<open>The conversion of a \<open>double\<close> to an integer type truncates towards zero.\<close>

definition trunc :: "rat \<Rightarrow> int" where
  "trunc x = (if x < 0 then \<lceil>x\<rceil> else \<lfloor>x\<rfloor>)"

text \<open>
  \<^verbatim>\<open>timerfd_settime\<close>: documented to fail with EINVAL when a \<open>tv_nsec\<close> is outside 0..999999999 (or a
  \<open>tv_sec\<close> is negative); \<open>e\<close> is any other error.
\<close>

definition itimerspec_valid :: "itimerspec \<Rightarrow> bool" where
  "itimerspec_valid sp \<longleftrightarrow> 0 \<le> int_sec sp \<and> 0 \<le> val_sec sp
    \<and> 0 \<le> int_nsec sp \<and> int_nsec sp < 1000000000 \<and> 0 \<le> val_nsec sp \<and> val_nsec sp < 1000000000"

definition timerfd_settime :: "nat \<Rightarrow> itimerspec \<Rightarrow> int" where
  "timerfd_settime e sp = (if \<not> itimerspec_valid sp then - EINVAL else - int e)"

text \<open>\<open>now\<close> is what \<^verbatim>\<open>clock_gettime\<close> gives: an errno, or seconds and nanoseconds.\<close>

definition SetTimer :: "nat + int \<times> int \<Rightarrow> nat \<Rightarrow> rat \<Rightarrow> timer \<Rightarrow> int \<times> timer" where
  "SetTimer now e time t =
    (let sec = trunc time; nsec = trunc ((time - of_int sec) * 1000000000) in
     case now of
       Inl err \<Rightarrow> (- int err, t)
     | Inr (now_sec, now_nsec) \<Rightarrow>
         let spec = \<lparr>int_sec = sec, int_nsec = nsec, val_sec = now_sec + sec, val_nsec = now_nsec + nsec\<rparr>;
             ret = timerfd_settime e spec in
         if ret < 0 then (ret, t) else (0, t\<lparr>registeredTime := time, tm_armed := Some spec\<rparr>))"

definition GetTimer :: "timer \<Rightarrow> rat" where
  "GetTimer t = registeredTime t"

lemma trunc_nonneg: "0 \<le> x \<Longrightarrow> trunc x = \<lfloor>x\<rfloor>"
  by (simp add: trunc_def)

lemma nsec_range:
  assumes "0 \<le> (x::rat)"
  shows "0 \<le> trunc ((x - of_int \<lfloor>x\<rfloor>) * 1000000000)" "trunc ((x - of_int \<lfloor>x\<rfloor>) * 1000000000) < 1000000000"
proof -
  have f: "0 \<le> (x - of_int \<lfloor>x\<rfloor>) * 1000000000" "(x - of_int \<lfloor>x\<rfloor>) * 1000000000 < 1000000000"
    by (simp_all, linarith)
  then show "0 \<le> trunc ((x - of_int \<lfloor>x\<rfloor>) * 1000000000)" by (simp add: trunc_nonneg)
  from f show "trunc ((x - of_int \<lfloor>x\<rfloor>) * 1000000000) < 1000000000"
    by (simp add: trunc_nonneg floor_less_iff)
qed

lemma nsec_total:
  assumes "0 \<le> (x::rat)"
  shows "\<lfloor>x\<rfloor> * 1000000000 + trunc ((x - of_int \<lfloor>x\<rfloor>) * 1000000000) = \<lfloor>x * 1000000000\<rfloor>"
proof -
  have "0 \<le> (x - of_int \<lfloor>x\<rfloor>) * 1000000000" by simp
  then have "trunc ((x - of_int \<lfloor>x\<rfloor>) * 1000000000) = \<lfloor>x * 1000000000 - of_int (\<lfloor>x\<rfloor> * 1000000000)\<rfloor>"
    by (simp add: trunc_nonneg algebra_simps)
  also have "\<dots> = \<lfloor>x * 1000000000\<rfloor> - \<lfloor>x\<rfloor> * 1000000000" by (rule floor_diff_of_int)
  finally show ?thesis by simp
qed

text \<open>
  Arming with a non-negative interval, when the kernel accepts every valid specification. Exactly when
  the clock's nanoseconds and the interval's fraction add up to a second or more, \<open>SetTimer\<close> fails with
  -EINVAL and the timer stays as it was: the carry is not propagated. Otherwise it returns 0, the first
  expiration is the current time plus the interval to the nanosecond, and the period is the interval.
\<close>

theorem SetTimer_carry:
  assumes "0 \<le> time" and "0 \<le> now_sec" and "0 \<le> now_nsec" and "now_nsec < 1000000000"
  shows "if 1000000000 \<le> now_nsec + (\<lfloor>time * 1000000000\<rfloor> - \<lfloor>time\<rfloor> * 1000000000)
    then SetTimer (Inr (now_sec, now_nsec)) 0 time t = (- EINVAL, t)
    else \<exists>t' sp. SetTimer (Inr (now_sec, now_nsec)) 0 time t = (0, t')
        \<and> tm_armed t' = Some sp \<and> GetTimer t' = time
        \<and> val_sec sp * 1000000000 + val_nsec sp = now_sec * 1000000000 + now_nsec + \<lfloor>time * 1000000000\<rfloor>
        \<and> int_sec sp * 1000000000 + int_nsec sp = \<lfloor>time * 1000000000\<rfloor>"
proof -
  define ns where "ns = trunc ((time - of_int \<lfloor>time\<rfloor>) * 1000000000)"
  have ns: "0 \<le> ns" "ns < 1000000000" "\<lfloor>time * 1000000000\<rfloor> = \<lfloor>time\<rfloor> * 1000000000 + ns"
    using nsec_range [OF assms(1)] nsec_total [OF assms(1)] by (simp_all add: ns_def)
  have sec: "trunc time = \<lfloor>time\<rfloor>" "0 \<le> \<lfloor>time\<rfloor>" using assms(1) by (simp_all add: trunc_nonneg)
  let ?sp = "\<lparr>int_sec = \<lfloor>time\<rfloor>, int_nsec = ns, val_sec = now_sec + \<lfloor>time\<rfloor>, val_nsec = now_nsec + ns\<rparr>"
  have "SetTimer (Inr (now_sec, now_nsec)) 0 time t =
      (if 1000000000 \<le> now_nsec + ns then (- EINVAL, t) else (0, t\<lparr>registeredTime := time, tm_armed := Some ?sp\<rparr>))"
    using assms ns sec
    by (auto simp: SetTimer_def Let_def timerfd_settime_def itimerspec_valid_def errno_defs ns_def)
  then show ?thesis using ns by (auto simp: GetTimer_def algebra_simps)
qed

definition ex_timer :: timer where
  "ex_timer = \<lparr>tm_object = EventObject_new 7, registeredTime = 0, tm_armed = None\<rparr>"

lemma SetTimer_carry_witness:
  "SetTimer (Inr (100, 600000000)) 0 (1/2) ex_timer = (- EINVAL, ex_timer)
    \<and> fst (SetTimer (Inr (100, 400000000)) 0 (1/2) ex_timer) = 0"
proof -
  have "\<lfloor>1/2 :: rat\<rfloor> = 0" "\<lfloor>1/2 * 1000000000 :: rat\<rfloor> = 500000000"
    by (simp_all add: floor_eq_iff)
  with SetTimer_carry [of "1/2" 100 600000000 ex_timer] SetTimer_carry [of "1/2" 100 400000000 ex_timer]
  show ?thesis by (auto split: if_splits)
qed

section \<open>Fetching\<close>

text \<open>
  \<open>rd\<close> is what \<^verbatim>\<open>read\<close> of the timerfd gives: an errno (EAGAIN when nothing expired) or the number of
  expirations. \<open>new Timer::EventData()\<close> zeroes the event data.
\<close>

definition Timer_FetchEventData ::
    "bool \<Rightarrow> 's event_handler \<Rightarrow> select_result \<Rightarrow> int + 64 word \<Rightarrow> timer \<Rightarrow> 's \<Rightarrow>
     (int \<times> (event_data \<times> 64 word) option \<times> timer \<times> 's) outcome" where
  "Timer_FetchEventData mem cb sel rd t s =
    (if \<not> mem then Ret (- ENOMEM, None, t, s)
     else obind (FetchEventData_default cb sel (Some \<lparr>ed_type = 0, ed_data = nullptr\<rparr>) (tm_object t) s)
       (\<lambda>(ret, data, eo, s').
         let t' = t\<lparr>tm_object := eo\<rparr> in
         if ret < 0 then Ret (ret, None, t', s')
         else case rd of
           Inl e \<Rightarrow>
             if e \<noteq> EAGAIN then Ret (- e, None, t', s')
             else Ret (0, map_option (\<lambda>ed. (ed, 0)) data, t', s')
         | Inr n \<Rightarrow> Ret (0, map_option (\<lambda>ed. (ed, n)) data, t', s')))"

definition Timer_DestroyEventData :: "event_data option \<Rightarrow> int \<times> event_data option" where
  "Timer_DestroyEventData data = (0, None)"

lemma dispatch_no_type: "dispatch cb \<lparr>ed_type = 0, ed_data = d\<rparr> i eo s = Ret (eo, s)"
proof (induction "length (eo_handlers eo) - i" arbitrary: i)
  case 0
  then show ?case by (simp add: dispatch.simps [of cb _ i])
next
  case (Suc n)
  then have "dispatch cb \<lparr>ed_type = 0, ed_data = d\<rparr> (Suc i) eo s = Ret (eo, s)" by simp
  then show ?case by (simp add: dispatch.simps [of cb _ i])
qed

text \<open>
  A timer never runs a handler. The event data that \<open>Timer::impl::FetchEventData\<close> hands to the default fetcher
  keep the type 0, so no registered type meets it: whatever handlers are registered, a fetch of an expired
  timer returns 0 with the number of expirations and neither calls a handler nor changes the registry.
\<close>

theorem timer_handlers_never_run:
  "Timer_FetchEventData True cb (SelectReady rd wr ex) (Inr n) t s =
    Ret (0, Some (\<lparr>ed_type = 0, ed_data = nullptr\<rparr>, n), t, s)"
  by (simp add: Timer_FetchEventData_def FetchEventData_default_def FetchEventData_def keep_data_def
      dispatch_no_type)

end
