(* ===== verification/Event_Loop.thy ===== *)
theory Event_Loop
  imports Posix
begin

text \<open>
  \<^verbatim>\<open>libbeyond/src/event_loop_impl.cc\<close> (Linux), seen from one thread at a time: the handler objects of the
  loop with epoll's interest list, the dispatch of one batch of epoll events, the life cycle of the loop and
  its thread function. The interleaving of the loop's thread with a remover in another thread is the
  subject of \<open>Event_Loop_Race\<close>.

  A handler object lives at an address of the loop's heap and epoll's interest list refers to it by that
  address, so an event for a deleted object is an access to freed memory (\<open>Undefined\<close>). Handlers are
  parameters; the calls they make on the loop are part of what they return and are carried out by the
  model. The answers of \<^verbatim>\<open>epoll_pwait\<close> are a script, with the calls other threads make while it waits.
\<close>

section \<open>State\<close>

datatype ho_state = INIT | DELETE | DELETED

record handler_object =
  ho_object :: ptr \<comment> \<open>eventObject\<close>
  ho_fd :: int \<comment> \<open>eventObject->GetHandle()\<close>
  ho_type :: evtype
  ho_data :: ptr
  ho_handler :: nat
  ho_cancel :: "nat option" \<comment> \<open>cancelHandler\<close>
  ho_state :: ho_state
  ho_in_use :: bool

text \<open>A set of epoll events: EPOLLIN or EPOLLPRI, EPOLLOUT, EPOLLERR.\<close>

record epoll_mask =
  em_in :: bool
  em_out :: bool
  em_err :: bool

datatype loop_state = STOPPED | START_REQUESTED | STARTED | STOP_REQUESTED

record stop_event =
  se_handler :: nat
  se_data :: ptr

record event_loop =
  el_handle :: int
  el_spHandlerObject :: ptr
  el_spfd :: "int \<times> int" \<comment> \<open>SP_CTRL, SP_NOTI\<close>
  el_heap :: "ptr \<Rightarrow> handler_object option"
  el_next :: ptr
  el_interest :: "int \<Rightarrow> (ptr \<times> epoll_mask) option"
  el_ctrl :: "ptr list" \<comment> \<open>addresses written to SP_CTRL and not yet read\<close>
  el_state :: loop_state
  el_enable_thread :: bool
  el_enable_signal :: bool
  el_spawned :: bool \<comment> \<open>pthread_create has succeeded\<close>
  el_stop :: "stop_event option"
  el_epollWaitSize :: int
  el_loopCount :: int
  el_timeout :: int
  el_destructed :: bool

definition set_item :: "ptr \<Rightarrow> handler_object \<Rightarrow> event_loop \<Rightarrow> event_loop" where
  "set_item p ho L = L\<lparr>el_heap := (el_heap L)(p \<mapsto> ho)\<rparr>"

definition EventLoop_new :: event_loop where
  "EventLoop_new = \<lparr>el_handle = -1, el_spHandlerObject = nullptr, el_spfd = (-1, -1), el_heap = Map.empty,
    el_next = 1, el_interest = Map.empty, el_ctrl = [], el_state = STOPPED, el_enable_thread = False,
    el_enable_signal = False, el_spawned = False, el_stop = None, el_epollWaitSize = -1, el_loopCount = -1,
    el_timeout = -1, el_destructed = False\<rparr>"

definition EventLoop_GetHandle :: "event_loop \<Rightarrow> int" where
  "EventLoop_GetHandle L = el_handle L"

section \<open>Handler objects\<close>

definition epoll_events :: "evtype \<Rightarrow> epoll_mask" where
  "epoll_events type = \<lparr>em_in = type AND EVT_READ \<noteq> 0, em_out = type AND EVT_WRITE \<noteq> 0,
    em_err = type AND EVT_ERROR \<noteq> 0\<rparr>"

definition no_events :: "epoll_mask \<Rightarrow> bool" where
  "no_events m \<longleftrightarrow> \<not> em_in m \<and> \<not> em_out m \<and> \<not> em_err m"

text \<open>EEXIST: the descriptor is in the interest list already. ENOENT: it is not.\<close>

definition epoll_ctl_add :: "int \<Rightarrow> ptr \<Rightarrow> epoll_mask \<Rightarrow> event_loop \<Rightarrow> os \<Rightarrow> int \<times> event_loop \<times> os" where
  "epoll_ctl_add fd p m L s =
    (let (ret, s') = os_call s in
     if ret < 0 then (ret, L, s')
     else if el_interest L fd \<noteq> None then (- EEXIST, L, s')
     else (0, L\<lparr>el_interest := (el_interest L)(fd \<mapsto> (p, m))\<rparr>, s'))"

definition epoll_ctl_del :: "int \<Rightarrow> event_loop \<Rightarrow> int \<times> event_loop" where
  "epoll_ctl_del fd L =
    (if el_interest L fd = None then (- ENOENT, L)
     else (0, L\<lparr>el_interest := (el_interest L)(fd := None)\<rparr>))"

text \<open>\<open>eventHandler = None\<close> is the empty \<^verbatim>\<open>std::function\<close>. The result is \<open>nullptr\<close> when it fails.\<close>

definition AddEventHandlerInternal ::
    "ptr \<Rightarrow> int \<Rightarrow> evtype \<Rightarrow> nat option \<Rightarrow> ptr \<Rightarrow> event_loop \<Rightarrow> os \<Rightarrow> ptr \<times> event_loop \<times> os" where
  "AddEventHandlerInternal eventObject fd type eventHandler data L s =
    (case eventHandler of
      None \<Rightarrow> (nullptr, L, s)
    | Some h \<Rightarrow>
        if eventObject = nullptr then (nullptr, L, s)
        else if fd < 0 then (nullptr, L, s)
        else let (allocated, s1) = os_new s in
        if \<not> allocated then (nullptr, L, s1)
        else if no_events (epoll_events type) then (nullptr, L, os_delete s1)
        else
          let p = el_next L;
              ho = \<lparr>ho_object = eventObject, ho_fd = fd, ho_type = type, ho_data = data, ho_handler = h,
                ho_cancel = None, ho_state = INIT, ho_in_use = False\<rparr>;
              (ret, L2, s2) = epoll_ctl_add fd p (epoll_events type) (L\<lparr>el_next := p + 1\<rparr>) s1 in
          if ret < 0 then (nullptr, L2, os_delete s2)
          else (p, set_item p ho L2, s2))"

definition AddEventHandler ::
    "ptr \<Rightarrow> int \<Rightarrow> evtype \<Rightarrow> nat option \<Rightarrow> ptr \<Rightarrow> event_loop \<Rightarrow> os \<Rightarrow> ptr \<times> event_loop \<times> os" where
  "AddEventHandler = AddEventHandlerInternal"

definition AddEventHandlerCancel ::
    "ptr \<Rightarrow> int \<Rightarrow> evtype \<Rightarrow> nat option \<Rightarrow> nat option \<Rightarrow> ptr \<Rightarrow> event_loop \<Rightarrow> os \<Rightarrow> ptr \<times> event_loop \<times> os" where
  "AddEventHandlerCancel eventObject fd type eventHandler cancelHandler data L s =
    (let (p, L', s') = AddEventHandlerInternal eventObject fd type eventHandler data L s in
     if p \<noteq> nullptr
     then (p, L'\<lparr>el_heap := (el_heap L')(p := map_option (\<lambda>ho. ho\<lparr>ho_cancel := cancelHandler\<rparr>) (el_heap L' p))\<rparr>, s')
     else (p, L', s'))"

text \<open>The private overload, which does the removal; \<open>ho\<close> is what \<open>p\<close> points to.\<close>

definition RemoveHandlerObject :: "ptr \<Rightarrow> handler_object \<Rightarrow> event_loop \<Rightarrow> os \<Rightarrow> int \<times> event_loop \<times> os" where
  "RemoveHandlerObject p ho L s =
    (if ho_in_use ho then (0, set_item p (ho\<lparr>ho_state := DELETE\<rparr>) L, s)
     else let (_, L') = epoll_ctl_del (ho_fd ho) L in
       (0, L'\<lparr>el_heap := (el_heap L')(p := None)\<rparr>, os_delete s))"

definition RemoveEventHandler :: "ptr \<Rightarrow> event_loop \<Rightarrow> os \<Rightarrow> (int \<times> event_loop \<times> os) outcome" where
  "RemoveEventHandler p L s =
    (if p = nullptr then Ret (- EINVAL, L, s)
     else case el_heap L p of
       None \<Rightarrow> Undefined
     | Some ho \<Rightarrow>
         if ho_object ho = nullptr then Ret (- EINVAL, L, s)
         else if ho_state ho \<noteq> INIT then Ret (- EALREADY, L, s)
         else Ret (RemoveHandlerObject p ho L s))"

section \<open>Stopping\<close>

text \<open>
  The enumerator STOPPED is 0, so the mask of the test for a stopped loop has the bit of
  STOP_REQUESTED alone.
\<close>

primrec loop_state_code :: "loop_state \<Rightarrow> 32 word" where
  "loop_state_code STOPPED = 0"
| "loop_state_code START_REQUESTED = 1"
| "loop_state_code STARTED = 2"
| "loop_state_code STOP_REQUESTED = 4"

definition StopLoop :: "event_loop \<Rightarrow> os \<Rightarrow> int \<times> event_loop \<times> os" where
  "StopLoop L s =
    (if loop_state_code (el_state L) AND (loop_state_code STOP_REQUESTED OR loop_state_code STOPPED) \<noteq> 0
     then (- EALREADY, L, s)
     else
       let pushEvent = (el_state L = STARTED);
           L1 = L\<lparr>el_state := STOP_REQUESTED\<rparr> in
       if pushEvent then
         (let (ret, s1) = os_call s in
          if ret < 0 then (ret, L1, s1) else (0, L1\<lparr>el_ctrl := el_ctrl L1 @ [nullptr]\<rparr>, s1))
       else (0, L1, s))"

definition EventLoop_Stop :: "event_loop \<Rightarrow> os \<Rightarrow> int \<times> event_loop \<times> os" where
  "EventLoop_Stop = StopLoop"

definition SetStopHandler :: "nat option \<Rightarrow> ptr \<Rightarrow> event_loop \<Rightarrow> os \<Rightarrow> int \<times> event_loop \<times> os" where
  "SetStopHandler stopHandler data L s =
    (case stopHandler of
      None \<Rightarrow> (0, L\<lparr>el_stop := None\<rparr>, if el_stop L = None then s else os_delete s)
    | Some h \<Rightarrow>
        let (allocated, s1) = os_new s in
        if \<not> allocated then (- ENOMEM, L, s1)
        else (0, L\<lparr>el_stop := Some \<lparr>se_handler = h, se_data = data\<rparr>\<rparr>,
              if el_stop L = None then s1 else os_delete s1))"

section \<open>Dispatching one batch of events\<close>

text \<open>The calls a handler makes on the loop that runs it.\<close>

datatype loop_call = LoopAdd ptr int evtype nat ptr | LoopRemove ptr | LoopStop | LoopSetStop "nat option" ptr

primrec exec_call :: "loop_call \<Rightarrow> event_loop \<Rightarrow> os \<Rightarrow> (event_loop \<times> os) outcome" where
  "exec_call (LoopAdd obj fd type h data) L s = Ret (snd (AddEventHandler obj fd type (Some h) data L s))"
| "exec_call (LoopRemove p) L s = obind (RemoveEventHandler p L s) (\<lambda>(_, L', s'). Ret (L', s'))"
| "exec_call LoopStop L s = Ret (snd (StopLoop L s))"
| "exec_call (LoopSetStop h data) L s = Ret (snd (SetStopHandler h data L s))"

fun exec_calls :: "loop_call list \<Rightarrow> event_loop \<Rightarrow> os \<Rightarrow> (event_loop \<times> os) outcome" where
  "exec_calls [] L s = Ret (L, s)"
| "exec_calls (c # cs) L s = obind (exec_call c L s) (\<lambda>(L', s'). exec_calls cs L' s')"

text \<open>Number 0 stands for the loop's own \<open>CtrlEventHandler\<close>; the others are the client's functions.\<close>

definition ctrl_handler :: nat where
  "ctrl_handler = 0"

text \<open>
  \<open>StopLoop\<close> is the only writer of the control socket and writes null pointers, so no branch of the
  handler does more than take one address from it.
\<close>

definition CtrlEventHandler :: "evtype \<Rightarrow> event_loop \<Rightarrow> (handler_return \<times> event_loop) outcome" where
  "CtrlEventHandler type L =
    (if type AND EVT_ERROR = EVT_ERROR then Ret (RETURN_CANCEL, L)
     else case el_ctrl L of
       [] \<Rightarrow> Blocked
     | _ # rest \<Rightarrow> Ret (RETURN_RENEW, L\<lparr>el_ctrl := rest\<rparr>))"

type_synonym 'u loop_handler = "nat \<Rightarrow> ptr \<Rightarrow> evtype \<Rightarrow> ptr \<Rightarrow> 'u \<Rightarrow> handler_return \<times> loop_call list \<times> 'u"

type_synonym 'u cancel_handler = "nat \<Rightarrow> ptr \<Rightarrow> ptr \<Rightarrow> 'u \<Rightarrow> loop_call list \<times> 'u"

definition run_handler ::
    "'u loop_handler \<Rightarrow> handler_object \<Rightarrow> evtype \<Rightarrow> event_loop \<Rightarrow> os \<Rightarrow> 'u \<Rightarrow>
     (handler_return \<times> event_loop \<times> os \<times> 'u) outcome" where
  "run_handler cb ho type L s u =
    (if ho_handler ho = ctrl_handler
     then obind (CtrlEventHandler type L) (\<lambda>(opt, L'). Ret (opt, L', s, u))
     else case cb (ho_handler ho) (ho_object ho) type (ho_data ho) u of
       (opt, calls, u') \<Rightarrow> obind (exec_calls calls L s) (\<lambda>(L', s'). Ret (opt, L', s', u')))"

definition ready_type :: "evtype \<Rightarrow> epoll_mask \<Rightarrow> evtype" where
  "ready_type type m =
    (if em_in m \<and> type AND EVT_READ \<noteq> 0 then EVT_READ else 0)
    OR (if em_out m \<and> type AND EVT_WRITE \<noteq> 0 then EVT_WRITE else 0)
    OR (if em_err m \<and> type AND EVT_ERROR \<noteq> 0 then EVT_ERROR else 0)"

text \<open>One event that is not a signal: the body of the loop in \<open>WaitEpoll\<close>.\<close>

definition process_event ::
    "'u loop_handler \<Rightarrow> 'u cancel_handler \<Rightarrow> ptr \<Rightarrow> epoll_mask \<Rightarrow> event_loop \<Rightarrow> os \<Rightarrow> 'u \<Rightarrow>
     (event_loop \<times> os \<times> 'u) outcome" where
  "process_event cb ccb p m L s u =
    (case el_heap L p of
      None \<Rightarrow> Undefined
    | Some item \<Rightarrow>
        let type = ready_type (ho_type item) m in
        if type = 0 \<or> ho_in_use item then Ret (L, s, u)
        else
          obind (run_handler cb item type (set_item p (item\<lparr>ho_in_use := True\<rparr>) L) s u) (\<lambda>(opt, L1, s1, u1).
            case el_heap L1 p of
              None \<Rightarrow> Undefined
            | Some item1 \<Rightarrow>
                if opt = RETURN_CANCEL \<or> ho_state item1 = DELETE then
                  let item2 = item1\<lparr>ho_state := DELETE, ho_in_use := False\<rparr>;
                      (_, L2, s2) = RemoveHandlerObject p item2 (set_item p item2 L1) s1 in
                  (case ho_cancel item1 of
                    None \<Rightarrow> Ret (L2, s2, u1)
                  | Some c \<Rightarrow>
                      (case ccb c (ho_object item1) (ho_data item1) u1 of
                        (calls, u2) \<Rightarrow> obind (exec_calls calls L2 s2) (\<lambda>(L3, s3). Ret (L3, s3, u2))))
                else Ret (set_item p (item1\<lparr>ho_in_use := False\<rparr>) L1, s1, u1)))"

text \<open>
  The loop over the batch; an event at the null address is a signal. Its number of events is overwritten by
  -EINTR there, which ends the loop.
\<close>

fun process_events ::
    "'u loop_handler \<Rightarrow> 'u cancel_handler \<Rightarrow> (ptr \<times> epoll_mask) list \<Rightarrow> int \<Rightarrow> event_loop \<Rightarrow> os \<Rightarrow> 'u \<Rightarrow>
     (int \<times> event_loop \<times> os \<times> 'u) outcome" where
  "process_events cb ccb [] ret L s u = Ret (ret, L, s, u)"
| "process_events cb ccb ((p, m) # events) ret L s u =
    (if p = nullptr then Ret (- EINTR, L, s, u)
     else obind (process_event cb ccb p m L s u) (\<lambda>(L', s', u'). process_events cb ccb events ret L' s' u'))"

datatype epoll_result = EpollError nat | EpollTimeout | EpollEvents "(ptr \<times> epoll_mask) list"

definition WaitEpoll ::
    "'u loop_handler \<Rightarrow> 'u cancel_handler \<Rightarrow> epoll_result \<Rightarrow> event_loop \<Rightarrow> os \<Rightarrow> 'u \<Rightarrow>
     (int \<times> event_loop \<times> os \<times> 'u) outcome" where
  "WaitEpoll cb ccb r L s u =
    (case r of
      EpollError e \<Rightarrow> Ret (- int e, L, s, u)
    | EpollTimeout \<Rightarrow> Ret (- ETIMEDOUT, L, s, u)
    | EpollEvents events \<Rightarrow> process_events cb ccb events (int (length events)) L s u)"

section \<open>The thread function\<close>

text \<open>
  One turn of the loop takes one entry of the script: the calls other threads make on the loop while it
  waits, and what \<^verbatim>\<open>epoll_pwait\<close> answers, given the loop at that time. With the script exhausted it waits for ever. The signalfd is
  blocking, so after -EINTR its read returns only if a signal is pending, which an event at the null address
  says.
\<close>

definition signal_pending :: "epoll_result \<Rightarrow> bool" where
  "signal_pending r = (case r of EpollEvents events \<Rightarrow> nullptr \<in> set (map fst events) | _ \<Rightarrow> False)"

type_synonym loop_turn = "loop_call list \<times> (event_loop \<Rightarrow> epoll_result)"

fun loop_turns ::
    "'u loop_handler \<Rightarrow> 'u cancel_handler \<Rightarrow> int \<Rightarrow> loop_turn list \<Rightarrow> int \<Rightarrow>
     event_loop \<Rightarrow> os \<Rightarrow> 'u \<Rightarrow> (int \<times> event_loop \<times> os \<times> 'u) outcome" where
  "loop_turns cb ccb signal_fd script ret L s u =
    (if el_state L \<noteq> STARTED \<or> el_loopCount L = 0 then Ret (ret, L, s, u)
     else case script of
       [] \<Rightarrow> Blocked
     | (calls, r) # rest \<Rightarrow>
         let L0 = (if 0 < el_loopCount L then L\<lparr>el_loopCount := el_loopCount L - 1\<rparr> else L) in
         obind (exec_calls calls L0 s) (\<lambda>(L1, s1).
           obind (WaitEpoll cb ccb (r L1) L1 s1 u) (\<lambda>(ret', L2, s2, u2).
             if ret' = - EINTR \<and> 0 \<le> signal_fd \<and> \<not> signal_pending (r L1) then Blocked
             else if ret' = - ETIMEDOUT then Ret (ret', L2, s2, u2)
             else loop_turns cb ccb signal_fd rest 0 L2 s2 u2)))"

declare loop_turns.simps [simp del]

text \<open>
  The stop handler is taken out of the loop at the end and is part of the result: calling it is the last
  thing the thread does, since it may destroy the loop.
\<close>

definition stopped :: "event_loop \<Rightarrow> event_loop" where
  "stopped L = L\<lparr>el_state := STOPPED\<rparr>"

definition ThreadMain ::
    "'u loop_handler \<Rightarrow> 'u cancel_handler \<Rightarrow> loop_turn list \<Rightarrow>
     event_loop \<Rightarrow> os \<Rightarrow> 'u \<Rightarrow> (int \<times> stop_event option \<times> event_loop \<times> os \<times> 'u) outcome" where
  "ThreadMain cb ccb script L s u =
    (if el_epollWaitSize L \<le> 0 \<or> el_loopCount L = 0 then Ret (- EINVAL, None, stopped L, s, u)
     else let (allocated, s1) = os_new s in
     if \<not> allocated then Ret (- ENOMEM, None, stopped L, s1, u)
     else let (ret, s2) = os_call s1 in
     if ret \<noteq> 0 then Ret (- ret, None, stopped L, os_delete s2, u)
     else
       let run = (\<lambda>signal_fd L3 s3.
         let L4 = (if el_state L3 = START_REQUESTED then L3\<lparr>el_state := STARTED\<rparr> else L3) in
         obind (loop_turns cb ccb signal_fd script 0 L4 s3 u) (\<lambda>(ret, L5, s5, u5).
           let L6 = stopped L5;
               L7 = (if 0 \<le> signal_fd then snd (epoll_ctl_del signal_fd L6) else L6);
               s7 = os_delete (if 0 \<le> signal_fd then close_fd signal_fd s5 else s5) in
           Ret (ret, el_stop L7, L7\<lparr>el_stop := None\<rparr>, (if el_stop L7 = None then s7 else os_delete s7), u5))) in
       if el_enable_signal L then
         (let (signal_fd, s3) = os_open s2 in
          if signal_fd < 0 then Ret (signal_fd, None, stopped L, os_delete s3, u)
          else let (ret, L4, s4) =
              epoll_ctl_add signal_fd nullptr \<lparr>em_in = True, em_out = False, em_err = True\<rparr> L s3 in
            if ret < 0 then Ret (ret, None, stopped L4, close_fd signal_fd (os_delete s4), u)
            else run signal_fd L4 s4)
       else run (-1) L s2)"

section \<open>Life cycle\<close>

text \<open>
  The destructor. \<open>signalLoop\<close> is the static flag of the class. Destroying a loop whose control handler has
  been removed by the loop itself follows a dangling pointer.
\<close>

definition EventLoop_delete :: "event_loop \<Rightarrow> os \<Rightarrow> bool \<Rightarrow> (os \<times> bool) outcome" where
  "EventLoop_delete L s signalLoop =
    obind
      (if el_spHandlerObject L = nullptr then Ret s
       else case el_heap L (el_spHandlerObject L) of
         None \<Rightarrow> Undefined
       | Some ho \<Rightarrow> obind (RemoveEventHandler (el_spHandlerObject L) L s) (\<lambda>(_, _, s'). Ret (os_delete s')))
      (\<lambda>s1.
        let s2 = (if 0 \<le> fst (el_spfd L) then close_fd (fst (el_spfd L)) s1 else s1);
            s3 = (if 0 \<le> snd (el_spfd L) then close_fd (snd (el_spfd L)) s2 else s2);
            s4 = (if 0 \<le> el_handle L then close_fd (el_handle L) s3 else s3) in
        Ret (os_delete s4, if el_enable_signal L then False else signalLoop))"

definition EventLoop_fail :: "event_loop \<Rightarrow> os \<Rightarrow> bool \<Rightarrow> (event_loop option \<times> os \<times> bool) outcome" where
  "EventLoop_fail L s signalLoop =
    obind (EventLoop_delete L s signalLoop) (\<lambda>(s', signalLoop'). Ret (None, s', signalLoop'))"

definition EventLoop_Create :: "bool \<Rightarrow> bool \<Rightarrow> os \<Rightarrow> bool \<Rightarrow> (event_loop option \<times> os \<times> bool) outcome" where
  "EventLoop_Create thread signal s signalLoop =
    (let (allocated, s1) = os_new s in
     if \<not> allocated then Ret (None, s1, signalLoop)
     else if signal \<and> signalLoop then EventLoop_fail EventLoop_new s1 signalLoop
     else
       let sig = (signalLoop \<or> signal);
           L = EventLoop_new\<lparr>el_enable_signal := True, el_enable_thread := thread\<rparr>;
           (ret, s2, c, n) = os_pair s1 in
       if ret < 0 then EventLoop_fail (L\<lparr>el_spfd := (-1, -1)\<rparr>) s2 sig
       else
         let L = L\<lparr>el_spfd := (c, n)\<rparr>;
             (ret, s3) = os_open s2 in
         if ret < 0 then EventLoop_fail L s3 sig
         else
           let L = L\<lparr>el_handle := ret\<rparr>;
               (allocated, s4) = os_new s3 in
           if \<not> allocated then EventLoop_fail L s4 sig
           else
             let (p, L, s5) = AddEventHandler 1 n (EVT_READ OR EVT_ERROR) (Some ctrl_handler) 1 L s4 in
             if p = nullptr then EventLoop_fail L (os_delete s5) sig
             else Ret (Some (L\<lparr>el_spHandlerObject := p\<rparr>), s5, sig))"

text \<open>
  \<open>Destroy\<close>, once the thread of the loop (if there is one) has ended: joining or detaching it has no effect on the
  rest of the state. \<open>None\<close>: the object is gone.
\<close>

definition EventLoop_Destroy :: "event_loop \<Rightarrow> os \<Rightarrow> bool \<Rightarrow> (event_loop option \<times> os \<times> bool) outcome" where
  "EventLoop_Destroy L s signalLoop =
    (if el_destructed L then Ret (Some L, s, signalLoop)
     else let (_, L1, s1) = StopLoop (L\<lparr>el_destructed := True\<rparr>) s in
       EventLoop_fail L1 s1 signalLoop)"

text \<open>
  \<open>Run\<close>. With \<open>enable_thread\<close> the thread function is left to the new thread (\<open>el_spawned\<close>); the result of
  \<^verbatim>\<open>pthread_attr_destroy\<close> is reported although the thread runs.
\<close>

definition EventLoop_Run ::
    "'u loop_handler \<Rightarrow> 'u cancel_handler \<Rightarrow> loop_turn list \<Rightarrow> int \<Rightarrow> int \<Rightarrow> int \<Rightarrow>
     event_loop \<Rightarrow> os \<Rightarrow> 'u \<Rightarrow> (int \<times> stop_event option \<times> event_loop \<times> os \<times> 'u) outcome" where
  "EventLoop_Run cb ccb script waitSize count timeout L s u =
    (if el_state L \<noteq> STOPPED then Ret (- EINVAL, None, L, s, u)
     else
       let L1 = L\<lparr>el_state := START_REQUESTED, el_epollWaitSize := waitSize, el_loopCount := count,
         el_timeout := timeout\<rparr> in
       if \<not> el_enable_thread L1 then ThreadMain cb ccb script L1 s u
       else
         let (ret, s1) = os_call s in
         if ret \<noteq> 0 then Ret (ret, None, L1, s1, u)
         else
           let (status, s2) = os_call s1; (ret, s3) = os_call s2 in
           if status \<noteq> 0 then Ret (status, None, L1, s3, u)
           else let L2 = L1\<lparr>el_spawned := True\<rparr> in
             if ret \<noteq> 0 then Ret (ret, None, L2, s3, u) else Ret (0, None, L2, s3, u))"

section \<open>Life cycle: properties\<close>

lemma EventLoop_fail_fresh [simp]:
  "EventLoop_fail EventLoop_new s sig = Ret (None, os_delete s, sig)"
  by (simp add: EventLoop_fail_def EventLoop_delete_def EventLoop_new_def)

lemma EventLoop_fail_partial:
  assumes "el_spHandlerObject L = nullptr" "el_enable_signal L" "el_spfd L = (c, n)" "el_handle L = e" "os_wf s"
  obtains s' where "EventLoop_fail L s sig = Ret (None, s', False)" "os_wf s'" "live s' = live s - 1"
    "open_fds s' = open_fds s - {c, n, e}"
proof -
  have pos: "fd \<notin> open_fds s" if "fd < 0" for fd
    using assms(5) that unfolding os_wf_def by (meson not_le)
  show ?thesis
    by (rule that [of "fst (snd (case EventLoop_fail L s sig of Ret r \<Rightarrow> r))"])
      (use assms pos in \<open>auto simp: EventLoop_fail_def EventLoop_delete_def Let_def\<close>)
qed

lemma os_wf_minus_one:
  assumes "os_wf s"
  shows "-1 \<notin> open_fds s"
proof
  assume "-1 \<in> open_fds s"
  with assms have "0 \<le> (-1::int)" unfolding os_wf_def by blast
  then show False by simp
qed

lemma AddEventHandler_cases:
  assumes wf: "os_wf s" and "obj \<noteq> nullptr" "0 \<le> fd" "\<not> no_events (epoll_events type)" "0 < el_next L"
  obtains (added) s' L' where "AddEventHandler obj fd type (Some h) data L s = (el_next L, L', s')"
      "el_interest L fd = None"
      "L' = L\<lparr>el_next := el_next L + 1, el_interest := (el_interest L)(fd \<mapsto> (el_next L, epoll_events type)),
        el_heap := (el_heap L)(el_next L \<mapsto> \<lparr>ho_object = obj, ho_fd = fd, ho_type = type, ho_data = data,
          ho_handler = h, ho_cancel = None, ho_state = INIT, ho_in_use = False\<rparr>)\<rparr>"
      "os_wf s'" "live s' = live s + 1" "open_fds s' = open_fds s" "next_fd s' = next_fd s"
    | (failed) s' L' where "AddEventHandler obj fd type (Some h) data L s = (nullptr, L', s')"
      "L' = L \<or> L' = L\<lparr>el_next := el_next L + 1\<rparr>"
      "os_wf s'" "live s' = live s" "open_fds s' = open_fds s" "next_fd s' = next_fd s"
proof (rule os_new_cases [OF wf])
  fix s1 assume 1: "os_new s = (True, s1)" "os_wf s1" "live s1 = live s + 1" "open_fds s1 = open_fds s"
    "next_fd s1 = next_fd s"
  obtain e s2 where 2: "os_call s1 = (e, s2)" "e \<le> 0" "os_wf s2" "live s2 = live s1" "open_fds s2 = open_fds s1"
    "next_fd s2 = next_fd s1" by (rule os_call_cases [OF 1(2)])
  show ?thesis
  proof (cases "0 \<le> e \<and> el_interest L fd = None")
    case True
    show ?thesis
      by (rule added [of _ s2, OF _ _ refl])
        (use True 1 2 assms in \<open>simp_all add: AddEventHandler_def AddEventHandlerInternal_def epoll_ctl_add_def
          set_item_def Let_def\<close>)
  next
    case False
    show ?thesis
      by (rule failed [of "L\<lparr>el_next := el_next L + 1\<rparr>" "os_delete s2"])
        (use False 1 2 assms in \<open>auto simp: AddEventHandler_def AddEventHandlerInternal_def epoll_ctl_add_def
          set_item_def Let_def errno_defs\<close>)
  qed
next
  fix s1 assume "os_new s = (False, s1)" "os_wf s1" "live s1 = live s" "open_fds s1 = open_fds s"
    "next_fd s1 = next_fd s"
  with assms show ?thesis
    by (intro failed [of L s1]) (simp_all add: AddEventHandler_def AddEventHandlerInternal_def)
qed

lemma epoll_events_ctrl [simp]: "\<not> no_events (epoll_events 0x50)"
  by (simp add: no_events_def epoll_events_def)

text \<open>
  A loop as \<open>Create\<close> leaves it: the control sockets \<open>c\<close> and \<open>n\<close>, the epoll descriptor \<open>e\<close> and the control handler
  registered for \<open>n\<close>.
\<close>

definition fresh_loop :: "bool \<Rightarrow> int \<Rightarrow> int \<Rightarrow> int \<Rightarrow> event_loop" where
  "fresh_loop thread c n e =
    EventLoop_new\<lparr>el_enable_signal := True, el_enable_thread := thread, el_spfd := (c, n), el_handle := e,
      el_spHandlerObject := 1, el_next := 2, el_interest := [n \<mapsto> (1, epoll_events (EVT_READ OR EVT_ERROR))],
      el_heap := [1 \<mapsto> \<lparr>ho_object = 1, ho_fd = n, ho_type = EVT_READ OR EVT_ERROR, ho_data = 1,
        ho_handler = ctrl_handler, ho_cancel = None, ho_state = INIT, ho_in_use = False\<rparr>]\<rparr>"

text \<open>The last step of \<open>Create\<close>, on a loop that has its three descriptors: registering the control handler.\<close>

definition create_control :: "event_loop \<Rightarrow> os \<Rightarrow> bool \<Rightarrow> (event_loop option \<times> os \<times> bool) outcome" where
  "create_control L s sig =
    (let (p, L, s5) = AddEventHandler 1 (snd (el_spfd L)) (EVT_READ OR EVT_ERROR) (Some ctrl_handler) 1 L s in
     if p = nullptr then EventLoop_fail L (os_delete s5) sig
     else Ret (Some (L\<lparr>el_spHandlerObject := p\<rparr>), s5, sig))"

lemma create_control_cases:
  assumes wf: "os_wf s" and fds: "0 \<le> c" "0 \<le> n" "0 \<le> e"
    and L: "L = EventLoop_new\<lparr>el_enable_signal := True, el_enable_thread := thread, el_spfd := (c, n), el_handle := e\<rparr>"
  obtains (created) s' where "create_control L s sig = Ret (Some (fresh_loop thread c n e), s', sig)" "os_wf s'"
      "live s' = live s + 1" "open_fds s' = open_fds s"
    | (failed) s' where "create_control L s sig = Ret (None, s', False)" "os_wf s'" "live s' = live s - 2"
      "open_fds s' = open_fds s - {c, n, e}"
proof -
  have L': "el_spfd L = (c, n)" "el_handle L = e" "el_spHandlerObject L = nullptr" "el_enable_signal L" "el_next L = 1"
    by (simp_all add: L EventLoop_new_def)
  show ?thesis
  proof (rule AddEventHandler_cases [OF wf _ fds(2), of 1 "EVT_READ OR EVT_ERROR" L ctrl_handler 1])
    fix s5 L1 assume 5: "AddEventHandler 1 n (EVT_READ OR EVT_ERROR) (Some ctrl_handler) 1 L s = (nullptr, L1, s5)"
      "L1 = L \<or> L1 = L\<lparr>el_next := el_next L + 1\<rparr>" "os_wf s5" "live s5 = live s" "open_fds s5 = open_fds s"
    have L1: "el_spHandlerObject L1 = nullptr" "el_enable_signal L1" "el_spfd L1 = (c, n)" "el_handle L1 = e"
      using 5(2) L' by auto
    have "os_wf (os_delete s5)" using 5(3) by simp
    from EventLoop_fail_partial [OF L1 this, of sig] obtain s' where
      "EventLoop_fail L1 (os_delete s5) sig = Ret (None, s', False)" "os_wf s'"
      "live s' = live (os_delete s5) - 1" "open_fds s' = open_fds (os_delete s5) - {c, n, e}" by blast
    with 5 L'(1) show ?thesis by (intro failed [of s']) (simp_all add: create_control_def)
  next
    fix s5 L1 assume 5: "AddEventHandler 1 n (EVT_READ OR EVT_ERROR) (Some ctrl_handler) 1 L s = (el_next L, L1, s5)"
      "L1 = L\<lparr>el_next := el_next L + 1, el_interest := (el_interest L)(n \<mapsto> (el_next L, epoll_events (EVT_READ OR EVT_ERROR))),
        el_heap := (el_heap L)(el_next L \<mapsto> \<lparr>ho_object = 1, ho_fd = n, ho_type = EVT_READ OR EVT_ERROR, ho_data = 1,
          ho_handler = ctrl_handler, ho_cancel = None, ho_state = INIT, ho_in_use = False\<rparr>)\<rparr>"
      "os_wf s5" "live s5 = live s + 1" "open_fds s5 = open_fds s"
    have "L1\<lparr>el_spHandlerObject := el_next L\<rparr> = fresh_loop thread c n e"
      by (simp add: 5(2) L fresh_loop_def EventLoop_new_def)
    then show ?thesis using 5 L' by (intro created [of s5]) (auto simp: create_control_def)
  qed (use L' in simp_all)
qed

lemma EventLoop_Create_cases:
  assumes "os_wf s"
  obtains (failed) s' sig' where "EventLoop_Create thread signal s sig = Ret (None, s', sig')" "os_wf s'"
      "live s' = live s" "open_fds s' = open_fds s"
    | (created) s' sig' c n e where
      "EventLoop_Create thread signal s sig = Ret (Some (fresh_loop thread c n e), s', sig')" "os_wf s'"
      "live s' = live s + 3" "open_fds s' = {c, n, e} \<union> open_fds s" "0 \<le> c" "0 \<le> n" "0 \<le> e"
      "{c, n, e} \<inter> open_fds s = {}" "distinct [c, n, e]"
proof (rule os_new_cases [OF assms])
  fix s1 assume "os_new s = (False, s1)" "os_wf s1" "live s1 = live s" "open_fds s1 = open_fds s"
  then show ?thesis by (intro failed [of s1]) (simp_all add: EventLoop_Create_def)
next
  fix s1 assume 1: "os_new s = (True, s1)" "os_wf s1" "live s1 = live s + 1" "open_fds s1 = open_fds s"
    "next_fd s1 = next_fd s"
  define L0 where "L0 = EventLoop_new\<lparr>el_enable_signal := True, el_enable_thread := thread\<rparr>"
  have L0: "el_spHandlerObject L0 = nullptr" "el_enable_signal L0" "el_spfd L0 = (-1, -1)" "el_handle L0 = -1"
    by (simp_all add: L0_def EventLoop_new_def)
  note C = EventLoop_Create_def Let_def L0_def [symmetric]
  show ?thesis
  proof (cases "signal \<and> sig")
    case True
    then show ?thesis using 1 by (intro failed [of "os_delete s1"]) (auto simp: C)
  next
    case False
    show ?thesis
    proof (rule os_pair_cases [OF 1(2)])
      fix e s2 assume 2: "os_pair s1 = (e, s2, -1, -1)" "e < 0" "os_wf s2" "live s2 = live s1" "open_fds s2 = open_fds s1"
      obtain s' where "EventLoop_fail (L0\<lparr>el_spfd := (-1, -1)\<rparr>) s2 (sig \<or> signal) = Ret (None, s', False)" "os_wf s'"
          "live s' = live s" "open_fds s' = open_fds s"
        using EventLoop_fail_partial [of "L0\<lparr>el_spfd := (-1, -1)\<rparr>" "-1" "-1" "-1" s2 "sig \<or> signal"] 1 2 L0
          os_wf_minus_one [OF 1(2)] by auto
      with 1 2 False show ?thesis by (intro failed [of s' False]) (auto simp: C)
    next
      fix s2 let ?c = "next_fd s1" and ?n = "next_fd s1 + 1"
      assume 2: "os_pair s1 = (0, s2, ?c, ?n)" "os_wf s2" "live s2 = live s1"
        "open_fds s2 = insert ?c (insert ?n (open_fds s1))" "next_fd s2 = next_fd s1 + 2"
      have fresh: "?c \<notin> open_fds s" "?n \<notin> open_fds s" using os_wf_fresh [OF 1(2)] 1(4) by simp_all
      show ?thesis
      proof (rule os_open_cases [OF 2(2)])
        fix e s3 assume 3: "os_open s2 = (e, s3)" "e < 0" "os_wf s3" "live s3 = live s2" "open_fds s3 = open_fds s2"
        obtain s' where "EventLoop_fail (L0\<lparr>el_spfd := (?c, ?n)\<rparr>) s3 (sig \<or> signal) = Ret (None, s', False)" "os_wf s'"
            "live s' = live s" "open_fds s' = open_fds s"
          using EventLoop_fail_partial [of "L0\<lparr>el_spfd := (?c, ?n)\<rparr>" ?c ?n "-1" s3 "sig \<or> signal"] 1 2 3 L0
            os_wf_minus_one [OF 1(2)] fresh by auto
        with 1 2 3 False show ?thesis by (intro failed [of s' False]) (auto simp: C)
      next
        fix s3 let ?e = "next_fd s2"
        assume 3: "os_open s2 = (?e, s3)" "os_wf s3" "live s3 = live s2"
          "open_fds s3 = insert ?e (open_fds s2)" "next_fd s3 = next_fd s2 + 1"
        define L2 where "L2 = L0\<lparr>el_spfd := (?c, ?n), el_handle := ?e\<rparr>"
        have L2: "L2 = EventLoop_new\<lparr>el_enable_signal := True, el_enable_thread := thread, el_spfd := (?c, ?n),
            el_handle := ?e\<rparr>" by (simp add: L2_def L0_def)
        have n: "0 \<le> ?c" "0 \<le> ?n" "0 \<le> ?e" using os_wf_fresh(3) [OF 1(2)] os_wf_fresh(3) [OF 2(2)] by simp_all
        have e: "?e \<notin> open_fds s" "distinct [?c, ?n, ?e]" using os_wf_fresh(1) [OF 2(2)] 2(4) 1(4) by auto
        have fds: "open_fds s3 - {?c, ?n, ?e} = open_fds s" "open_fds s3 = {?c, ?n, ?e} \<union> open_fds s"
          using 1 2 3 fresh e by auto
        show ?thesis
        proof (rule os_new_cases [OF 3(2)])
          fix s4 assume 4: "os_new s3 = (False, s4)" "os_wf s4" "live s4 = live s3" "open_fds s4 = open_fds s3"
          have C4: "EventLoop_Create thread signal s sig = EventLoop_fail L2 s4 (sig \<or> signal)"
            using 1 2 3 4 False n by (auto simp: C L2_def)
          obtain s' where "EventLoop_fail L2 s4 (sig \<or> signal) = Ret (None, s', False)" "os_wf s'"
              "live s' = live s" "open_fds s' = open_fds s"
            using EventLoop_fail_partial [of L2 ?c ?n ?e s4 "sig \<or> signal"] 1 2 3 4 L0 fds(1) by (auto simp: L2_def)
          with C4 show ?thesis by (intro failed [of s' False]) simp_all
        next
          fix s4 assume 4: "os_new s3 = (True, s4)" "os_wf s4" "live s4 = live s3 + 1" "open_fds s4 = open_fds s3"
          have C4: "EventLoop_Create thread signal s sig = create_control L2 s4 (sig \<or> signal)"
            using 1 2 3 4 False n by (auto simp: C L2_def create_control_def)
          show ?thesis
          proof (rule create_control_cases [OF 4(2) n L2, of "sig \<or> signal"])
            fix s5 assume "create_control L2 s4 (sig \<or> signal) = Ret (Some (fresh_loop thread ?c ?n ?e), s5, sig \<or> signal)"
              "os_wf s5" "live s5 = live s4 + 1" "open_fds s5 = open_fds s4"
            with C4 1 2 3 4 fds n e fresh show ?thesis
              by (intro created [of ?c ?n ?e s5 "sig \<or> signal"]) simp_all
          next
            fix s5 assume "create_control L2 s4 (sig \<or> signal) = Ret (None, s5, False)"
              "os_wf s5" "live s5 = live s4 - 2" "open_fds s5 = open_fds s4 - {?c, ?n, ?e}"
            with C4 1 2 3 4 fds show ?thesis by (intro failed [of s5 False]) simp_all
          qed
        qed
      qed
    qed
  qed
qed

lemma EventLoop_Destroy_fresh:
  assumes "0 \<le> c" "0 \<le> n" "0 \<le> e"
  shows "\<exists>s' sig'. EventLoop_Destroy (fresh_loop thread c n e) s sig = Ret (None, s', sig')
    \<and> live s' = live s - 3 \<and> open_fds s' = open_fds s - {c, n, e}"
  using assms
  by (auto simp: fresh_loop_def EventLoop_new_def EventLoop_Destroy_def StopLoop_def EventLoop_fail_def
      EventLoop_delete_def Let_def RemoveEventHandler_def RemoveHandlerObject_def epoll_ctl_del_def)

text \<open>
  Creating a loop, for every combination of failing calls and every state of the signal flag: it
  returns; on failure no descriptor and no heap object is left; and destroying a loop that was created and never run
  gives back exactly the descriptors and heap objects there were.
\<close>

theorem event_loop_conserves_resources:
  assumes "os_wf s"
  shows "\<exists>L s' sig'. EventLoop_Create thread signal s sig = Ret (L, s', sig') \<and>
    (case L of
      None \<Rightarrow> resources s' = resources s
    | Some L \<Rightarrow> \<exists>s'' sig''. EventLoop_Destroy L s' sig' = Ret (None, s'', sig'') \<and> resources s'' = resources s)"
proof (rule EventLoop_Create_cases [OF assms, of thread signal sig])
  fix s' sig' c n e
  assume 1: "EventLoop_Create thread signal s sig = Ret (Some (fresh_loop thread c n e), s', sig')"
    "live s' = live s + 3" "open_fds s' = {c, n, e} \<union> open_fds s" "0 \<le> c" "0 \<le> n" "0 \<le> e" "{c, n, e} \<inter> open_fds s = {}"
  then have "open_fds s' - {c, n, e} = open_fds s" by auto
  with EventLoop_Destroy_fresh [OF 1(4-6), of thread s' sig'] 1(1,2) show ?thesis by (auto simp: resources_def)
qed (simp add: resources_def)

lemma event_loop_conserves_resources_witness:
  "\<exists>L s' sig'. EventLoop_Create True True \<lparr>open_fds = {0}, next_fd = 1, live = 0, faults = [0, 0, 0, 0, 0, 1]\<rparr> False
      = Ret (L, s', sig') \<and> (L = None \<longrightarrow> resources s' = ({0}, 0))"
  using event_loop_conserves_resources [of "\<lparr>open_fds = {0}, next_fd = 1, live = 0, faults = [0, 0, 0, 0, 0, 1]\<rparr>" True True False]
  by (auto simp: os_wf_def resources_def)

text \<open>
  The flag that is to keep signals to one loop does not. A loop created without signals still has
  \<open>enable_signal\<close> set, so destroying it clears the flag that another loop set, and a second loop with
  signals is created while the first one exists.
\<close>

theorem two_signal_loops:
  "\<exists>L1 s1 L2 s2 s3 L3 s4.
    EventLoop_Create False True \<lparr>open_fds = {}, next_fd = 0, live = 0, faults = []\<rparr> False = Ret (Some L1, s1, True)
    \<and> EventLoop_Create False False s1 True = Ret (Some L2, s2, True)
    \<and> EventLoop_Destroy L2 s2 True = Ret (None, s3, False)
    \<and> EventLoop_Create False True s3 False = Ret (Some L3, s4, True)"
  by (simp add: EventLoop_Create_def EventLoop_Destroy_def EventLoop_fail_def EventLoop_delete_def StopLoop_def
      Let_def EventLoop_new_def os_new_def os_pair_def os_open_def os_call_def fault_def pop_def AddEventHandler_def
      AddEventHandlerInternal_def epoll_ctl_add_def set_item_def RemoveEventHandler_def RemoveHandlerObject_def
      epoll_ctl_del_def no_events_def epoll_events_def os_delete_def os_close_def close_fd_def)

text \<open>
  Stopping a loop that is not running. \<open>Stop\<close> returns 0 instead of -EALREADY, because the bit of STOPPED
  in its test is 0, and leaves the state STOP_REQUESTED; from then on every \<open>Run\<close> returns -EINVAL and every
  \<open>Stop\<close> -EALREADY, neither changes anything, and the loop cannot be used again.
\<close>

theorem stop_on_stopped_loop:
  assumes "el_state L = STOPPED"
  shows "StopLoop L s = (0, L\<lparr>el_state := STOP_REQUESTED\<rparr>, s)
    \<and> StopLoop (L\<lparr>el_state := STOP_REQUESTED\<rparr>) s' = (- EALREADY, L\<lparr>el_state := STOP_REQUESTED\<rparr>, s')
    \<and> EventLoop_Run cb ccb script n count timeout (L\<lparr>el_state := STOP_REQUESTED\<rparr>) s' u
        = Ret (- EINVAL, None, L\<lparr>el_state := STOP_REQUESTED\<rparr>, s', u)"
  using assms by (simp add: StopLoop_def EventLoop_Run_def)

lemma el_state_new [simp]: "el_state EventLoop_new = STOPPED"
  by (simp add: EventLoop_new_def)

definition no_os :: os where
  "no_os = \<lparr>open_fds = {}, next_fd = 0, live = 0, faults = []\<rparr>"

definition idle_handler :: "unit loop_handler" where
  "idle_handler h obj type d u = (RETURN_RENEW, [], u)"

definition idle_cancel :: "unit cancel_handler" where
  "idle_cancel c obj d u = ([], u)"

lemma stop_on_stopped_loop_witness:
  "fst (StopLoop EventLoop_new no_os) = 0
    \<and> EventLoop_Run idle_handler idle_cancel [] 10 (-1) (-1) (EventLoop_new\<lparr>el_state := STOP_REQUESTED\<rparr>) no_os ()
      = Ret (- EINVAL, None, EventLoop_new\<lparr>el_state := STOP_REQUESTED\<rparr>, no_os, ())"
  using stop_on_stopped_loop [OF el_state_new, of no_os no_os idle_handler idle_cancel "[]" 10 "-1" "-1" "()"]
  by simp

text \<open>
  A failing start of the thread is final. When \<^verbatim>\<open>pthread_attr_init\<close> or \<^verbatim>\<open>pthread_create\<close> fails with errno \<open>e\<close>, \<open>Run\<close>
  returns -e with the state START_REQUESTED and no thread, and every later \<open>Run\<close> returns -EINVAL.
\<close>

theorem failed_start_is_final:
  assumes "el_state L = STOPPED" and "el_enable_thread L"
    and "faults s = e # es \<or> faults s = 0 # e # es" and "0 < e"
  shows "\<exists>L' s'. EventLoop_Run cb ccb script n count timeout L s u = Ret (- int e, None, L', s', u)
    \<and> el_state L' = START_REQUESTED \<and> el_spawned L' = el_spawned L
    \<and> (\<forall>s'' n' count' timeout'. EventLoop_Run cb ccb script n' count' timeout' L' s'' u
        = Ret (- EINVAL, None, L', s'', u))"
  using assms by (auto simp: EventLoop_Run_def Let_def os_call_def fault_def pop_def)

lemma failed_start_is_final_witness:
  "\<exists>L' s'. EventLoop_Run idle_handler idle_cancel [] 10 (-1) (-1) (EventLoop_new\<lparr>el_enable_thread := True\<rparr>)
      (no_os\<lparr>faults := [0, 11]\<rparr>) () = Ret (-11, None, L', s', ()) \<and> el_state L' = START_REQUESTED"
  using failed_start_is_final [of "EventLoop_new\<lparr>el_enable_thread := True\<rparr>" "no_os\<lparr>faults := [0, 11]\<rparr>" 11 "[]"
      idle_handler idle_cancel "[]" 10 "-1" "-1" "()"]
  by auto

section \<open>Invariant of the handler objects\<close>

text \<open>
  The heap and epoll's interest list describe each other: every live handler object is the one entry of
  its descriptor, and every entry refers to a live object (or is the signalfd's).
\<close>

definition loop_ok :: "event_loop \<Rightarrow> bool" where
  "loop_ok L \<longleftrightarrow> 0 < el_next L
    \<and> (\<forall>p ho. el_heap L p = Some ho \<longrightarrow> 0 < p \<and> p < el_next L \<and> 0 < ho_object ho \<and> ho_state ho \<noteq> DELETED
        \<and> el_interest L (ho_fd ho) = Some (p, epoll_events (ho_type ho)))
    \<and> (\<forall>fd p m. el_interest L fd = Some (p, m) \<longrightarrow> p = 0 \<or> (\<exists>ho. el_heap L p = Some ho \<and> ho_fd ho = fd))"

lemma loop_okD:
  assumes "loop_ok L"
  shows "0 < el_next L"
    and "\<And>p ho. el_heap L p = Some ho \<Longrightarrow> 0 < p \<and> p < el_next L \<and> 0 < ho_object ho \<and> ho_state ho \<noteq> DELETED
        \<and> el_interest L (ho_fd ho) = Some (p, epoll_events (ho_type ho))"
    and "\<And>fd p m. el_interest L fd = Some (p, m) \<Longrightarrow> p \<noteq> 0 \<Longrightarrow> \<exists>ho. el_heap L p = Some ho \<and> ho_fd ho = fd"
  using assms unfolding loop_ok_def by blast+

lemma loop_ok_cong:
  "el_heap L' = el_heap L \<Longrightarrow> el_interest L' = el_interest L \<Longrightarrow> el_next L' = el_next L \<Longrightarrow> loop_ok L' = loop_ok L"
  by (simp add: loop_ok_def)

lemma loop_okI:
  assumes "0 < el_next L"
    and "\<And>p ho. el_heap L p = Some ho \<Longrightarrow> 0 < p \<and> p < el_next L \<and> 0 < ho_object ho \<and> ho_state ho \<noteq> DELETED
        \<and> el_interest L (ho_fd ho) = Some (p, epoll_events (ho_type ho))"
    and "\<And>fd p m. el_interest L fd = Some (p, m) \<Longrightarrow> p \<noteq> 0 \<Longrightarrow> \<exists>ho. el_heap L p = Some ho \<and> ho_fd ho = fd"
  shows "loop_ok L"
  using assms unfolding loop_ok_def by blast

lemma loop_ok_set_item:
  assumes ok: "loop_ok L" and p: "el_heap L p = Some ho"
    and "ho_object ho' = ho_object ho" "ho_fd ho' = ho_fd ho" "ho_type ho' = ho_type ho" "ho_state ho' \<noteq> DELETED"
  shows "loop_ok (set_item p ho' L)"
proof (rule loop_okI)
  fix fd q m assume q: "el_interest (set_item p ho' L) fd = Some (q, m)" "q \<noteq> 0"
  then obtain ho2 where "el_heap L q = Some ho2" "ho_fd ho2 = fd"
    using loop_okD(3) [OF ok, of fd q m] by (auto simp: set_item_def)
  then show "\<exists>ho. el_heap (set_item p ho' L) q = Some ho \<and> ho_fd ho = fd"
    using p assms(4) by (cases "q = p") (auto simp: set_item_def)
qed (use loop_okD(1,2) [OF ok] p assms(3-6) in \<open>auto simp: set_item_def split: if_splits\<close>)

lemma loop_ok_remove:
  assumes ok: "loop_ok L" and p: "el_heap L p = Some ho"
  shows "loop_ok (L\<lparr>el_heap := (el_heap L)(p := None), el_interest := (el_interest L)(ho_fd ho := None)\<rparr>)"
proof (rule loop_okI)
  fix fd q m
  assume q: "el_interest (L\<lparr>el_heap := (el_heap L)(p := None), el_interest := (el_interest L)(ho_fd ho := None)\<rparr>) fd = Some (q, m)" "q \<noteq> 0"
  then obtain ho2 where "el_heap L q = Some ho2" "ho_fd ho2 = fd" "fd \<noteq> ho_fd ho"
    using loop_okD(3) [OF ok, of fd q m] by (auto split: if_splits)
  then show "\<exists>ho'. el_heap (L\<lparr>el_heap := (el_heap L)(p := None), el_interest := (el_interest L)(ho_fd ho := None)\<rparr>) q = Some ho' \<and> ho_fd ho' = fd"
    using p by auto
next
  fix q ho'
  assume q: "el_heap (L\<lparr>el_heap := (el_heap L)(p := None), el_interest := (el_interest L)(ho_fd ho := None)\<rparr>) q = Some ho'"
  then have "ho_fd ho' \<noteq> ho_fd ho"
    using loop_okD(2) [OF ok, of q ho'] loop_okD(2) [OF ok p] by (auto split: if_splits)
  then show "0 < q \<and> q < el_next (L\<lparr>el_heap := (el_heap L)(p := None), el_interest := (el_interest L)(ho_fd ho := None)\<rparr>)
      \<and> 0 < ho_object ho' \<and> ho_state ho' \<noteq> DELETED
      \<and> el_interest (L\<lparr>el_heap := (el_heap L)(p := None), el_interest := (el_interest L)(ho_fd ho := None)\<rparr>) (ho_fd ho')
        = Some (q, epoll_events (ho_type ho'))"
    using loop_okD(2) [OF ok, of q ho'] q by (auto split: if_splits)
qed (use loop_okD(1) [OF ok] in simp)

text \<open>
  What calls made by handlers do to the loop: existing objects stay as they are, except that the ones in \<open>R\<close> are
  marked; new objects are idle; nothing is taken from the control socket; the loop's state can only become
  STOP_REQUESTED.
\<close>

definition grown :: "nat \<Rightarrow> ptr set \<Rightarrow> event_loop \<Rightarrow> event_loop \<Rightarrow> bool" where
  "grown k R L L' \<longleftrightarrow> el_next L \<le> el_next L'
    \<and> (\<forall>q ho. el_heap L q = Some ho \<longrightarrow> el_heap L' q = Some (if q \<in> R then ho\<lparr>ho_state := DELETE\<rparr> else ho))
    \<and> (\<forall>q ho. el_heap L' q = Some ho \<longrightarrow> el_heap L q = None \<longrightarrow>
        el_next L \<le> q \<and> \<not> ho_in_use ho \<and> ho_state ho = INIT)
    \<and> length (el_ctrl L) \<le> length (el_ctrl L') + k
    \<and> el_loopCount L' = el_loopCount L \<and> (el_state L' = el_state L \<or> el_state L' = STOP_REQUESTED)"

lemma grown_refl [simp]: "grown 0 {} L L"
  by (auto simp: grown_def)

lemma grownD:
  assumes "grown k R L L'"
  shows "el_next L \<le> el_next L'"
    and "\<And>q ho. el_heap L q = Some ho \<Longrightarrow> el_heap L' q = Some (if q \<in> R then ho\<lparr>ho_state := DELETE\<rparr> else ho)"
    and "\<And>q ho. el_heap L' q = Some ho \<Longrightarrow> el_heap L q = None \<Longrightarrow>
      el_next L \<le> q \<and> \<not> ho_in_use ho \<and> ho_state ho = INIT"
    and "length (el_ctrl L) \<le> length (el_ctrl L') + k"
    and "el_loopCount L' = el_loopCount L" and "el_state L' = el_state L \<or> el_state L' = STOP_REQUESTED"
  using assms unfolding grown_def by simp_all

lemma grown_trans:
  assumes 1: "grown k R L L'" and 2: "grown k' R' L' L''" and R': "R' \<subseteq> dom (el_heap L)"
  shows "grown (k + k') (R \<union> R') L L''"
  unfolding grown_def
proof (intro conjI allI impI)
  fix q ho assume q: "el_heap L'' q = Some ho" "el_heap L q = None"
  have idle: "el_next L \<le> q \<and> \<not> ho_in_use ho \<and> ho_state ho = INIT"
  proof (cases "el_heap L' q")
    case (Some ho')
    moreover have "q \<notin> R'" using R' q(2) by auto
    ultimately have "ho = ho'" using grownD(2) [OF 2 Some] q(1) by simp
    with grownD(3) [OF 1 Some q(2)] show ?thesis by simp
  qed (use grownD(3) [OF 2 q(1)] grownD(1) [OF 1] in simp)
  then show "el_next L \<le> q" by simp
  from idle show "\<not> ho_in_use ho" by simp
  from idle show "ho_state ho = INIT" by simp
next
  fix q ho assume "el_heap L q = Some ho"
  from grownD(2) [OF 2 grownD(2) [OF 1 this]]
  show "el_heap L'' q = Some (if q \<in> R \<union> R' then ho\<lparr>ho_state := DELETE\<rparr> else ho)"
    by (auto split: if_splits)
next
  show "el_next L \<le> el_next L''" using grownD(1) [OF 1] grownD(1) [OF 2] by simp
  show "length (el_ctrl L) \<le> length (el_ctrl L'') + (k + k')" using grownD(4) [OF 1] grownD(4) [OF 2] by auto
  show "el_loopCount L'' = el_loopCount L" using grownD(5) [OF 1] grownD(5) [OF 2] by simp
  show "el_state L'' = el_state L \<or> el_state L'' = STOP_REQUESTED" using grownD(6) [OF 1] grownD(6) [OF 2] by auto
qed

lemma AddEventHandler_result:
  assumes "AddEventHandler obj fd type (Some h) data L s = (p, L', s')"
  shows "L' = L \<or> L' = L\<lparr>el_next := el_next L + 1\<rparr> \<or>
    (0 < obj \<and> el_interest L fd = None \<and>
      L' = L\<lparr>el_next := el_next L + 1, el_interest := (el_interest L)(fd \<mapsto> (el_next L, epoll_events type)),
        el_heap := (el_heap L)(el_next L \<mapsto> \<lparr>ho_object = obj, ho_fd = fd, ho_type = type, ho_data = data,
          ho_handler = h, ho_cancel = None, ho_state = INIT, ho_in_use = False\<rparr>)\<rparr>)"
  using assms
  by (cases "el_interest L fd")
    (auto simp: AddEventHandler_def AddEventHandlerInternal_def epoll_ctl_add_def Let_def set_item_def errno_defs
      split: if_splits prod.splits)

lemma loop_ok_add:
  assumes ok: "loop_ok L" and new: "el_interest L fd = None" "0 < obj"
  shows "loop_ok (L\<lparr>el_next := el_next L + 1, el_interest := (el_interest L)(fd \<mapsto> (el_next L, epoll_events type)),
    el_heap := (el_heap L)(el_next L \<mapsto> \<lparr>ho_object = obj, ho_fd = fd, ho_type = type, ho_data = data,
      ho_handler = h, ho_cancel = None, ho_state = INIT, ho_in_use = False\<rparr>)\<rparr>)" (is "loop_ok ?L")
proof (rule loop_okI)
  have fresh: "el_heap L (el_next L) = None"
    using loop_okD(2) [OF ok, of "el_next L"] by (cases "el_heap L (el_next L)") auto
  show "0 < el_next ?L" by simp
  fix q ho assume "el_heap ?L q = Some ho"
  then show "0 < q \<and> q < el_next ?L \<and> 0 < ho_object ho \<and> ho_state ho \<noteq> DELETED
      \<and> el_interest ?L (ho_fd ho) = Some (q, epoll_events (ho_type ho))"
    using loop_okD(1) [OF ok] loop_okD(2) [OF ok, of q ho] new by (auto split: if_splits)
next
  fix fd' q m assume "el_interest ?L fd' = Some (q, m)" "q \<noteq> 0"
  then show "\<exists>ho. el_heap ?L q = Some ho \<and> ho_fd ho = fd'"
    using loop_okD(3) [OF ok, of fd' q m] loop_okD(2) [OF ok, of q] by (auto split: if_splits)
qed

lemma exec_call_grown:
  assumes ok: "loop_ok L" and allowed: "\<And>q. c = LoopRemove q \<Longrightarrow> \<exists>ho. el_heap L q = Some ho \<and> ho_in_use ho"
  shows "\<exists>L' s'. exec_call c L s = Ret (L', s') \<and> loop_ok L' \<and> grown 0 {q. c = LoopRemove q} L L'"
proof (cases c)
  case (LoopAdd obj fd type h data)
  obtain p L' s' where add: "AddEventHandler obj fd type (Some h) data L s = (p, L', s')" by (metis prod_cases3)
  have fresh: "el_heap L (el_next L) = None"
    using loop_okD(2) [OF ok, of "el_next L"] by (cases "el_heap L (el_next L)") auto
  have "loop_ok L' \<and> grown 0 {} L L'"
    using AddEventHandler_result [OF add]
  proof (elim disjE conjE)
    assume "L' = L\<lparr>el_next := el_next L + 1\<rparr>"
    then show ?thesis using ok by (auto simp: grown_def loop_ok_def less_SucI)
  next
    assume "0 < obj" "el_interest L fd = None" and L': "L' = L\<lparr>el_next := el_next L + 1,
      el_interest := (el_interest L)(fd \<mapsto> (el_next L, epoll_events type)),
      el_heap := (el_heap L)(el_next L \<mapsto> \<lparr>ho_object = obj, ho_fd = fd, ho_type = type, ho_data = data,
        ho_handler = h, ho_cancel = None, ho_state = INIT, ho_in_use = False\<rparr>)\<rparr>"
    then have "loop_ok L'" using loop_ok_add [OF ok] by simp
    moreover have "grown 0 {} L L'" using fresh by (auto simp: L' grown_def)
    ultimately show ?thesis by simp
  qed (use ok in simp)
  then show ?thesis using add LoopAdd by simp
next
  case (LoopRemove q)
  then obtain ho where q: "el_heap L q = Some ho" "ho_in_use ho" using allowed by auto
  show ?thesis
  proof (cases "ho_state ho = INIT")
    case True
    then show ?thesis
      using LoopRemove q loop_okD(2) [OF ok q(1)] loop_ok_set_item [OF ok q(1), of "ho\<lparr>ho_state := DELETE\<rparr>"]
      by (auto simp: RemoveEventHandler_def RemoveHandlerObject_def grown_def set_item_def)
  next
    case False
    then have "ho_state ho = DELETE" using loop_okD(2) [OF ok q(1)] by (cases "ho_state ho") auto
    then have "ho\<lparr>ho_state := DELETE\<rparr> = ho" by simp
    then show ?thesis
      using LoopRemove q loop_okD(2) [OF ok q(1)] False ok by (auto simp: RemoveEventHandler_def grown_def)
  qed
next
  case LoopStop
  then show ?thesis using ok
    by (cases "el_state L") (auto simp: StopLoop_def Let_def grown_def loop_ok_def split: prod.splits)
next
  case (LoopSetStop h d)
  then show ?thesis using ok
    by (auto simp: SetStopHandler_def grown_def loop_ok_def split: option.splits prod.splits)
qed

text \<open>A series of calls that removes at most the handler that is running.\<close>

definition removed_by :: "loop_call list \<Rightarrow> ptr set" where
  "removed_by calls = {q. LoopRemove q \<in> set calls}"

lemma exec_calls_grown:
  assumes "loop_ok L" and "\<And>q. q \<in> removed_by calls \<Longrightarrow> \<exists>ho. el_heap L q = Some ho \<and> ho_in_use ho"
  shows "\<exists>L' s'. exec_calls calls L s = Ret (L', s') \<and> loop_ok L' \<and> grown 0 (removed_by calls) L L'"
  using assms
proof (induction calls arbitrary: L s)
  case Nil
  then show ?case by (simp add: removed_by_def)
next
  case (Cons c cs)
  have "\<exists>ho. el_heap L q = Some ho \<and> ho_in_use ho" if "c = LoopRemove q" for q
    using Cons.prems(2) [of q] that by (simp add: removed_by_def)
  from exec_call_grown [OF Cons.prems(1) this] obtain L1 s1 where
    1: "exec_call c L s = Ret (L1, s1)" "loop_ok L1" "grown 0 {q. c = LoopRemove q} L L1" by blast
  have still: "\<exists>ho. el_heap L1 q = Some ho \<and> ho_in_use ho" if q: "q \<in> removed_by cs" for q
  proof -
    from Cons.prems(2) [of q] q obtain ho where "el_heap L q = Some ho" "ho_in_use ho"
      by (auto simp: removed_by_def)
    with grownD(2) [OF 1(3), of q ho] show ?thesis by (cases "c = LoopRemove q") auto
  qed
  from Cons.IH [OF 1(2) still] obtain L2 s2 where
    2: "exec_calls cs L1 s1 = Ret (L2, s2)" "loop_ok L2" "grown 0 (removed_by cs) L1 L2" by blast
  have "removed_by cs \<subseteq> dom (el_heap L)" using Cons.prems(2) by (fastforce simp: removed_by_def)
  moreover have "{q. c = LoopRemove q} \<union> removed_by cs = removed_by (c # cs)" by (auto simp: removed_by_def)
  ultimately have "grown 0 (removed_by (c # cs)) L L2" using grown_trans [OF 1(3) 2(3)] by simp
  with 1 2 show ?case by auto
qed

end
