(* ===== verification/Event_Loop_Safety.thy ===== *)
theory Event_Loop_Safety
  imports Event_Loop
begin

text \<open>
  What one batch of epoll events and a whole run of the loop's thread do, for handlers that remove no
  registration but their own. The reference behaviour of a batch is \<open>notify_batch\<close>: every object of the
  batch is served once, in the kernel's order, and leaves if its handler cancels or removes itself.
\<close>

section \<open>Reference behaviour\<close>

definition answer ::
    "'u loop_handler \<Rightarrow> handler_object \<Rightarrow> evtype \<Rightarrow> 'u \<Rightarrow> handler_return \<times> loop_call list \<times> 'u" where
  "answer cb ho type u =
    (if ho_handler ho = ctrl_handler
     then (if type AND EVT_ERROR = EVT_ERROR then RETURN_CANCEL else RETURN_RENEW, [], u)
     else cb (ho_handler ho) (ho_object ho) type (ho_data ho) u)"

definition serve ::
    "'u loop_handler \<Rightarrow> 'u cancel_handler \<Rightarrow> ptr \<Rightarrow> handler_object \<Rightarrow> epoll_mask \<Rightarrow> 'u \<Rightarrow> bool \<times> 'u" where
  "serve cb ccb p ho m u =
    (let type = ready_type (ho_type ho) m in
     if type = 0 then (False, u)
     else let (opt, calls, u1) = answer cb ho type u in
       if opt = RETURN_CANCEL \<or> LoopRemove p \<in> set calls
       then (True, case ho_cancel ho of None \<Rightarrow> u1 | Some c \<Rightarrow> snd (ccb c (ho_object ho) (ho_data ho) u1))
       else (False, u1))"

fun notify_batch ::
    "'u loop_handler \<Rightarrow> 'u cancel_handler \<Rightarrow> (ptr \<Rightarrow> handler_object) \<Rightarrow> (ptr \<times> epoll_mask) list \<Rightarrow> 'u \<Rightarrow>
     ptr list \<times> 'u" where
  "notify_batch cb ccb H [] u = ([], u)"
| "notify_batch cb ccb H ((p, m) # events) u =
    (let (gone, u1) = serve cb ccb p (H p) m u; (ps, u2) = notify_batch cb ccb H events u1 in
     (if gone then p # ps else ps, u2))"

text \<open>Handlers that remove at most themselves, and cancel handlers that remove nothing.\<close>

definition self_removing :: "'u loop_handler \<Rightarrow> 'u cancel_handler \<Rightarrow> ptr \<Rightarrow> handler_object \<Rightarrow> bool" where
  "self_removing cb ccb p ho \<longleftrightarrow>
    (\<forall>t u. removed_by (fst (snd (answer cb ho t u))) \<subseteq> {p})
    \<and> (\<forall>c u. removed_by (fst (ccb c (ho_object ho) (ho_data ho) u)) = {})"

definition idle_object :: "handler_object \<Rightarrow> bool" where
  "idle_object ho \<longleftrightarrow> \<not> ho_in_use ho \<and> ho_state ho = INIT"

definition loop_idle :: "event_loop \<Rightarrow> bool" where
  "loop_idle L \<longleftrightarrow> (\<forall>p ho. el_heap L p = Some ho \<longrightarrow> idle_object ho)"

text \<open>From \<open>L\<close> to \<open>L'\<close> exactly the objects in \<open>R\<close> are gone; new ones are idle.\<close>

definition served :: "nat \<Rightarrow> ptr set \<Rightarrow> event_loop \<Rightarrow> event_loop \<Rightarrow> bool" where
  "served k R L L' \<longleftrightarrow> el_next L \<le> el_next L'
    \<and> (\<forall>q ho. el_heap L q = Some ho \<longrightarrow> el_heap L' q = (if q \<in> R then None else Some ho))
    \<and> (\<forall>q ho. el_heap L' q = Some ho \<longrightarrow> el_heap L q = None \<longrightarrow> el_next L \<le> q \<and> idle_object ho)
    \<and> length (el_ctrl L) \<le> length (el_ctrl L') + k
    \<and> el_loopCount L' = el_loopCount L \<and> (el_state L' = el_state L \<or> el_state L' = STOP_REQUESTED)"

lemma served_refl [simp]: "served 0 {} L L"
  by (simp add: served_def)

lemma servedD:
  assumes "served k R L L'"
  shows "el_next L \<le> el_next L'"
    and "\<And>q ho. el_heap L q = Some ho \<Longrightarrow> el_heap L' q = (if q \<in> R then None else Some ho)"
    and "\<And>q ho. el_heap L' q = Some ho \<Longrightarrow> el_heap L q = None \<Longrightarrow> el_next L \<le> q \<and> idle_object ho"
    and "length (el_ctrl L) \<le> length (el_ctrl L') + k"
    and "el_loopCount L' = el_loopCount L" and "el_state L' = el_state L \<or> el_state L' = STOP_REQUESTED"
  using assms unfolding served_def by simp_all

lemma served_trans:
  assumes ok: "loop_ok L" and 1: "served k R L L'" and 2: "served k' R' L' L''" and R': "R' \<subseteq> dom (el_heap L)"
  shows "served (k + k') (R \<union> R') L L''"
  unfolding served_def
proof (intro conjI allI impI)
  fix q ho assume q: "el_heap L q = Some ho"
  show "el_heap L'' q = (if q \<in> R \<union> R' then None else Some ho)"
  proof (cases "q \<in> R")
    case True
    then have gone: "el_heap L' q = None" using servedD(2) [OF 1 q] by simp
    have "q < el_next L'" using loop_okD(2) [OF ok q] servedD(1) [OF 1] by simp
    then have "el_heap L'' q = None"
      using servedD(3) [OF 2 _ gone] by (cases "el_heap L'' q") auto
    with True show ?thesis by simp
  qed (use servedD(2) [OF 1 q] servedD(2) [OF 2] in auto)
next
  fix q ho assume q: "el_heap L'' q = Some ho" "el_heap L q = None"
  have "el_next L \<le> q \<and> idle_object ho"
  proof (cases "el_heap L' q")
    case (Some ho')
    moreover have "q \<notin> R'" using R' q(2) by auto
    ultimately have "ho = ho'" using servedD(2) [OF 2 Some] q(1) by simp
    with servedD(3) [OF 1 Some q(2)] show ?thesis by simp
  qed (use servedD(3) [OF 2 q(1)] servedD(1) [OF 1] in simp)
  then show "el_next L \<le> q" "idle_object ho" by simp_all
next
  show "el_next L \<le> el_next L''" using servedD(1) [OF 1] servedD(1) [OF 2] by simp
  show "length (el_ctrl L) \<le> length (el_ctrl L'') + (k + k')" using servedD(4) [OF 1] servedD(4) [OF 2] by simp
  show "el_loopCount L'' = el_loopCount L" using servedD(5) [OF 1] servedD(5) [OF 2] by simp
  show "el_state L'' = el_state L \<or> el_state L'' = STOP_REQUESTED" using servedD(6) [OF 1] servedD(6) [OF 2] by auto
qed

lemma loop_idle_served: "loop_idle L \<Longrightarrow> served k R L L' \<Longrightarrow> loop_idle L'"
  unfolding loop_idle_def
proof (intro allI impI)
  fix p ho
  assume idle: "\<forall>p ho. el_heap L p = Some ho \<longrightarrow> idle_object ho" and s: "served k R L L'" and p: "el_heap L' p = Some ho"
  show "idle_object ho"
  proof (cases "el_heap L p")
    case (Some ho')
    with servedD(2) [OF s Some] p have "ho' = ho" by (auto split: if_splits)
    with idle Some show ?thesis by auto
  qed (use servedD(3) [OF s p] in simp)
qed

lemma grown_served: "grown k {} L L' \<Longrightarrow> served k {} L L'"
  by (auto simp: grown_def served_def idle_object_def)

section \<open>One event\<close>

definition is_ctrl :: "handler_object \<Rightarrow> nat" where
  "is_ctrl ho = (if ho_handler ho = ctrl_handler then 1 else 0)"

lemma run_handler_outcome:
  assumes ok: "loop_ok L" and p: "el_heap L p = Some ho2" "ho_in_use ho2"
    and ctrl: "ho_handler ho = ctrl_handler \<Longrightarrow> el_ctrl L \<noteq> []"
    and polite: "removed_by (fst (snd (answer cb ho t u))) \<subseteq> {p}"
    and ans: "answer cb ho t u = (opt, calls, u')"
  shows "\<exists>L' s'. run_handler cb ho t L s u = Ret (opt, L', s', u') \<and> loop_ok L'
    \<and> grown (is_ctrl ho) (removed_by calls) L L'"
proof (cases "ho_handler ho = ctrl_handler")
  case True
  then obtain x xs where "el_ctrl L = x # xs" using ctrl by (cases "el_ctrl L") auto
  with True ok ans show ?thesis
    by (auto simp: run_handler_def CtrlEventHandler_def answer_def grown_def removed_by_def is_ctrl_def
        loop_ok_def split: if_splits)
next
  case False
  with ans have cb: "cb (ho_handler ho) (ho_object ho) t (ho_data ho) u = (opt, calls, u')"
    by (simp add: answer_def)
  have "\<exists>ho'. el_heap L q = Some ho' \<and> ho_in_use ho'" if "q \<in> removed_by calls" for q
    using that polite p by (auto simp: ans)
  from exec_calls_grown [OF ok this] obtain L' s' where
    "exec_calls calls L s = Ret (L', s')" "loop_ok L'" "grown 0 (removed_by calls) L L'" by blast
  with False cb show ?thesis by (auto simp: run_handler_def is_ctrl_def)
qed

lemma served_after_removal:
  assumes ok: "loop_ok L" and p: "el_heap L p = Some item" "idle_object item"
    and g: "grown k R (set_item p (item\<lparr>ho_in_use := True\<rparr>) L) L1" and R: "R \<subseteq> {p}"
    and g2: "grown 0 {} (L1\<lparr>el_heap := (el_heap L1)(p := None), el_interest := I\<rparr>) L2"
  shows "served k {p} L L2"
  unfolding served_def
proof (intro conjI allI impI)
  let ?Lb = "set_item p (item\<lparr>ho_in_use := True\<rparr>) L"
  let ?L1 = "L1\<lparr>el_heap := (el_heap L1)(p := None), el_interest := I\<rparr>"
  have nx: "el_next L \<le> el_next L1" using grownD(1) [OF g] by (simp add: set_item_def)
  show "el_next L \<le> el_next L2" using nx grownD(1) [OF g2] by simp
  show "length (el_ctrl L) \<le> length (el_ctrl L2) + k"
    using grownD(4) [OF g] grownD(4) [OF g2] by (simp add: set_item_def)
  show "el_loopCount L2 = el_loopCount L" using grownD(5) [OF g] grownD(5) [OF g2] by (simp add: set_item_def)
  show "el_state L2 = el_state L \<or> el_state L2 = STOP_REQUESTED"
    using grownD(6) [OF g] grownD(6) [OF g2] by (auto simp: set_item_def)
  fix q ho
  {
    assume q: "el_heap L q = Some ho"
    show "el_heap L2 q = (if q \<in> {p} then None else Some ho)"
    proof (cases "q = p")
      case True
      have "q < el_next ?L1" using loop_okD(2) [OF ok q] nx by simp
      then show ?thesis using grownD(3) [OF g2, of q] True by (cases "el_heap L2 q") auto
    next
      case False
      then have "el_heap L1 q = Some ho" using grownD(2) [OF g, of q ho] q R by (auto simp: set_item_def)
      then show ?thesis using grownD(2) [OF g2, of q ho] False by simp
    qed
  next
    assume q: "el_heap L2 q = Some ho" "el_heap L q = None"
    have "q \<noteq> p" using p q(2) by auto
    have "el_next L \<le> q \<and> idle_object ho"
    proof (cases "el_heap L1 q")
      case None
      then have "el_heap ?L1 q = None" by simp
      with grownD(3) [OF g2 q(1)] nx show ?thesis by (simp add: idle_object_def)
    next
      case (Some ho')
      then have "ho = ho'" using grownD(2) [OF g2, of q ho'] q(1) \<open>q \<noteq> p\<close> by simp
      then show ?thesis using grownD(3) [OF g Some] q(2) \<open>q \<noteq> p\<close> by (simp add: set_item_def idle_object_def)
    qed
    then show "el_next L \<le> q" "idle_object ho" by simp_all
  }
qed

lemma served_weaken: "served k R L L' \<Longrightarrow> k \<le> k' \<Longrightarrow> served k' R L L'"
  by (auto simp: served_def)

lemma served_kept:
  assumes p: "el_heap L p = Some item" "idle_object item"
    and g: "grown k {} (set_item p (item\<lparr>ho_in_use := True\<rparr>) L) L1"
  shows "served k {} L (set_item p item L1)"
proof -
  have "el_heap L1 q = Some ho" if "el_heap L q = Some ho" "q \<noteq> p" for q ho
    using grownD(2) [OF g, of q ho] that by (simp add: set_item_def)
  moreover have "el_next L \<le> q \<and> idle_object ho" if "el_heap L1 q = Some ho" "el_heap L q = None" for q ho
  proof -
    have "q \<noteq> p" using p(1) that(2) by auto
    then show ?thesis using grownD(3) [OF g that(1)] that(2) by (simp add: set_item_def idle_object_def)
  qed
  ultimately show ?thesis
    using p grownD(1,4,5,6) [OF g] by (auto simp: served_def set_item_def)
qed

lemma process_event_outcome:
  assumes ok: "loop_ok L" and p: "el_heap L p = Some item" "idle_object item"
    and ctrl: "ho_handler item = ctrl_handler \<Longrightarrow> el_ctrl L \<noteq> []"
    and polite: "self_removing cb ccb p item"
    and sv: "serve cb ccb p item m u = (gone, u')"
  shows "\<exists>L' s'. process_event cb ccb p m L s u = Ret (L', s', u') \<and> loop_ok L'
    \<and> served (is_ctrl item) (if gone then {p} else {}) L L'"
proof (cases "ready_type (ho_type item) m = 0")
  case True
  with sv p ok show ?thesis
    by (auto simp: process_event_def serve_def intro: served_weaken [OF served_refl])
next
  case False
  let ?t = "ready_type (ho_type item) m"
  let ?Lb = "set_item p (item\<lparr>ho_in_use := True\<rparr>) L"
  obtain opt calls u1 where ans: "answer cb item ?t u = (opt, calls, u1)" by (metis prod_cases3)
  have okb: "loop_ok ?Lb" using loop_okD(2) [OF ok p(1)] by (intro loop_ok_set_item [OF ok p(1)]) simp_all
  have R: "removed_by calls \<subseteq> {p}" using polite ans unfolding self_removing_def by (metis fst_conv snd_conv)
  have run: "\<exists>L' s'. run_handler cb item ?t ?Lb s u = Ret (opt, L', s', u1) \<and> loop_ok L'
      \<and> grown (is_ctrl item) (removed_by calls) ?Lb L'"
    by (rule run_handler_outcome [OF okb, of p "item\<lparr>ho_in_use := True\<rparr>"])
      (use ctrl R ans in \<open>simp_all add: set_item_def\<close>)
  from run obtain L1 s1 where 1: "run_handler cb item ?t ?Lb s u = Ret (opt, L1, s1, u1)" "loop_ok L1"
    "grown (is_ctrl item) (removed_by calls) ?Lb L1" by blast
  define item1 where "item1 = (if p \<in> removed_by calls then item\<lparr>ho_in_use := True, ho_state := DELETE\<rparr>
    else item\<lparr>ho_in_use := True\<rparr>)"
  have item1: "el_heap L1 p = Some item1"
    using grownD(2) [OF 1(3), of p] by (simp add: set_item_def item1_def)
  have fields: "ho_object item1 = ho_object item" "ho_data item1 = ho_data item" "ho_fd item1 = ho_fd item"
      "ho_type item1 = ho_type item" "ho_cancel item1 = ho_cancel item"
    by (simp_all add: item1_def)
  have gone: "gone \<longleftrightarrow> opt = RETURN_CANCEL \<or> ho_state item1 = DELETE"
    using sv False ans p(2) by (auto simp: serve_def item1_def removed_by_def idle_object_def split: if_splits)
  have pe: "process_event cb ccb p m L s u =
      (if gone then
        let item2 = item1\<lparr>ho_state := DELETE, ho_in_use := False\<rparr>;
            (_, L2, s2) = RemoveHandlerObject p item2 (set_item p item2 L1) s1 in
        (case ho_cancel item1 of
          None \<Rightarrow> Ret (L2, s2, u1)
        | Some c \<Rightarrow>
            (case ccb c (ho_object item1) (ho_data item1) u1 of
              (calls, u2) \<Rightarrow> obind (exec_calls calls L2 s2) (\<lambda>(L3, s3). Ret (L3, s3, u2))))
      else Ret (set_item p (item1\<lparr>ho_in_use := False\<rparr>) L1, s1, u1))"
    using p False 1(1) item1 gone by (simp add: process_event_def Let_def idle_object_def)
  show ?thesis
  proof (cases gone)
    case kept: False
    then have nr: "removed_by calls = {}" using R gone by (auto simp: item1_def split: if_splits)
    have same: "item1\<lparr>ho_in_use := False\<rparr> = item" using p(2) by (simp add: idle_object_def item1_def nr)
    have "u' = u1" using sv ans kept False by (auto simp: serve_def split: if_splits)
    moreover have "loop_ok (set_item p item L1)"
      using loop_okD(2) [OF ok p(1)] fields by (intro loop_ok_set_item [OF 1(2) item1]) simp_all
    moreover have "served (is_ctrl item) {} L (set_item p item L1)"
      using served_kept [OF p] 1(3) by (simp add: nr)
    ultimately show ?thesis using pe kept same by simp
  next
    case True
    let ?fd = "ho_fd item1"
    let ?L2 = "L1\<lparr>el_heap := (el_heap L1)(p := None), el_interest := (el_interest L1)(?fd := None)\<rparr>"
    have ok2: "loop_ok ?L2" by (rule loop_ok_remove [OF 1(2) item1])
    have "el_interest L1 ?fd \<noteq> None" using loop_okD(2) [OF 1(2) item1] by simp
    then have rm: "RemoveHandlerObject p (item1\<lparr>ho_state := DELETE, ho_in_use := False\<rparr>)
        (set_item p (item1\<lparr>ho_state := DELETE, ho_in_use := False\<rparr>) L1) s1 = (0, ?L2, os_delete s1)"
      by (auto simp: RemoveHandlerObject_def epoll_ctl_del_def set_item_def)
    define calls2 where "calls2 = (case ho_cancel item of None \<Rightarrow> [] | Some c \<Rightarrow> fst (ccb c (ho_object item) (ho_data item) u1))"
    have "removed_by calls2 = {}"
      using polite by (auto simp: calls2_def self_removing_def removed_by_def split: option.splits)
    then obtain L3 s3 where 3: "exec_calls calls2 ?L2 (os_delete s1) = Ret (L3, s3)" "loop_ok L3" "grown 0 {} ?L2 L3"
      using exec_calls_grown [OF ok2, of calls2 "os_delete s1"] by auto
    have u': "u' = (case ho_cancel item of None \<Rightarrow> u1 | Some c \<Rightarrow> snd (ccb c (ho_object item) (ho_data item) u1))"
      using sv ans True False by (auto simp: serve_def split: if_splits)
    have "process_event cb ccb p m L s u = Ret (L3, s3, u')"
      using True 3(1) u' fields unfolding pe
      by (auto simp: Let_def calls2_def rm split: option.splits prod.splits)
    moreover have "served (is_ctrl item) {p} L L3"
      by (rule served_after_removal [OF ok p 1(3) R 3(3)])
    ultimately show ?thesis using 3(2) True by auto
  qed
qed

section \<open>A batch of events\<close>

text \<open>
  A batch as the kernel reports it: live objects, each at most once; \<open>H\<close> gives the objects. There is a
  message in the control socket for every event of the control handler.
\<close>

definition batch_ok :: "(ptr \<Rightarrow> handler_object) \<Rightarrow> (ptr \<times> epoll_mask) list \<Rightarrow> event_loop \<Rightarrow> bool" where
  "batch_ok H events L \<longleftrightarrow> distinct (map fst events)
    \<and> (\<forall>p \<in> set (map fst events). el_heap L p = Some (H p) \<and> idle_object (H p))
    \<and> sum_list (map (\<lambda>(p, m). is_ctrl (H p)) events) \<le> length (el_ctrl L)"

lemma process_events_outcome:
  assumes "loop_ok L" and "batch_ok H events L" and "\<forall>p \<in> set (map fst events). self_removing cb ccb p (H p)"
    and "notify_batch cb ccb H events u = (R, u')"
  shows "\<exists>L' s' k. process_events cb ccb events ret L s u = Ret (ret, L', s', u') \<and> loop_ok L'
    \<and> set R \<subseteq> set (map fst events) \<and> served k (set R) L L'"
  using assms
proof (induction events arbitrary: L s u R)
  case Nil
  then have "served 0 (set R) L L" by simp
  with Nil show ?case by (auto intro!: exI [of _ 0])
next
  case (Cons e events)
  obtain p m where e: "e = (p, m)" by (cases e)
  let ?item = "H p"
  have p: "el_heap L p = Some ?item" "idle_object ?item" and fresh: "p \<notin> set (map fst events)"
    using Cons.prems(2) by (auto simp: batch_ok_def e)
  have ctrl: "el_ctrl L \<noteq> []" if "ho_handler ?item = ctrl_handler"
    using Cons.prems(2) that by (auto simp: batch_ok_def e is_ctrl_def)
  obtain gone u1 where sv: "serve cb ccb p ?item m u = (gone, u1)" by (cases "serve cb ccb p ?item m u")
  obtain R1 where nb: "notify_batch cb ccb H events u1 = (R1, u')" and R: "R = (if gone then p # R1 else R1)"
    using Cons.prems(4) sv by (auto simp: e split: prod.splits)
  have "self_removing cb ccb p ?item" using Cons.prems(3) by (simp add: e)
  from process_event_outcome [OF Cons.prems(1) p ctrl this sv] obtain L1 s1 where
    1: "process_event cb ccb p m L s u = Ret (L1, s1, u1)" "loop_ok L1"
      "served (is_ctrl ?item) (if gone then {p} else {}) L L1" by blast
  have keep: "el_heap L1 q = Some (H q)" if "q \<in> set (map fst events)" for q
  proof -
    have "el_heap L q = Some (H q)" using Cons.prems(2) that by (auto simp: batch_ok_def e)
    moreover have "q \<noteq> p" using fresh that by blast
    ultimately show ?thesis using servedD(2) [OF 1(3), of q "H q"] by (cases gone) simp_all
  qed
  have "batch_ok H events L1"
    using Cons.prems(2) keep servedD(4) [OF 1(3)] by (auto simp: batch_ok_def e)
  from Cons.IH [OF 1(2) this _ nb, of s1] Cons.prems(3) obtain L2 s2 k where
    2: "process_events cb ccb events ret L1 s1 u1 = Ret (ret, L2, s2, u')" "loop_ok L2"
      "set R1 \<subseteq> set (map fst events)" "served k (set R1) L1 L2" by auto
  have "set (map fst events) \<subseteq> dom (el_heap L)" using Cons.prems(2) by (force simp: batch_ok_def e)
  then have "set R1 \<subseteq> dom (el_heap L)" using 2(3) by blast
  from served_trans [OF Cons.prems(1) 1(3) 2(4) this]
  have "served (is_ctrl ?item + k) (set R) L L2" by (simp add: R split: if_splits)
  moreover have "p \<noteq> nullptr" using loop_okD(2) [OF Cons.prems(1) p(1)] by simp
  ultimately show ?case using 1 2 R by (auto simp: e)
qed

text \<open>
  C5. One batch of events. For a consistent, idle loop and a batch as the kernel reports it, when handlers
  remove at most themselves (they may add objects, stop the loop and change the stop handler), \<open>WaitEpoll\<close> stays within
  defined behaviour and returns the number of events; the handlers run exactly as in the reference
  \<open>notify_batch\<close>; exactly the objects that cancelled or removed themselves are gone from the heap and from
  epoll's interest list; and the loop is consistent and idle again.
\<close>

theorem WaitEpoll_serves_batch:
  assumes "loop_ok L" and "loop_idle L" and "batch_ok H events L"
    and "\<forall>p \<in> set (map fst events). self_removing cb ccb p (H p)"
  shows "\<exists>L' s'. WaitEpoll cb ccb (EpollEvents events) L s u
      = Ret (int (length events), L', s', snd (notify_batch cb ccb H events u))
    \<and> loop_ok L' \<and> loop_idle L'
    \<and> (\<forall>p ho. el_heap L p = Some ho \<longrightarrow>
        el_heap L' p = (if p \<in> set (fst (notify_batch cb ccb H events u)) then None else Some ho))"
proof -
  obtain R u' where nb: "notify_batch cb ccb H events u = (R, u')" by fastforce
  from process_events_outcome [OF assms(1,3,4) nb] obtain L' s' k where
    "process_events cb ccb events (int (length events)) L s u = Ret (int (length events), L', s', u')"
    "loop_ok L'" and sv: "served k (set R) L L'" by blast
  moreover have "loop_idle L'" by (rule loop_idle_served [OF assms(2) sv])
  ultimately show ?thesis using servedD(2) [OF sv] nb by (auto simp: WaitEpoll_def)
qed

section \<open>The thread function\<close>

text \<open>Calls and events leave the table of descriptors alone.\<close>

lemma exec_call_fds: "exec_call c L s = Ret (L', s') \<Longrightarrow> open_fds s' = open_fds s \<and> next_fd s' = next_fd s"
  by (cases c)
    (auto simp: AddEventHandler_def AddEventHandlerInternal_def epoll_ctl_add_def RemoveEventHandler_def
      RemoveHandlerObject_def StopLoop_def SetStopHandler_def os_new_def os_call_def Let_def obind_eq_Ret
      split: if_splits option.splits prod.splits)

lemma exec_calls_fds: "exec_calls cs L s = Ret (L', s') \<Longrightarrow> open_fds s' = open_fds s \<and> next_fd s' = next_fd s"
  by (induction cs arbitrary: L s) (auto simp: obind_eq_Ret dest!: exec_call_fds)

lemma run_handler_fds:
  "run_handler cb ho t L s u = Ret (opt, L', s', u') \<Longrightarrow> open_fds s' = open_fds s \<and> next_fd s' = next_fd s"
  by (auto simp: run_handler_def obind_eq_Ret split: if_splits prod.splits dest!: exec_calls_fds)

lemma RemoveHandlerObject_fds:
  "RemoveHandlerObject p ho L s = (r, L', s') \<Longrightarrow> open_fds s' = open_fds s \<and> next_fd s' = next_fd s"
  by (auto simp: RemoveHandlerObject_def split: if_splits prod.splits)

lemma process_event_fds:
  assumes "process_event cb ccb p m L s u = Ret (L', s', u')"
  shows "open_fds s' = open_fds s \<and> next_fd s' = next_fd s"
proof (cases "el_heap L p")
  case (Some item)
  let ?t = "ready_type (ho_type item) m"
  show ?thesis
  proof (cases "?t = 0 \<or> ho_in_use item")
    case False
    then obtain opt L1 s1 u1 where
      1: "run_handler cb item ?t (set_item p (item\<lparr>ho_in_use := True\<rparr>) L) s u = Ret (opt, L1, s1, u1)"
      using assms Some by (auto simp: process_event_def Let_def obind_eq_Ret)
    then obtain item1 where item1: "el_heap L1 p = Some item1"
      using assms Some False by (auto simp: process_event_def Let_def split: option.splits)
    let ?item2 = "item1\<lparr>ho_state := DELETE, ho_in_use := False\<rparr>"
    obtain r L2 s2 where 2: "RemoveHandlerObject p ?item2 (set_item p ?item2 L1) s1 = (r, L2, s2)"
      by (metis prod_cases3)
    have "s' = s1 \<or> s' = s2 \<or> (\<exists>calls L3. exec_calls calls L2 s2 = Ret (L3, s'))"
      using assms Some False 1 item1 2
      by (auto simp: process_event_def Let_def obind_eq_Ret split: if_splits option.splits prod.splits)
    then show ?thesis
      using run_handler_fds [OF 1] RemoveHandlerObject_fds [OF 2] exec_calls_fds by fastforce
  qed (use assms Some in \<open>auto simp: process_event_def\<close>)
qed (use assms in \<open>simp add: process_event_def\<close>)

lemma process_events_fds:
  "process_events cb ccb es ret L s u = Ret (r, L', s', u') \<Longrightarrow> open_fds s' = open_fds s \<and> next_fd s' = next_fd s"
proof (induction es arbitrary: L s u)
  case (Cons e es)
  show ?case
  proof (cases "fst e = nullptr")
    case True
    with Cons.prems show ?thesis by (cases e) simp
  next
    case False
    with Cons.prems obtain L1 s1 u1 where
      "process_event cb ccb (fst e) (snd e) L s u = Ret (L1, s1, u1)"
      "process_events cb ccb es ret L1 s1 u1 = Ret (r, L', s', u')"
      by (cases e) (auto simp: obind_eq_Ret)
    with process_event_fds [of cb ccb] Cons.IH show ?thesis by metis
  qed
qed simp

lemma process_events_signal:
  "process_events cb ccb es ret L s u = process_events cb ccb (takeWhile (\<lambda>e. fst e \<noteq> nullptr) es)
    (if nullptr \<in> set (map fst es) then - EINTR else ret) L s u"
proof (induction es arbitrary: L s u)
  case (Cons e es)
  have "process_events cb ccb es ret = process_events cb ccb (takeWhile (\<lambda>e. fst e \<noteq> nullptr) es)
    (if nullptr \<in> set (map fst es) then - EINTR else ret)"
    by (intro ext) (rule Cons.IH)
  then show ?case by (cases e) (auto simp: image_iff)
qed simp

text \<open>Stopping is not undone by later calls.\<close>

lemma exec_calls_stop:
  assumes "loop_ok L" and "removed_by calls = {}" and "LoopStop \<in> set calls \<or> el_state L = STOP_REQUESTED"
    and "exec_calls calls L s = Ret (L', s')"
  shows "el_state L' = STOP_REQUESTED"
  using assms
proof (induction calls arbitrary: L s)
  case (Cons c cs)
  have allowed: "\<exists>ho. el_heap L q = Some ho \<and> ho_in_use ho" if "c = LoopRemove q" for q
    using Cons.prems(2) that by (auto simp: removed_by_def)
  from exec_call_grown [OF Cons.prems(1) allowed, where s = s] obtain L1 s1 where
    1: "exec_call c L s = Ret (L1, s1)" "loop_ok L1" "grown 0 {q. c = LoopRemove q} L L1" by blast
  with Cons.prems(4) have 2: "exec_calls cs L1 s1 = Ret (L', s')" by simp
  have "LoopStop \<in> set cs \<or> el_state L1 = STOP_REQUESTED"
  proof (cases "c = LoopStop")
    case True
    then have "el_state L1 = STOP_REQUESTED" using 1(1)
      by (cases "el_state L") (auto simp: StopLoop_def Let_def split: prod.splits if_splits)
    then show ?thesis by simp
  next
    case False
    then show ?thesis using Cons.prems(3) grownD(6) [OF 1(3)] by auto
  qed
  moreover have "removed_by cs = {}" using Cons.prems(2) by (auto simp: removed_by_def)
  ultimately show ?case using Cons.IH [OF 1(2) _ _ 2] by blast
qed simp

text \<open>
  What one turn may bring: other threads add objects, stop the loop or set the stop handler, and the kernel
  answers with a batch of live objects (cut short by a signal), a timeout or an error other than EINTR.
\<close>

definition answer_ok :: "epoll_result \<Rightarrow> event_loop \<Rightarrow> bool" where
  "answer_ok r L \<longleftrightarrow>
    (case r of
      EpollError e \<Rightarrow> int e \<noteq> EINTR \<and> int e \<noteq> ETIMEDOUT
    | EpollTimeout \<Rightarrow> True
    | EpollEvents es \<Rightarrow> batch_ok (the \<circ> el_heap L) (takeWhile (\<lambda>e. fst e \<noteq> nullptr) es) L)"

definition turn_ok :: "loop_turn \<Rightarrow> bool" where
  "turn_ok turn \<longleftrightarrow> removed_by (fst turn) = {} \<and> (\<forall>L. loop_ok L \<longrightarrow> loop_idle L \<longrightarrow> answer_ok (snd turn L) L)"

definition no_removal :: "'u loop_handler \<Rightarrow> 'u cancel_handler \<Rightarrow> bool" where
  "no_removal cb ccb \<longleftrightarrow>
    (\<forall>h obj t d u. removed_by (fst (snd (cb h obj t d u))) = {}) \<and> (\<forall>c obj d u. removed_by (fst (ccb c obj d u)) = {})"

lemma no_removal_self: "no_removal cb ccb \<Longrightarrow> self_removing cb ccb p ho"
  by (auto simp: no_removal_def self_removing_def answer_def removed_by_def)

lemma WaitEpoll_returns:
  assumes ok: "loop_ok L" "loop_idle L" and nr: "no_removal cb ccb" and r: "answer_ok r L"
  shows "\<exists>ret L' s' u'. WaitEpoll cb ccb r L s u = Ret (ret, L', s', u') \<and> loop_ok L' \<and> loop_idle L'
    \<and> (ret = - EINTR \<longrightarrow> signal_pending r) \<and> el_loopCount L' = el_loopCount L
    \<and> (el_state L' = el_state L \<or> el_state L' = STOP_REQUESTED)"
proof (cases r)
  case (EpollEvents es)
  let ?es = "takeWhile (\<lambda>e. fst e \<noteq> nullptr) es"
  let ?ret = "if nullptr \<in> set (map fst es) then - EINTR else int (length es)"
  obtain R u' where nb: "notify_batch cb ccb (the \<circ> el_heap L) ?es u = (R, u')" by fastforce
  have "batch_ok (the \<circ> el_heap L) ?es L" using r EpollEvents by (simp add: answer_ok_def)
  from process_events_outcome [OF ok(1) this _ nb, of ?ret s] no_removal_self [OF nr] obtain L' s' k where
    L': "process_events cb ccb ?es ?ret L s u = Ret (?ret, L', s', u')" "loop_ok L'" "served k (set R) L L'" by blast
  have "?ret = - EINTR \<longrightarrow> signal_pending r" by (auto simp: EpollEvents signal_pending_def errno_defs)
  with L' loop_idle_served [OF ok(2) L'(3)] servedD(5,6) [OF L'(3)] show ?thesis
    by (simp add: WaitEpoll_def EpollEvents process_events_signal [of cb ccb es])
qed (use ok r in \<open>auto simp: WaitEpoll_def answer_ok_def errno_defs\<close>)

lemma loop_turns_return:
  assumes "loop_ok L" and "loop_idle L" and "no_removal cb ccb" and "\<forall>turn \<in> set script. turn_ok turn"
    and "el_state L \<noteq> STARTED \<or> (0 \<le> el_loopCount L \<and> el_loopCount L \<le> int (length script))
      \<or> (\<exists>turn \<in> set script. LoopStop \<in> set (fst turn))"
  shows "\<exists>ret' L' s' u'. loop_turns cb ccb signal_fd script ret L s u = Ret (ret', L', s', u')
    \<and> ret' \<in> {ret, 0, - ETIMEDOUT}"
  using assms
proof (induction script arbitrary: ret L s u)
  case Nil
  then show ?case by (auto simp: loop_turns.simps [of cb ccb signal_fd "[]"])
next
  case (Cons turn rest)
  obtain calls r where turn: "turn = (calls, r)" by (cases turn)
  show ?case
  proof (cases "el_state L \<noteq> STARTED \<or> el_loopCount L = 0")
    case True
    then show ?thesis by (auto simp: loop_turns.simps [of cb ccb signal_fd "turn # rest"])
  next
    case False
    define L0 where "L0 = (if 0 < el_loopCount L then L\<lparr>el_loopCount := el_loopCount L - 1\<rparr> else L)"
    have 0: "loop_ok L0" "loop_idle L0" using Cons.prems(1,2) by (simp_all add: L0_def loop_ok_def loop_idle_def)
    have t: "removed_by calls = {}" "\<And>L. loop_ok L \<Longrightarrow> loop_idle L \<Longrightarrow> answer_ok (r L) L"
      using Cons.prems(4) by (auto simp: turn_ok_def turn)
    from exec_calls_grown [OF 0(1), of calls s] t(1) obtain L1 s1 where
      1: "exec_calls calls L0 s = Ret (L1, s1)" "loop_ok L1" "grown 0 {} L0 L1" by auto
    have idle1: "loop_idle L1"
      by (rule loop_idle_served [OF 0(2) grown_served [OF 1(3)]])
    obtain ret2 L2 s2 u2 where
      2: "WaitEpoll cb ccb (r L1) L1 s1 u = Ret (ret2, L2, s2, u2)" "loop_ok L2" "loop_idle L2"
        "ret2 = - EINTR \<longrightarrow> signal_pending (r L1)" "el_loopCount L2 = el_loopCount L1"
        "el_state L2 = el_state L1 \<or> el_state L2 = STOP_REQUESTED"
      using WaitEpoll_returns [OF 1(2) idle1 Cons.prems(3) t(2) [OF 1(2) idle1], of s1 u] by blast
    have step: "loop_turns cb ccb signal_fd (turn # rest) ret L s u =
        (if ret2 = - ETIMEDOUT then Ret (ret2, L2, s2, u2) else loop_turns cb ccb signal_fd rest 0 L2 s2 u2)"
      using False 1(1) 2(1,4)
      by (auto simp: turn loop_turns.simps [of cb ccb signal_fd "(calls, r) # rest"] L0_def [symmetric] Let_def)
    have "el_state L2 \<noteq> STARTED \<or> (0 \<le> el_loopCount L2 \<and> el_loopCount L2 \<le> int (length rest))
      \<or> (\<exists>turn \<in> set rest. LoopStop \<in> set (fst turn))"
    proof -
      have count: "el_loopCount L2 = el_loopCount L0" using 2(5) grownD(5) [OF 1(3)] by simp
      consider "0 < el_loopCount L" "el_loopCount L \<le> int (length rest) + 1" | "LoopStop \<in> set calls"
        | "\<exists>turn \<in> set rest. LoopStop \<in> set (fst turn)"
        using Cons.prems(5) False by (auto simp: turn)
      then show ?thesis
      proof cases
        case 1
        then show ?thesis by (simp add: count) (simp add: L0_def)
      next
        case 2
        then have "el_state L1 = STOP_REQUESTED" using exec_calls_stop [OF 0(1) t(1) _ 1(1)] by simp
        with \<open>el_state L2 = el_state L1 \<or> el_state L2 = STOP_REQUESTED\<close> show ?thesis by auto
      qed simp
    qed
    from Cons.IH [OF 2(2,3) Cons.prems(3) _ this, of 0 s2 u2] Cons.prems(4)
    show ?thesis by (auto simp: step)
  qed
qed

lemma loop_turns_fds:
  "loop_turns cb ccb fd script ret L s u = Ret (r, L', s', u') \<Longrightarrow> open_fds s' = open_fds s \<and> next_fd s' = next_fd s"
proof (induction script arbitrary: ret L s u)
  case Nil
  then show ?case by (simp add: loop_turns.simps [of cb ccb fd "[]"] split: if_splits)
next
  case (Cons turn rest)
  obtain calls a where turn: "turn = (calls, a)" by (cases turn)
  show ?case
  proof (cases "el_state L \<noteq> STARTED \<or> el_loopCount L = 0")
    case True
    with Cons.prems show ?thesis by (auto simp: loop_turns.simps [of cb ccb fd "turn # rest"])
  next
    case False
    let ?L0 = "if 0 < el_loopCount L then L\<lparr>el_loopCount := el_loopCount L - 1\<rparr> else L"
    obtain L1 s1 r2 L2 s2 u2 where
      1: "exec_calls calls ?L0 s = Ret (L1, s1)" and
      2: "WaitEpoll cb ccb (a L1) L1 s1 u = Ret (r2, L2, s2, u2)" and
      3: "s' = s2 \<or> loop_turns cb ccb fd rest 0 L2 s2 u2 = Ret (r, L', s', u')"
      using Cons.prems False
      by (auto simp: turn loop_turns.simps [of cb ccb fd "(calls, a) # rest"] Let_def obind_eq_Ret split: if_splits)
    from 2 have "open_fds s2 = open_fds s1 \<and> next_fd s2 = next_fd s1"
      by (auto simp: WaitEpoll_def split: epoll_result.splits dest!: process_events_fds)
    with exec_calls_fds [OF 1] 3 Cons.IH show ?thesis by auto
  qed
qed

lemma loop_ok_signal:
  assumes ok: "loop_ok L" and none: "el_interest L fd = None"
  shows "loop_ok (L\<lparr>el_interest := (el_interest L)(fd \<mapsto> (0, m))\<rparr>)"
proof (rule loop_okI)
  fix p ho assume "el_heap (L\<lparr>el_interest := (el_interest L)(fd \<mapsto> (0, m))\<rparr>) p = Some ho"
  then have "el_heap L p = Some ho" by simp
  moreover from loop_okD(2) [OF ok this] none have "ho_fd ho \<noteq> fd" by auto
  ultimately show "0 < p \<and> p < el_next (L\<lparr>el_interest := (el_interest L)(fd \<mapsto> (0, m))\<rparr>) \<and> 0 < ho_object ho
      \<and> ho_state ho \<noteq> DELETED
      \<and> el_interest (L\<lparr>el_interest := (el_interest L)(fd \<mapsto> (0, m))\<rparr>) (ho_fd ho) = Some (p, epoll_events (ho_type ho))"
    using loop_okD(2) [OF ok] by simp
qed (use loop_okD [OF ok] in \<open>auto split: if_splits\<close>)

lemma turns_from_start:
  assumes L3: "L3 = L \<or> (\<exists>I. L3 = L\<lparr>el_interest := I\<rparr>)" "loop_ok L3" and idle: "loop_idle L"
    and nr: "no_removal cb ccb" and turns: "\<forall>turn \<in> set script. turn_ok turn"
    and ends: "(0 < el_loopCount L \<and> el_loopCount L \<le> int (length script)) \<or> (\<exists>turn \<in> set script. LoopStop \<in> set (fst turn))"
  shows "\<exists>ret' L5 s5 u5. loop_turns cb ccb fd script 0
      (if el_state L3 = START_REQUESTED then L3\<lparr>el_state := STARTED\<rparr> else L3) s3 u = Ret (ret', L5, s5, u5)
      \<and> open_fds s5 = open_fds s3"
proof -
  let ?L = "if el_state L3 = START_REQUESTED then L3\<lparr>el_state := STARTED\<rparr> else L3"
  have "loop_ok ?L" "loop_idle ?L" using L3 idle by (auto simp: loop_ok_def loop_idle_def)
  moreover have "el_state ?L \<noteq> STARTED \<or> (0 \<le> el_loopCount ?L \<and> el_loopCount ?L \<le> int (length script))
      \<or> (\<exists>turn \<in> set script. LoopStop \<in> set (fst turn))"
    using ends L3(1) by auto
  ultimately obtain ret' L5 s5 u5 where "loop_turns cb ccb fd script 0 ?L s3 u = Ret (ret', L5, s5, u5)"
    using loop_turns_return [OF _ _ nr turns] by blast
  with loop_turns_fds [OF this] show ?thesis by blast
qed


section \<open>Concrete loops\<close>

definition ex_item :: "nat \<Rightarrow> int \<Rightarrow> handler_object" where
  "ex_item h fd = \<lparr>ho_object = 1, ho_fd = fd, ho_type = EVT_READ, ho_data = 0, ho_handler = h, ho_cancel = None,
    ho_state = INIT, ho_in_use = False\<rparr>"

definition ex_loop :: event_loop where
  "ex_loop = EventLoop_new\<lparr>el_next := 4, el_heap := [1 \<mapsto> ex_item 5 8, 2 \<mapsto> ex_item 6 9, 3 \<mapsto> ex_item 7 10],
    el_interest := [8 \<mapsto> (1, epoll_events EVT_READ), 9 \<mapsto> (2, epoll_events EVT_READ), 10 \<mapsto> (3, epoll_events EVT_READ)],
    el_state := START_REQUESTED, el_epollWaitSize := 10, el_loopCount := 2\<rparr>"

definition ex_readable :: epoll_mask where
  "ex_readable = \<lparr>em_in = True, em_out = False, em_err = False\<rparr>"

definition ex_batch :: "(ptr \<times> epoll_mask) list" where
  "ex_batch = [(1, ex_readable), (3, ex_readable)]"

text \<open>Handler 5 cancels; the others stay. The state is the log of the handlers that ran.\<close>

definition ex_cb :: "nat list loop_handler" where
  "ex_cb h obj type d u = (if h = 5 then RETURN_CANCEL else RETURN_RENEW, [], u @ [h])"

definition ex_ccb :: "nat list cancel_handler" where
  "ex_ccb c obj d u = ([], u)"

lemma ex_loop_ok: "loop_ok ex_loop" "loop_idle ex_loop"
  by (auto simp: loop_ok_def loop_idle_def ex_loop_def ex_item_def EventLoop_new_def idle_object_def split: if_splits)

lemma ex_cb_no_removal: "no_removal ex_cb ex_ccb"
  by (simp add: no_removal_def ex_cb_def ex_ccb_def removed_by_def)

lemma ex_batch_ok: "batch_ok (the \<circ> el_heap ex_loop) ex_batch ex_loop"
  by (simp add: batch_ok_def ex_batch_def ex_loop_def ex_item_def idle_object_def is_ctrl_def ctrl_handler_def
      EventLoop_new_def)

lemma WaitEpoll_serves_batch_witness:
  "\<exists>L' s'. WaitEpoll ex_cb ex_ccb (EpollEvents ex_batch) ex_loop no_os [] = Ret (2, L', s', [5, 7])
    \<and> loop_ok L' \<and> el_heap L' 1 = None \<and> el_heap L' 3 = Some (ex_item 7 10)"
proof -
  have nb: "notify_batch ex_cb ex_ccb (the \<circ> el_heap ex_loop) ex_batch [] = ([1], [5, 7])"
    by (simp add: ex_batch_def serve_def answer_def ex_cb_def ex_loop_def ex_item_def ready_type_def ex_readable_def
        ctrl_handler_def)
  have "\<forall>p \<in> set (map fst ex_batch). self_removing ex_cb ex_ccb p ((the \<circ> el_heap ex_loop) p)"
    using no_removal_self [OF ex_cb_no_removal] by blast
  from WaitEpoll_serves_batch [OF ex_loop_ok ex_batch_ok this, of no_os "[]"] nb show ?thesis
    by (auto simp: ex_batch_def ex_loop_def)
qed

text \<open>A kernel that reports object 3 while it is there, and times out otherwise.\<close>

definition ex_kernel :: "event_loop \<Rightarrow> epoll_result" where
  "ex_kernel L =
    (if el_heap L 3 = Some (ex_item 7 10) then EpollEvents [(3, ex_readable)] else EpollTimeout)"


text \<open>
  A handler must not remove an object of the same batch. When the handler of the first event removes
  the second object through the loop's own interface, the call returns 0 and deletes the object at once, and the
  event that is already in the batch makes the loop use the deleted object.
\<close>

theorem removing_in_batch_undefined:
  "WaitEpoll (\<lambda>h obj type d u. (RETURN_RENEW, if h = 5 then [LoopRemove 3] else [], u)) (\<lambda>c obj d u. ([], u))
    (EpollEvents ex_batch) ex_loop no_os () = Undefined
   \<and> (\<exists>L' s'. RemoveEventHandler 3 ex_loop no_os = Ret (0, L', s') \<and> el_heap L' 3 = None)"
  by (simp add: WaitEpoll_def ex_batch_def process_event_def ex_loop_def ex_item_def ready_type_def ex_readable_def
      run_handler_def ctrl_handler_def set_item_def RemoveEventHandler_def RemoveHandlerObject_def epoll_ctl_del_def
      Let_def)

end
