(* ===== verification/Event_Loop_Race.thy ===== *)
theory Event_Loop_Race
  imports Event_Loop
begin

text \<open>
  The protocol between the loop's thread (\<open>WaitEpoll\<close>) and another thread that calls
  \<open>RemoveEventHandler\<close> on the same handler object, in \<^verbatim>\<open>libbeyond/src/event_loop_impl.cc\<close>. Each access to
  the shared object is one step: the loads and stores of \<open>state\<close>, the exchanges and stores of \<open>in_use\<close>, the
  removal from epoll's interest list, the deletion. An access to the deleted object is a fault. A
  step relation over program counters gives all interleavings.
\<close>

section \<open>State and steps\<close>

text \<open>
  The loop's thread: waiting in \<^verbatim>\<open>epoll_pwait\<close>; holding an event of the batch, before it reads the object's type
  and before the exchange of \<open>in_use\<close>; running the handler; after it, with the handler's wish to cancel; releasing the
  object; or deleting it, in four steps.
\<close>

datatype loop_pc = LWait | LEvent | LExchange | LHandler | LReturned bool | LRelease
  | LMark | LUnuse | LRemove | LDelete | LDone | LFault

text \<open>
  The remover: not called yet; before the load of \<open>state\<close>; before the exchange; before storing DELETE; before the
  removal from epoll; before the deletion; returned with a value.
\<close>

datatype remover_pc = RIdle | RLoad | RExchange | RStore | RUnlink | RFree | RDone int | RFault

record race =
  alive :: bool
  in_use :: bool
  obj_state :: ho_state
  polled :: bool \<comment> \<open>in epoll's interest list\<close>
  lpc :: loop_pc
  rpc :: remover_pc
  runs :: nat \<comment> \<open>how often the handler was started\<close>

definition race_init :: race where
  "race_init = \<lparr>alive = True, in_use = False, obj_state = INIT, polled = True, lpc = LWait, rpc = RIdle, runs = 0\<rparr>"

inductive loop_step :: "race \<Rightarrow> race \<Rightarrow> bool" where
  wait: "lpc s = LWait \<Longrightarrow> polled s \<Longrightarrow> loop_step s (s\<lparr>lpc := LEvent\<rparr>)"
| event: "lpc s = LEvent \<Longrightarrow> alive s \<Longrightarrow> loop_step s (s\<lparr>lpc := LExchange\<rparr>)"
| skip: "lpc s = LExchange \<Longrightarrow> alive s \<Longrightarrow> in_use s \<Longrightarrow> loop_step s (s\<lparr>lpc := LWait\<rparr>)"
| enter: "lpc s = LExchange \<Longrightarrow> alive s \<Longrightarrow> \<not> in_use s \<Longrightarrow>
    loop_step s (s\<lparr>in_use := True, lpc := LHandler, runs := runs s + 1\<rparr>)"
| handler: "lpc s = LHandler \<Longrightarrow> loop_step s (s\<lparr>lpc := LReturned cancel\<rparr>)"
| keep: "lpc s = LReturned False \<Longrightarrow> alive s \<Longrightarrow> obj_state s \<noteq> DELETE \<Longrightarrow> loop_step s (s\<lparr>lpc := LRelease\<rparr>)"
| cancel: "lpc s = LReturned c \<Longrightarrow> alive s \<Longrightarrow> c \<or> obj_state s = DELETE \<Longrightarrow> loop_step s (s\<lparr>lpc := LMark\<rparr>)"
| release: "lpc s = LRelease \<Longrightarrow> alive s \<Longrightarrow> loop_step s (s\<lparr>in_use := False, lpc := LWait\<rparr>)"
| mark: "lpc s = LMark \<Longrightarrow> alive s \<Longrightarrow> loop_step s (s\<lparr>obj_state := DELETE, lpc := LUnuse\<rparr>)"
| unuse: "lpc s = LUnuse \<Longrightarrow> alive s \<Longrightarrow> loop_step s (s\<lparr>in_use := False, lpc := LRemove\<rparr>)"
| busy: "lpc s = LRemove \<Longrightarrow> alive s \<Longrightarrow> in_use s \<Longrightarrow> loop_step s (s\<lparr>obj_state := DELETE, lpc := LWait\<rparr>)"
| remove: "lpc s = LRemove \<Longrightarrow> alive s \<Longrightarrow> \<not> in_use s \<Longrightarrow>
    loop_step s (s\<lparr>in_use := True, polled := False, obj_state := DELETED, lpc := LDelete\<rparr>)"
| delete: "lpc s = LDelete \<Longrightarrow> alive s \<Longrightarrow> loop_step s (s\<lparr>alive := False, lpc := LDone\<rparr>)"
| fault: "lpc s \<in> {LEvent, LExchange, LReturned c, LRelease, LMark, LUnuse, LRemove, LDelete} \<Longrightarrow> \<not> alive s \<Longrightarrow>
    loop_step s (s\<lparr>lpc := LFault\<rparr>)"

inductive remover_step :: "race \<Rightarrow> race \<Rightarrow> bool" where
  call: "rpc s = RIdle \<Longrightarrow> remover_step s (s\<lparr>rpc := RLoad\<rparr>)"
| already: "rpc s = RLoad \<Longrightarrow> alive s \<Longrightarrow> obj_state s \<noteq> INIT \<Longrightarrow> remover_step s (s\<lparr>rpc := RDone (- EALREADY)\<rparr>)"
| load: "rpc s = RLoad \<Longrightarrow> alive s \<Longrightarrow> obj_state s = INIT \<Longrightarrow> remover_step s (s\<lparr>rpc := RExchange\<rparr>)"
| taken: "rpc s = RExchange \<Longrightarrow> alive s \<Longrightarrow> in_use s \<Longrightarrow> remover_step s (s\<lparr>rpc := RStore\<rparr>)"
| take: "rpc s = RExchange \<Longrightarrow> alive s \<Longrightarrow> \<not> in_use s \<Longrightarrow> remover_step s (s\<lparr>in_use := True, rpc := RUnlink\<rparr>)"
| deferred: "rpc s = RStore \<Longrightarrow> alive s \<Longrightarrow> remover_step s (s\<lparr>obj_state := DELETE, rpc := RDone 0\<rparr>)"
| unlink: "rpc s = RUnlink \<Longrightarrow> alive s \<Longrightarrow> remover_step s (s\<lparr>polled := False, obj_state := DELETED, rpc := RFree\<rparr>)"
| free: "rpc s = RFree \<Longrightarrow> alive s \<Longrightarrow> remover_step s (s\<lparr>alive := False, rpc := RDone 0\<rparr>)"
| rfault: "rpc s \<in> {RLoad, RExchange, RStore, RUnlink, RFree} \<Longrightarrow> \<not> alive s \<Longrightarrow> remover_step s (s\<lparr>rpc := RFault\<rparr>)"

definition race_step :: "race \<Rightarrow> race \<Rightarrow> bool" where
  "race_step s s' \<longleftrightarrow> loop_step s s' \<or> remover_step s s'"

inductive reachable :: "(race \<Rightarrow> race \<Rightarrow> bool) \<Rightarrow> race \<Rightarrow> bool" for step where
  init: "reachable step race_init"
| step: "reachable step s \<Longrightarrow> step s s' \<Longrightarrow> reachable step s'"

fun path :: "(race \<Rightarrow> race \<Rightarrow> bool) \<Rightarrow> race \<Rightarrow> race list \<Rightarrow> bool" where
  "path step s [] \<longleftrightarrow> True"
| "path step s (s' # ss) \<longleftrightarrow> step s s' \<and> path step s' ss"

lemma reachable_path: "reachable step s \<Longrightarrow> path step s ss \<Longrightarrow> reachable step (last (s # ss))"
proof (induction ss arbitrary: s)
  case (Cons a ss)
  have "reachable step a" using Cons.prems by (auto intro: reachable.step)
  then have "reachable step (last (a # ss))" using Cons.IH [of a] Cons.prems(2) by simp
  then show ?case by simp
qed simp

lemma Ex_Not [simp]: "Ex Not"
  by (rule exI [of _ False]) simp

section \<open>Races\<close>

text \<open>
  The protocol is not safe for a remover in another thread, even for a handler that never cancels. One
  interleaving makes the loop's thread use the deleted object: the remover finds \<open>in_use\<close> unset and deletes
  the object while the loop holds an event for it. Another one lets a removal that returned 0 be followed by
  a further run of the handler: the remover stores DELETE after the loop has looked for it.
\<close>

theorem removal_races:
  "(\<exists>s. reachable race_step s \<and> lpc s = LFault \<and> rpc s = RDone 0 \<and> runs s = 0)
   \<and> (\<exists>s s'. reachable race_step s \<and> rpc s = RDone 0 \<and> loop_step s s' \<and> lpc s' = LHandler \<and> runs s' = runs s + 1)"
proof
  note ev = race_init_def race_step_def loop_step.simps remover_step.simps
  let ?e = "race_init\<lparr>lpc := LEvent\<rparr>"
  let ?gone = "?e\<lparr>in_use := True, polled := False, obj_state := DELETED\<rparr>"
  let ?fault = "[?e, ?e\<lparr>rpc := RLoad\<rparr>, ?e\<lparr>rpc := RExchange\<rparr>, ?e\<lparr>rpc := RUnlink, in_use := True\<rparr>, ?gone\<lparr>rpc := RFree\<rparr>,
    ?gone\<lparr>alive := False, rpc := RDone 0\<rparr>, ?gone\<lparr>alive := False, rpc := RDone 0, lpc := LFault\<rparr>]"
  have "path race_step race_init ?fault" by (simp add: ev)
  from reachable_path [OF reachable.init this]
  show "\<exists>s. reachable race_step s \<and> lpc s = LFault \<and> rpc s = RDone 0 \<and> runs s = 0"
    by (force simp: race_init_def)
  let ?h = "race_init\<lparr>runs := 1, in_use := True\<rparr>"
  let ?late = "[?e, race_init\<lparr>lpc := LExchange\<rparr>, ?h\<lparr>lpc := LHandler\<rparr>, ?h\<lparr>lpc := LReturned False\<rparr>, ?h\<lparr>lpc := LRelease\<rparr>,
    ?h\<lparr>lpc := LRelease, rpc := RLoad\<rparr>, ?h\<lparr>lpc := LRelease, rpc := RExchange\<rparr>, ?h\<lparr>lpc := LRelease, rpc := RStore\<rparr>,
    ?h\<lparr>lpc := LRelease, rpc := RDone 0, obj_state := DELETE\<rparr>,
    ?h\<lparr>in_use := False, lpc := LWait, rpc := RDone 0, obj_state := DELETE\<rparr>,
    ?h\<lparr>in_use := False, lpc := LEvent, rpc := RDone 0, obj_state := DELETE\<rparr>,
    ?h\<lparr>in_use := False, lpc := LExchange, rpc := RDone 0, obj_state := DELETE\<rparr>]"
  have "path race_step race_init ?late" by (simp add: ev)
  from reachable_path [OF reachable.init this]
  have "reachable race_step (?h\<lparr>in_use := False, lpc := LExchange, rpc := RDone 0, obj_state := DELETE\<rparr>)"
    by simp
  moreover have "loop_step (?h\<lparr>in_use := False, lpc := LExchange, rpc := RDone 0, obj_state := DELETE\<rparr>)
      (?h\<lparr>lpc := LHandler, runs := 2, rpc := RDone 0, obj_state := DELETE\<rparr>)"
    by (simp add: ev)
  ultimately show "\<exists>s s'. reachable race_step s \<and> rpc s = RDone 0 \<and> loop_step s s' \<and> lpc s' = LHandler \<and> runs s' = runs s + 1"
    by (force simp: race_init_def)
qed

section \<open>A safe discipline\<close>

text \<open>
  A removal made by the handler itself: the remover moves only while the handler runs, and the handler
  returns only when the call has returned.
\<close>

definition inside_step :: "race \<Rightarrow> race \<Rightarrow> bool" where
  "inside_step s s' \<longleftrightarrow>
    (loop_step s s' \<and> (lpc s = LHandler \<longrightarrow> rpc s = RIdle \<or> (\<exists>r. rpc s = RDone r)))
    \<or> (remover_step s s' \<and> lpc s = LHandler)"

definition removed :: "race \<Rightarrow> bool" where
  "removed s \<longleftrightarrow> rpc s = RDone 0"

definition inside_inv :: "race \<Rightarrow> bool" where
  "inside_inv s \<longleftrightarrow> lpc s \<noteq> LFault \<and> rpc s \<notin> {RUnlink, RFree, RFault}
    \<and> (alive s \<longleftrightarrow> lpc s \<noteq> LDone) \<and> (polled s \<longleftrightarrow> lpc s \<notin> {LDelete, LDone})
    \<and> (in_use s \<longleftrightarrow> lpc s \<in> {LHandler, LReturned True, LReturned False, LRelease, LMark, LUnuse, LDelete, LDone})
    \<and> (rpc s \<in> {RLoad, RExchange, RStore} \<longrightarrow> lpc s = LHandler)
    \<and> (lpc s \<in> {LWait, LEvent, LExchange, LRelease} \<longrightarrow> obj_state s = INIT \<and> \<not> removed s)
    \<and> (lpc s \<in> {LHandler, LReturned True, LReturned False} \<longrightarrow> (obj_state s = DELETE \<longleftrightarrow> removed s) \<and> obj_state s \<noteq> DELETED)"

inductive_cases loop_stepE: "loop_step s s'"
inductive_cases remover_stepE: "remover_step s s'"

lemma inside_inv_init: "inside_inv race_init"
  by (simp add: inside_inv_def race_init_def removed_def)

lemma inside_inv_loop:
  assumes "inside_inv s" and "loop_step s s'" and "lpc s = LHandler \<longrightarrow> rpc s = RIdle \<or> (\<exists>r. rpc s = RDone r)"
  shows "inside_inv s'"
  using assms(2)
proof cases
  case (handler c)
  with assms(1,3) show ?thesis by (cases c) (auto simp: inside_inv_def removed_def)
next
  case (cancel c)
  with assms(1) show ?thesis by (cases c) (auto simp: inside_inv_def removed_def)
next
  case (fault c)
  with assms(1) show ?thesis by (auto simp: inside_inv_def removed_def)
next
  case keep
  with assms(1) show ?thesis by (cases "obj_state s") (auto simp: inside_inv_def removed_def)
qed (use assms(1) in \<open>auto simp: inside_inv_def removed_def\<close>)

lemma inside_inv_remover:
  assumes "inside_inv s" and "remover_step s s'" and "lpc s = LHandler"
  shows "inside_inv s'"
  using assms(2)
proof cases
  case already
  with assms(1,3) show ?thesis by (simp add: inside_inv_def removed_def errno_defs)
qed (use assms(1,3) in \<open>simp_all add: inside_inv_def removed_def\<close>)

lemma inside_inv: "reachable inside_step s \<Longrightarrow> inside_inv s"
proof (induction rule: reachable.induct)
  case init
  show ?case by (rule inside_inv_init)
next
  case (step s s')
  from step.hyps(2) show ?case unfolding inside_step_def
    by (elim disjE conjE) (rule inside_inv_loop [OF step.IH], assumption+, rule inside_inv_remover [OF step.IH])
qed

text \<open>
  C7. A handler may remove its own object. When the removal is called from inside the running handler, in
  every interleaving with the loop no thread uses the deleted object, the object is only ever deleted by the loop's
  thread, and once the removal has returned 0 the handler is never started again.
\<close>

theorem self_removal_safe:
  assumes "reachable inside_step s"
  shows "lpc s \<noteq> LFault \<and> rpc s \<notin> {RUnlink, RFree, RFault}
    \<and> (rpc s = RDone 0 \<longrightarrow> (\<forall>s'. inside_step s s' \<longrightarrow> runs s' = runs s))"
proof -
  from inside_inv [OF assms] have inv: "inside_inv s" .
  have "runs s' = runs s" if "rpc s = RDone 0" "inside_step s s'" for s'
  proof -
    from that(2) have "loop_step s s' \<or> remover_step s s'" by (auto simp: inside_step_def)
    then show ?thesis
    proof
      assume "loop_step s s'"
      then show ?thesis by cases (use inv that(1) in \<open>auto simp: inside_inv_def removed_def\<close>)
    next
      assume "remover_step s s'"
      then show ?thesis by cases auto
    qed
  qed
  then show ?thesis using inv by (simp add: inside_inv_def)
qed

lemma self_removal_safe_witness:
  "reachable inside_step (race_init\<lparr>lpc := LDone, alive := False, in_use := True, polled := False, obj_state := DELETED,
      rpc := RDone 0, runs := 1\<rparr>)
   \<and> {s'. inside_step (race_init\<lparr>lpc := LDone, alive := False, in_use := True, polled := False, obj_state := DELETED,
      rpc := RDone 0, runs := 1\<rparr>) s' \<and> runs s' \<noteq> 1} = {}"
proof -
  let ?h = "race_init\<lparr>runs := 1, in_use := True\<rparr>"
  let ?d = "?h\<lparr>obj_state := DELETE, rpc := RDone 0\<rparr>"
  let ?g = "race_init\<lparr>lpc := LDone, alive := False, in_use := True, polled := False, obj_state := DELETED, rpc := RDone 0, runs := 1\<rparr>"
  let ?p = "[race_init\<lparr>lpc := LEvent\<rparr>, race_init\<lparr>lpc := LExchange\<rparr>, ?h\<lparr>lpc := LHandler\<rparr>,
    ?h\<lparr>lpc := LHandler, rpc := RLoad\<rparr>, ?h\<lparr>lpc := LHandler, rpc := RExchange\<rparr>, ?h\<lparr>lpc := LHandler, rpc := RStore\<rparr>,
    ?d\<lparr>lpc := LHandler\<rparr>, ?d\<lparr>lpc := LReturned False\<rparr>, ?d\<lparr>lpc := LMark\<rparr>, ?d\<lparr>lpc := LUnuse\<rparr>,
    ?d\<lparr>in_use := False, lpc := LRemove\<rparr>, ?d\<lparr>polled := False, obj_state := DELETED, lpc := LDelete\<rparr>, ?g]"
  have "path inside_step race_init ?p"
    by (simp add: race_init_def inside_step_def loop_step.simps remover_step.simps)
  from reachable_path [OF reachable.init this] have "reachable inside_step ?g" by simp
  with self_removal_safe [OF this] show ?thesis by (simp add: race_init_def)
qed

end
