(* ===== verification/Module_Interface.thy ===== *)
theory Module_Interface
  imports Posix Event_Object
begin

text \<open>
  The interface of the modules the library loads (\<^verbatim>\<open>include/beyond/private/\<close>: \<open>InferenceInterface\<close>,
  \<open>RuntimeInterface\<close>, \<open>PeerInterface\<close>, \<open>ModuleInterface\<close>). A module is code outside the repository, so it is a
  parameter of the model: a function from a call and the module's state to a reply and the new state. The
  constructors of \<open>inference_call\<close> are the methods of the interface; the reply carries the return value and
  the reference parameters as the method leaves them. A C string is passed by value, \<open>None\<close> for a
  null pointer.

  The theory also has the common loader: how \<open>Create\<close> builds the file name of a module, opens it and
  checks its type, with what it leaves allocated when one of its steps fails.
\<close>

section \<open>Calls and replies\<close>

datatype inference_call =
    CallConfigure ptr
  | CallLoadModel "string option"
  | CallGetInputTensorInfo ptr int
  | CallGetOutputTensorInfo ptr int
  | CallSetInputTensorInfo ptr int
  | CallSetOutputTensorInfo ptr int
  | CallAllocateTensor ptr int ptr
  | CallFreeTensor ptr int
  | CallPrepare
  | CallInvoke ptr int ptr
  | CallGetOutput ptr int
  | CallStop
  | CallGetHandle
  | CallAddHandler nat evtype ptr
  | CallRemoveHandler nat evtype ptr
  | CallFetchEventData "event_data option"
  | CallDestroyEventData "event_data option"

text \<open>Memory and storage of a peer, the part of \<open>beyond_peer_info\<close> the library reads.\<close>

record peer_info =
  pi_free_memory :: "64 word"
  pi_free_storage :: "64 word"

record reply =
  r_ret :: int
  r_ptr :: ptr \<comment> \<open>the \<open>info\<close> or \<open>tensor\<close> reference parameter\<close>
  r_size :: int
  r_event :: "event_data option"
  r_peer :: "peer_info option"

definition ret_only :: "int \<Rightarrow> reply" where
  "ret_only v = \<lparr>r_ret = v, r_ptr = nullptr, r_size = 0, r_event = None, r_peer = None\<rparr>"

lemma ret_only_sel [simp]: "r_ret (ret_only v) = v" "r_ptr (ret_only v) = 0" "r_size (ret_only v) = 0"
  "r_event (ret_only v) = None" "r_peer (ret_only v) = None"
  by (simp_all add: ret_only_def)

type_synonym 'm module = "inference_call \<Rightarrow> 'm \<Rightarrow> reply \<times> 'm"

text \<open>The methods a peer has besides; a system has several peers, known by their addresses.\<close>

datatype peer_call = PeerInfer inference_call | PeerActivate | PeerDeactivate | PeerGetInfo | PeerSetInfo ptr

type_synonym 'm peers = "ptr \<Rightarrow> peer_call \<Rightarrow> 'm \<Rightarrow> reply \<times> 'm"

text \<open>The keys of an authenticator, and the key that a number stands for in the C interface.\<close>

datatype key_id = KEY_PRIVATE | KEY_PUBLIC | KEY_CERTIFICATE | KEY_SECRET

definition key_of_id :: "int \<Rightarrow> key_id option" where
  "key_of_id n =
    (if n = 0 then Some KEY_PRIVATE else if n = 1 then Some KEY_PUBLIC else if n = 2 then Some KEY_CERTIFICATE
     else if n = 3 then Some KEY_SECRET else None)"

section \<open>Loading a module\<close>

definition FilenameFormat :: string where
  "FilenameFormat = ''libbeyond-%s.so''"

definition TYPE_RUNTIME :: string where "TYPE_RUNTIME = ''runtime''"
definition TYPE_PEER :: string where "TYPE_PEER = ''peer''"
definition TYPE_DISCOVERY :: string where "TYPE_DISCOVERY = ''discovery''"
definition TYPE_AUTHENTICATOR :: string where "TYPE_AUTHENTICATOR = ''authenticator''"

text \<open>\<^verbatim>\<open>snprintf\<close> with one \<^verbatim>\<open>%s\<close>: the text, cut to \<open>n\<close> bytes with the terminating zero, and the length of all of it.\<close>

fun format_s :: "string \<Rightarrow> string \<Rightarrow> string" where
  "format_s [] arg = []"
| "format_s [c] arg = [c]"
| "format_s (c # d # cs) arg =
    (if c = CHR ''%'' \<and> d = CHR ''s'' then arg @ cs else c # format_s (d # cs) arg)"

definition snprintf_s :: "nat \<Rightarrow> string \<Rightarrow> string \<Rightarrow> string \<times> nat" where
  "snprintf_s n fmt arg = (take (n - 1) (format_s fmt arg), length (format_s fmt arg))"

definition module_filename :: "string \<Rightarrow> string" where
  "module_filename name =
    (let namelen = length FilenameFormat + length name - 1 in fst (snprintf_s namelen FilenameFormat name))"

text \<open>
  What a load depends on outside the library: \<^verbatim>\<open>dlopen\<close> by file name (None: not found), then the entry point
  of the opened object, what it returns for the arguments (None: no instance) and the type the instance
  reports (None: a null pointer).
\<close>

record 'm dl_object =
  dl_main :: "(string list \<Rightarrow> (string option \<times> 'm) option) option"

type_synonym 'm dl_world = "string \<Rightarrow> 'm dl_object option"

text \<open>What is held while a module is loaded: the library handle and the module instance.\<close>

record 'm loaded =
  ld_handle :: string
  ld_module :: 'm
  ld_argv :: "string list"

text \<open>
  The steps of \<open>Create\<close> up to the check of the type, for all four kinds of module. \<open>None\<close> is the null pointer; the
  second component of the result is what stays allocated on the heap and the number of open library
  handles and module instances.
\<close>

record load_state =
  ls_os :: os
  ls_handles :: int \<comment> \<open>\<^verbatim>\<open>dlopen\<close>ed and not \<^verbatim>\<open>dlclose\<close>d\<close>
  ls_instances :: int \<comment> \<open>module instances not destroyed\<close>

definition module_delete :: "bool \<Rightarrow> load_state \<Rightarrow> load_state" where
  "module_delete opened s =
    s\<lparr>ls_handles := ls_handles s - (if opened then 1 else 0), ls_os := os_delete (ls_os s)\<rparr>"

definition load_module ::
    "'m dl_world \<Rightarrow> string \<Rightarrow> string option list \<Rightarrow> load_state \<Rightarrow> 'm loaded option \<times> load_state" where
  "load_module dl mtype argv s =
    (case argv of
      [] \<Rightarrow> (None, s)
    | None # _ \<Rightarrow> (None, s)
    | Some name # _ \<Rightarrow>
        let (allocated, os1) = os_new (ls_os s); s1 = s\<lparr>ls_os := os1\<rparr> in
        if \<not> allocated then (None, s1)
        else let (allocated, os2) = os_new (ls_os s1); s2 = s1\<lparr>ls_os := os2\<rparr> in
        if \<not> allocated then (None, module_delete False s2)
        else
          let filename = module_filename name;
              obj = dl filename;
              s3 = s2\<lparr>ls_os := os_delete (ls_os s2)\<rparr> in
          (case obj of
            None \<Rightarrow> (None, module_delete False s3)
          | Some obj \<Rightarrow>
              let s4 = s3\<lparr>ls_handles := ls_handles s3 + 1\<rparr> in
              (case dl_main obj of
                None \<Rightarrow> (None, module_delete True s4)
              | Some main \<Rightarrow>
                  (case main (map the argv) of
                    None \<Rightarrow> (None, module_delete True s4)
                  | Some (moduleType, inst) \<Rightarrow>
                      let s5 = s4\<lparr>ls_instances := ls_instances s4 + 1\<rparr> in
                      if moduleType \<noteq> Some mtype
                      then (None, module_delete True (s5\<lparr>ls_instances := ls_instances s5 - 1\<rparr>))
                      else (Some \<lparr>ld_handle = filename, ld_module = inst, ld_argv = map the argv\<rparr>, s5)))))"

definition unload_module :: "load_state \<Rightarrow> load_state" where
  "unload_module s = module_delete True (s\<lparr>ls_instances := ls_instances s - 1\<rparr>)"

definition load_ledger :: "load_state \<Rightarrow> int \<times> int \<times> int" where
  "load_ledger s = (live (ls_os s), ls_handles s, ls_instances s)"

section \<open>Properties\<close>

lemma format_filename: "format_s FilenameFormat name = ''libbeyond-'' @ name @ ''.so''"
  by (simp add: FilenameFormat_def)

text \<open>
  The buffer for the file name has exactly the size it needs: for every module name the file name is
  complete, not cut, and one byte less would cut it.
\<close>

theorem filename_fits:
  "module_filename name = ''libbeyond-'' @ name @ ''.so''
   \<and> length (module_filename name) + 1 = length FilenameFormat + length name - 1"
  by (simp add: module_filename_def snprintf_s_def format_filename) (simp add: FilenameFormat_def)

lemma load_module_cases:
  assumes "load_module dl mtype argv s = (L, s')"
  shows "(L = None \<longrightarrow> load_ledger s' = load_ledger s) \<and>
    (L \<noteq> None \<longrightarrow> load_ledger (unload_module s') = load_ledger s
      \<and> (\<exists>name rest obj main. argv = Some name # rest \<and> dl (''libbeyond-'' @ name @ ''.so'') = Some obj
          \<and> dl_main obj = Some main \<and> main (map the argv) = Some (Some mtype, ld_module (the L))))"
proof (cases argv)
  case (Cons a rest)
  show ?thesis
  proof (cases a)
    case (Some name)
    have new: "os_new t = (True, t') \<Longrightarrow> live t' = live t + 1" "os_new t = (False, t') \<Longrightarrow> live t' = live t" for t t'
      by (auto simp: os_new_def split: if_splits)
    obtain a1 os1 where 1: "os_new (ls_os s) = (a1, os1)" by fastforce
    obtain a2 os2 where 2: "os_new os1 = (a2, os2)" by fastforce
    show ?thesis
    proof (cases "a1 \<and> a2")
      case True
      have f: "module_filename name = ''libbeyond-'' @ name @ ''.so''"
        by (simp add: module_filename_def snprintf_s_def format_filename) (simp add: FilenameFormat_def)
      have l: "live os2 = live (ls_os s) + 2" using 1 2 True new by fastforce
      show ?thesis
        using assms Cons Some 1 2 True l
        by (auto simp: load_module_def Let_def f load_ledger_def module_delete_def unload_module_def
            split: option.splits if_splits)
    next
      case False
      then show ?thesis
        using assms Cons Some 1 2 new
        by (cases a1) (auto simp: load_module_def Let_def load_ledger_def module_delete_def)
    qed
  qed (use assms Cons in \<open>simp add: load_module_def\<close>)
qed (use assms in \<open>simp add: load_module_def\<close>)

end
