(* ===== verification/Module_Wrappers.thy ===== *)
theory Module_Wrappers
  imports Module_Interface
begin

text \<open>
  The classes that own a loaded module and hand every call to it: \<open>Inference::Peer::impl\<close>
  (\<^verbatim>\<open>libbeyond/src/inference_peer_impl.cc\<close>), \<open>Authenticator::impl\<close> (\<^verbatim>\<open>authenticator_impl.cc\<close>),
  \<open>Discovery::Runtime::impl\<close> (\<^verbatim>\<open>discovery_runtime_impl.cc\<close>, with the copies it makes of event data) and
  \<open>Discovery::impl\<close> (\<^verbatim>\<open>discovery_impl.cc\<close>) on top of it. Loading is \<open>load_module\<close> of \<open>Module_Interface\<close>.
\<close>

section \<open>The argument of Create\<close>

record beyond_argument =
  arg_argc :: int
  arg_argv :: "string option list option" \<comment> \<open>None: a null pointer\<close>

text \<open>The checks of \<open>arg\<close> up to \<open>argv[0]\<close>; \<open>load_module\<close> has the rest. \<open>Inl\<close>: \<open>Create\<close> returns null.\<close>

definition checked_argv :: "beyond_argument option \<Rightarrow> string option list option" where
  "checked_argv arg =
    (case arg of
      None \<Rightarrow> None
    | Some a \<Rightarrow> if arg_argc a < 1 then None else arg_argv a)"

section \<open>Peer\<close>

definition Peer_Create :: "'m dl_world \<Rightarrow> beyond_argument option \<Rightarrow> load_state \<Rightarrow> 'm loaded option \<times> load_state" where
  "Peer_Create dl arg s =
    (case checked_argv arg of None \<Rightarrow> (None, s) | Some argv \<Rightarrow> load_module dl TYPE_PEER argv s)"

definition Peer_Destroy :: "'m loaded \<Rightarrow> load_state \<Rightarrow> load_state" where
  "Peer_Destroy L s = unload_module s"

text \<open>Every method hands its arguments to the module's method of the same name and returns what it returns.\<close>

definition Peer_call :: "(peer_call \<Rightarrow> 'm \<Rightarrow> reply \<times> 'm) \<Rightarrow> peer_call \<Rightarrow> 'm loaded \<Rightarrow> reply \<times> 'm loaded" where
  "Peer_call P c L = (let (r, m) = P c (ld_module L) in (r, L\<lparr>ld_module := m\<rparr>))"

section \<open>Authenticator\<close>

text \<open>This \<open>Create\<close> does not check \<open>argv\<close> itself before it reads \<open>argv[0]\<close>.\<close>

definition Authenticator_Create ::
    "'m dl_world \<Rightarrow> beyond_argument option \<Rightarrow> load_state \<Rightarrow> ('m loaded option \<times> load_state) outcome" where
  "Authenticator_Create dl arg s =
    (case arg of
      None \<Rightarrow> Ret (None, s)
    | Some a \<Rightarrow>
        if arg_argc a < 1 then Ret (None, s)
        else case arg_argv a of
          None \<Rightarrow> Undefined
        | Some argv \<Rightarrow> Ret (load_module dl TYPE_AUTHENTICATOR argv s))"

definition Authenticator_Destroy :: "'m loaded \<Rightarrow> load_state \<Rightarrow> load_state" where
  "Authenticator_Destroy L s = unload_module s"

datatype authenticator_call =
    AuthConfigure ptr | AuthActivate | AuthPrepare | AuthDeactivate
  | AuthEncrypt int ptr int ptr int | AuthDecrypt int ptr int ptr int
  | AuthGetResult | AuthGetKey int | AuthGenerateSignature ptr int
  | AuthVerifySignature ptr int ptr int
  | AuthGetHandle | AuthAddHandler nat evtype ptr | AuthRemoveHandler nat evtype ptr
  | AuthFetchEventData "event_data option" | AuthDestroyEventData "event_data option"

definition Authenticator_call ::
    "(authenticator_call \<Rightarrow> 'm \<Rightarrow> reply \<times> 'm) \<Rightarrow> authenticator_call \<Rightarrow> 'm loaded \<Rightarrow> reply \<times> 'm loaded" where
  "Authenticator_call P c L = (let (r, m) = P c (ld_module L) in (r, L\<lparr>ld_module := m\<rparr>))"

section \<open>Discovery runtime\<close>

datatype discovery_call =
    DiscConfigure ptr | DiscActivate | DiscDeactivate
  | DiscSetItem string ptr "8 word" | DiscRemoveItem string
  | DiscGetHandle | DiscAddHandler nat evtype ptr | DiscRemoveHandler nat evtype ptr

text \<open>
  The event data of a discovery module and of its client. A module's event has a name and, for a client
  event, an address, a port and a uuid; the wrapper gives its client a copy. \<open>None\<close> in \<open>md_data\<close> is a null pointer.
\<close>

record module_event =
  me_name :: string
  me_address :: "nat + string" \<comment> \<open>the text \<^verbatim>\<open>inet_ntop\<close> makes of it, \<open>Inl errno\<close> when it fails\<close>
  me_port :: "16 word"
  me_uuid :: string

record module_data =
  md_type :: evtype
  md_data :: "module_event option"

record discovered_peer =
  dp_name :: string
  dp_host :: "string option" \<comment> \<open>None: a null pointer\<close>
  dp_port :: "16 word"
  dp_uuid :: string

datatype discovery_payload = NoPayload | NamePayload string | PeerPayload discovered_peer

record discovery_data =
  dd_type :: evtype
  dd_data :: discovery_payload

definition UUID_LEN :: nat where "UUID_LEN = 37"

definition Discovery_Runtime_Create ::
    "'m dl_world \<Rightarrow> beyond_argument option \<Rightarrow> load_state \<Rightarrow> 'm loaded option \<times> load_state" where
  "Discovery_Runtime_Create dl arg s =
    (case checked_argv arg of None \<Rightarrow> (None, s) | Some argv \<Rightarrow> load_module dl TYPE_DISCOVERY argv s)"

definition Discovery_Runtime_Destroy :: "'m loaded \<Rightarrow> load_state \<Rightarrow> load_state" where
  "Discovery_Runtime_Destroy L s = unload_module s"

definition Discovery_Runtime_call ::
    "(discovery_call \<Rightarrow> 'm \<Rightarrow> int \<times> 'm) \<Rightarrow> discovery_call \<Rightarrow> 'm loaded \<Rightarrow> int \<times> 'm loaded" where
  "Discovery_Runtime_call P c L = (let (r, m) = P c (ld_module L) in (r, L\<lparr>ld_module := m\<rparr>))"

text \<open>
  \<open>ds_pending\<close> counts the event data taken from the module and not given back to it. The methods of the module are
  parameters: \<open>fetch\<close> is its \<open>FetchEventData\<close>, \<open>destroy\<close> its \<open>DestroyEventData\<close>.
\<close>

record discovery_state =
  ds_os :: os
  ds_pending :: int

definition ds_new :: "discovery_state \<Rightarrow> bool \<times> discovery_state" where
  "ds_new s = (let (b, t) = os_new (ds_os s) in (b, s\<lparr>ds_os := t\<rparr>))"

definition ds_delete :: "discovery_state \<Rightarrow> discovery_state" where
  "ds_delete s = s\<lparr>ds_os := os_delete (ds_os s)\<rparr>"

text \<open>The three cases of the \<^verbatim>\<open>switch\<close>, after the allocation of the client's event data, which they delete when they fail.\<close>

definition copy_registered ::
    "evtype \<Rightarrow> module_event \<Rightarrow> discovery_state \<Rightarrow> int \<times> discovery_data option \<times> discovery_state" where
  "copy_registered type e s =
    (let (allocated, s1) = ds_new s in
     if \<not> allocated then (- int (fault (ds_os s)), None, ds_delete s1)
     else (0, Some \<lparr>dd_type = type, dd_data = NamePayload (me_name e)\<rparr>, s1))"

definition copy_discovered ::
    "evtype \<Rightarrow> module_event \<Rightarrow> discovery_state \<Rightarrow> int \<times> discovery_data option \<times> discovery_state" where
  "copy_discovered type e s =
    (let (allocated, s1) = ds_new s in
     if \<not> allocated then (- ENOMEM, None, ds_delete s1)
     else let (allocated, s2) = ds_new s1 in
     if \<not> allocated then (- ENOMEM, None, ds_delete (ds_delete s2))
     else let (allocated, s3) = ds_new s2 in
     if \<not> allocated then (- ENOMEM, None, ds_delete (ds_delete s3))
     else case me_address e of
       Inl err \<Rightarrow> (- int err, None, ds_delete (ds_delete (ds_delete s3)))
     | Inr host \<Rightarrow>
         (0, Some \<lparr>dd_type = type, dd_data = PeerPayload
            \<lparr>dp_name = me_name e, dp_host = Some host, dp_port = me_port e, dp_uuid = take (UUID_LEN - 1) (me_uuid e)\<rparr>\<rparr>, s3))"

definition copy_removed ::
    "evtype \<Rightarrow> module_event \<Rightarrow> discovery_state \<Rightarrow> int \<times> discovery_data option \<times> discovery_state" where
  "copy_removed type e s =
    (let (allocated, s1) = ds_new s in
     if \<not> allocated then (- ENOMEM, None, ds_delete s1)
     else let (allocated, s2) = ds_new s1 in
     if \<not> allocated then (- ENOMEM, None, ds_delete (ds_delete s2))
     else (0, Some \<lparr>dd_type = type, dd_data = PeerPayload
        \<lparr>dp_name = me_name e, dp_host = None, dp_port = 0, dp_uuid = []\<rparr>\<rparr>, s2))"

definition Discovery_FetchEventData ::
    "('m \<Rightarrow> (int \<times> module_data option) \<times> 'm) \<Rightarrow> (module_data option \<Rightarrow> 'm \<Rightarrow> 'm) \<Rightarrow> discovery_data option \<Rightarrow>
     'm loaded \<Rightarrow> discovery_state \<Rightarrow> int \<times> discovery_data option \<times> 'm loaded \<times> discovery_state" where
  "Discovery_FetchEventData fetch destroy data L s =
    (let ((ret, sub), m) = fetch (ld_module L); L1 = L\<lparr>ld_module := m\<rparr>;
         s0 = (if sub = None then s else s\<lparr>ds_pending := ds_pending s + 1\<rparr>);
         give_back = (\<lambda>(ret, data', s').
           (ret, data', L1\<lparr>ld_module := destroy sub m\<rparr>, s'\<lparr>ds_pending := ds_pending s' - 1\<rparr>)) in
     if ret < 0 then (ret, data, L1, s0)
     else case sub of
       None \<Rightarrow> (- EFAULT, data, L1, s0)
     | Some sd \<Rightarrow>
         (case md_data sd of
           None \<Rightarrow> (- EFAULT, data, L1, s0)
         | Some e \<Rightarrow>
             let (allocated, s1) = ds_new s0; copied = (\<lambda>(r, d, s2). (if r < 0 then r else ret, d, s2)) in
             if \<not> allocated then give_back (- ENOMEM, data, s1)
             else if md_type sd = event_code DISCOVERY_REGISTERED then give_back (copied (copy_registered (md_type sd) e s1))
             else if md_type sd = event_code DISCOVERY_DISCOVERED then give_back (copied (copy_discovered (md_type sd) e s1))
             else if md_type sd = event_code DISCOVERY_REMOVED then give_back (copied (copy_removed (md_type sd) e s1))
             else give_back (- EFAULT, None, ds_delete s1)))"

definition Discovery_DestroyEventData ::
    "discovery_data option \<Rightarrow> discovery_state \<Rightarrow> int \<times> discovery_data option \<times> discovery_state" where
  "Discovery_DestroyEventData data s =
    (case data of
      None \<Rightarrow> (- EINVAL, None, s)
    | Some d \<Rightarrow>
        if dd_data d = NoPayload then (- EINVAL, None, ds_delete s)
        else
          let s1 =
            (if dd_type d = event_code DISCOVERY_REGISTERED then ds_delete s
             else if dd_type d = event_code DISCOVERY_DISCOVERED then ds_delete (ds_delete (ds_delete s))
             else if dd_type d = event_code DISCOVERY_REMOVED then ds_delete (ds_delete s)
             else s) in
          (0, None, ds_delete s1))"

section \<open>Discovery\<close>

record 'm discovery =
  di_runtime :: "'m loaded option"

text \<open>The second component of the result is a loaded runtime module that a failing \<open>Create\<close> abandons.\<close>

definition Discovery_Create ::
    "'m dl_world \<Rightarrow> beyond_argument option \<Rightarrow> load_state \<Rightarrow> 'm discovery option \<times> 'm loaded option \<times> load_state" where
  "Discovery_Create dl arg s =
    (let (runtime, s1) = Discovery_Runtime_Create dl arg s in
     case runtime of
       None \<Rightarrow> (None, None, s1)
     | Some L \<Rightarrow>
         let (allocated, os2) = os_new (ls_os s1); s2 = s1\<lparr>ls_os := os2\<rparr> in
         if \<not> allocated then (None, Some L, s2) else (Some \<lparr>di_runtime = Some L\<rparr>, None, s2))"

definition Discovery_Destroy :: "'m discovery \<Rightarrow> load_state \<Rightarrow> load_state" where
  "Discovery_Destroy d s =
    (let s1 = (case di_runtime d of None \<Rightarrow> s | Some L \<Rightarrow> Discovery_Runtime_Destroy L s) in
     s1\<lparr>ls_os := os_delete (ls_os s1)\<rparr>)"

definition Discovery_call ::
    "(discovery_call \<Rightarrow> 'm \<Rightarrow> int \<times> 'm) \<Rightarrow> discovery_call \<Rightarrow> 'm discovery \<Rightarrow> int \<times> 'm discovery" where
  "Discovery_call P c d =
    (case di_runtime d of
      None \<Rightarrow> (if c = DiscGetHandle then -1 else - ENOSYS, d)
    | Some L \<Rightarrow> let (ret, L') = Discovery_Runtime_call P c L in (ret, d\<lparr>di_runtime := Some L'\<rparr>))"

section \<open>The contract of a loader\<close>

text \<open>
  What a client of the wrappers relies on: a failing \<open>create\<close> leaves the ledger as it was, and \<open>destroy\<close> undoes a
  successful one, whatever has been loaded and unloaded in between.
\<close>

locale loader =
  fixes create :: "'a \<Rightarrow> 's \<Rightarrow> 'x option \<times> 's" and destroy :: "'x \<Rightarrow> 's \<Rightarrow> 's" and ledger :: "'s \<Rightarrow> 'l"
  assumes create_failed: "create a s = (None, s') \<Longrightarrow> ledger s' = ledger s"
    and create_undone: "create a s = (Some x, s') \<Longrightarrow> ledger t = ledger s' \<Longrightarrow> ledger (destroy x t) = ledger s"

text \<open>A client that loads a list of modules, keeps those it gets, and destroys them, the last one first.\<close>

fun load_all :: "('a \<Rightarrow> 's \<Rightarrow> 'x option \<times> 's) \<Rightarrow> 'a list \<Rightarrow> 's \<Rightarrow> 'x list \<times> 's" where
  "load_all create [] s = ([], s)"
| "load_all create (a # as) s =
    (let (x, s1) = create a s; (xs, s2) = load_all create as s1 in (case x of None \<Rightarrow> xs | Some y \<Rightarrow> y # xs, s2))"

fun destroy_all :: "('x \<Rightarrow> 's \<Rightarrow> 's) \<Rightarrow> 'x list \<Rightarrow> 's \<Rightarrow> 's" where
  "destroy_all destroy [] s = s"
| "destroy_all destroy (x # xs) s = destroy x (destroy_all destroy xs s)"

context loader begin

lemma balanced: "load_all create as s = (xs, s') \<Longrightarrow> ledger (destroy_all destroy xs s') = ledger s"
proof (induction "as" arbitrary: s xs s')
  case (Cons a "as")
  obtain x s1 where x: "create a s = (x, s1)" by fastforce
  obtain ys where ys: "load_all create as s1 = (ys, s')" "xs = (case x of None \<Rightarrow> ys | Some y \<Rightarrow> y # ys)"
    using Cons.prems x by (auto split: prod.splits)
  note IH = Cons.IH [OF ys(1)]
  show ?case
  proof (cases x)
    case None
    with ys(2) IH create_failed [of a s s1] x show ?thesis by simp
  next
    case (Some y)
    with ys(2) IH create_undone [of a s y s1 "destroy_all destroy ys s'"] x show ?thesis by simp
  qed
qed simp

end

lemma unload_ledger: "load_ledger (unload_module s) = (case load_ledger s of (l, h, i) \<Rightarrow> (l - 1, h - 1, i - 1))"
  by (simp add: load_ledger_def unload_module_def module_delete_def)

lemma load_module_failed: "load_module dl mtype argv s = (None, s') \<Longrightarrow> load_ledger s' = load_ledger s"
  using load_module_cases [of dl mtype argv s None s'] by simp

lemma load_module_undone:
  "load_module dl mtype argv s = (Some L, s') \<Longrightarrow> load_ledger t = load_ledger s' \<Longrightarrow>
    load_ledger (unload_module t) = load_ledger s"
  using load_module_cases [of dl mtype argv s "Some L" s'] by (simp add: unload_ledger)

interpretation peer_loader: loader "Peer_Create dl" Peer_Destroy load_ledger for dl :: "'m dl_world"
  by unfold_locales
    (auto simp: Peer_Create_def Peer_Destroy_def split: option.splits intro: load_module_failed load_module_undone)

interpretation discovery_loader: loader "Discovery_Runtime_Create dl" Discovery_Runtime_Destroy load_ledger
  for dl :: "'m dl_world"
  by unfold_locales
    (auto simp: Discovery_Runtime_Create_def Discovery_Runtime_Destroy_def split: option.splits
      intro: load_module_failed load_module_undone)

section \<open>Properties\<close>

text \<open>
  Loading peers, for any list of arguments, any modules on the disk and any combination of failing
  allocations: destroying those that were loaded, the last one first, gives back every heap object, library handle
  and module instance; and what \<open>Create\<close> returns is an instance that the entry point of the named file made
  for these arguments and that calls itself a peer module.
\<close>

theorem peers_balanced:
  assumes "load_all (Peer_Create dl) args s = (xs, s')"
  shows "load_ledger (destroy_all Peer_Destroy xs s') = load_ledger s
    \<and> (Peer_Create dl (Some \<lparr>arg_argc = n, arg_argv = Some (Some name # rest)\<rparr>) t = (Some L, t') \<longrightarrow> 1 \<le> n
      \<and> (\<exists>obj main. dl (''libbeyond-'' @ name @ ''.so'') = Some obj \<and> dl_main obj = Some main
          \<and> main (name # map the rest) = Some (Some ''peer'', ld_module L)))"
  using peer_loader.balanced [OF assms] load_module_cases [of dl TYPE_PEER "Some name # rest" t "Some L" t']
  by (auto simp: Peer_Create_def checked_argv_def TYPE_PEER_def)

text \<open>A disk with one peer module, \<open>nn\<close>, and one of another type, \<open>tflite\<close>; an instance is its arguments.\<close>

definition ex_world :: "string list dl_world" where
  "ex_world file =
    (if file = ''libbeyond-peer_nn.so'' then Some \<lparr>dl_main = Some (\<lambda>argv. Some (Some ''peer'', argv))\<rparr>
     else if file = ''libbeyond-runtime_tflite.so'' then Some \<lparr>dl_main = Some (\<lambda>argv. Some (Some ''runtime'', argv))\<rparr>
     else None)"

definition ex_argument :: "string \<Rightarrow> beyond_argument option" where
  "ex_argument name = Some \<lparr>arg_argc = 1, arg_argv = Some [Some name]\<rparr>"

definition ex_load_state :: load_state where
  "ex_load_state = \<lparr>ls_os = \<lparr>open_fds = {}, next_fd = 0, live = 5, faults = []\<rparr>, ls_handles = 0, ls_instances = 0\<rparr>"

definition ex_loaded :: "string list loaded list \<times> load_state" where
  "ex_loaded = load_all (Peer_Create ex_world) [ex_argument ''peer_nn'', ex_argument ''runtime_tflite'', None] ex_load_state"

lemma peers_balanced_witness:
  "map ld_module (fst ex_loaded) = [[''peer_nn'']] \<and> load_ledger (destroy_all Peer_Destroy (fst ex_loaded) (snd ex_loaded)) = (5, 0, 0)"
proof -
  have "load_ledger ex_load_state = (5, 0, 0)" by code_simp
  moreover have "map ld_module (fst ex_loaded) = [[''peer_nn'']]" by code_simp
  moreover have "load_all (Peer_Create ex_world) [ex_argument ''peer_nn'', ex_argument ''runtime_tflite'', None] ex_load_state
      = (fst ex_loaded, snd ex_loaded)" by (simp only: ex_loaded_def prod.collapse)
  ultimately show ?thesis using peers_balanced by metis
qed

text \<open>
  Creating and destroying a discovery: when the runtime module does not load, nothing is left; a discovery
  that was created gives everything back when it is destroyed; but when there is no memory for the discovery itself, the
  runtime module that was just loaded stays: one heap object, one library handle and one module instance for ever.
\<close>

theorem discovery_ledger:
  assumes "Discovery_Create dl arg s = (d, L, s')"
  shows "case (d, L) of
      (None, None) \<Rightarrow> load_ledger s' = load_ledger s
    | (Some d, L) \<Rightarrow> L = None \<and> load_ledger (Discovery_Destroy d s') = load_ledger s
    | (None, Some L) \<Rightarrow> (case load_ledger s of (l, h, i) \<Rightarrow> load_ledger s' = (l + 1, h + 1, i + 1))"
proof -
  obtain L1 s1 where 1: "Discovery_Runtime_Create dl arg s = (L1, s1)" by fastforce
  obtain b os2 where 2: "os_new (ls_os s1) = (b, os2)" by fastforce
  then have live: "live os2 = live (ls_os s1) + (if b then 1 else 0)" by (auto simp: os_new_def split: if_splits)
  show ?thesis
  proof (cases L1)
    case None
    with 1 assms discovery_loader.create_failed [of dl arg s s1] show ?thesis by (auto simp: Discovery_Create_def)
  next
    case (Some M)
    then have "load_ledger (Discovery_Runtime_Destroy M s1) = load_ledger s"
      using discovery_loader.create_undone [of dl arg s M s1 s1] 1 by simp
    then have "load_ledger s = (live (ls_os s1) - 1, ls_handles s1 - 1, ls_instances s1 - 1)"
      by (simp add: Discovery_Runtime_Destroy_def unload_module_def module_delete_def load_ledger_def)
    with 1 2 live Some assms show ?thesis
      by (auto simp: Discovery_Create_def load_ledger_def Discovery_Destroy_def Discovery_Runtime_Destroy_def
          unload_module_def module_delete_def split: if_splits)
  qed
qed

definition ex_discovery_world :: "string list dl_world" where
  "ex_discovery_world file = Some \<lparr>dl_main = Some (\<lambda>argv. Some (Some ''discovery'', argv))\<rparr>"

lemma discovery_ledger_witness:
  "(case Discovery_Create ex_discovery_world (ex_argument ''x'') (ex_load_state\<lparr>ls_os := (ls_os ex_load_state)\<lparr>faults := [0, 0, 12]\<rparr>\<rparr>) of
      (d, L, s') \<Rightarrow> d = None \<and> L \<noteq> None \<and> load_ledger s' = (6, 1, 1))"
proof -
  let ?s = "ex_load_state\<lparr>ls_os := (ls_os ex_load_state)\<lparr>faults := [0, 0, 12]\<rparr>\<rparr>"
  obtain d L s' where r: "Discovery_Create ex_discovery_world (ex_argument ''x'') ?s = (d, L, s')"
    by (cases "Discovery_Create ex_discovery_world (ex_argument ''x'') ?s") auto
  have "fst (Discovery_Create ex_discovery_world (ex_argument ''x'') ?s) = None"
      "fst (snd (Discovery_Create ex_discovery_world (ex_argument ''x'') ?s)) \<noteq> None" "load_ledger ?s = (5, 0, 0)"
    by code_simp+
  with discovery_ledger [OF r] r show ?thesis by auto
qed

text \<open>The heap objects of a client's event data.\<close>

definition data_objects :: "discovery_data option \<Rightarrow> int" where
  "data_objects data =
    (case data of
      None \<Rightarrow> 0
    | Some d \<Rightarrow>
        (case dd_data d of
          NoPayload \<Rightarrow> 1
        | NamePayload n \<Rightarrow> 2
        | PeerPayload p \<Rightarrow> if dp_host p = None then 3 else 4))"

text \<open>A client's event data as \<open>FetchEventData\<close> makes them: the payload fits the type.\<close>

definition data_ok :: "discovery_data \<Rightarrow> bool" where
  "data_ok d \<longleftrightarrow>
    (case dd_data d of
      NoPayload \<Rightarrow> False
    | NamePayload n \<Rightarrow> dd_type d = event_code DISCOVERY_REGISTERED
    | PeerPayload p \<Rightarrow> dd_type d = (if dp_host p = None then event_code DISCOVERY_REMOVED else event_code DISCOVERY_DISCOVERED))"

definition ds_live :: "discovery_state \<Rightarrow> int" where
  "ds_live s = live (ds_os s)"

lemma ds_new_live: "ds_new s = (b, t) \<Longrightarrow> ds_live t = ds_live s + (if b then 1 else 0) \<and> ds_pending t = ds_pending s
    \<and> (b \<longleftrightarrow> fault (ds_os s) = 0)"
  by (auto simp: ds_new_def ds_live_def os_new_def split: if_splits)

lemma ds_delete_live [simp]: "ds_live (ds_delete s) = ds_live s - 1" "ds_pending (ds_delete s) = ds_pending s"
  by (simp_all add: ds_live_def ds_delete_def)

lemma DestroyEventData_live:
  "data_ok d \<Longrightarrow> Discovery_DestroyEventData (Some d) s = (r, d', t) \<Longrightarrow>
    r = 0 \<and> d' = None \<and> ds_live t = ds_live s - data_objects (Some d) \<and> ds_pending t = ds_pending s"
  by (auto simp: Discovery_DestroyEventData_def data_ok_def data_objects_def Let_def
      split: discovery_payload.splits if_splits)

text \<open>What the three copies have in common; \<open>s\<close> has the client's event data already, \<open>lost\<close> counts what is not freed.\<close>

definition copies :: "evtype \<Rightarrow> int \<Rightarrow> discovery_state \<Rightarrow> int \<times> discovery_data option \<times> discovery_state \<Rightarrow> bool" where
  "copies type lost s r \<longleftrightarrow>
    (case r of (ret, d, t) \<Rightarrow> ds_pending t = ds_pending s \<and>
      (case d of
        None \<Rightarrow> ds_live t = ds_live s - 1 \<or> ds_live t = ds_live s - 1 + lost
      | Some d \<Rightarrow> ret = 0 \<and> data_ok d \<and> dd_type d = type \<and> ds_live t = ds_live s - 1 + data_objects (Some d)))"

lemma copy_registered_copies: "copies (event_code DISCOVERY_REGISTERED) 0 s (copy_registered (event_code DISCOVERY_REGISTERED) e s)"
proof -
  obtain b t where 1: "ds_new s = (b, t)" by fastforce
  from ds_new_live [OF 1] show ?thesis
    by (auto simp: copy_registered_def 1 copies_def data_ok_def data_objects_def)
qed

lemma copy_discovered_copies: "copies (event_code DISCOVERY_DISCOVERED) 1 s (copy_discovered (event_code DISCOVERY_DISCOVERED) e s)"
proof -
  obtain b1 s1 where 1: "ds_new s = (b1, s1)" by fastforce
  obtain b2 s2 where 2: "ds_new s1 = (b2, s2)" by fastforce
  obtain b3 s3 where 3: "ds_new s2 = (b3, s3)" by fastforce
  from ds_new_live [OF 1] ds_new_live [OF 2] ds_new_live [OF 3] show ?thesis
    by (cases "me_address e"; cases b1; cases b2; cases b3)
      (simp_all add: copy_discovered_def 1 2 3 copies_def data_ok_def data_objects_def)
qed

lemma copy_removed_copies: "copies (event_code DISCOVERY_REMOVED) 0 s (copy_removed (event_code DISCOVERY_REMOVED) e s)"
proof -
  obtain b1 s1 where 1: "ds_new s = (b1, s1)" by fastforce
  obtain b2 s2 where 2: "ds_new s1 = (b2, s2)" by fastforce
  from ds_new_live [OF 1] ds_new_live [OF 2] show ?thesis
    by (cases b1; cases b2) (simp_all add: copy_removed_def 1 2 copies_def data_ok_def data_objects_def)
qed

text \<open>
  Fetching a discovery event, for any module and any failing allocations. When the client gets an event, its
  type and payload fit, the module has its own event data back, and \<open>DestroyEventData\<close> frees all of the copy. When
  it gets none although the module delivered an event, the copy is freed, except that one
  heap object may be lost, and only for a DISCOVERED event; and only an event without data is not given back to the module.
\<close>

theorem discovery_fetch:
  assumes "Discovery_FetchEventData fetch destroy None L s = (ret, d, L', s')"
    and "fst (fetch (ld_module L)) = (0, Some sd)"
  shows "(case d of
      Some d \<Rightarrow> ret = 0 \<and> data_ok d \<and> dd_type d = md_type sd
        \<and> (\<exists>t. Discovery_DestroyEventData (Some d) s' = (0, None, t) \<and> ds_live t = ds_live s \<and> ds_pending t = ds_pending s)
    | None \<Rightarrow> ds_live s' = ds_live s \<or> (ds_live s' = ds_live s + 1 \<and> md_type sd = event_code DISCOVERY_DISCOVERED))
    \<and> ds_pending s' = ds_pending s + (if md_data sd = None then 1 else 0)"
proof (cases "md_data sd")
  case None
  with assms show ?thesis
    by (cases "fetch (ld_module L)") (auto simp: Discovery_FetchEventData_def ds_live_def errno_defs)
next
  case (Some e)
  let ?s0 = "s\<lparr>ds_pending := ds_pending s + 1\<rparr>"
  obtain b s1 where new: "ds_new ?s0 = (b, s1)" by fastforce
  from ds_new_live [OF new] have live: "ds_live s1 = ds_live s + (if b then 1 else 0)" "ds_pending s1 = ds_pending s + 1"
    by (simp_all add: ds_live_def)
  have fin: ?thesis if "copies type lost s1 r" "b" "type = md_type sd" "lost \<in> {0, 1}"
      "lost = 1 \<longrightarrow> type = event_code DISCOVERY_DISCOVERED"
      "(ret, d, s') = (case r of (r, d, t) \<Rightarrow> (if r < 0 then r else 0, d, t\<lparr>ds_pending := ds_pending t - 1\<rparr>))" for type lost r
  proof (cases d)
    case None
    with that live Some show ?thesis by (auto simp: copies_def ds_live_def)
  next
    case (Some d')
    obtain r1 d1 t1 where r: "r = (r1, d1, t1)" by (cases r)
    obtain r2 d2 t2 where D: "Discovery_DestroyEventData (Some d') s' = (r2, d2, t2)"
      by (cases "Discovery_DestroyEventData (Some d') s'")
    with that live Some r DestroyEventData_live [OF _ D] \<open>md_data sd = Some e\<close> show ?thesis
      by (auto simp: copies_def ds_live_def)
  qed
  obtain m where f: "fetch (ld_module L) = ((0, Some sd), m)" using assms(2) by (cases "fetch (ld_module L)") auto
  note C = assms(1) [unfolded Discovery_FetchEventData_def f]
  consider "\<not> b" | b "md_type sd = event_code DISCOVERY_REGISTERED" | b "md_type sd = event_code DISCOVERY_DISCOVERED"
    | b "md_type sd = event_code DISCOVERY_REMOVED"
    | b "md_type sd \<notin> {event_code DISCOVERY_REGISTERED, event_code DISCOVERY_DISCOVERED, event_code DISCOVERY_REMOVED}"
    by blast
  then show ?thesis
  proof cases
    case 1
    with C live Some new show ?thesis by (auto simp: ds_live_def)
  next
    case 2
    with C fin [OF copy_registered_copies [of s1 e]] Some new show ?thesis by (simp add: Let_def split: prod.splits) auto
  next
    case 3
    with C fin [OF copy_discovered_copies [of s1 e]] Some new show ?thesis by (simp add: Let_def split: prod.splits) auto
  next
    case 4
    with C fin [OF copy_removed_copies [of s1 e]] Some new show ?thesis by (simp add: Let_def split: prod.splits) auto
  next
    case 5
    with C live Some new show ?thesis by (auto simp: ds_live_def ds_delete_def)
  qed
qed

definition ex_event :: module_data where
  "ex_event = \<lparr>md_type = event_code DISCOVERY_DISCOVERED,
    md_data = Some \<lparr>me_name = ''pi'', me_address = Inl 97, me_port = 3000, me_uuid = ''u''\<rparr>\<rparr>"

definition ex_fetched :: "int \<times> discovery_data option \<times> nat loaded \<times> discovery_state" where
  "ex_fetched = Discovery_FetchEventData (\<lambda>m. ((0, Some ex_event), m + 1)) (\<lambda>d m. m) None
    \<lparr>ld_handle = [], ld_module = 0, ld_argv = []\<rparr>
    \<lparr>ds_os = \<lparr>open_fds = {}, next_fd = 0, live = 5, faults = []\<rparr>, ds_pending = 0\<rparr>"

lemma discovery_fetch_witness:
  "fst ex_fetched = -97 \<and> ds_live (snd (snd (snd ex_fetched))) = 6 \<and> ds_pending (snd (snd (snd ex_fetched))) = 0"
proof -
  obtain r d L' s' where f: "ex_fetched = (r, d, L', s')" by (cases ex_fetched)
  have "fst ex_fetched = -97" "ds_live (snd (snd (snd ex_fetched))) = 6" by code_simp+
  moreover have "fst (ex_fetched) = r" "snd (snd (snd ex_fetched)) = s'" "md_data ex_event \<noteq> None" by (simp_all add: f ex_event_def)
  ultimately show ?thesis
    using discovery_fetch [of "\<lambda>m. ((0, Some ex_event), m + 1)" "\<lambda>d m. m" "\<lparr>ld_handle = [], ld_module = 0, ld_argv = []\<rparr>"
      "\<lparr>ds_os = \<lparr>open_fds = {}, next_fd = 0, live = 5, faults = []\<rparr>, ds_pending = 0\<rparr>" r d L' s' ex_event,
      OF f [unfolded ex_fetched_def]] by simp
qed

end
