(* ===== verification/Runtime_Async.thy ===== *)
theory Runtime_Async
  imports Command_Object Event_Pipe Module_Interface
begin

text \<open>
  \<^verbatim>\<open>libbeyond/src/inference_runtime_impl_async.cc\<close>: the emulation of an asynchronous runtime over a
  synchronous module. The caller's methods send a command with the address of their argument block to the
  thread of an event loop and wait for the same command to come back; the thread calls the module. \<open>Invoke\<close>
  does not wait: the thread queues its output in a pipe and publishes an event.

  The state has both directions of the socket pair, the output pipe, the argument blocks in use (on the
  callers' stacks or on the heap) and the module's state. The module \<open>M\<close> is a parameter. A waiting caller lets the thread
  handle up to \<open>n\<close> commands (\<open>n\<close> is the scheduling, not a bound of the code); a reply that does not
  come then is a wait without end.
\<close>

section \<open>State\<close>

definition IdConfigure :: int where "IdConfigure = 0"
definition IdLoadModel :: int where "IdLoadModel = 1"
definition IdGetInputTensorInfo :: int where "IdGetInputTensorInfo = 2"
definition IdGetOutputTensorInfo :: int where "IdGetOutputTensorInfo = 3"
definition IdSetInputTensorInfo :: int where "IdSetInputTensorInfo = 4"
definition IdSetOutputTensorInfo :: int where "IdSetOutputTensorInfo = 5"
definition IdAllocateTensor :: int where "IdAllocateTensor = 6"
definition IdFreeTensor :: int where "IdFreeTensor = 7"
definition IdPrepare :: int where "IdPrepare = 8"
definition IdInvoke :: int where "IdInvoke = 9"
definition IdStop :: int where "IdStop = 10"
definition IdLast :: int where "IdLast = 11"
definition IdGetOutput :: int where "IdGetOutput = 12"

lemmas Id_defs = IdConfigure_def IdLoadModel_def IdGetInputTensorInfo_def IdGetOutputTensorInfo_def
  IdSetInputTensorInfo_def IdSetOutputTensorInfo_def IdAllocateTensor_def IdFreeTensor_def IdPrepare_def
  IdInvoke_def IdStop_def IdLast_def IdGetOutput_def

text \<open>
  \<open>CommandData\<close>: the union \<open>args\<close> has the pointers \<open>info\<close>, \<open>tensor\<close> and \<open>ptr\<close> at its start and the sizes after
  them, so they are the same fields; \<open>ca_model\<close> is the string \<open>ptr\<close> points to for \<open>LoadModel\<close>. In \<open>ret\<close> the two
  integers are one field.
\<close>

record command_args =
  ca_ptr :: ptr
  ca_size :: int
  ca_context :: ptr
  ca_model :: "string option"
  ca_value :: int
  ca_obj :: ptr

definition no_args :: command_args where
  "no_args = \<lparr>ca_ptr = nullptr, ca_size = 0, ca_context = nullptr, ca_model = None, ca_value = 0, ca_obj = nullptr\<rparr>"

record 'm async =
  as_command :: channel \<comment> \<open>command, the callers' end, to context.command\<close>
  as_reply :: channel \<comment> \<open>context.command to command\<close>
  as_output :: channel \<comment> \<open>outputProducer to outputConsumer\<close>
  as_args :: "ptr \<Rightarrow> command_args option"
  as_next :: ptr
  as_new :: "bool list" \<comment> \<open>script of the allocations of argument blocks and event data\<close>
  as_events :: published \<comment> \<open>the pipe of eventObject\<close>
  as_module :: 'm

definition new_args :: "command_args \<Rightarrow> 'm async \<Rightarrow> ptr \<times> 'm async" where
  "new_args a A = (as_next A, A\<lparr>as_args := (as_args A)(as_next A \<mapsto> a), as_next := as_next A + 1\<rparr>)"

definition drop_args :: "ptr \<Rightarrow> 'm async \<Rightarrow> 'm async" where
  "drop_args p A = A\<lparr>as_args := (as_args A)(p := None)\<rparr>"

definition set_args :: "ptr \<Rightarrow> command_args \<Rightarrow> 'm async \<Rightarrow> 'm async" where
  "set_args p a A = A\<lparr>as_args := (as_args A)(p \<mapsto> a)\<rparr>"

definition async_alloc :: "'m async \<Rightarrow> bool \<times> 'm async" where
  "async_alloc A = (as_new A = [] \<or> hd (as_new A), A\<lparr>as_new := tl (as_new A)\<rparr>)"

section \<open>The thread: command handlers\<close>

text \<open>Sending the command back, the common end of the handlers.\<close>

definition reply_command :: "bool \<Rightarrow> int \<Rightarrow> ptr \<Rightarrow> 'm async \<Rightarrow> (int \<times> 'm async) outcome" where
  "reply_command nd cid p A =
    obind (Send nd cid p (as_reply A)) (\<lambda>(ret, ch). Ret (ret, A\<lparr>as_reply := ch\<rparr>))"

text \<open>Access to an argument block through its address; a block that is gone is undefined behaviour.\<close>

definition with_args ::
    "bool \<Rightarrow> ptr \<Rightarrow> 'm async \<Rightarrow> (command_args \<Rightarrow> (int \<times> 'm async) outcome) \<Rightarrow> (int \<times> 'm async) outcome" where
  "with_args nd p A f =
    (if p = nullptr then (if nd then Undefined else Aborted) else case as_args A p of None \<Rightarrow> Undefined | Some a \<Rightarrow> f a)"

definition CommandConfigureHandler :: "'m module \<Rightarrow> bool \<Rightarrow> ptr \<Rightarrow> 'm async \<Rightarrow> (int \<times> 'm async) outcome" where
  "CommandConfigureHandler M nd p A = with_args nd p A (\<lambda>a.
    let (r, m) = M (CallConfigure (ca_ptr a)) (as_module A) in
    reply_command nd IdConfigure p (set_args p (a\<lparr>ca_value := r_ret r\<rparr>) (A\<lparr>as_module := m\<rparr>)))"

definition CommandLoadModelHandler :: "'m module \<Rightarrow> bool \<Rightarrow> ptr \<Rightarrow> 'm async \<Rightarrow> (int \<times> 'm async) outcome" where
  "CommandLoadModelHandler M nd p A = with_args nd p A (\<lambda>a.
    let (r, m) = M (CallLoadModel (ca_model a)) (as_module A) in
    reply_command nd IdLoadModel p (set_args p (a\<lparr>ca_value := r_ret r\<rparr>) (A\<lparr>as_module := m\<rparr>)))"

text \<open>The module gets fresh variables, not the caller's; \<open>GetOutputTensorInfo\<close> leaves them uninitialised, taken as 0.\<close>

definition CommandGetInputTensorInfoHandler :: "'m module \<Rightarrow> bool \<Rightarrow> ptr \<Rightarrow> 'm async \<Rightarrow> (int \<times> 'm async) outcome" where
  "CommandGetInputTensorInfoHandler M nd p A = with_args nd p A (\<lambda>a.
    let (r, m) = M (CallGetInputTensorInfo nullptr 0) (as_module A) in
    reply_command nd IdGetInputTensorInfo p
      (set_args p (a\<lparr>ca_value := r_ret r, ca_ptr := r_ptr r, ca_size := r_size r\<rparr>) (A\<lparr>as_module := m\<rparr>)))"

definition CommandGetOutputTensorInfoHandler :: "'m module \<Rightarrow> bool \<Rightarrow> ptr \<Rightarrow> 'm async \<Rightarrow> (int \<times> 'm async) outcome" where
  "CommandGetOutputTensorInfoHandler M nd p A = with_args nd p A (\<lambda>a.
    let (r, m) = M (CallGetOutputTensorInfo nullptr 0) (as_module A) in
    reply_command nd IdGetOutputTensorInfo p
      (set_args p (a\<lparr>ca_value := r_ret r, ca_ptr := r_ptr r, ca_size := r_size r\<rparr>) (A\<lparr>as_module := m\<rparr>)))"

definition CommandSetInputTensorInfoHandler :: "'m module \<Rightarrow> bool \<Rightarrow> ptr \<Rightarrow> 'm async \<Rightarrow> (int \<times> 'm async) outcome" where
  "CommandSetInputTensorInfoHandler M nd p A = with_args nd p A (\<lambda>a.
    let (r, m) = M (CallSetInputTensorInfo (ca_ptr a) (ca_size a)) (as_module A) in
    reply_command nd IdSetInputTensorInfo p (set_args p (a\<lparr>ca_value := r_ret r\<rparr>) (A\<lparr>as_module := m\<rparr>)))"

definition CommandSetOutputTensorInfoHandler :: "'m module \<Rightarrow> bool \<Rightarrow> ptr \<Rightarrow> 'm async \<Rightarrow> (int \<times> 'm async) outcome" where
  "CommandSetOutputTensorInfoHandler M nd p A = with_args nd p A (\<lambda>a.
    let (r, m) = M (CallSetOutputTensorInfo (ca_ptr a) (ca_size a)) (as_module A) in
    reply_command nd IdSetOutputTensorInfo p (set_args p (a\<lparr>ca_value := r_ret r\<rparr>) (A\<lparr>as_module := m\<rparr>)))"

definition CommandAllocateTensorHandler :: "'m module \<Rightarrow> bool \<Rightarrow> ptr \<Rightarrow> 'm async \<Rightarrow> (int \<times> 'm async) outcome" where
  "CommandAllocateTensorHandler M nd p A = with_args nd p A (\<lambda>a.
    let (r, m) = M (CallAllocateTensor (ca_ptr a) (ca_size a) nullptr) (as_module A) in
    reply_command nd IdAllocateTensor p
      (set_args p (a\<lparr>ca_value := r_ret r, ca_obj := r_ptr r\<rparr>) (A\<lparr>as_module := m\<rparr>)))"

definition CommandFreeTensorHandler :: "'m module \<Rightarrow> bool \<Rightarrow> ptr \<Rightarrow> 'm async \<Rightarrow> (int \<times> 'm async) outcome" where
  "CommandFreeTensorHandler M nd p A = with_args nd p A (\<lambda>a.
    let (r, m) = M (CallFreeTensor (ca_ptr a) (ca_size a)) (as_module A) in
    reply_command nd IdFreeTensor p (set_args p (a\<lparr>ca_ptr := r_ptr r, ca_value := 0\<rparr>) (A\<lparr>as_module := m\<rparr>)))"

definition CommandPrepareHandler :: "'m module \<Rightarrow> bool \<Rightarrow> ptr \<Rightarrow> 'm async \<Rightarrow> (int \<times> 'm async) outcome" where
  "CommandPrepareHandler M nd p A = with_args nd p A (\<lambda>a.
    let (r, m) = M CallPrepare (as_module A) in
    reply_command nd IdPrepare p (set_args p (a\<lparr>ca_value := r_ret r\<rparr>) (A\<lparr>as_module := m\<rparr>)))"

definition CommandStopHandler :: "'m module \<Rightarrow> bool \<Rightarrow> ptr \<Rightarrow> 'm async \<Rightarrow> (int \<times> 'm async) outcome" where
  "CommandStopHandler M nd p A = with_args nd p A (\<lambda>a.
    let (r, m) = M CallStop (as_module A) in
    reply_command nd IdStop p (set_args p (a\<lparr>ca_value := r_ret r\<rparr>) (A\<lparr>as_module := m\<rparr>)))"

text \<open>
  \<open>CommandInvokeHandler\<close>. The block goes into the output pipe when the module delivers an output, and is
  deleted when it cannot be queued; when the module has no output (or there is no memory for the event) nobody
  deletes it.
\<close>

definition CommandInvokeHandler :: "'m module \<Rightarrow> bool \<Rightarrow> ptr \<Rightarrow> 'm async \<Rightarrow> (int \<times> 'm async) outcome" where
  "CommandInvokeHandler M nd p A = with_args nd p A (\<lambda>a.
    let (allocated, A0) = async_alloc A in
    if \<not> allocated then Ret (- ENOMEM, A0)
    else
      let (r, m) = M (CallInvoke (ca_ptr a) (ca_size a) (ca_context a)) (as_module A0);
          type1 = (if r_ret r < 0 then event_code INFERENCE_ERROR else event_code INFERENCE_SUCCESS);
          (r', m') = M (CallGetOutput (ca_ptr a) (ca_size a)) m;
          A1 = set_args p (a\<lparr>ca_ptr := r_ptr r', ca_size := r_size r'\<rparr>) (A0\<lparr>as_module := m'\<rparr>);
          publish = (\<lambda>ret type A2.
            let (_, q) = PublishEventData (Some \<lparr>ed_type = type, ed_data = ca_context a\<rparr>) (as_events A2) in
            Ret (ret, A2\<lparr>as_events := q\<rparr>)) in
      if r_ret r' < 0 then publish (r_ret r) (event_code INFERENCE_ERROR) A1
      else
        obind (Send nd IdGetOutput p (as_output A1)) (\<lambda>(ret, ch).
          let A2 = A1\<lparr>as_output := ch\<rparr> in
          if ret < 0 then publish ret (event_code INFERENCE_ERROR) (drop_args p A2)
          else publish ret type1 A2))"

text \<open>The table of command handlers and the thread's event handler.\<close>

definition cmdTable ::
    "'m module \<Rightarrow> (bool \<Rightarrow> ptr \<Rightarrow> 'm async \<Rightarrow> (int \<times> 'm async) outcome) list" where
  "cmdTable M = [CommandConfigureHandler M, CommandLoadModelHandler M, CommandGetInputTensorInfoHandler M,
    CommandGetOutputTensorInfoHandler M, CommandSetInputTensorInfoHandler M, CommandSetOutputTensorInfoHandler M,
    CommandAllocateTensorHandler M, CommandFreeTensorHandler M, CommandPrepareHandler M, CommandInvokeHandler M,
    CommandStopHandler M]"

definition Async_Main :: "'m module \<Rightarrow> bool \<Rightarrow> evtype \<Rightarrow> 'm async \<Rightarrow> (handler_return \<times> 'm async) outcome" where
  "Async_Main M nd type A =
    (if type AND EVT_ERROR = EVT_ERROR then Ret (RETURN_CANCEL, A)
     else obind (Recv nd (as_command A)) (\<lambda>(ret, cmd, ch).
       let A1 = A\<lparr>as_command := ch\<rparr> in
       case cmd of
         None \<Rightarrow> Ret (RETURN_RENEW, A1)
       | Some cmd \<Rightarrow>
           if cd_id cmd < 0 \<or> IdLast \<le> cd_id cmd then Ret (RETURN_RENEW, A1)
           else obind ((cmdTable M ! nat (cd_id cmd)) nd (cd_data cmd) A1) (\<lambda>(ret, A2). Ret (RETURN_RENEW, A2))))"

text \<open>The thread handles up to \<open>n\<close> commands, as long as there is one.\<close>

fun run_thread :: "'m module \<Rightarrow> bool \<Rightarrow> nat \<Rightarrow> 'm async \<Rightarrow> 'm async outcome" where
  "run_thread M nd 0 A = Ret A"
| "run_thread M nd (Suc n) A =
    (if ch_bytes (as_command A) = [] then Ret A
     else obind (Async_Main M nd EVT_READ A) (\<lambda>(_, A'). run_thread M nd n A'))"

section \<open>The callers' side\<close>

text \<open>
  The common body of the methods that wait: send the command with the address of a block on the stack, wait for a
  command to come back, and read the block if it is the same one. \<open>Inl ret\<close>: the early return when \<open>Send\<close> or \<open>Recv\<close> fails
  or another command comes back, with the value returned. The block is gone when the method returns.
\<close>

definition rpc ::
    "'m module \<Rightarrow> bool \<Rightarrow> nat \<Rightarrow> int \<Rightarrow> command_args \<Rightarrow> 'm async \<Rightarrow> ((int + command_args) \<times> 'm async) outcome" where
  "rpc M nd n cid a A =
    (let (p, A1) = new_args a A in
     obind (Send nd cid p (as_command A1)) (\<lambda>(ret, ch).
       let A2 = A1\<lparr>as_command := ch\<rparr> in
       if ret < 0 then Ret (Inl ret, drop_args p A2)
       else obind (run_thread M nd n A2) (\<lambda>A3.
         obind (Recv nd (as_reply A3)) (\<lambda>(ret, cmd, ch).
           let A4 = A3\<lparr>as_reply := ch\<rparr> in
           case cmd of
             None \<Rightarrow> Ret (Inl ret, drop_args p A4)
           | Some cmd \<Rightarrow>
               if cd_id cmd \<noteq> cid then Ret (Inl ret, drop_args p A4)
               else if cd_data cmd \<noteq> p \<and> \<not> nd then Aborted
               else case as_args A4 (cd_data cmd) of
                 None \<Rightarrow> Undefined
               | Some a' \<Rightarrow> Ret (Inr a', drop_args p A4)))))"

definition Async_Configure :: "'m module \<Rightarrow> bool \<Rightarrow> nat \<Rightarrow> ptr \<Rightarrow> 'm async \<Rightarrow> (reply \<times> 'm async) outcome" where
  "Async_Configure M nd n options A =
    obind (rpc M nd n IdConfigure (no_args\<lparr>ca_ptr := options\<rparr>) A) (\<lambda>(r, A').
      Ret (ret_only (case r of Inl ret \<Rightarrow> ret | Inr a \<Rightarrow> ca_value a), A'))"

definition Async_LoadModel :: "'m module \<Rightarrow> bool \<Rightarrow> nat \<Rightarrow> string option \<Rightarrow> 'm async \<Rightarrow> (reply \<times> 'm async) outcome" where
  "Async_LoadModel M nd n model A =
    obind (rpc M nd n IdLoadModel (no_args\<lparr>ca_model := model\<rparr>) A) (\<lambda>(r, A').
      Ret (ret_only (case r of Inl ret \<Rightarrow> ret | Inr a \<Rightarrow> ca_value a), A'))"

definition Async_GetInputTensorInfo ::
    "'m module \<Rightarrow> bool \<Rightarrow> nat \<Rightarrow> ptr \<Rightarrow> int \<Rightarrow> 'm async \<Rightarrow> (reply \<times> 'm async) outcome" where
  "Async_GetInputTensorInfo M nd n info sz A =
    obind (rpc M nd n IdGetInputTensorInfo (no_args\<lparr>ca_ptr := info, ca_size := sz\<rparr>) A) (\<lambda>(r, A').
      Ret (case r of
          Inl ret \<Rightarrow> (ret_only ret)\<lparr>r_ptr := info, r_size := sz\<rparr>
        | Inr a \<Rightarrow>
            if ca_value a = 0 then (ret_only (ca_value a))\<lparr>r_ptr := ca_ptr a, r_size := ca_size a\<rparr>
            else (ret_only (ca_value a))\<lparr>r_ptr := info, r_size := sz\<rparr>, A'))"

definition Async_GetOutputTensorInfo ::
    "'m module \<Rightarrow> bool \<Rightarrow> nat \<Rightarrow> ptr \<Rightarrow> int \<Rightarrow> 'm async \<Rightarrow> (reply \<times> 'm async) outcome" where
  "Async_GetOutputTensorInfo M nd n info sz A =
    obind (rpc M nd n IdGetOutputTensorInfo (no_args\<lparr>ca_ptr := info, ca_size := sz\<rparr>) A) (\<lambda>(r, A').
      Ret (case r of
          Inl ret \<Rightarrow> (ret_only ret)\<lparr>r_ptr := info, r_size := sz\<rparr>
        | Inr a \<Rightarrow>
            if ca_value a = 0 then (ret_only (ca_value a))\<lparr>r_ptr := ca_ptr a, r_size := ca_size a\<rparr>
            else (ret_only (ca_value a))\<lparr>r_ptr := info, r_size := sz\<rparr>, A'))"

definition Async_SetInputTensorInfo ::
    "'m module \<Rightarrow> bool \<Rightarrow> nat \<Rightarrow> ptr \<Rightarrow> int \<Rightarrow> 'm async \<Rightarrow> (reply \<times> 'm async) outcome" where
  "Async_SetInputTensorInfo M nd n info sz A =
    obind (rpc M nd n IdSetInputTensorInfo (no_args\<lparr>ca_ptr := info, ca_size := sz\<rparr>) A) (\<lambda>(r, A').
      Ret (ret_only (case r of Inl ret \<Rightarrow> ret | Inr a \<Rightarrow> ca_value a), A'))"

definition Async_SetOutputTensorInfo ::
    "'m module \<Rightarrow> bool \<Rightarrow> nat \<Rightarrow> ptr \<Rightarrow> int \<Rightarrow> 'm async \<Rightarrow> (reply \<times> 'm async) outcome" where
  "Async_SetOutputTensorInfo M nd n info sz A =
    obind (rpc M nd n IdSetOutputTensorInfo (no_args\<lparr>ca_ptr := info, ca_size := sz\<rparr>) A) (\<lambda>(r, A').
      Ret (ret_only (case r of Inl ret \<Rightarrow> ret | Inr a \<Rightarrow> ca_value a), A'))"

definition Async_AllocateTensor ::
    "'m module \<Rightarrow> bool \<Rightarrow> nat \<Rightarrow> ptr \<Rightarrow> int \<Rightarrow> ptr \<Rightarrow> 'm async \<Rightarrow> (reply \<times> 'm async) outcome" where
  "Async_AllocateTensor M nd n info sz tensor A =
    obind (rpc M nd n IdAllocateTensor (no_args\<lparr>ca_ptr := info, ca_size := sz\<rparr>) A) (\<lambda>(r, A').
      Ret (case r of
          Inl ret \<Rightarrow> (ret_only ret)\<lparr>r_ptr := tensor\<rparr>
        | Inr a \<Rightarrow>
            if ca_value a < 0 then (ret_only (ca_value a))\<lparr>r_ptr := tensor\<rparr>
            else (ret_only (ca_value a))\<lparr>r_ptr := ca_obj a\<rparr>, A'))"

text \<open>The caller's \<open>tensor\<close> variable is left as it is.\<close>

definition Async_FreeTensor ::
    "'m module \<Rightarrow> bool \<Rightarrow> nat \<Rightarrow> ptr \<Rightarrow> int \<Rightarrow> 'm async \<Rightarrow> (reply \<times> 'm async) outcome" where
  "Async_FreeTensor M nd n tensor sz A =
    obind (rpc M nd n IdFreeTensor (no_args\<lparr>ca_ptr := tensor, ca_size := sz\<rparr>) A) (\<lambda>(r, A').
      Ret ((ret_only 0)\<lparr>r_ptr := tensor\<rparr>, A'))"

definition Async_Prepare :: "'m module \<Rightarrow> bool \<Rightarrow> nat \<Rightarrow> 'm async \<Rightarrow> (reply \<times> 'm async) outcome" where
  "Async_Prepare M nd n A =
    obind (rpc M nd n IdPrepare no_args A) (\<lambda>(r, A').
      Ret (ret_only (case r of Inl ret \<Rightarrow> ret | Inr a \<Rightarrow> ca_value a), A'))"

definition Async_Invoke :: "bool \<Rightarrow> ptr \<Rightarrow> int \<Rightarrow> ptr \<Rightarrow> 'm async \<Rightarrow> (reply \<times> 'm async) outcome" where
  "Async_Invoke nd input sz context A =
    (let (allocated, A0) = async_alloc A in
     if \<not> allocated then Ret (ret_only (- ENOMEM), A0)
     else
       let (p, A1) = new_args (no_args\<lparr>ca_ptr := input, ca_size := sz, ca_context := context\<rparr>) A0 in
       obind (Send nd IdInvoke p (as_command A1)) (\<lambda>(ret, ch).
         let A2 = A1\<lparr>as_command := ch\<rparr> in
         Ret (ret_only ret, if ret < 0 then drop_args p A2 else A2)))"

definition Async_GetOutput :: "bool \<Rightarrow> ptr \<Rightarrow> int \<Rightarrow> 'm async \<Rightarrow> (reply \<times> 'm async) outcome" where
  "Async_GetOutput nd tensor sz A =
    obind (Recv nd (as_output A)) (\<lambda>(ret, cmd, ch).
      let A1 = A\<lparr>as_output := ch\<rparr>; unchanged = (\<lambda>v. (ret_only v)\<lparr>r_ptr := tensor, r_size := sz\<rparr>) in
      case cmd of
        None \<Rightarrow> Ret (unchanged ret, A1)
      | Some cmd \<Rightarrow>
          if cd_id cmd \<noteq> IdGetOutput then Ret (unchanged ret, A1)
          else if cd_data cmd = nullptr then (if nd then Undefined else Aborted)
          else case as_args A1 (cd_data cmd) of
            None \<Rightarrow> Undefined
          | Some a \<Rightarrow>
              if ca_value a < 0 then Ret (unchanged (ca_value a), A1)
              else Ret ((ret_only (ca_value a))\<lparr>r_ptr := ca_ptr a, r_size := ca_size a\<rparr>, drop_args (cd_data cmd) A1))"

definition Async_Stop :: "'m module \<Rightarrow> bool \<Rightarrow> nat \<Rightarrow> 'm async \<Rightarrow> (reply \<times> 'm async) outcome" where
  "Async_Stop M nd n A =
    obind (rpc M nd n IdStop no_args A) (\<lambda>(r, A').
      Ret (ret_only (case r of Inl ret \<Rightarrow> ret | Inr a \<Rightarrow> ca_value a), A'))"

section \<open>A synchronous call through the thread\<close>

text \<open>
  At rest: the channels are sound and calm and nothing is on its way in the socket pair; outputs may wait in
  the output pipe. Fresh blocks get new addresses, of which there are enough.
\<close>

definition at_rest :: "'m async \<Rightarrow> bool" where
  "at_rest A \<longleftrightarrow> channel_ok (as_command A) \<and> channel_ok (as_reply A) \<and> channel_ok (as_output A)
    \<and> channel_calm (as_command A) \<and> channel_calm (as_reply A) \<and> channel_calm (as_output A)
    \<and> commands (as_command A) = [] \<and> commands (as_reply A) = []
    \<and> 0 < as_next A \<and> (\<forall>p. as_next A \<le> p \<longrightarrow> as_args A p = None) \<and> as_new A = []"

definition room :: "nat \<Rightarrow> 'm async \<Rightarrow> bool" where
  "room k A \<longleftrightarrow> ch_next (as_command A) + k \<le> 2 ^ 64 \<and> ch_next (as_reply A) + k \<le> 2 ^ 64
    \<and> ch_next (as_output A) + k \<le> 2 ^ 64"

lemma send_one:
  assumes "channel_ok c" "channel_calm c" "ch_next c + Suc k \<le> 2 ^ 64"
  shows "\<exists>c'. Send nd cid p c = Ret (0, c') \<and> channel_ok c' \<and> channel_calm c' \<and> ch_next c' + k \<le> 2 ^ 64
    \<and> commands c' = commands c @ [\<lparr>cd_id = cid, cd_data = p\<rparr>]"
proof -
  obtain c' where c': "Send nd cid p c = Ret (0, c')" "channel_calm c'" "ch_next c' = ch_next c + 1"
    using Send_calm [OF assms(1,2), of nd cid p] assms(3) by auto
  with Send_outcome [OF assms(1) c'(1)] assms(3) show ?thesis by auto
qed

lemma recv_one:
  assumes "channel_ok c" "channel_calm c" "commands c = m # ms"
  shows "\<exists>c'. Recv nd c = Ret (0, Some m, c') \<and> channel_ok c' \<and> channel_calm c' \<and> ch_next c' = ch_next c
    \<and> commands c' = ms"
proof -
  obtain c' where c': "Recv nd c = Ret (0, Some m, c')" "channel_calm c'" "ch_next c' = ch_next c"
    using Recv_calm [OF assms] by blast
  with Recv_outcome [OF assms(1) c'(1)] assms(3) show ?thesis by auto
qed

lemma commands_Nil: "channel_ok c \<Longrightarrow> commands c = [] \<longleftrightarrow> ch_bytes c = []"
  using channel_okD(4) [of c] ptrs_of_eq_Nil [of "ch_bytes c"] by (simp add: commands_def)

text \<open>What a command handler of the table does with a live block: change it, change the module, send it back.\<close>

definition answers ::
    "'m module \<Rightarrow> int \<Rightarrow> (command_args \<Rightarrow> 'm \<Rightarrow> command_args) \<Rightarrow> (command_args \<Rightarrow> 'm \<Rightarrow> 'm) \<Rightarrow> bool" where
  "answers M cid f g \<longleftrightarrow> 0 \<le> cid \<and> cid < IdLast \<and>
    (\<forall>nd p A a. 0 < p \<longrightarrow> as_args A p = Some a \<longrightarrow>
      (cmdTable M ! nat cid) nd p A =
        reply_command nd cid p (set_args p (f a (as_module A)) (A\<lparr>as_module := g a (as_module A)\<rparr>)))"

lemma rpc_answer:
  assumes rest: "at_rest A" and room: "room (Suc k) A" and ans: "answers M cid f g"
  shows "\<exists>A'. rpc M nd (Suc n) cid a A = Ret (Inr (f a (as_module A)), A')
    \<and> as_module A' = g a (as_module A) \<and> at_rest A' \<and> room k A'
    \<and> as_output A' = as_output A \<and> as_events A' = as_events A \<and> as_args A' = as_args A"
proof -
  let ?p = "as_next A"
  obtain A1 where A1: "new_args a A = (?p, A1)" "A1 = A\<lparr>as_args := (as_args A)(?p \<mapsto> a), as_next := ?p + 1\<rparr>"
    by (simp add: new_args_def)
  have chs: "channel_ok (as_command A1)" "channel_calm (as_command A1)" "ch_next (as_command A1) + Suc k \<le> 2 ^ 64"
      "channel_ok (as_reply A1)" "channel_calm (as_reply A1)" "ch_next (as_reply A1) + Suc k \<le> 2 ^ 64"
      "commands (as_command A1) = []" "commands (as_reply A1) = []" "0 < ?p"
    using rest room by (simp_all add: A1(2) at_rest_def room_def)
  obtain c2 where c2: "Send nd cid ?p (as_command A1) = Ret (0, c2)" "channel_ok c2" "channel_calm c2"
      "ch_next c2 + k \<le> 2 ^ 64" "commands c2 = [\<lparr>cd_id = cid, cd_data = ?p\<rparr>]"
    using send_one [OF chs(1-3)] chs(7) by fastforce
  obtain c3 where c3: "Recv nd c2 = Ret (0, Some \<lparr>cd_id = cid, cd_data = ?p\<rparr>, c3)" "channel_ok c3" "channel_calm c3"
      "ch_next c3 = ch_next c2" "commands c3 = []"
    using recv_one [OF c2(2,3,5)] by blast
  obtain r2 where r2: "Send nd cid ?p (as_reply A1) = Ret (0, r2)" "channel_ok r2" "channel_calm r2"
      "ch_next r2 + k \<le> 2 ^ 64" "commands r2 = [\<lparr>cd_id = cid, cd_data = ?p\<rparr>]"
    using send_one [OF chs(4-6)] chs(8) by fastforce
  obtain r3 where r3: "Recv nd r2 = Ret (0, Some \<lparr>cd_id = cid, cd_data = ?p\<rparr>, r3)" "channel_ok r3" "channel_calm r3"
      "ch_next r3 = ch_next r2" "commands r3 = []"
    using recv_one [OF r2(2,3,5)] by blast
  let ?m = "g a (as_module A)" and ?a = "f a (as_module A)"
  let ?A3 = "A1\<lparr>as_command := c3, as_module := ?m, as_args := (as_args A1)(?p \<mapsto> ?a), as_reply := r2\<rparr>"
  have ids: "\<not> cid < 0" "\<not> IdLast \<le> cid" using ans by (simp_all add: answers_def)
  have "(cmdTable M ! nat cid) nd ?p (A1\<lparr>as_command := c3\<rparr>) =
      reply_command nd cid ?p (set_args ?p ?a (A1\<lparr>as_command := c3, as_module := ?m\<rparr>))"
    using ans chs(9) by (simp add: answers_def A1(2))
  also have "\<dots> = Ret (0, ?A3)"
    using r2(1) by (simp add: reply_command_def set_args_def A1(2))
  finally have handler: "(cmdTable M ! nat cid) nd ?p (A1\<lparr>as_command := c3\<rparr>) = Ret (0, ?A3)" .
  have "Async_Main M nd EVT_READ (A1\<lparr>as_command := c2\<rparr>) = Ret (RETURN_RENEW, ?A3)"
    using c3(1) ids handler by (simp add: Async_Main_def Let_def)
  moreover have "ch_bytes c2 \<noteq> []" "ch_bytes c3 = []"
    using commands_Nil [OF c2(2)] commands_Nil [OF c3(2)] c2(5) c3(5) by auto
  ultimately have run: "run_thread M nd (Suc n) (A1\<lparr>as_command := c2\<rparr>) = Ret ?A3"
    by (cases n) simp_all
  have rpc: "rpc M nd (Suc n) cid a A = Ret (Inr ?a, drop_args ?p (?A3\<lparr>as_reply := r3\<rparr>))"
    using c2(1) run r3(1) by (simp add: rpc_def A1(1) Let_def del: run_thread.simps)
  have fresh: "as_args A ?p = None" using rest by (simp add: at_rest_def)
  then have args: "(as_args A)(?p := None) = as_args A" by (simp add: fun_upd_idem)
  show ?thesis
  proof (intro exI conjI)
    show "rpc M nd (Suc n) cid a A = Ret (Inr ?a, drop_args ?p (?A3\<lparr>as_reply := r3\<rparr>))" by (rule rpc)
  qed (use rest room c2 c3 r2 r3 args in \<open>simp_all add: at_rest_def room_def drop_args_def A1(2)\<close>)
qed

text \<open>The handlers of the table answer.\<close>

lemma answers_table:
  "answers M IdConfigure (\<lambda>a m. a\<lparr>ca_value := r_ret (fst (M (CallConfigure (ca_ptr a)) m))\<rparr>)
    (\<lambda>a m. snd (M (CallConfigure (ca_ptr a)) m))"
  "answers M IdLoadModel (\<lambda>a m. a\<lparr>ca_value := r_ret (fst (M (CallLoadModel (ca_model a)) m))\<rparr>)
    (\<lambda>a m. snd (M (CallLoadModel (ca_model a)) m))"
  "answers M IdGetInputTensorInfo
    (\<lambda>a m. let r = fst (M (CallGetInputTensorInfo nullptr 0) m) in
      a\<lparr>ca_value := r_ret r, ca_ptr := r_ptr r, ca_size := r_size r\<rparr>)
    (\<lambda>a m. snd (M (CallGetInputTensorInfo nullptr 0) m))"
  "answers M IdGetOutputTensorInfo
    (\<lambda>a m. let r = fst (M (CallGetOutputTensorInfo nullptr 0) m) in
      a\<lparr>ca_value := r_ret r, ca_ptr := r_ptr r, ca_size := r_size r\<rparr>)
    (\<lambda>a m. snd (M (CallGetOutputTensorInfo nullptr 0) m))"
  "answers M IdSetInputTensorInfo
    (\<lambda>a m. a\<lparr>ca_value := r_ret (fst (M (CallSetInputTensorInfo (ca_ptr a) (ca_size a)) m))\<rparr>)
    (\<lambda>a m. snd (M (CallSetInputTensorInfo (ca_ptr a) (ca_size a)) m))"
  "answers M IdSetOutputTensorInfo
    (\<lambda>a m. a\<lparr>ca_value := r_ret (fst (M (CallSetOutputTensorInfo (ca_ptr a) (ca_size a)) m))\<rparr>)
    (\<lambda>a m. snd (M (CallSetOutputTensorInfo (ca_ptr a) (ca_size a)) m))"
  "answers M IdAllocateTensor
    (\<lambda>a m. let r = fst (M (CallAllocateTensor (ca_ptr a) (ca_size a) nullptr) m) in
      a\<lparr>ca_value := r_ret r, ca_obj := r_ptr r\<rparr>)
    (\<lambda>a m. snd (M (CallAllocateTensor (ca_ptr a) (ca_size a) nullptr) m))"
  "answers M IdFreeTensor
    (\<lambda>a m. a\<lparr>ca_ptr := r_ptr (fst (M (CallFreeTensor (ca_ptr a) (ca_size a)) m)), ca_value := 0\<rparr>)
    (\<lambda>a m. snd (M (CallFreeTensor (ca_ptr a) (ca_size a)) m))"
  "answers M IdPrepare (\<lambda>a m. a\<lparr>ca_value := r_ret (fst (M CallPrepare m))\<rparr>) (\<lambda>a m. snd (M CallPrepare m))"
  "answers M IdStop (\<lambda>a m. a\<lparr>ca_value := r_ret (fst (M CallStop m))\<rparr>) (\<lambda>a m. snd (M CallStop m))"
  by (simp_all add: answers_def Id_defs cmdTable_def with_args_def Let_def case_prod_beta
      CommandConfigureHandler_def CommandLoadModelHandler_def CommandGetInputTensorInfoHandler_def
      CommandGetOutputTensorInfoHandler_def CommandSetInputTensorInfoHandler_def
      CommandSetOutputTensorInfoHandler_def CommandAllocateTensorHandler_def CommandFreeTensorHandler_def
      CommandPrepareHandler_def CommandStopHandler_def)

section \<open>Transparency\<close>

text \<open>All methods of the emulator by the call that asks for them; \<open>n\<close> is the scheduling of the thread.\<close>

fun Async_call :: "'m module \<Rightarrow> bool \<Rightarrow> nat \<Rightarrow> inference_call \<Rightarrow> 'm async \<Rightarrow> (reply \<times> 'm async) outcome option" where
  "Async_call M nd n (CallConfigure options) A = Some (Async_Configure M nd n options A)"
| "Async_call M nd n (CallLoadModel model) A = Some (Async_LoadModel M nd n model A)"
| "Async_call M nd n (CallGetInputTensorInfo info sz) A = Some (Async_GetInputTensorInfo M nd n info sz A)"
| "Async_call M nd n (CallGetOutputTensorInfo info sz) A = Some (Async_GetOutputTensorInfo M nd n info sz A)"
| "Async_call M nd n (CallSetInputTensorInfo info sz) A = Some (Async_SetInputTensorInfo M nd n info sz A)"
| "Async_call M nd n (CallSetOutputTensorInfo info sz) A = Some (Async_SetOutputTensorInfo M nd n info sz A)"
| "Async_call M nd n (CallAllocateTensor info sz tensor) A = Some (Async_AllocateTensor M nd n info sz tensor A)"
| "Async_call M nd n (CallFreeTensor tensor sz) A = Some (Async_FreeTensor M nd n tensor sz A)"
| "Async_call M nd n CallPrepare A = Some (Async_Prepare M nd n A)"
| "Async_call M nd n CallStop A = Some (Async_Stop M nd n A)"
| "Async_call M nd n _ A = None"

text \<open>The call the module sees, and what the caller sees of the module's reply.\<close>

fun module_view :: "inference_call \<Rightarrow> inference_call" where
  "module_view (CallGetInputTensorInfo info sz) = CallGetInputTensorInfo nullptr 0"
| "module_view (CallGetOutputTensorInfo info sz) = CallGetOutputTensorInfo nullptr 0"
| "module_view (CallAllocateTensor info sz tensor) = CallAllocateTensor info sz nullptr"
| "module_view c = c"

fun caller_view :: "inference_call \<Rightarrow> reply \<Rightarrow> reply" where
  "caller_view (CallGetInputTensorInfo info sz) r = (ret_only (r_ret r))
    \<lparr>r_ptr := if r_ret r = 0 then r_ptr r else info, r_size := if r_ret r = 0 then r_size r else sz\<rparr>"
| "caller_view (CallGetOutputTensorInfo info sz) r = (ret_only (r_ret r))
    \<lparr>r_ptr := if r_ret r = 0 then r_ptr r else info, r_size := if r_ret r = 0 then r_size r else sz\<rparr>"
| "caller_view (CallAllocateTensor info sz tensor) r =
    (ret_only (r_ret r))\<lparr>r_ptr := if r_ret r < 0 then tensor else r_ptr r\<rparr>"
| "caller_view (CallFreeTensor tensor sz) r = (ret_only 0)\<lparr>r_ptr := tensor\<rparr>"
| "caller_view c r = ret_only (r_ret r)"

lemma sync_call_answers:
  assumes "at_rest A" and "room (Suc k) A" and "Async_call M nd (Suc n) c A = Some m"
  shows "\<exists>A'. m = Ret (caller_view c (fst (M (module_view c) (as_module A))), A')
    \<and> as_module A' = snd (M (module_view c) (as_module A)) \<and> at_rest A' \<and> room k A'
    \<and> as_output A' = as_output A \<and> as_events A' = as_events A \<and> as_args A' = as_args A"
proof -
  note R = rpc_answer [OF assms(1,2) answers_table(1), of M nd n] rpc_answer [OF assms(1,2) answers_table(2), of M nd n]
    rpc_answer [OF assms(1,2) answers_table(3), of M nd n] rpc_answer [OF assms(1,2) answers_table(4), of M nd n]
    rpc_answer [OF assms(1,2) answers_table(5), of M nd n] rpc_answer [OF assms(1,2) answers_table(6), of M nd n]
    rpc_answer [OF assms(1,2) answers_table(7), of M nd n] rpc_answer [OF assms(1,2) answers_table(8), of M nd n]
    rpc_answer [OF assms(1,2) answers_table(9), of M nd n] rpc_answer [OF assms(1,2) answers_table(10), of M nd n]
  show ?thesis
  proof (cases c)
    case (CallConfigure x)
    from R(1) [of "no_args\<lparr>ca_ptr := x\<rparr>"] assms(3) CallConfigure show ?thesis
      by (force simp: Async_Configure_def no_args_def)
  next
    case (CallLoadModel x)
    from R(2) [of "no_args\<lparr>ca_model := x\<rparr>"] assms(3) CallLoadModel show ?thesis
      by (force simp: Async_LoadModel_def no_args_def)
  next
    case (CallGetInputTensorInfo i z)
    from R(3) [of "no_args\<lparr>ca_ptr := i, ca_size := z\<rparr>"] assms(3) CallGetInputTensorInfo show ?thesis
      by (force simp: Async_GetInputTensorInfo_def no_args_def Let_def)
  next
    case (CallGetOutputTensorInfo i z)
    from R(4) [of "no_args\<lparr>ca_ptr := i, ca_size := z\<rparr>"] assms(3) CallGetOutputTensorInfo show ?thesis
      by (force simp: Async_GetOutputTensorInfo_def no_args_def Let_def)
  next
    case (CallSetInputTensorInfo i z)
    from R(5) [of "no_args\<lparr>ca_ptr := i, ca_size := z\<rparr>"] assms(3) CallSetInputTensorInfo show ?thesis
      by (force simp: Async_SetInputTensorInfo_def no_args_def)
  next
    case (CallSetOutputTensorInfo i z)
    from R(6) [of "no_args\<lparr>ca_ptr := i, ca_size := z\<rparr>"] assms(3) CallSetOutputTensorInfo show ?thesis
      by (force simp: Async_SetOutputTensorInfo_def no_args_def)
  next
    case (CallAllocateTensor i z t)
    from R(7) [of "no_args\<lparr>ca_ptr := i, ca_size := z\<rparr>"] assms(3) CallAllocateTensor show ?thesis
      by (force simp: Async_AllocateTensor_def no_args_def Let_def)
  next
    case (CallFreeTensor t z)
    from R(8) [of "no_args\<lparr>ca_ptr := t, ca_size := z\<rparr>"] assms(3) CallFreeTensor show ?thesis
      by (force simp: Async_FreeTensor_def no_args_def)
  next
    case CallPrepare
    from R(9) [of no_args] assms(3) CallPrepare show ?thesis
      by (force simp: Async_Prepare_def no_args_def)
  next
    case CallStop
    from R(10) [of no_args] assms(3) CallStop show ?thesis
      by (force simp: Async_Stop_def no_args_def)
  qed (use assms(3) in simp_all)
qed

text \<open>
  C8. The emulator is transparent. At rest, each of its ten synchronous methods, in a debug or a release build
  and for every scheduling that lets the thread handle a command, returns; the module has seen exactly one
  call, the one asked for; the caller gets the module's return value and its outputs; and the emulator is at rest
  again with its argument block released.
\<close>

theorem async_transparent:
  assumes "at_rest A" and "room (Suc k) A" and "Async_call M nd (Suc n) c A = Some m"
  shows "\<exists>A'. m = Ret (caller_view c (fst (M (module_view c) (as_module A))), A')
    \<and> as_module A' = snd (M (module_view c) (as_module A)) \<and> at_rest A' \<and> room k A' \<and> as_args A' = as_args A"
  using sync_call_answers [OF assms] by blast

text \<open>A module that counts its calls and gives tensor information.\<close>

definition ex_module :: "nat module" where
  "ex_module c m =
    (case c of
      CallGetInputTensorInfo i z \<Rightarrow> ((ret_only 0)\<lparr>r_ptr := 500, r_size := 3\<rparr>, m + 1)
    | CallInvoke i z ctx \<Rightarrow> (ret_only 0, m + 1)
    | CallGetOutput t z \<Rightarrow> ((ret_only 0)\<lparr>r_ptr := 600 + m, r_size := 1\<rparr>, m)
    | CallFreeTensor t z \<Rightarrow> ((ret_only 0)\<lparr>r_ptr := nullptr\<rparr>, m)
    | _ \<Rightarrow> (ret_only 0, m + 1))"

definition ex_async :: "nat async" where
  "ex_async = \<lparr>as_command = CommandObject_new 4 5, as_reply = CommandObject_new 5 4, as_output = CommandObject_new 7 6,
    as_args = Map.empty, as_next = 100, as_new = [], as_events = \<lparr>pq_events = [], pq_errors = [], pq_new = []\<rparr>,
    as_module = 0\<rparr>"

lemma ex_async_rest: "at_rest ex_async" "room 100 ex_async"
  by (simp_all add: at_rest_def room_def ex_async_def channel_calm_def) (simp_all add: CommandObject_new_def)

lemma async_transparent_witness:
  "\<exists>A'. Async_GetInputTensorInfo ex_module False 1 7 8 ex_async
      = Ret (\<lparr>r_ret = 0, r_ptr = 500, r_size = 3, r_event = None, r_peer = None\<rparr>, A') \<and> as_module A' = 1 \<and> at_rest A'"
  using async_transparent [of ex_async 99 ex_module False 0 "CallGetInputTensorInfo 7 8"] ex_async_rest
  by (auto simp: ex_module_def ret_only_def ex_async_def)

section \<open>Invocations\<close>

text \<open>
  The emulator with invocations \<open>ps\<close> waiting for the thread and outputs \<open>qs\<close> waiting for the caller, each with its
  argument block.
\<close>

definition working :: "(ptr \<times> command_args) list \<Rightarrow> (ptr \<times> command_args) list \<Rightarrow> 'm async \<Rightarrow> bool" where
  "working ps qs A \<longleftrightarrow> channel_ok (as_command A) \<and> channel_ok (as_output A)
    \<and> channel_calm (as_command A) \<and> channel_calm (as_output A)
    \<and> commands (as_command A) = map (\<lambda>q. \<lparr>cd_id = IdInvoke, cd_data = fst q\<rparr>) ps
    \<and> commands (as_output A) = map (\<lambda>q. \<lparr>cd_id = IdGetOutput, cd_data = fst q\<rparr>) qs
    \<and> distinct (map fst (ps @ qs))
    \<and> (\<forall>q \<in> set (ps @ qs). 0 < fst q \<and> fst q < as_next A \<and> as_args A (fst q) = Some (snd q) \<and> ca_value (snd q) = 0)
    \<and> as_new A = [] \<and> pq_errors (as_events A) = [] \<and> 0 < as_next A"

text \<open>One invocation as the module sees it: its output, if any, the event's type, and the module's state.\<close>

definition invoke_module :: "'m module \<Rightarrow> ptr \<times> int \<times> ptr \<Rightarrow> 'm \<Rightarrow> (ptr \<times> int) option \<times> evtype \<times> 'm" where
  "invoke_module M x m =
    (case x of (input, sz, ctx) \<Rightarrow>
      let (r, m1) = M (CallInvoke input sz ctx) m; (r', m2) = M (CallGetOutput input sz) m1 in
      if r_ret r' < 0 then (None, event_code INFERENCE_ERROR, m2)
      else (Some (r_ptr r', r_size r'),
        if r_ret r < 0 then event_code INFERENCE_ERROR else event_code INFERENCE_SUCCESS, m2))"

definition invoke_args :: "ptr \<times> int \<times> ptr \<Rightarrow> command_args" where
  "invoke_args x = no_args\<lparr>ca_ptr := fst x, ca_size := fst (snd x), ca_context := snd (snd x)\<rparr>"

lemma Async_Invoke_working:
  assumes "working ps qs A" and "ch_next (as_command A) + Suc k \<le> 2 ^ 64"
  shows "\<exists>A'. Async_Invoke nd (fst x) (fst (snd x)) (snd (snd x)) A = Ret (ret_only 0, A')
    \<and> working (ps @ [(as_next A, invoke_args x)]) qs A' \<and> ch_next (as_command A') + k \<le> 2 ^ 64
    \<and> as_module A' = as_module A \<and> as_events A' = as_events A \<and> as_output A' = as_output A
    \<and> as_next A' = as_next A + 1 \<and> as_args A' = (as_args A)(as_next A \<mapsto> invoke_args x)"
proof -
  obtain c where "Send nd IdInvoke (as_next A) (as_command A) = Ret (0, c)" "channel_ok c" "channel_calm c"
      "ch_next c + k \<le> 2 ^ 64" "commands c = commands (as_command A) @ [\<lparr>cd_id = IdInvoke, cd_data = as_next A\<rparr>]"
    using send_one [of "as_command A" k nd IdInvoke "as_next A"] assms by (auto simp: working_def)
  note c = this
  let ?A = "A\<lparr>as_new := tl (as_new A), as_args := (as_args A)(as_next A \<mapsto> invoke_args x), as_next := as_next A + 1,
    as_command := c\<rparr>"
  have fresh: "(as_next A, b) \<notin> set ps" "(as_next A, b) \<notin> set qs" for b
    using assms(1) by (force simp: working_def)+
  then have "as_next A \<notin> fst ` set ps" "as_next A \<notin> fst ` set qs" by force+
  with fresh have w: "working (ps @ [(as_next A, invoke_args x)]) qs ?A"
    using assms(1) c by (auto simp: working_def invoke_args_def no_args_def less_SucI)
  have "Async_Invoke nd (fst x) (fst (snd x)) (snd (snd x)) A = Ret (ret_only 0, ?A)"
    using assms(1) c(1) by (simp add: Async_Invoke_def async_alloc_def new_args_def working_def invoke_args_def)
  with w c(4) show ?thesis by (intro exI [of _ ?A]) simp
qed

lemma Async_Main_working:
  assumes w: "working ((p, invoke_args x) # ps) qs A" and room: "ch_next (as_output A) + Suc k \<le> 2 ^ 64"
    and inv: "invoke_module M x (as_module A) = (out, type, m)"
  shows "\<exists>A'. Async_Main M nd EVT_READ A = Ret (RETURN_RENEW, A')
    \<and> (case out of
        None \<Rightarrow> working ps qs A' \<and> as_args A' p \<noteq> None
      | Some (t, z) \<Rightarrow> working ps (qs @ [(p, (invoke_args x)\<lparr>ca_ptr := t, ca_size := z\<rparr>)]) A')
    \<and> ch_next (as_output A') + k \<le> 2 ^ 64 \<and> as_module A' = m
    \<and> pq_events (as_events A') = pq_events (as_events A) @ [Some \<lparr>ed_type = type, ed_data = snd (snd x)\<rparr>]
    \<and> dom (as_args A') = dom (as_args A)"
proof -
  obtain c where c: "Recv nd (as_command A) = Ret (0, Some \<lparr>cd_id = IdInvoke, cd_data = p\<rparr>, c)" "channel_ok c"
      "channel_calm c" "commands c = map (\<lambda>q. \<lparr>cd_id = IdInvoke, cd_data = fst q\<rparr>) ps"
    using recv_one [of "as_command A" "\<lparr>cd_id = IdInvoke, cd_data = p\<rparr>"
        "map (\<lambda>q. \<lparr>cd_id = IdInvoke, cd_data = fst q\<rparr>) ps" nd] w
    by (auto simp: working_def)
  obtain o1 where o1: "Send nd IdGetOutput p (as_output A) = Ret (0, o1)" "channel_ok o1" "channel_calm o1"
      "ch_next o1 + k \<le> 2 ^ 64" "commands o1 = commands (as_output A) @ [\<lparr>cd_id = IdGetOutput, cd_data = p\<rparr>]"
    using send_one [of "as_output A" k nd IdGetOutput p] w room by (auto simp: working_def)
  have p: "0 < p" "as_args A p = Some (invoke_args x)" and tbl: "cmdTable M ! nat IdInvoke = CommandInvokeHandler M"
    using w by (simp_all add: working_def cmdTable_def Id_defs)
  have main: "Async_Main M nd EVT_READ A = obind (CommandInvokeHandler M nd p (A\<lparr>as_command := c\<rparr>))
      (\<lambda>(ret, A2). Ret (RETURN_RENEW, A2))"
    using c(1) by (simp add: Async_Main_def Let_def tbl) (simp add: Id_defs)
  obtain input sz ctx where x: "x = (input, sz, ctx)" by (cases x)
  obtain r m1 where r: "M (CallInvoke input sz ctx) (as_module A) = (r, m1)" by fastforce
  obtain r' m2 where r': "M (CallGetOutput input sz) m1 = (r', m2)" by fastforce
  have q: "pq_fault (as_events A) = 0" "pq_errors (as_events A) = []" "as_new A = []" using w
    by (simp_all add: working_def pq_fault_def)
  have others: "fst y \<noteq> p" if "y \<in> set (ps @ qs)" for y using w that by (force simp: working_def)
  show ?thesis
  proof (cases "r_ret r' < 0")
    case True
    then show ?thesis
      using w room inv c p q main r r' others
      by (auto simp: CommandInvokeHandler_def with_args_def async_alloc_def x invoke_args_def no_args_def
          invoke_module_def PublishEventData_def pq_step_def set_args_def working_def Let_def)
  next
    case False
    then show ?thesis
      using w room inv c o1 p q main r r' others
      by (auto simp: CommandInvokeHandler_def with_args_def async_alloc_def x invoke_args_def no_args_def
          invoke_module_def PublishEventData_def pq_step_def set_args_def working_def Let_def)
  qed
qed

lemma Async_GetOutput_working:
  assumes w: "working ps ((p, a) # qs) A"
  shows "\<exists>A'. Async_GetOutput nd t z A = Ret ((ret_only 0)\<lparr>r_ptr := ca_ptr a, r_size := ca_size a\<rparr>, A')
    \<and> working ps qs A' \<and> as_args A' = (as_args A)(p := None) \<and> as_module A' = as_module A \<and> as_events A' = as_events A"
proof -
  obtain c where c: "Recv nd (as_output A) = Ret (0, Some \<lparr>cd_id = IdGetOutput, cd_data = p\<rparr>, c)" "channel_ok c"
      "channel_calm c" "commands c = map (\<lambda>q. \<lparr>cd_id = IdGetOutput, cd_data = fst q\<rparr>) qs"
    using recv_one [of "as_output A" "\<lparr>cd_id = IdGetOutput, cd_data = p\<rparr>"
        "map (\<lambda>q. \<lparr>cd_id = IdGetOutput, cd_data = fst q\<rparr>) qs" nd] w
    by (auto simp: working_def)
  have others: "fst y \<noteq> p" if "y \<in> set (ps @ qs)" for y using w that by (force simp: working_def)
  with w c show ?thesis
    by (auto simp: Async_GetOutput_def working_def Let_def drop_args_def)
qed

text \<open>A caller that submits several invocations and later collects \<open>k\<close> outputs, with the replies it gets.\<close>

fun invoke_all :: "bool \<Rightarrow> (ptr \<times> int \<times> ptr) list \<Rightarrow> 'm async \<Rightarrow> (reply list \<times> 'm async) outcome" where
  "invoke_all nd [] A = Ret ([], A)"
| "invoke_all nd (x # xs) A =
    obind (Async_Invoke nd (fst x) (fst (snd x)) (snd (snd x)) A) (\<lambda>(r, A1).
      obind (invoke_all nd xs A1) (\<lambda>(rs, A2). Ret (r # rs, A2)))"

fun get_outputs :: "bool \<Rightarrow> nat \<Rightarrow> 'm async \<Rightarrow> (reply list \<times> 'm async) outcome" where
  "get_outputs nd 0 A = Ret ([], A)"
| "get_outputs nd (Suc k) A =
    obind (Async_GetOutput nd nullptr 0 A) (\<lambda>(r, A1).
      obind (get_outputs nd k A1) (\<lambda>(rs, A2). Ret (r # rs, A2)))"

text \<open>The same invocations on the module alone: the output and the event of each, and the module's state.\<close>

fun module_run ::
    "'m module \<Rightarrow> (ptr \<times> int \<times> ptr) list \<Rightarrow> 'm \<Rightarrow> ((ptr \<times> int) option \<times> event_data) list \<times> 'm" where
  "module_run M [] m = ([], m)"
| "module_run M (x # xs) m =
    (let (out, type, m1) = invoke_module M x m; (rest, m2) = module_run M xs m1 in
     ((out, \<lparr>ed_type = type, ed_data = snd (snd x)\<rparr>) # rest, m2))"

definition output_reply :: "ptr \<times> int \<Rightarrow> reply" where
  "output_reply out = (ret_only 0)\<lparr>r_ptr := fst out, r_size := snd out\<rparr>"

fun blocks :: "ptr \<Rightarrow> (ptr \<times> int \<times> ptr) list \<Rightarrow> (ptr \<times> command_args) list" where
  "blocks p [] = []"
| "blocks p (x # xs) = (p, invoke_args x) # blocks (Suc p) xs"

fun delivered ::
    "ptr \<Rightarrow> (ptr \<times> int \<times> ptr) list \<Rightarrow> ((ptr \<times> int) option \<times> event_data) list \<Rightarrow> (ptr \<times> command_args) list" where
  "delivered p (x # xs) ((Some (t, z), e) # rs) = (p, (invoke_args x)\<lparr>ca_ptr := t, ca_size := z\<rparr>) # delivered (Suc p) xs rs"
| "delivered p (x # xs) ((None, e) # rs) = delivered (Suc p) xs rs"
| "delivered p _ _ = []"

lemma length_module_run [simp]: "length (fst (module_run M xs m)) = length xs"
  by (induction xs arbitrary: m) (simp_all split: prod.split, metis fst_conv)

lemma delivered_outputs:
  "length rs = length xs \<Longrightarrow>
    map (\<lambda>(p, a). (ca_ptr a, ca_size a)) (delivered p xs rs) = List.map_filter fst rs"
  by (induction p xs rs rule: delivered.induct) (auto simp: map_filter_def)

lemma delivered_addresses:
  "length rs = length xs \<Longrightarrow> fst ` set (delivered p xs rs) = {p + i | i. i < length xs \<and> fst (rs ! i) \<noteq> None}"
proof (induction p xs rs rule: delivered.induct)
  case (1 p x xs t z e rs)
  have "{p + i | i. i < Suc (length xs) \<and> fst (((Some (t, z), e) # rs) ! i) \<noteq> None}
      = insert p {Suc p + i | i. i < length xs \<and> fst (rs ! i) \<noteq> None}"
    by (auto simp: less_Suc_eq_0_disj nth_Cons' gr0_conv_Suc)
  with 1 show ?case by simp
next
  case (2 p x xs e rs)
  have "{p + i | i. i < Suc (length xs) \<and> fst (((None, e) # rs) ! i) \<noteq> None}
      = {Suc p + i | i. i < length xs \<and> fst (rs ! i) \<noteq> None}"
    by (auto simp: less_Suc_eq_0_disj nth_Cons' gr0_conv_Suc)
  with 2 show ?case by simp
qed auto

lemma invoke_all_working:
  assumes "working ps qs A" and "ch_next (as_command A) + length xs \<le> 2 ^ 64"
  shows "\<exists>A'. invoke_all nd xs A = Ret (replicate (length xs) (ret_only 0), A')
    \<and> working (ps @ blocks (as_next A) xs) qs A' \<and> as_module A' = as_module A \<and> as_events A' = as_events A
    \<and> as_output A' = as_output A \<and> dom (as_args A') = dom (as_args A) \<union> {as_next A..<as_next A + length xs}"
  using assms
proof (induction xs arbitrary: A ps)
  case (Cons x xs)
  obtain A1 where 1: "Async_Invoke nd (fst x) (fst (snd x)) (snd (snd x)) A = Ret (ret_only 0, A1)"
      "working (ps @ [(as_next A, invoke_args x)]) qs A1" "ch_next (as_command A1) + length xs \<le> 2 ^ 64"
      "as_module A1 = as_module A" "as_events A1 = as_events A" "as_output A1 = as_output A"
      "as_next A1 = Suc (as_next A)" "dom (as_args A1) = insert (as_next A) (dom (as_args A))"
    using Async_Invoke_working [OF Cons.prems(1), of "length xs" nd x] Cons.prems(2) by auto
  from Cons.IH [OF 1(2,3)] 1 show ?case by fastforce
qed (auto intro: exI [of _ A])

lemma run_thread_working:
  assumes "working (blocks p xs) qs A" and "ch_next (as_output A) + length xs \<le> 2 ^ 64" and "length xs \<le> n"
    and "module_run M xs (as_module A) = (rs, m)"
  shows "\<exists>A'. run_thread M nd n A = Ret A' \<and> working [] (qs @ delivered p xs rs) A' \<and> as_module A' = m
    \<and> pq_events (as_events A') = pq_events (as_events A) @ map (Some \<circ> snd) rs \<and> dom (as_args A') = dom (as_args A)"
  using assms
proof (induction xs arbitrary: p qs A n rs m)
  case Nil
  then have "ch_bytes (as_command A) = []" using commands_Nil [of "as_command A"] by (simp add: working_def)
  then have "run_thread M nd n A = Ret A" by (cases n) simp_all
  with Nil show ?case by simp
next
  case (Cons x xs)
  obtain out type m1 where i: "invoke_module M x (as_module A) = (out, type, m1)" by (cases "invoke_module M x (as_module A)")
  obtain rs' where rs: "module_run M xs m1 = (rs', m)" "rs = (out, \<lparr>ed_type = type, ed_data = snd (snd x)\<rparr>) # rs'"
    using Cons.prems(4) i by (auto split: prod.splits)
  obtain n' where n: "n = Suc n'" "length xs \<le> n'" using Cons.prems(3) by (cases n) auto
  have ne: "ch_bytes (as_command A) \<noteq> []"
    using Cons.prems(1) commands_Nil [of "as_command A"] by (auto simp: working_def)
  obtain A1 where 1: "Async_Main M nd EVT_READ A = Ret (RETURN_RENEW, A1)"
      "case out of None \<Rightarrow> working (blocks (Suc p) xs) qs A1 \<and> as_args A1 p \<noteq> None
       | Some (t, z) \<Rightarrow> working (blocks (Suc p) xs) (qs @ [(p, (invoke_args x)\<lparr>ca_ptr := t, ca_size := z\<rparr>)]) A1"
      "ch_next (as_output A1) + length xs \<le> 2 ^ 64" "as_module A1 = m1"
      "pq_events (as_events A1) = pq_events (as_events A) @ [Some \<lparr>ed_type = type, ed_data = snd (snd x)\<rparr>]"
      "dom (as_args A1) = dom (as_args A)"
    using Async_Main_working [of p x "blocks (Suc p) xs" qs A "length xs" M out type m1 nd] Cons.prems(1,2) i by auto
  show ?case
  proof (cases out)
    case None
    with Cons.IH [of "Suc p" qs A1 n' rs' m] 1 rs n ne show ?thesis by auto
  next
    case (Some tz)
    with Cons.IH [of "Suc p" "qs @ [(p, (invoke_args x)\<lparr>ca_ptr := fst tz, ca_size := snd tz\<rparr>)]" A1 n' rs' m] 1 rs n ne
    show ?thesis by (cases tz) auto
  qed
qed

lemma get_outputs_working:
  assumes "working ps qs A"
  shows "\<exists>A'. get_outputs nd (length qs) A = Ret (map (\<lambda>(p, a). output_reply (ca_ptr a, ca_size a)) qs, A')
    \<and> working ps [] A' \<and> as_module A' = as_module A \<and> as_events A' = as_events A
    \<and> dom (as_args A') = dom (as_args A) - fst ` set qs"
  using assms
proof (induction qs arbitrary: A)
  case (Cons q qs)
  obtain p a where q: "q = (p, a)" by (cases q)
  obtain A1 where 1: "Async_GetOutput nd nullptr 0 A = Ret (output_reply (ca_ptr a, ca_size a), A1)"
      "working ps qs A1" "as_args A1 = (as_args A)(p := None)" "as_module A1 = as_module A" "as_events A1 = as_events A"
    using Async_GetOutput_working [of ps p a qs A nd nullptr 0] Cons.prems q by (auto simp: output_reply_def)
  obtain A2 where 2: "get_outputs nd (length qs) A1 = Ret (map (\<lambda>(p, a). output_reply (ca_ptr a, ca_size a)) qs, A2)"
      "working ps [] A2" "as_module A2 = as_module A1" "as_events A2 = as_events A1"
      "dom (as_args A2) = dom (as_args A1) - fst ` set qs"
    using Cons.IH [OF 1(2)] by blast
  have "dom (as_args A2) = dom (as_args A) - fst ` set (q # qs)" using 1(3) 2(5) q by auto
  with 1 2 q show ?case by (intro exI [of _ A2]) simp
qed auto

text \<open>
  C20. Invocations are served in the order they are made. From an idle emulator, any number of invocations
  return 0 at once; when the thread has handled them, the module has seen the same calls in the same
  order as without the emulator, one event per invocation is in the event pipe, in order and with the
  context of its invocation, and as many \<open>GetOutput\<close> as there are outputs return them in order. The argument blocks
  that stay allocated are exactly those of the invocations for which the module had no output.
\<close>

theorem invocations_in_order:
  assumes "at_rest A" and "commands (as_output A) = []" and "pq_errors (as_events A) = []"
    and "room (length xs) A" and "length xs \<le> n" and "module_run M xs (as_module A) = (rs, m)"
  shows "\<exists>A1 A2 A3. invoke_all nd xs A = Ret (replicate (length xs) (ret_only 0), A1)
    \<and> run_thread M nd n A1 = Ret A2
    \<and> pq_events (as_events A2) = pq_events (as_events A) @ map (Some \<circ> snd) rs
    \<and> get_outputs nd (length (List.map_filter fst rs)) A2 = Ret (map output_reply (List.map_filter fst rs), A3)
    \<and> as_module A3 = m
    \<and> dom (as_args A3) = dom (as_args A) \<union> {as_next A + i | i. i < length xs \<and> fst (rs ! i) = None}"
proof -
  have w: "working [] [] A" and none: "\<And>p. as_next A \<le> p \<Longrightarrow> as_args A p = None"
    using assms(1-3) by (simp_all add: at_rest_def working_def)
  obtain A1 where 1: "invoke_all nd xs A = Ret (replicate (length xs) (ret_only 0), A1)"
      "working (blocks (as_next A) xs) [] A1" "as_module A1 = as_module A" "as_events A1 = as_events A"
      "as_output A1 = as_output A" "dom (as_args A1) = dom (as_args A) \<union> {as_next A..<as_next A + length xs}"
    using invoke_all_working [OF w, of xs nd] assms(4) by (auto simp: room_def)
  let ?d = "delivered (as_next A) xs rs"
  have len: "length rs = length xs" using length_module_run [of M xs "as_module A"] assms(6) by simp
  obtain A2 where 2: "run_thread M nd n A1 = Ret A2" "working [] ?d A2" "as_module A2 = m"
      "pq_events (as_events A2) = pq_events (as_events A) @ map (Some \<circ> snd) rs" "dom (as_args A2) = dom (as_args A1)"
    using run_thread_working [OF 1(2) _ assms(5), of M rs m nd] assms(4,6) 1(3-5) by (auto simp: room_def)
  have outs: "map (\<lambda>(p, a). (ca_ptr a, ca_size a)) ?d = List.map_filter fst rs" by (rule delivered_outputs [OF len])
  then have out: "length ?d = length (List.map_filter fst rs)"
      "map (\<lambda>(p, a). output_reply (ca_ptr a, ca_size a)) ?d = map output_reply (List.map_filter fst rs)"
    by (metis length_map) (simp add: outs [symmetric] split_def comp_def)
  obtain A3 where 3: "get_outputs nd (length ?d) A2 = Ret (map (\<lambda>(p, a). output_reply (ca_ptr a, ca_size a)) ?d, A3)"
      "as_module A3 = m" "dom (as_args A3) = dom (as_args A2) - fst ` set ?d"
    using get_outputs_working [OF 2(2), of nd] 2(3) by auto
  have "dom (as_args A3) = dom (as_args A) \<union> {as_next A + i | i. i < length xs \<and> fst (rs ! i) = None}"
    unfolding 3(3) 2(5) 1(6) delivered_addresses [OF len] using none
    by (auto simp: le_iff_add) (metis option.exhaust surj_pair)
  with 1(1) 2(1,4) 3(1,2) out show ?thesis by auto
qed

text \<open>Two invocations, for the second of which the module has no output.\<close>

definition ex_outputs :: "nat module" where
  "ex_outputs c m =
    (case c of
      CallInvoke i z ctx \<Rightarrow> (ret_only 0, m + 1)
    | CallGetOutput t z \<Rightarrow>
        (if t = 0 then (ret_only (- EINVAL), m) else ((ret_only 0)\<lparr>r_ptr := 600 + m, r_size := 1\<rparr>, m))
    | _ \<Rightarrow> (ret_only 0, m))"

lemma invocations_in_order_witness:
  "\<exists>A1 A2 A3. invoke_all True [(7, 1, 30), (0, 1, 31)] ex_async = Ret ([ret_only 0, ret_only 0], A1)
    \<and> run_thread ex_outputs True 2 A1 = Ret A2
    \<and> pq_events (as_events A2) = [Some \<lparr>ed_type = event_code INFERENCE_SUCCESS, ed_data = 30\<rparr>,
        Some \<lparr>ed_type = event_code INFERENCE_ERROR, ed_data = 31\<rparr>]
    \<and> get_outputs True 1 A2 = Ret ([(ret_only 0)\<lparr>r_ptr := 601, r_size := 1\<rparr>], A3)
    \<and> as_module A3 = 2 \<and> dom (as_args A3) = {101}"
proof -
  let ?rs = "[(Some (601, 1), \<lparr>ed_type = event_code INFERENCE_SUCCESS, ed_data = 30\<rparr>),
    (None, \<lparr>ed_type = event_code INFERENCE_ERROR, ed_data = 31\<rparr>)]"
  have run: "module_run ex_outputs [(7, 1, 30), (0, 1, 31)] (as_module ex_async) = (?rs, 2)"
    by (simp add: ex_outputs_def invoke_module_def ex_async_def errno_defs ret_only_def)
  have r: "room (length [(7, 1, 30), (0, 1, 31)]) ex_async"
    using ex_async_rest(2) by (simp add: room_def)
  have d: "{as_next ex_async + i | i. i < length [(7::nat, 1::int, 30::nat), (0, 1, 31)] \<and> fst (?rs ! i) = None} = {101}"
    by (auto simp: less_Suc_eq ex_async_def)
  have e: "commands (as_output ex_async) = []" "pq_errors (as_events ex_async) = []" "as_args ex_async = Map.empty"
      "pq_events (as_events ex_async) = []"
    by (simp_all add: ex_async_def commands_def CommandObject_new_def)
  have f: "List.map_filter fst ?rs = [(601, 1)]" by (simp add: map_filter_def)
  have "length [(7::nat, 1::int, 30::nat), (0, 1, 31)] \<le> 2" "length [(601, 1)] = 1"
      "replicate (length [(7::nat, 1::int, 30::nat), (0, 1, 31)]) (ret_only 0) = [ret_only 0, ret_only 0]"
      "map output_reply [(601, 1)] = [(ret_only 0)\<lparr>r_ptr := 601, r_size := 1\<rparr>]"
    by (simp_all add: output_reply_def)
  note shape = this
  show ?thesis
    using invocations_in_order [OF ex_async_rest(1) e(1,2) r shape(1) run, of True]
    unfolding d e f shape by simp
qed

end
