(* ===== verification/Runtime_Async_Life.thy ===== *)
theory Runtime_Async_Life
  imports Event_Loop Event_Pipe
begin

text \<open>
  \<^verbatim>\<open>libbeyond/src/inference_runtime_impl_async.cc\<close>, life cycle: how \<open>Create\<close> builds an emulator out of a socket
  pair, a pipe, four command objects, an event pipe and an event loop with a thread, what it gives back when one
  of these fails, and how \<open>Destroy\<close> takes it down, with the end of the thread.
\<close>

section \<open>State\<close>

text \<open>The command objects are known by their descriptors; \<open>None\<close> is a null pointer.\<close>

record async_life =
  al_command :: "int option"
  al_outputConsumer :: "int option"
  al_eventObject :: "event_pipe option"
  al_handlerObject :: ptr
  al_context_command :: "int option"
  al_outputProducer :: "int option"
  al_eventLoop :: "event_loop option"

definition Async_new :: async_life where
  "Async_new = \<lparr>al_command = None, al_outputConsumer = None, al_eventObject = None, al_handlerObject = nullptr,
    al_context_command = None, al_outputProducer = None, al_eventLoop = None\<rparr>"

section \<open>Operations\<close>

text \<open>The destructor. It does not touch the event loop.\<close>

definition delete_command :: "int option \<Rightarrow> os \<Rightarrow> os" where
  "delete_command c s = (case c of None \<Rightarrow> s | Some fd \<Rightarrow> os_delete (close_fd fd s))"

definition Async_delete :: "async_life \<Rightarrow> os \<Rightarrow> os" where
  "Async_delete a s =
    (let s1 = delete_command (al_context_command a) s;
         s2 = delete_command (al_command a) s1;
         s3 = delete_command (al_outputProducer a) s2;
         s4 = delete_command (al_outputConsumer a) s3;
         s5 = (case al_eventObject a of None \<Rightarrow> s4 | Some p \<Rightarrow> EventPipe_Destroy p s4) in
     os_delete s5)"

fun close_all :: "int list \<Rightarrow> os \<Rightarrow> os" where
  "close_all [] s = s"
| "close_all (fd # fds) s = close_all fds (close_fd fd s)"

text \<open>
  \<open>Create\<close>, in three parts: the descriptors, the objects that own them, the loop. \<open>Run\<close> of a loop with a thread
  leaves the handlers to the thread, so it gets none here. Number 1 is \<open>Main\<close>. The second component of the result
  is an event loop that a failing \<open>Create\<close> abandons.
\<close>

definition run_loop :: "event_loop \<Rightarrow> os \<Rightarrow> (int \<times> event_loop \<times> os) outcome" where
  "run_loop L s =
    obind (EventLoop_Run (\<lambda>h obj type data u. (RETURN_RENEW, [], u)) (\<lambda>h obj data u. ([], u)) [] 10 (-1) (-1) L s ())
      (\<lambda>(ret, _, L', s', _). Ret (ret, L', s'))"

definition main_handler :: nat where
  "main_handler = 1"

definition Async_descriptors :: "os \<Rightarrow> (int \<times> int \<times> int \<times> int) option \<times> os" where
  "Async_descriptors s =
    (let (allocated, s1) = os_new s; a = Async_new in
     if \<not> allocated then (None, s1)
     else let (ret, s2, sp0, sp1) = os_pair s1 in
     if ret < 0 then (None, Async_delete a s2)
     else let (ret, s3) = os_call s2 in
     if ret < 0 then (None, Async_delete a (close_all [sp0, sp1] s3))
     else let (ret, s4) = os_call s3 in
     if ret < 0 then (None, Async_delete a (close_all [sp0, sp1] s4))
     else let (ret, s5, p0, p1) = os_pair s4 in
     if ret < 0 then (None, Async_delete a (close_all [sp0, sp1] s5))
     else let (ret, s6) = os_call s5 in
     if ret < 0 then (None, Async_delete a (close_all [p0, p1, sp0, sp1] s6))
     else let (ret, s7) = os_call s6 in
     if ret < 0 then (None, Async_delete a (close_all [p0, p1, sp0, sp1] s7))
     else (Some (sp0, sp1, p0, p1), s7))"

definition Async_objects :: "int \<times> int \<times> int \<times> int \<Rightarrow> os \<Rightarrow> async_life option \<times> os" where
  "Async_objects fds s =
    (case fds of (sp0, sp1, p0, p1) \<Rightarrow>
     let a = Async_new; (allocated, s1) = os_new s in
     if \<not> allocated then (None, close_all [p0, p1, sp0, sp1] (Async_delete a s1))
     else let a = a\<lparr>al_command := Some sp0\<rparr>; (allocated, s2) = os_new s1 in
     if \<not> allocated then (None, close_all [p0, p1, sp1] (Async_delete a s2))
     else let a = a\<lparr>al_context_command := Some sp1\<rparr>; (allocated, s3) = os_new s2 in
     if \<not> allocated then (None, close_all [p0, p1] (Async_delete a s3))
     else let a = a\<lparr>al_outputProducer := Some p1\<rparr>; (allocated, s4) = os_new s3 in
     if \<not> allocated then (None, close_all [p0] (Async_delete a s4))
     else let a = a\<lparr>al_outputConsumer := Some p0\<rparr>; (event, s5) = EventPipe_Create s4 in
     if event = None then (None, Async_delete a s5)
     else (Some (a\<lparr>al_eventObject := event\<rparr>), s5))"

definition Async_start ::
    "async_life \<Rightarrow> os \<Rightarrow> bool \<Rightarrow> (async_life option \<times> event_loop option \<times> os \<times> bool) outcome" where
  "Async_start a s signalLoop =
    obind (EventLoop_Create True False s signalLoop) (\<lambda>(L, s1, signalLoop).
      case L of
        None \<Rightarrow> Ret (None, None, Async_delete a s1, signalLoop)
      | Some L \<Rightarrow>
          let (p, L, s2) = AddEventHandler 2 (the (al_context_command a)) (EVT_READ OR EVT_ERROR)
                (Some main_handler) 3 L s1 in
          if p = nullptr then Ret (None, Some L, Async_delete a s2, signalLoop)
          else obind (run_loop L s2) (\<lambda>(ret, L, s3).
            if ret < 0 then Ret (None, Some L, Async_delete a s3, signalLoop)
            else Ret (Some (a\<lparr>al_eventLoop := Some L, al_handlerObject := p\<rparr>), None, s3, signalLoop)))"

definition Async_Create ::
    "os \<Rightarrow> bool \<Rightarrow> (async_life option \<times> event_loop option \<times> os \<times> bool) outcome" where
  "Async_Create s signalLoop =
    (case Async_descriptors s of
      (None, s1) \<Rightarrow> Ret (None, None, s1, signalLoop)
    | (Some fds, s1) \<Rightarrow>
        (case Async_objects fds s1 of
          (None, s2) \<Rightarrow> Ret (None, None, s2, signalLoop)
        | (Some a, s2) \<Rightarrow> Async_start a s2 signalLoop))"

text \<open>
  \<open>Destroy\<close>: the emulator is deleted at once; the loop, its stop handler (number 2: destroy the loop) set and its
  end requested, is left to its thread and is the second component of the result.
\<close>

definition destroy_loop :: nat where
  "destroy_loop = 2"

definition Async_Destroy :: "bool \<Rightarrow> async_life \<Rightarrow> os \<Rightarrow> (event_loop option \<times> os) outcome" where
  "Async_Destroy nd a s =
    (if al_handlerObject a = nullptr \<and> \<not> nd then Aborted
     else
       obind
         (if al_handlerObject a = nullptr then Ret (al_eventLoop a, s)
          else case al_eventLoop a of
            None \<Rightarrow> Undefined
          | Some L \<Rightarrow> obind (RemoveEventHandler (al_handlerObject a) L s) (\<lambda>(_, L', s'). Ret (Some L', s')))
         (\<lambda>(loop, s1).
           case loop of
             None \<Rightarrow> if nd then Ret (None, Async_delete a s1) else Aborted
           | Some L \<Rightarrow>
               let (_, L2, s2) = SetStopHandler (Some destroy_loop) nullptr L s1;
                   (_, L3, s3) = EventLoop_Stop L2 s2 in
               Ret (Some L3, Async_delete a s3)))"

text \<open>The thread of the loop: its function, then the stop handler, which destroys the loop. \<open>None\<close>: the loop is gone.\<close>

definition loop_thread ::
    "'u loop_handler \<Rightarrow> 'u cancel_handler \<Rightarrow> loop_turn list \<Rightarrow> event_loop \<Rightarrow> os \<Rightarrow> bool \<Rightarrow> 'u \<Rightarrow>
     (event_loop option \<times> os \<times> bool) outcome" where
  "loop_thread cb ccb script L s signalLoop u =
    obind (ThreadMain cb ccb script L s u) (\<lambda>(_, stop, L', s', _).
      case stop of
        None \<Rightarrow> Ret (Some L', s', signalLoop)
      | Some ev \<Rightarrow> if se_handler ev = destroy_loop then EventLoop_Destroy L' s' signalLoop else Ret (Some L', s', signalLoop))"

section \<open>Properties\<close>

lemma os_newD:
  "os_new s = (b, s') \<Longrightarrow> os_wf s \<Longrightarrow>
    os_wf s' \<and> open_fds s' = open_fds s \<and> live s' = live s + (if b then 1 else 0)"
  by (rule os_new_cases [of s]) auto

lemma os_callD: "os_call s = (r, s') \<Longrightarrow> os_wf s \<Longrightarrow> os_wf s' \<and> open_fds s' = open_fds s \<and> live s' = live s \<and> r \<le> 0"
  by (rule os_call_cases [of s]) auto

lemma os_pairD:
  assumes "os_pair s = (r, s', x, y)" and "os_wf s"
  shows "os_wf s' \<and> live s' = live s \<and>
    (if r < 0 then open_fds s' = open_fds s
     else open_fds s' = {x, y} \<union> open_fds s \<and> x \<notin> open_fds s \<and> y \<notin> open_fds s \<and> x \<noteq> y \<and> 0 \<le> x \<and> 0 \<le> y)"
  by (rule os_pair_cases [OF assms(2)]) (use assms os_wf_fresh [OF assms(2)] in auto)

lemma EventPipe_CreateD:
  assumes "EventPipe_Create s = (e, s')" and "os_wf s"
  shows "os_wf s' \<and>
    (case e of
      None \<Rightarrow> open_fds s' = open_fds s \<and> live s' = live s
    | Some q \<Rightarrow> open_fds s' = {ep_handle q, ep_publish q} \<union> open_fds s \<and> live s' = live s + 1
        \<and> ep_handle q \<notin> open_fds s \<and> ep_publish q \<notin> open_fds s)"
  by (rule EventPipe_Create_cases [OF assms(2)]) (use assms os_wf_fresh [OF assms(2)] in auto)

lemma delete_command_simps [simp]:
  "open_fds (delete_command (Some fd) s) = open_fds s - {fd}" "live (delete_command (Some fd) s) = live s - 1"
  "delete_command None s = s" "os_wf s \<Longrightarrow> os_wf (delete_command c s)"
  by (simp_all add: delete_command_def split: option.split)

text \<open>
  An emulator without its loop, complete: its heap objects are itself, four command objects and the event pipe. Deleting it
  gives back all it has.
\<close>

definition async_complete :: "async_life \<Rightarrow> bool" where
  "async_complete a \<longleftrightarrow> al_eventObject a \<noteq> None \<and> al_command a \<noteq> None \<and> al_context_command a \<noteq> None
    \<and> al_outputProducer a \<noteq> None \<and> al_outputConsumer a \<noteq> None \<and> al_handlerObject a = nullptr \<and> al_eventLoop a = None"

definition async_fds :: "async_life \<Rightarrow> int set" where
  "async_fds a = {the (al_command a), the (al_context_command a), the (al_outputProducer a), the (al_outputConsumer a),
    ep_handle (the (al_eventObject a)), ep_publish (the (al_eventObject a))}"

lemma Async_delete_complete:
  assumes "async_complete a"
  shows "open_fds (Async_delete a s) = open_fds s - async_fds a" and "live (Async_delete a s) = live s - 6"
    and "os_wf s \<Longrightarrow> os_wf (Async_delete a s)"
  using assms by (auto simp: Async_delete_def Let_def async_complete_def async_fds_def)

lemma Async_delete_loop [simp]:
  "Async_delete (a\<lparr>al_eventLoop := l, al_handlerObject := p\<rparr>) s = Async_delete a s"
  by (simp add: Async_delete_def)

lemma close_all_simps [simp]:
  "open_fds (close_all l s) = open_fds s - set l" "live (close_all l s) = live s" "os_wf s \<Longrightarrow> os_wf (close_all l s)"
  by (induction l arbitrary: s) auto

text \<open>What the destructor gives back before there is an event pipe.\<close>

definition command_fds :: "async_life \<Rightarrow> int list" where
  "command_fds a = List.map_filter id [al_command a, al_context_command a, al_outputProducer a, al_outputConsumer a]"

lemma Async_delete_partial:
  assumes "al_eventObject a = None"
  shows "open_fds (Async_delete a s) = open_fds s - set (command_fds a)"
    and "live (Async_delete a s) = live s - 1 - int (length (command_fds a))"
    and "os_wf s \<Longrightarrow> os_wf (Async_delete a s)"
  using assms
  by (auto simp: Async_delete_def Let_def command_fds_def map_filter_def delete_command_def split: option.split)

lemma Async_delete_new [simp]: "Async_delete Async_new s = os_delete s"
  by (simp add: Async_delete_def Async_new_def)

lemma Async_descriptors_cases:
  assumes wf: "os_wf s" and C: "Async_descriptors s = (x, s')"
  shows "os_wf s' \<and>
    (case x of
      None \<Rightarrow> resources s' = resources s
    | Some (sp0, sp1, p0, p1) \<Rightarrow> live s' = live s + 1 \<and> open_fds s' = {sp0, sp1, p0, p1} \<union> open_fds s
        \<and> {sp0, sp1, p0, p1} \<inter> open_fds s = {} \<and> 0 \<le> sp1)"
proof -
  obtain b1 s1 where 1: "os_new s = (b1, s1)" by fastforce
  note 1 = 1 os_newD [OF 1 wf]
  obtain r2 s2 x0 x1 where 2: "os_pair s1 = (r2, s2, x0, x1)" by (cases "os_pair s1") auto
  note 2 = 2 os_pairD [OF 2 conjunct1 [OF 1(2)]]
  obtain r3 s3 where 3: "os_call s2 = (r3, s3)" by fastforce
  note 3 = 3 os_callD [OF 3 conjunct1 [OF 2(2)]]
  obtain r4 s4 where 4: "os_call s3 = (r4, s4)" by fastforce
  note 4 = 4 os_callD [OF 4 conjunct1 [OF 3(2)]]
  obtain r5 s5 y0 y1 where 5: "os_pair s4 = (r5, s5, y0, y1)" by (cases "os_pair s4") auto
  note 5 = 5 os_pairD [OF 5 conjunct1 [OF 4(2)]]
  obtain r6 s6 where 6: "os_call s5 = (r6, s6)" by fastforce
  note 6 = 6 os_callD [OF 6 conjunct1 [OF 5(2)]]
  obtain r7 s7 where 7: "os_call s6 = (r7, s7)" by fastforce
  note 7 = 7 os_callD [OF 7 conjunct1 [OF 6(2)]]
  note C = C [unfolded Async_descriptors_def Let_def 1(1) 2(1) 3(1) 4(1) 5(1) 6(1) 7(1) prod.case]
  show ?thesis
  proof (cases "b1 \<and> 0 \<le> r2 \<and> 0 \<le> r3 \<and> 0 \<le> r4 \<and> 0 \<le> r5")
    case False
    with C 1(2) 2(2) 3(2) 4(2) 5(2) show ?thesis
      by (cases b1; cases "r2 < 0"; cases "r3 < 0"; cases "r4 < 0") (auto simp: resources_def)
  next
    case ok: True
    then have fds: "open_fds s5 = {x0, x1, y0, y1} \<union> open_fds s" "live s5 = live s + 1"
      "{x0, x1, y0, y1} \<inter> open_fds s = {}" "0 \<le> x1" using 1(2) 2(2) 3(2) 4(2) 5(2) by auto
    then have "({x0, x1, y0, y1} \<union> open_fds s) - {y0, y1, x0, x1} = open_fds s" by blast
    with ok C 6(2) 7(2) fds show ?thesis
      by (cases "r6 < 0"; cases "r7 < 0") (auto simp: resources_def)
  qed
qed

lemma Async_objects_cases:
  assumes wf: "os_wf s" and C: "Async_objects (x0, x1, y0, y1) s = (x, s')"
    and fds: "open_fds s = {x0, x1, y0, y1} \<union> F" "{x0, x1, y0, y1} \<inter> F = {}"
  shows "os_wf s' \<and>
    (case x of
      None \<Rightarrow> resources s' = (F, live s - 1)
    | Some a \<Rightarrow> async_complete a \<and> live s' = live s + 5 \<and> open_fds s' = async_fds a \<union> F \<and> async_fds a \<inter> F = {}
        \<and> al_context_command a = Some x1)"
proof -
  obtain b1 s1 where 1: "os_new s = (b1, s1)" by fastforce
  note 1 = 1 os_newD [OF 1 wf]
  obtain b2 s2 where 2: "os_new s1 = (b2, s2)" by fastforce
  note 2 = 2 os_newD [OF 2 conjunct1 [OF 1(2)]]
  obtain b3 s3 where 3: "os_new s2 = (b3, s3)" by fastforce
  note 3 = 3 os_newD [OF 3 conjunct1 [OF 2(2)]]
  obtain b4 s4 where 4: "os_new s3 = (b4, s4)" by fastforce
  note 4 = 4 os_newD [OF 4 conjunct1 [OF 3(2)]]
  obtain e5 s5 where 5: "EventPipe_Create s4 = (e5, s5)" by fastforce
  note 5 = 5 EventPipe_CreateD [OF 5 conjunct1 [OF 4(2)]]
  note C = C [unfolded Async_objects_def Let_def 1(1) 2(1) 3(1) 4(1) 5(1) prod.case]
  show ?thesis
  proof (cases "b1 \<and> b2 \<and> b3 \<and> b4 \<and> e5 \<noteq> None")
    case False
    have out: "F = open_fds s - {x0, x1, y0, y1}" using fds by blast
    from False C 1(2) 2(2) 3(2) 4(2) 5(2) show ?thesis
      unfolding resources_def out
      by (cases b1; cases b2; cases b3; cases b4)
        (auto simp: Async_delete_partial Async_new_def command_fds_def map_filter_def)
  next
    case True
    then obtain q where q: "e5 = Some q" by blast
    with True C have "x = Some \<lparr>al_command = Some x0, al_outputConsumer = Some y0, al_eventObject = Some q,
        al_handlerObject = nullptr, al_context_command = Some x1, al_outputProducer = Some y1, al_eventLoop = None\<rparr>"
      "s' = s5" by (simp_all add: Async_new_def)
    with True q 1(2) 2(2) 3(2) 4(2) 5(2) fds show ?thesis
      by (auto simp: async_complete_def async_fds_def)
  qed
qed

definition Async_parts :: "os \<Rightarrow> async_life option \<times> os" where
  "Async_parts s = (case Async_descriptors s of (None, s') \<Rightarrow> (None, s') | (Some fds, s') \<Rightarrow> Async_objects fds s')"

lemma Async_parts_cases:
  assumes wf: "os_wf s" and "Async_parts s = (x, s')"
  shows "os_wf s' \<and>
    (case x of
      None \<Rightarrow> resources s' = resources s
    | Some a \<Rightarrow> async_complete a \<and> live s' = live s + 6 \<and> open_fds s' = async_fds a \<union> open_fds s
        \<and> async_fds a \<inter> open_fds s = {} \<and> 0 \<le> the (al_context_command a))"
proof -
  obtain fds s1 where 1: "Async_descriptors s = (fds, s1)" by fastforce
  note D = Async_descriptors_cases [OF wf 1]
  show ?thesis
  proof (cases fds)
    case None
    with D 1 assms(2) show ?thesis by (simp add: Async_parts_def)
  next
    case (Some f)
    obtain x0 x1 y0 y1 where f: "f = (x0, x1, y0, y1)" by (cases f)
    with D Some have d: "os_wf s1" "live s1 = live s + 1" "open_fds s1 = {x0, x1, y0, y1} \<union> open_fds s"
      "{x0, x1, y0, y1} \<inter> open_fds s = {}" "0 \<le> x1" by simp_all
    have "Async_objects (x0, x1, y0, y1) s1 = (x, s')" using assms(2) 1 Some f by (simp add: Async_parts_def)
    from Async_objects_cases [OF d(1) this d(3,4)] d(2,5) show ?thesis
      by (cases x) (simp_all add: resources_def)
  qed
qed

lemma run_loop_thread:
  assumes "os_wf s" and "el_state L = STOPPED" and "el_enable_thread L"
  shows "\<exists>ret L' s'. run_loop L s = Ret (ret, L', s') \<and> os_wf s' \<and> open_fds s' = open_fds s \<and> live s' = live s"
proof -
  obtain r1 s1 where 1: "os_call s = (r1, s1)" by fastforce
  note 1 = 1 os_callD [OF 1 assms(1)]
  obtain r2 s2 where 2: "os_call s1 = (r2, s2)" by fastforce
  note 2 = 2 os_callD [OF 2 conjunct1 [OF 1(2)]]
  obtain r3 s3 where 3: "os_call s2 = (r3, s3)" by fastforce
  note 3 = 3 os_callD [OF 3 conjunct1 [OF 2(2)]]
  show ?thesis
    using assms(2,3) 1 2 3 by (auto simp: run_loop_def EventLoop_Run_def Let_def)
qed

text \<open>\<open>s'\<close> has the three descriptors of a loop and \<open>k\<close> heap objects more than \<open>s\<close>.\<close>

definition leaves_loop :: "os \<Rightarrow> int \<Rightarrow> os \<Rightarrow> bool" where
  "leaves_loop s k s' \<longleftrightarrow> live s' = live s + k \<and> (\<exists>c n e. open_fds s' = {c, n, e} \<union> open_fds s
    \<and> {c, n, e} \<inter> open_fds s = {} \<and> distinct [c, n, e])"

text \<open>The third part, from a complete emulator that holds 6 objects and its descriptors.\<close>

definition created_or_given_back ::
    "os \<Rightarrow> (async_life option \<times> event_loop option \<times> os \<times> bool) outcome \<Rightarrow> bool" where
  "created_or_given_back s m \<longleftrightarrow>
    (\<exists>a L s' sig'. m = Ret (a, L, s', sig') \<and>
      (case (a, L) of
        (None, None) \<Rightarrow> resources s' = resources s
      | (None, Some L) \<Rightarrow> leaves_loop s 3 s' \<or> leaves_loop s 4 s'
      | (Some a, L) \<Rightarrow> L = None \<and> async_complete (a\<lparr>al_eventLoop := None, al_handlerObject := nullptr\<rparr>)
          \<and> al_eventLoop a \<noteq> None \<and> al_handlerObject a \<noteq> nullptr))"

lemma Async_start_loop:
  assumes a: "async_complete a" "live s12 = live s + 6" "open_fds s12 = async_fds a \<union> open_fds s"
      "async_fds a \<inter> open_fds s = {}" "0 \<le> the (al_context_command a)"
    and 13: "EventLoop_Create True False s12 sig = Ret (Some (fresh_loop True c n e), s13, sig')"
      "os_wf s13" "live s13 = live s12 + 3" "open_fds s13 = {c, n, e} \<union> open_fds s12"
      "{c, n, e} \<inter> open_fds s12 = {}" "distinct [c, n, e]"
  shows "created_or_given_back s (Async_start a s12 sig)"
proof -
  note D = Async_delete_complete [OF a(1)]
  have left: "leaves_loop s k (Async_delete a t)" if "open_fds t = open_fds s13" "live t = live s13 + k - 3" for t k
  proof -
    have "open_fds s13 - async_fds a = {c, n, e} \<union> open_fds s" "{c, n, e} \<inter> open_fds s = {}"
      using 13(4,5) a(3,4) by blast+
    then show ?thesis
      unfolding leaves_loop_def D using that 13(3,6) a(2)
      by (intro conjI exI [of _ c] exI [of _ n] exI [of _ e]) simp_all
  qed
  let ?L = "fresh_loop True c n e"
  have fresh: "el_next ?L = 2" "el_state ?L = STOPPED" "el_enable_thread ?L"
    by (simp_all add: fresh_loop_def EventLoop_new_def)
  show ?thesis
  proof (rule AddEventHandler_cases [OF 13(2) _ a(5), of 2 "EVT_READ OR EVT_ERROR" ?L main_handler 3])
    fix s14 L assume "AddEventHandler 2 (the (al_context_command a)) (EVT_READ OR EVT_ERROR) (Some main_handler) 3 ?L s13
        = (nullptr, L, s14)" "live s14 = live s13" "open_fds s14 = open_fds s13"
    with 13(1) left [of s14 3] show ?thesis by (simp add: created_or_given_back_def Async_start_def)
  next
    fix s14 L assume 14: "AddEventHandler 2 (the (al_context_command a)) (EVT_READ OR EVT_ERROR) (Some main_handler) 3 ?L s13
        = (el_next ?L, L, s14)" "os_wf s14" "live s14 = live s13 + 1" "open_fds s14 = open_fds s13"
      "L = ?L\<lparr>el_next := el_next ?L + 1, el_interest := (el_interest ?L)(the (al_context_command a) \<mapsto>
            (el_next ?L, epoll_events (EVT_READ OR EVT_ERROR))),
          el_heap := (el_heap ?L)(el_next ?L \<mapsto> \<lparr>ho_object = 2,
            ho_fd = the (al_context_command a), ho_type = EVT_READ OR EVT_ERROR, ho_data = 3,
            ho_handler = main_handler, ho_cancel = None, ho_state = INIT, ho_in_use = False\<rparr>)\<rparr>"
    have "el_state L = STOPPED" "el_enable_thread L" using fresh by (simp_all add: 14(5))
    from run_loop_thread [OF 14(2) this] obtain ret L' s15 where 15: "run_loop L s14 = Ret (ret, L', s15)"
      "open_fds s15 = open_fds s14" "live s15 = live s14" by blast
    with 13(1) 14 fresh(1) left [of s15 4] a(1) show ?thesis
      by (auto simp: created_or_given_back_def Async_start_def async_complete_def)
  qed (use fresh in simp_all)
qed

text \<open>
  Creating the emulator, for every combination of failing calls and every state of the signal flag: it returns. When a call fails
  before its event loop exists, nothing is left open or allocated. When the registration of \<open>Main\<close> or the start of
  the thread fails, everything but the event loop is given back: its three descriptors and its three heap objects
  (four after the registration) stay, and nothing refers to them any more.
\<close>

theorem Async_Create_resources:
  assumes "os_wf s"
  shows "\<exists>a L s' sig'. Async_Create s sig = Ret (a, L, s', sig') \<and>
    (case (a, L) of
      (None, None) \<Rightarrow> resources s' = resources s
    | (None, Some L) \<Rightarrow> leaves_loop s 3 s' \<or> leaves_loop s 4 s'
    | (Some a, L) \<Rightarrow> L = None \<and> async_complete (a\<lparr>al_eventLoop := None, al_handlerObject := nullptr\<rparr>)
        \<and> al_eventLoop a \<noteq> None \<and> al_handlerObject a \<noteq> nullptr)"
  unfolding created_or_given_back_def [symmetric]
proof -
  obtain x s12 where p: "Async_parts s = (x, s12)" by fastforce
  note P = Async_parts_cases [OF assms p]
  have C: "Async_Create s sig = (case x of None \<Rightarrow> Ret (None, None, s12, sig) | Some a \<Rightarrow> Async_start a s12 sig)"
    using p by (auto simp: Async_Create_def Async_parts_def split: prod.splits option.splits)
  show "created_or_given_back s (Async_Create s sig)"
  proof (cases x)
    case None
    with P C show ?thesis by (simp add: created_or_given_back_def)
  next
    case (Some a)
    with P have a: "os_wf s12" "async_complete a" "live s12 = live s + 6" "open_fds s12 = async_fds a \<union> open_fds s"
      "async_fds a \<inter> open_fds s = {}" "0 \<le> the (al_context_command a)" by simp_all
    show ?thesis
    proof (rule EventLoop_Create_cases [OF a(1), of True False sig])
      fix s13 sig' assume "EventLoop_Create True False s12 sig = Ret (None, s13, sig')" "os_wf s13"
        "live s13 = live s12" "open_fds s13 = open_fds s12"
      with a Async_delete_complete [OF a(2)] Some C show ?thesis
        by (auto simp: created_or_given_back_def Async_start_def resources_def)
    qed (use Async_start_loop [OF a(2-6)] Some C in simp)
  qed
qed

lemma Async_Create_resources_witness:
  "\<exists>a L s' sig'. Async_Create \<lparr>open_fds = {}, next_fd = 0, live = 0, faults = replicate 20 0 @ [12]\<rparr> False
      = Ret (a, L, s', sig') \<and> (a = None \<longrightarrow> L = None \<longrightarrow> resources s' = ({}, 0))"
  using Async_Create_resources [of "\<lparr>open_fds = {}, next_fd = 0, live = 0, faults = replicate 20 0 @ [12]\<rparr>" False]
  by (fastforce simp: os_wf_def resources_def)

text \<open>The emulator and its loop when no call fails, with the descriptors from \<open>k\<close> on.\<close>

definition calm_async :: "int \<Rightarrow> async_life" where
  "calm_async k = \<lparr>al_command = Some k, al_outputConsumer = Some (k + 2),
    al_eventObject = Some \<lparr>ep_handle = k + 4, ep_publish = k + 5\<rparr>, al_handlerObject = nullptr,
    al_context_command = Some (k + 1), al_outputProducer = Some (k + 3), al_eventLoop = None\<rparr>"

definition calm_loop :: "int \<Rightarrow> event_loop" where
  "calm_loop k = (let L = fresh_loop True (k + 6) (k + 7) (k + 8) in L\<lparr>el_next := 3,
    el_interest := (el_interest L)(k + 1 \<mapsto> (2, epoll_events (EVT_READ OR EVT_ERROR))),
    el_heap := (el_heap L)(2 \<mapsto> \<lparr>ho_object = 2, ho_fd = k + 1, ho_type = EVT_READ OR EVT_ERROR,
      ho_data = 3, ho_handler = main_handler, ho_cancel = None, ho_state = INIT, ho_in_use = False\<rparr>),
    el_state := START_REQUESTED, el_epollWaitSize := 10, el_spawned := True\<rparr>)"

definition calm_stopped :: "int \<Rightarrow> event_loop" where
  "calm_stopped k = (let L = calm_loop k in L\<lparr>el_interest := (el_interest L)(k + 1 := None),
    el_heap := (el_heap L)(2 := None), el_stop := Some \<lparr>se_handler = destroy_loop, se_data = 0\<rparr>,
    el_state := STOP_REQUESTED\<rparr>)"

definition calm_os :: "int set \<Rightarrow> int \<Rightarrow> int \<Rightarrow> int \<Rightarrow> os" where
  "calm_os F k n m = \<lparr>open_fds = {k..<k + n} \<union> F, next_fd = k + n, live = m, faults = []\<rparr>"

lemma os_calm:
  assumes "faults t = []"
  shows "os_new t = (True, t\<lparr>live := live t + 1\<rparr>)" "os_call t = (0, t)"
    "os_open t = (next_fd t, t\<lparr>open_fds := insert (next_fd t) (open_fds t), next_fd := next_fd t + 1\<rparr>)"
    "os_pair t = (0, t\<lparr>open_fds := insert (next_fd t) (insert (next_fd t + 1) (open_fds t)), next_fd := next_fd t + 2\<rparr>,
       next_fd t, next_fd t + 1)"
  using assms by (simp_all add: os_new_def os_call_def os_open_def os_pair_def pop_def)

lemma calm_loop_simps:
  "el_heap (calm_loop k) 1 = Some \<lparr>ho_object = 1, ho_fd = k + 7, ho_type = EVT_READ OR EVT_ERROR, ho_data = 1,
    ho_handler = ctrl_handler, ho_cancel = None, ho_state = INIT, ho_in_use = False\<rparr>"
  "el_heap (calm_loop k) 2 = Some \<lparr>ho_object = 2, ho_fd = k + 1, ho_type = EVT_READ OR EVT_ERROR,
    ho_data = 3, ho_handler = main_handler, ho_cancel = None, ho_state = INIT, ho_in_use = False\<rparr>"
  "el_interest (calm_loop k) (k + 1) = Some (2, epoll_events (EVT_READ OR EVT_ERROR))"
  "el_interest (calm_loop k) (k + 7) = Some (1, epoll_events (EVT_READ OR EVT_ERROR))"
  "el_interest (calm_loop k) (k + 9) = None"
  "el_state (calm_loop k) = START_REQUESTED" "el_spfd (calm_loop k) = (k + 6, k + 7)"
  "el_handle (calm_loop k) = k + 8" "el_spHandlerObject (calm_loop k) = 1" "el_stop (calm_loop k) = None"
  "el_ctrl (calm_loop k) = []" "el_enable_signal (calm_loop k)" "el_epollWaitSize (calm_loop k) = 10"
  "el_loopCount (calm_loop k) = -1" "\<not> el_destructed (calm_loop k)"
  by (simp_all add: calm_loop_def fresh_loop_def EventLoop_new_def Let_def)

lemma calm_create:
  assumes "0 \<le> k"
  shows "Async_Create (calm_os F k 0 m) sig =
    Ret (Some ((calm_async k)\<lparr>al_eventLoop := Some (calm_loop k), al_handlerObject := 2\<rparr>), None, calm_os F k 9 (10 + m), sig)"
proof -
  have "Async_descriptors (calm_os F k 0 m) = (Some (k, k + 1, k + 2, k + 3), calm_os F k 4 (1 + m))"
    by (simp add: calm_os_def Async_descriptors_def os_calm) auto
  moreover have "Async_objects (k, k + 1, k + 2, k + 3) (calm_os F k 4 (1 + m)) = (Some (calm_async k), calm_os F k 6 (6 + m))"
    by (simp add: Async_objects_def os_calm EventPipe_Create_def Async_new_def calm_async_def calm_os_def) auto
  moreover have "Async_start (calm_async k) (calm_os F k 6 (6 + m)) sig =
      Ret (Some ((calm_async k)\<lparr>al_eventLoop := Some (calm_loop k), al_handlerObject := 2\<rparr>), None, calm_os F k 9 (10 + m), sig)"
    using assms
    by (simp add: Async_start_def os_calm EventLoop_Create_def Let_def EventLoop_new_def AddEventHandler_def
      AddEventHandlerInternal_def epoll_ctl_add_def set_item_def run_loop_def EventLoop_Run_def calm_async_def calm_loop_def
      fresh_loop_def calm_os_def numeral_2_eq_2) auto
  ultimately show ?thesis by (simp add: Async_Create_def)
qed

lemma calm_destroy:
  "Async_Destroy nd ((calm_async k)\<lparr>al_eventLoop := Some (calm_loop k), al_handlerObject := 2\<rparr>) (calm_os F k 9 (10 + m))
    = Ret (Some (calm_stopped k), Async_delete (calm_async k) (calm_os F k 9 (10 + m)))"
  by (simp add: Async_Destroy_def RemoveEventHandler_def calm_loop_simps RemoveHandlerObject_def epoll_ctl_del_def
      SetStopHandler_def os_calm EventLoop_Stop_def StopLoop_def Let_def os_delete_def calm_stopped_def calm_os_def)

lemma calm_delete:
  assumes "\<And>x. k \<le> x \<Longrightarrow> x \<notin> F"
  shows "open_fds (Async_delete (calm_async k) (calm_os F k 9 n)) = {k + 6, k + 7, k + 8} \<union> F"
    and "next_fd (Async_delete (calm_async k) (calm_os F k 9 n)) = k + 9"
    and "live (Async_delete (calm_async k) (calm_os F k 9 n)) = n - 6"
    and "faults (Async_delete (calm_async k) (calm_os F k 9 n)) = []"
  using assms
  by (auto simp: calm_os_def Async_delete_def Let_def calm_async_def EventPipe_Destroy_def delete_command_def close_fd_def
      os_close_def pop_def)

lemmas thread_defs = loop_thread_def ThreadMain_def calm_loop_simps os_calm Let_def loop_turns.simps stopped_def
  epoll_ctl_add_def epoll_ctl_del_def EventLoop_Destroy_def StopLoop_def EventLoop_fail_def EventLoop_delete_def
  RemoveEventHandler_def RemoveHandlerObject_def resources_def os_delete_def calm_loop_simps(1) [unfolded One_nat_def] errno_defs

lemma calm_late:
  assumes "0 \<le> k" and "\<And>x. k \<le> x \<Longrightarrow> x \<notin> F"
  shows "\<exists>s' sig'. loop_thread cb ccb [] (calm_stopped k) (Async_delete (calm_async k) (calm_os F k 9 (10 + m))) sig u
      = Ret (None, s', sig') \<and> resources s' = (F, m)"
  using assms by (simp add: thread_defs calm_stopped_def calm_delete [OF assms(2)]) (auto simp: thread_defs)

lemma calm_waiting:
  assumes "0 \<le> k" and "\<And>x. k \<le> x \<Longrightarrow> x \<notin> F"
  shows "\<exists>s' sig'. loop_thread cb ccb [([LoopRemove 2, LoopSetStop (Some destroy_loop) nullptr, LoopStop],
            \<lambda>L. EpollEvents [(el_spHandlerObject L, \<lparr>em_in = True, em_out = False, em_err = False\<rparr>)])]
          (calm_loop k) (calm_os F k 9 (10 + m)) sig u = Ret (None, s', sig')
        \<and> resources (Async_delete (calm_async k) s') = (F, m)"
proof -
  have "{k..<k + 9} \<union> F - {k + 9} - {k + 6} - {k + 7} - {k + 8} = {k..<k + 6} \<union> F" using assms(2) by auto
  then have "\<exists>s' sig'. loop_thread cb ccb [([LoopRemove 2, LoopSetStop (Some destroy_loop) nullptr, LoopStop],
            \<lambda>L. EpollEvents [(el_spHandlerObject L, \<lparr>em_in = True, em_out = False, em_err = False\<rparr>)])]
          (calm_loop k) (calm_os F k 9 (10 + m)) sig u = Ret (None, s', sig')
        \<and> open_fds s' = {k..<k + 6} \<union> F \<and> live s' = m + 6"
    using assms(1)
    by (simp add: thread_defs SetStopHandler_def WaitEpoll_def process_event_def ready_type_def set_item_def run_handler_def
        CtrlEventHandler_def signal_pending_def calm_os_def) auto
  moreover have "resources (Async_delete (calm_async k) s') = (F, m)"
    if "open_fds s' = {k..<k + 6} \<union> F" "live s' = m + 6" for s'
    using that assms(2) by (auto simp: Async_delete_def Let_def calm_async_def resources_def)
  ultimately show ?thesis by blast
qed

text \<open>
  C25. When no call fails, an emulator is created and taking it down gives back everything, in a debug and in a
  release build and for both orders of the two threads: when the loop's thread starts only after \<open>Destroy\<close> has
  asked it to stop, and when it is waiting for events by then, is woken through the control socket and destroys its loop.
\<close>

theorem async_life_gives_back:
  assumes "os_wf s" and "faults s = []"
  shows "\<exists>a s1 sig1. Async_Create s sig = Ret (Some a, None, s1, sig1)
    \<and> (\<exists>L s2 s3 sig2. Async_Destroy nd a s1 = Ret (Some L, s2)
        \<and> loop_thread cb ccb [] L s2 sig1 u = Ret (None, s3, sig2) \<and> resources s3 = resources s)
    \<and> (\<exists>s2 sig2. loop_thread cb ccb
          [([LoopRemove (al_handlerObject a), LoopSetStop (Some destroy_loop) nullptr, LoopStop],
            \<lambda>L. EpollEvents [(el_spHandlerObject L, \<lparr>em_in = True, em_out = False, em_err = False\<rparr>)])]
          (the (al_eventLoop a)) s1 sig1 u = Ret (None, s2, sig2)
        \<and> resources (Async_delete a s2) = resources s)"
proof -
  have s: "s = calm_os (open_fds s) (next_fd s) 0 (live s)"
    using assms(2) by (cases s) (simp add: calm_os_def)
  have k: "0 \<le> next_fd s" "\<And>x. next_fd s \<le> x \<Longrightarrow> x \<notin> open_fds s"
    using assms(1) unfolding os_wf_def by (simp, meson not_le)
  have r: "resources s = (open_fds s, live s)" by (simp add: resources_def)
  let ?a = "(calm_async (next_fd s))\<lparr>al_eventLoop := Some (calm_loop (next_fd s)), al_handlerObject := 2\<rparr>"
  obtain s3 sig3 where 3: "loop_thread cb ccb [] (calm_stopped (next_fd s))
      (Async_delete (calm_async (next_fd s)) (calm_os (open_fds s) (next_fd s) 9 (10 + live s))) sig u = Ret (None, s3, sig3)"
      "resources s3 = resources s" using calm_late [OF k] r by metis
  obtain s4 sig4 where 4: "loop_thread cb ccb [([LoopRemove 2, LoopSetStop (Some destroy_loop) nullptr, LoopStop],
            \<lambda>L. EpollEvents [(el_spHandlerObject L, \<lparr>em_in = True, em_out = False, em_err = False\<rparr>)])]
          (calm_loop (next_fd s)) (calm_os (open_fds s) (next_fd s) 9 (10 + live s)) sig u = Ret (None, s4, sig4)"
      "resources (Async_delete (calm_async (next_fd s)) s4) = resources s" using calm_waiting [OF k] r by metis
  have "Async_Create s sig = Ret (Some ?a, None, calm_os (open_fds s) (next_fd s) 9 (10 + live s), sig)"
    using calm_create [OF k(1), of "open_fds s" "live s" sig] unfolding s [symmetric] .
  note 1 = this
  have handler: "al_handlerObject ?a = 2" "the (al_eventLoop ?a) = calm_loop (next_fd s)" "Async_delete ?a t = Async_delete (calm_async (next_fd s)) t" for t
    by simp_all
  show ?thesis
    by (rule exI [of _ ?a], rule exI, rule exI, unfold handler, intro conjI, rule 1)
      (use 3 4 calm_destroy [of nd "next_fd s" "open_fds s" "live s"] in blast)+
qed

lemma async_life_gives_back_witness:
  "\<exists>a s1 sig1 L s2 s3 sig2. Async_Create \<lparr>open_fds = {0, 1, 2}, next_fd = 3, live = 40, faults = []\<rparr> True = Ret (Some a, None, s1, sig1)
    \<and> Async_Destroy False a s1 = Ret (Some L, s2)
    \<and> loop_thread (\<lambda>h obj type data u. (RETURN_RENEW, [], u)) (\<lambda>h obj data u. ([], u)) [] L s2 sig1 () = Ret (None, s3, sig2)
    \<and> resources s3 = ({0, 1, 2}, 40)"
  using async_life_gives_back [of "\<lparr>open_fds = {0, 1, 2}, next_fd = 3, live = 40, faults = []\<rparr>" True False
      "\<lambda>h obj type data u. (RETURN_RENEW, [], u)" "\<lambda>h obj data u. ([], u)" "()"]
  by (auto simp: os_wf_def resources_def)

end
