(* ===== verification/Inference_Runtime.thy ===== *)
theory Inference_Runtime
  imports Runtime_Async Runtime_Async_Life Module_Wrappers
begin

text \<open>
  \<^verbatim>\<open>libbeyond/src/inference_runtime_impl.cc\<close>: the runtime object of the library. It loads a runtime module; when the
  module says that it has no asynchronous mode it puts the emulator (\<open>Runtime_Async\<close>, \<open>Runtime_Async_Life\<close>) in front
  of it, else every call goes to the module itself.
\<close>

section \<open>State\<close>

text \<open>
  \<open>async\<close> of the object: null, the module, or the emulator. The module's state is in the emulator while there is
  one (\<open>as_module\<close>), else in \<open>ld_module\<close>.
\<close>

datatype 'm backend = NoBackend | Direct | Emulator async_life "'m async"

record 'm runtime =
  rt_module :: "'m loaded"
  rt_async :: "'m backend"
  rt_events :: event_object \<comment> \<open>the emulator's event object\<close>

text \<open>The emulator as \<open>Async::Create\<close> leaves it: its channels over its descriptors, nothing on its way.\<close>

definition async_session :: "async_life \<Rightarrow> 'm \<Rightarrow> 'm async" where
  "async_session a m =
    \<lparr>as_command = CommandObject_new (the (al_command a)) (the (al_context_command a)),
     as_reply = CommandObject_new (the (al_context_command a)) (the (al_command a)),
     as_output = CommandObject_new (the (al_outputProducer a)) (the (al_outputConsumer a)),
     as_args = Map.empty, as_next = 1, as_new = [],
     as_events = \<lparr>pq_events = [], pq_errors = [], pq_new = []\<rparr>, as_module = m\<rparr>"

section \<open>Operations\<close>

text \<open>
  The result of \<open>Create\<close>: the object (None: null), an event loop that a failing creation of the emulator abandons,
  and the state of the process. The object is returned also when the emulator could not be created.
\<close>

definition Runtime_Create ::
    "'m module \<Rightarrow> 'm dl_world \<Rightarrow> beyond_argument option \<Rightarrow> load_state \<Rightarrow> bool \<Rightarrow>
     ('m runtime option \<times> event_loop option \<times> load_state \<times> bool) outcome" where
  "Runtime_Create M dl arg s signalLoop =
    (case checked_argv arg of
      None \<Rightarrow> Ret (None, None, s, signalLoop)
    | Some argv \<Rightarrow>
        (case load_module dl TYPE_RUNTIME argv s of
          (None, s1) \<Rightarrow> Ret (None, None, s1, signalLoop)
        | (Some L, s1) \<Rightarrow>
            let (r, m) = M CallGetHandle (ld_module L); L = L\<lparr>ld_module := m\<rparr> in
            if r_ret r = - ENOTSUP then
              obind (Async_Create (ls_os s1) signalLoop) (\<lambda>(a, loop, os2, signalLoop).
                let s2 = s1\<lparr>ls_os := os2\<rparr> in
                case a of
                  None \<Rightarrow> Ret (Some \<lparr>rt_module = L, rt_async = NoBackend, rt_events = EventObject_new (-1)\<rparr>, loop, s2, signalLoop)
                | Some a \<Rightarrow>
                    Ret (Some \<lparr>rt_module = L, rt_async = Emulator a (async_session a m),
                      rt_events = EventObject_new (ep_handle (the (al_eventObject a)))\<rparr>, loop, s2, signalLoop))
            else Ret (Some \<lparr>rt_module = L, rt_async = Direct, rt_events = EventObject_new (-1)\<rparr>, None, s1, signalLoop)))"

text \<open>\<open>Destroy\<close>: the emulator's loop is left to its thread (first component of the result), the module is destroyed at once.\<close>

definition Runtime_Destroy :: "bool \<Rightarrow> 'm runtime \<Rightarrow> load_state \<Rightarrow> (event_loop option \<times> load_state) outcome" where
  "Runtime_Destroy nd R s =
    obind (case rt_async R of
        Emulator a A \<Rightarrow> obind (Async_Destroy nd a (ls_os s)) (\<lambda>(loop, os1). Ret (loop, s\<lparr>ls_os := os1\<rparr>))
      | _ \<Rightarrow> Ret (None, s)) (\<lambda>(loop, s1). Ret (loop, unload_module s1))"

text \<open>
  The methods, each of which calls the method of the same name of \<open>async\<close>. The emulator's event methods
  belong to its event object; its \<open>FetchEventData\<close>, which runs the client's handlers, is \<open>Runtime_FetchEventData\<close>.
\<close>

definition emulator_call ::
    "'m module \<Rightarrow> bool \<Rightarrow> nat \<Rightarrow> inference_call \<Rightarrow> 'm async \<Rightarrow> event_object \<Rightarrow>
     (reply \<times> 'm async \<times> event_object) outcome" where
  "emulator_call M nd n c A eo =
    (let lift = (\<lambda>m. obind m (\<lambda>(r, A'). Ret (r, A', eo))) in
     case c of
       CallInvoke input sz ctx \<Rightarrow> lift (Async_Invoke nd input sz ctx A)
     | CallGetOutput tensor sz \<Rightarrow> lift (Async_GetOutput nd tensor sz A)
     | CallGetHandle \<Rightarrow> Ret (ret_only (GetHandle eo), A, eo)
     | CallAddHandler h t d \<Rightarrow> (let (allocated, A') = async_alloc A; (ret, eo') = AddHandler allocated h t d eo in
         Ret (ret_only ret, A', eo'))
     | CallRemoveHandler h t d \<Rightarrow> (let (ret, eo') = RemoveHandler h t d eo in Ret (ret_only ret, A, eo'))
     | CallDestroyEventData data \<Rightarrow> (let (ret, data') = DestroyEventData data in Ret ((ret_only ret)\<lparr>r_event := data'\<rparr>, A, eo))
     | CallFetchEventData data \<Rightarrow> Undefined
     | _ \<Rightarrow> (case Async_call M nd n c A of None \<Rightarrow> Undefined | Some m \<Rightarrow> lift m))"

definition Runtime_call ::
    "'m module \<Rightarrow> bool \<Rightarrow> nat \<Rightarrow> inference_call \<Rightarrow> 'm runtime \<Rightarrow> (reply \<times> 'm runtime) outcome" where
  "Runtime_call M nd n c R =
    (case rt_async R of
      NoBackend \<Rightarrow> Undefined
    | Direct \<Rightarrow>
        let (r, m) = M c (ld_module (rt_module R)) in Ret (r, R\<lparr>rt_module := (rt_module R)\<lparr>ld_module := m\<rparr>\<rparr>)
    | Emulator a A \<Rightarrow>
        obind (emulator_call M nd n c A (rt_events R)) (\<lambda>(r, A', eo').
          Ret (r, R\<lparr>rt_async := Emulator a A', rt_events := eo'\<rparr>)))"

definition Runtime_FetchEventData ::
    "'m module \<Rightarrow> bool \<Rightarrow> (published \<times> 'u) event_handler \<Rightarrow> event_data option \<Rightarrow> 'm runtime \<Rightarrow> 'u \<Rightarrow>
     (int \<times> event_data option \<times> 'm runtime \<times> 'u) outcome" where
  "Runtime_FetchEventData M nd cb data R u =
    (case rt_async R of
      NoBackend \<Rightarrow> Undefined
    | Direct \<Rightarrow>
        let (r, m) = M (CallFetchEventData data) (ld_module (rt_module R)) in
        Ret (r_ret r, r_event r, R\<lparr>rt_module := (rt_module R)\<lparr>ld_module := m\<rparr>\<rparr>, u)
    | Emulator a A \<Rightarrow>
        obind (Pipe_FetchEventData nd cb data (rt_events R) (as_events A, u)) (\<lambda>(ret, data', eo', q', u').
          Ret (ret, data', R\<lparr>rt_async := Emulator a (A\<lparr>as_events := q'\<rparr>), rt_events := eo'\<rparr>, u')))"

section \<open>Properties\<close>

lemma Async_Create_parts:
  assumes "Async_Create s sig = Ret (Some a, loop, s', sig')"
  shows "\<exists>a0 s12 L p. Async_parts s = (Some a0, s12) \<and> a = a0\<lparr>al_eventLoop := Some L, al_handlerObject := p\<rparr>"
proof -
  obtain fds s7 a0 s12 where 1: "Async_descriptors s = (Some fds, s7)" "Async_objects fds s7 = (Some a0, s12)"
      "Async_start a0 s12 sig = Ret (Some a, loop, s', sig')"
    using assms by (auto simp: Async_Create_def split: prod.splits option.splits)
  obtain x where "EventLoop_Create True False s12 sig = Ret x" using 1(3)
    by (cases "EventLoop_Create True False s12 sig") (simp_all add: Async_start_def)
  moreover obtain l s13 sig2 where "x = (l, s13, sig2)" by (cases x)
  ultimately have 2: "EventLoop_Create True False s12 sig = Ret (l, s13, sig2)" by simp
  obtain L where l: "l = Some L" using 1(3) 2 by (cases l) (simp_all add: Async_start_def)
  obtain p L1 s14 where 3: "AddEventHandler 2 (the (al_context_command a0)) (EVT_READ OR EVT_ERROR) (Some main_handler) 3 L s13
      = (p, L1, s14)" by (cases "AddEventHandler 2 (the (al_context_command a0)) (EVT_READ OR EVT_ERROR) (Some main_handler) 3 L s13")
  have p: "p \<noteq> 0" using 1(3) 2 3 l by (cases "p = 0") (simp_all add: Async_start_def Let_def)
  obtain y where y: "run_loop L1 s14 = Ret y" using 1(3) 2 3 l p
    by (cases "run_loop L1 s14") (simp_all add: Async_start_def Let_def)
  obtain ret L2 s15 where "y = (ret, L2, s15)" by (cases y)
  with 1 2 3 l p y show ?thesis
    by (auto simp: Async_start_def Async_parts_def Let_def split: if_splits)
qed

lemma Async_Create_channels:
  assumes "os_wf s" and "Async_Create s sig = Ret (Some a, loop, s', sig')"
  shows "0 \<le> the (al_command a)" "0 \<le> the (al_context_command a)" "0 \<le> the (al_outputProducer a)"
    "0 \<le> the (al_outputConsumer a)"
proof -
  obtain a0 s12 L p where a: "Async_parts s = (Some a0, s12)" "a = a0\<lparr>al_eventLoop := Some L, al_handlerObject := p\<rparr>"
    using Async_Create_parts [OF assms(2)] by blast
  from Async_parts_cases [OF assms(1) a(1)]
  have "async_fds a0 \<subseteq> open_fds s12" "os_wf s12" by auto
  then have "fd \<in> async_fds a0 \<Longrightarrow> 0 \<le> fd" for fd by (auto simp: os_wf_def)
  then show "0 \<le> the (al_command a)" "0 \<le> the (al_context_command a)" "0 \<le> the (al_outputProducer a)"
    "0 \<le> the (al_outputConsumer a)" by (simp_all add: a(2) async_fds_def)
qed

lemma load_module_wf:
  assumes "load_module dl mtype argv s = (L, s')" and "os_wf (ls_os s)"
  shows "os_wf (ls_os s')"
proof -
  obtain a1 os1 where 1: "os_new (ls_os s) = (a1, os1)" by fastforce
  obtain a2 os2 where 2: "os_new os1 = (a2, os2)" by fastforce
  have wf: "os_wf os1" "os_wf os2"
    using os_newD [OF 1 assms(2)] os_newD [OF 2] by simp_all
  show ?thesis
    using assms 1 2 wf
    by (cases a1; cases a2)
      (auto simp: load_module_def Let_def module_delete_def split: list.splits option.splits if_splits)
qed

lemma async_session_rest:
  assumes "os_wf s" and "Async_Create s sig = Ret (Some a, loop, s', sig')" and "k < 2 ^ 64"
  shows "at_rest (async_session a m)" and "room k (async_session a m)"
  using Async_Create_channels [OF assms(1,2)] assms(3)
  by (simp_all add: at_rest_def room_def async_session_def channel_calm_def)
    (simp_all add: CommandObject_new_def)

text \<open>A client that makes synchronous calls one after the other, through the object and on the module itself.\<close>

fun is_sync :: "inference_call \<Rightarrow> bool" where
  "is_sync (CallInvoke input sz ctx) = False"
| "is_sync (CallGetOutput tensor sz) = False"
| "is_sync CallGetHandle = False"
| "is_sync (CallAddHandler h t d) = False"
| "is_sync (CallRemoveHandler h t d) = False"
| "is_sync (CallFetchEventData data) = False"
| "is_sync (CallDestroyEventData data) = False"
| "is_sync c = True"

fun runtime_session ::
    "'m module \<Rightarrow> bool \<Rightarrow> nat \<Rightarrow> inference_call list \<Rightarrow> 'm runtime \<Rightarrow> (reply list \<times> 'm runtime) outcome" where
  "runtime_session M nd n [] R = Ret ([], R)"
| "runtime_session M nd n (c # cs) R =
    obind (Runtime_call M nd n c R) (\<lambda>(r, R1). obind (runtime_session M nd n cs R1) (\<lambda>(rs, R2). Ret (r # rs, R2)))"

fun module_session ::
    "bool \<Rightarrow> 'm module \<Rightarrow> inference_call list \<Rightarrow> 'm \<Rightarrow> reply list \<times> 'm" where
  "module_session emulated M [] m = ([], m)"
| "module_session emulated M (c # cs) m =
    (let (r, m1) = M (if emulated then module_view c else c) m; (rs, m2) = module_session emulated M cs m1 in
     ((if emulated then caller_view c r else r) # rs, m2))"

definition module_state :: "'m runtime \<Rightarrow> 'm" where
  "module_state R = (case rt_async R of Emulator a A \<Rightarrow> as_module A | _ \<Rightarrow> ld_module (rt_module R))"

lemma emulator_call_sync: "is_sync c \<Longrightarrow> \<exists>m. Async_call M nd n c A = Some m
    \<and> emulator_call M nd n c A eo = obind m (\<lambda>(r, A'). Ret (r, A', eo))"
  by (cases c) (simp_all add: emulator_call_def)

lemma Runtime_call_sync:
  assumes "is_sync c" and "at_rest A" and "room (Suc k) A" and "rt_async R = Emulator a A"
  shows "\<exists>A1. Runtime_call M nd (Suc n) c R =
      Ret (caller_view c (fst (M (module_view c) (as_module A))), R\<lparr>rt_async := Emulator a A1\<rparr>)
    \<and> at_rest A1 \<and> room k A1 \<and> as_module A1 = snd (M (module_view c) (as_module A))"
proof -
  obtain m where m: "Async_call M nd (Suc n) c A = Some m"
      "emulator_call M nd (Suc n) c A (rt_events R) = obind m (\<lambda>(r, A'). Ret (r, A', rt_events R))"
    using emulator_call_sync [OF assms(1)] by blast
  from sync_call_answers [OF assms(2,3) m(1)] assms(4) m(2) show ?thesis
    by (auto simp: Runtime_call_def)
qed

lemma runtime_session_module:
  assumes "list_all is_sync cs" and "at_rest A" and "room (length cs) A" and "rt_async R = Emulator a A"
  shows "\<exists>A'. runtime_session M nd (Suc n) cs R =
      Ret (fst (module_session True M cs (as_module A)), R\<lparr>rt_async := Emulator a A'\<rparr>)
    \<and> at_rest A' \<and> as_module A' = snd (module_session True M cs (as_module A))"
  using assms
proof (induction cs arbitrary: A R)
  case Nil
  then show ?case by (intro exI [of _ A]) simp
next
  case (Cons c cs)
  let ?r = "fst (M (module_view c) (as_module A))"
  obtain A1 where 1: "Runtime_call M nd (Suc n) c R = Ret (caller_view c ?r, R\<lparr>rt_async := Emulator a A1\<rparr>)"
      "at_rest A1" "room (length cs) A1" "as_module A1 = snd (M (module_view c) (as_module A))"
    using Runtime_call_sync [of c A "length cs" R a M nd n] Cons.prems by auto
  let ?R = "R\<lparr>rt_async := Emulator a A1\<rparr>"
  have "list_all is_sync cs" "rt_async ?R = Emulator a A1" using Cons.prems(1) by simp_all
  from Cons.IH [OF this(1) 1(2,3) this(2)] obtain A2 where
    "runtime_session M nd (Suc n) cs ?R = Ret (fst (module_session True M cs (as_module A1)), ?R\<lparr>rt_async := Emulator a A2\<rparr>)"
    "at_rest A2" "as_module A2 = snd (module_session True M cs (as_module A1))" by blast
  with 1(1,4) show ?case
    by (intro exI [of _ A2]) (simp add: split_def Let_def)
qed

lemma runtime_session_direct:
  assumes "rt_async R = Direct"
  shows "\<exists>R'. runtime_session M nd n cs R = Ret (fst (module_session False M cs (ld_module (rt_module R))), R')
    \<and> rt_async R' = Direct \<and> ld_module (rt_module R') = snd (module_session False M cs (ld_module (rt_module R)))"
  using assms
proof (induction cs arbitrary: R)
  case (Cons c cs)
  obtain r m where M: "M c (ld_module (rt_module R)) = (r, m)" by fastforce
  let ?R = "R\<lparr>rt_module := (rt_module R)\<lparr>ld_module := m\<rparr>\<rparr>"
  from Cons.IH [of ?R] Cons.prems obtain R2 where
    "runtime_session M nd n cs ?R = Ret (fst (module_session False M cs m), R2)"
    "rt_async R2 = Direct" "ld_module (rt_module R2) = snd (module_session False M cs m)" by auto
  with Cons.prems M show ?case
    by (intro exI [of _ R2]) (simp add: Runtime_call_def split_def Let_def)
qed simp


text \<open>A module that counts its calls, with or without an asynchronous mode.\<close>

definition counting_module :: "bool \<Rightarrow> int module" where
  "counting_module asynchronous c m =
    (case c of CallGetHandle \<Rightarrow> (ret_only (if asynchronous then 7 else - ENOTSUP), m) | _ \<Rightarrow> (ret_only m, m + 1))"

definition counting_world :: "int dl_world" where
  "counting_world f = Some \<lparr>dl_main = Some (\<lambda>argv. Some (Some TYPE_RUNTIME, 5))\<rparr>"

definition one_argument :: "beyond_argument option" where
  "one_argument = Some \<lparr>arg_argc = 1, arg_argv = Some [Some ''m'']\<rparr>"

definition counting_state :: "nat list \<Rightarrow> load_state" where
  "counting_state es = \<lparr>ls_os = \<lparr>open_fds = {}, next_fd = 0, live = 0, faults = es\<rparr>, ls_handles = 0, ls_instances = 0\<rparr>"

lemma counting_load:
  "load_module counting_world TYPE_RUNTIME [Some ''m''] (counting_state []) =
    (Some \<lparr>ld_handle = module_filename ''m'', ld_module = 5, ld_argv = [''m'']\<rparr>,
     \<lparr>ls_os = calm_os {} 0 0 1, ls_handles = 1, ls_instances = 1\<rparr>)"
  by (simp add: load_module_def counting_state_def counting_world_def os_calm os_delete_def calm_os_def Let_def)

lemma counting_Create:
  "\<exists>R s'. Runtime_Create (counting_module False) counting_world one_argument (counting_state []) False
      = Ret (Some R, None, s', False)
    \<and> rt_async R \<noteq> NoBackend \<and> rt_async R \<noteq> Direct \<and> module_state R = 5"
  by (simp add: Runtime_Create_def checked_argv_def one_argument_def counting_load calm_create counting_module_def
      module_state_def async_session_def)


text \<open>
  \<open>Create\<close> succeeds without its emulator: when the module says that it has no asynchronous mode and the emulator
  cannot be created, \<open>Create\<close> still returns an object, and whichever method is called on it first dereferences a null pointer.
\<close>

theorem runtime_without_emulator:
  assumes "checked_argv arg = Some argv" and "load_module dl TYPE_RUNTIME argv s = (Some L, s1)"
    and "r_ret (fst (M CallGetHandle (ld_module L))) = - ENOTSUP"
    and "Async_Create (ls_os s1) sig = Ret (None, loop, os2, sig')"
  shows "\<exists>R. Runtime_Create M dl arg s sig = Ret (Some R, loop, s1\<lparr>ls_os := os2\<rparr>, sig')
    \<and> (\<forall>c. Runtime_call M nd n c R = Undefined)"
  using assms by (auto simp: Runtime_Create_def Runtime_call_def Let_def split_def)

lemma runtime_without_emulator_witness:
  "\<exists>R s'. Runtime_Create (counting_module False) counting_world one_argument (counting_state [0, 0, 0, 24]) False
      = Ret (Some R, None, s', False) \<and> open_fds (ls_os s') = {}
    \<and> (\<forall>c. Runtime_call (counting_module False) True 0 c R = Undefined)"
proof -
  have 1: "checked_argv one_argument = Some [Some ''m'']" by (simp add: checked_argv_def one_argument_def)
  have 2: "load_module counting_world TYPE_RUNTIME [Some ''m''] (counting_state [0, 0, 0, 24]) =
    (Some \<lparr>ld_handle = module_filename ''m'', ld_module = 5, ld_argv = [''m'']\<rparr>,
     \<lparr>ls_os = \<lparr>open_fds = {}, next_fd = 0, live = 1, faults = [0, 24]\<rparr>, ls_handles = 1, ls_instances = 1\<rparr>)"
    by (simp add: load_module_def counting_state_def counting_world_def os_new_def pop_def os_delete_def fault_def Let_def)
  have 3: "Async_Create \<lparr>open_fds = {}, next_fd = 0, live = 1, faults = [0, 24]\<rparr> False =
      Ret (None, None, \<lparr>open_fds = {}, next_fd = 0, live = 1, faults = []\<rparr>, False)"
    by (simp add: Async_Create_def Async_descriptors_def os_new_def os_pair_def pop_def os_delete_def fault_def Let_def)
  show ?thesis
    using runtime_without_emulator [OF 1 2, of "counting_module False" False None _ False True 0] 3
    by (auto simp: counting_module_def)
qed

end
