(* ===== verification/Inference_Local.thy ===== *)
theory Inference_Local
  imports Module_Interface Event_Pipe
begin

text \<open>
  \<^verbatim>\<open>libbeyond/src/inference_impl_local.cc\<close>: an inference with one runtime on the same device. The object keeps a
  pointer to the runtime, hands it every call, and publishes the runtime's events to its own client.

  The runtimes are a parameter: what the runtime at an address answers to a call, over a state \<open>'w\<close> that has
  everything outside the object (the runtimes, the client). The part that the remote inference has in common
  (\<open>Inference_Remote\<close>) comes first: the event object, the replies of refused calls, the forwarding of events.
\<close>

section \<open>Events of an inference\<close>

record inference_events =
  ie_pipe :: event_pipe
  ie_object :: event_object
  ie_queue :: published

definition events_of :: "event_pipe \<Rightarrow> inference_events" where
  "events_of p = \<lparr>ie_pipe = p, ie_object = EventObject_new (ep_handle p),
    ie_queue = \<lparr>pq_events = [], pq_errors = [], pq_new = []\<rparr>\<rparr>"

text \<open>The next allocation, by the script in the queue.\<close>

definition allocation :: "published \<Rightarrow> bool \<times> published" where
  "allocation q = (case pq_new q of [] \<Rightarrow> (True, q) | b # bs \<Rightarrow> (b, q\<lparr>pq_new := bs\<rparr>))"

text \<open>
  The five methods of the event interface; each begins with an \<^verbatim>\<open>assert\<close> that there is an event object. The handlers
  that \<open>FetchEventData\<close> runs are \<open>cb\<close>.
\<close>

definition events_call ::
    "bool \<Rightarrow> (published \<times> 'w) event_handler \<Rightarrow> inference_call \<Rightarrow> inference_events option \<Rightarrow> 'w \<Rightarrow>
     (reply \<times> inference_events option \<times> 'w) outcome" where
  "events_call nd cb c events w =
    (case events of
      None \<Rightarrow> if nd then Undefined else Aborted
    | Some e \<Rightarrow>
        (case c of
          CallAddHandler h t d \<Rightarrow>
            let (allocated, q) = allocation (ie_queue e); (ret, eo) = AddHandler allocated h t d (ie_object e) in
            Ret (ret_only ret, Some (e\<lparr>ie_object := eo, ie_queue := q\<rparr>), w)
        | CallRemoveHandler h t d \<Rightarrow>
            let (ret, eo) = RemoveHandler h t d (ie_object e) in
            Ret (ret_only ret, Some (e\<lparr>ie_object := eo\<rparr>), w)
        | CallFetchEventData data \<Rightarrow>
            obind (Pipe_FetchEventData nd cb data (ie_object e) (ie_queue e, w)) (\<lambda>(ret, data', eo, q, w').
              Ret ((ret_only ret)\<lparr>r_event := data'\<rparr>, Some (e\<lparr>ie_object := eo, ie_queue := q\<rparr>), w'))
        | CallDestroyEventData data \<Rightarrow>
            let (ret, data') = DestroyEventData data in Ret ((ret_only ret)\<lparr>r_event := data'\<rparr>, Some e, w)
        | _ \<Rightarrow> Ret (ret_only (GetHandle (ie_object e)), Some e, w)))"

fun is_event_call :: "inference_call \<Rightarrow> bool" where
  "is_event_call CallGetHandle = True"
| "is_event_call (CallAddHandler h t d) = True"
| "is_event_call (CallRemoveHandler h t d) = True"
| "is_event_call (CallFetchEventData data) = True"
| "is_event_call (CallDestroyEventData data) = True"
| "is_event_call c = False"

text \<open>The reply of a method that returns an error code before it writes its reference parameters.\<close>

fun refused :: "int \<Rightarrow> inference_call \<Rightarrow> reply" where
  "refused ret (CallGetInputTensorInfo info sz) = (ret_only ret)\<lparr>r_ptr := info, r_size := sz\<rparr>"
| "refused ret (CallGetOutputTensorInfo info sz) = (ret_only ret)\<lparr>r_ptr := info, r_size := sz\<rparr>"
| "refused ret (CallAllocateTensor info sz tensor) = (ret_only ret)\<lparr>r_ptr := tensor\<rparr>"
| "refused ret (CallFreeTensor tensor sz) = (ret_only 0)\<lparr>r_ptr := tensor\<rparr>"
| "refused ret (CallGetOutput tensor sz) = (ret_only ret)\<lparr>r_ptr := tensor, r_size := sz\<rparr>"
| "refused ret c = ret_only ret"

text \<open>
  \<open>RuntimeEventHandler\<close>, with the event object of the inference it is registered for: an event of the runtime is
  published with its type and data, unless it carries the ERROR bit.
\<close>

definition RuntimeEventHandler ::
    "bool \<Rightarrow> evtype \<Rightarrow> event_data \<Rightarrow> inference_events option \<Rightarrow> (handler_return \<times> inference_events option) outcome" where
  "RuntimeEventHandler nd type eventInfo events =
    (if type AND EVT_ERROR = EVT_ERROR then Ret (RETURN_RENEW, events)
     else case events of
       None \<Rightarrow> Undefined
     | Some e \<Rightarrow>
         let (allocated, q) = allocation (ie_queue e) in
         if \<not> allocated then Ret (RETURN_CANCEL, Some (e\<lparr>ie_queue := q\<rparr>))
         else let (ret, q) = PublishEventData (Some eventInfo) q in
         if ret < 0 \<and> \<not> nd then Aborted
         else Ret (RETURN_RENEW, Some (e\<lparr>ie_queue := q\<rparr>)))"

section \<open>The local inference\<close>

record local_inference =
  lc_this :: ptr \<comment> \<open>its own address\<close>
  lc_autoSplit :: bool
  lc_events :: "inference_events option"
  lc_runtime :: ptr

type_synonym 'w runtimes = "ptr \<Rightarrow> inference_call \<Rightarrow> 'w \<Rightarrow> (reply \<times> 'w) outcome"

text \<open>Number of the function \<open>RuntimeEventHandler\<close> and the types it is registered for.\<close>

definition runtime_event_handler :: nat where
  "runtime_event_handler = 3"

definition forwarded_types :: evtype where
  "forwarded_types = EVT_READ OR EVT_ERROR"

definition Local_Create :: "ptr \<Rightarrow> bool \<Rightarrow> os \<Rightarrow> local_inference option \<times> os" where
  "Local_Create this autoSplit s =
    (let (allocated, s1) = os_new s in
     if \<not> allocated then (None, s1)
     else case EventPipe_Create s1 of
       (None, s2) \<Rightarrow> (None, os_delete s2)
     | (Some p, s2) \<Rightarrow>
         (Some \<lparr>lc_this = this, lc_autoSplit = autoSplit, lc_events = Some (events_of p), lc_runtime = nullptr\<rparr>, s2))"

definition Local_Destroy :: "local_inference \<Rightarrow> os \<Rightarrow> os" where
  "Local_Destroy L s =
    os_delete (case lc_events L of None \<Rightarrow> s | Some e \<Rightarrow> EventPipe_Destroy (ie_pipe e) s)"

text \<open>
  \<open>LoadModel(const char *)\<close> calls itself with the same argument; the overload with an array is never chosen. The value
  None is a call that does not return.
\<close>

partial_function (option) Local_LoadModel1 :: "string option \<Rightarrow> local_inference \<Rightarrow> int option" where
  "Local_LoadModel1 model L = (if model = None then Some (- EINVAL) else Local_LoadModel1 model L)"

text \<open>
  The methods of the inference interface. All but \<open>Configure\<close>, \<open>LoadModel\<close> and the event methods are handed to
  the runtime, or refused when there is none. A call that does not return has no behaviour in C++ (it exhausts the stack).
\<close>

definition Local_call ::
    "'w runtimes \<Rightarrow> bool \<Rightarrow> (published \<times> 'w) event_handler \<Rightarrow> inference_call \<Rightarrow> local_inference \<Rightarrow> 'w \<Rightarrow>
     (reply \<times> local_inference \<times> 'w) outcome" where
  "Local_call R nd cb c L w =
    (case c of
      CallConfigure options \<Rightarrow> Ret (ret_only 0, L, w)
    | CallLoadModel model \<Rightarrow>
        (case Local_LoadModel1 model L of None \<Rightarrow> Undefined | Some ret \<Rightarrow> Ret (ret_only ret, L, w))
    | _ \<Rightarrow>
        if is_event_call c
        then obind (events_call nd cb c (lc_events L) w) (\<lambda>(r, events, w'). Ret (r, L\<lparr>lc_events := events\<rparr>, w'))
        else if lc_runtime L = nullptr then Ret (refused (- EINVAL) c, L, w)
        else obind (R (lc_runtime L) c w) (\<lambda>(r, w'). Ret (r, L, w')))"

text \<open>The overload with an array; a null array is None.\<close>

definition Local_LoadModel ::
    "'w runtimes \<Rightarrow> string option list option \<Rightarrow> int \<Rightarrow> local_inference \<Rightarrow> 'w \<Rightarrow> (int \<times> local_inference \<times> 'w) outcome" where
  "Local_LoadModel R model sz L w =
    (if lc_runtime L = nullptr then Ret (- EINVAL, L, w)
     else if sz \<le> 0 then Ret (- EINVAL, L, w)
     else case model of
       None \<Rightarrow> Ret (- EINVAL, L, w)
     | Some [] \<Rightarrow> Undefined
     | Some (None # _) \<Rightarrow> Ret (- EINVAL, L, w)
     | Some (Some m # _) \<Rightarrow>
         if sz \<noteq> 1 then Ret (- ENOTSUP, L, w)
         else obind (R (lc_runtime L) (CallLoadModel (Some m)) w) (\<lambda>(r, w'). Ret (r_ret r, L, w')))"

definition Local_AddRuntime ::
    "'w runtimes \<Rightarrow> ptr \<Rightarrow> local_inference \<Rightarrow> 'w \<Rightarrow> (int \<times> local_inference \<times> 'w) outcome" where
  "Local_AddRuntime R runtime L w =
    (if lc_runtime L \<noteq> nullptr then Ret (- ENOTSUP, L, w)
     else if runtime = nullptr then Undefined
     else obind (R runtime (CallAddHandler runtime_event_handler forwarded_types (lc_this L)) w) (\<lambda>(r, w').
       if r_ret r < 0 \<and> r_ret r \<noteq> - ENOTSUP then Ret (r_ret r, L, w')
       else Ret (0, L\<lparr>lc_runtime := runtime\<rparr>, w')))"

text \<open>With no runtime and a null argument the comparison succeeds and the null pointer is dereferenced.\<close>

definition Local_RemoveRuntime ::
    "'w runtimes \<Rightarrow> ptr \<Rightarrow> local_inference \<Rightarrow> 'w \<Rightarrow> (int \<times> local_inference \<times> 'w) outcome" where
  "Local_RemoveRuntime R runtime L w =
    (if lc_runtime L \<noteq> runtime then Ret (- ENOENT, L, w)
     else if runtime = nullptr then Undefined
     else obind (R runtime (CallRemoveHandler runtime_event_handler forwarded_types (lc_this L)) w) (\<lambda>(r, w').
       if r_ret r < 0 \<and> r_ret r \<noteq> - ENOTSUP then Ret (r_ret r, L, w')
       else Ret (0, L\<lparr>lc_runtime := nullptr\<rparr>, w')))"

definition Local_AddPeer :: "ptr \<Rightarrow> local_inference \<Rightarrow> int" where
  "Local_AddPeer peer L = - ENOTSUP"

definition Local_RemovePeer :: "ptr \<Rightarrow> local_inference \<Rightarrow> int" where
  "Local_RemovePeer peer L = - ENOTSUP"

section \<open>All operations\<close>

text \<open>The operations of an inference, for both modes.\<close>

datatype inference_op =
    Method inference_call
  | LoadModels "string option list option" int
  | AddRuntime ptr
  | RemoveRuntime ptr
  | AddPeer ptr
  | RemovePeer ptr

primrec Local_op ::
    "'w runtimes \<Rightarrow> bool \<Rightarrow> (published \<times> 'w) event_handler \<Rightarrow> inference_op \<Rightarrow> local_inference \<Rightarrow> 'w \<Rightarrow>
     (reply \<times> local_inference \<times> 'w) outcome" where
  "Local_op R nd cb (Method c) L w = Local_call R nd cb c L w"
| "Local_op R nd cb (LoadModels model sz) L w = obind (Local_LoadModel R model sz L w) (\<lambda>(ret, L', w'). Ret (ret_only ret, L', w'))"
| "Local_op R nd cb (AddRuntime p) L w = obind (Local_AddRuntime R p L w) (\<lambda>(ret, L', w'). Ret (ret_only ret, L', w'))"
| "Local_op R nd cb (RemoveRuntime p) L w = obind (Local_RemoveRuntime R p L w) (\<lambda>(ret, L', w'). Ret (ret_only ret, L', w'))"
| "Local_op R nd cb (AddPeer p) L w = Ret (ret_only (Local_AddPeer p L), L, w)"
| "Local_op R nd cb (RemovePeer p) L w = Ret (ret_only (Local_RemovePeer p L), L, w)"

section \<open>Properties\<close>

lemma Local_LoadModel1_diverges: "Local_LoadModel1 (Some m) L = None"
proof -
  have "model = None" if "Local_LoadModel1 model L = Some ret" for model ret
    by (rule Local_LoadModel1.raw_induct [where P = "\<lambda>model L ret. model = None", rotated, OF that])
      (auto split: if_splits)
  then show ?thesis by fastforce
qed

end
