(* ===== verification/Inference_Remote.thy ===== *)
theory Inference_Remote
  imports Inference_Local
begin

text \<open>
  \<^verbatim>\<open>libbeyond/src/inference_impl_remote.cc\<close>: an inference on other devices. The object keeps the vector of the peers
  that were added, the peer that \<open>Prepare\<close> selected out of them, and the file name of a model that is to be loaded
  into the peer once it is selected. The peers are a parameter, like the runtimes of \<open>Inference_Local\<close>.
\<close>

section \<open>State\<close>

record remote_inference =
  rm_this :: ptr
  rm_autoSplit :: bool
  rm_events :: "inference_events option"
  rm_peer :: ptr \<comment> \<open>the selected peer\<close>
  rm_peerVector :: "ptr list"
  rm_modelFile :: string

type_synonym 'w remote_peers = "ptr \<Rightarrow> peer_call \<Rightarrow> 'w \<Rightarrow> (reply \<times> 'w) outcome"

definition peer_event_handler :: nat where
  "peer_event_handler = 4"

section \<open>Operations\<close>

definition Remote_Create :: "ptr \<Rightarrow> bool \<Rightarrow> os \<Rightarrow> remote_inference option \<times> os" where
  "Remote_Create this autoSplit s =
    (let (allocated, s1) = os_new s in
     if \<not> allocated then (None, s1)
     else case EventPipe_Create s1 of
       (None, s2) \<Rightarrow> (None, os_delete s2)
     | (Some p, s2) \<Rightarrow>
         (Some \<lparr>rm_this = this, rm_autoSplit = autoSplit, rm_events = Some (events_of p), rm_peer = nullptr,
           rm_peerVector = [], rm_modelFile = []\<rparr>, s2))"

definition Remote_Destroy :: "remote_inference \<Rightarrow> os \<Rightarrow> os" where
  "Remote_Destroy r s =
    os_delete (case rm_events r of None \<Rightarrow> s | Some e \<Rightarrow> EventPipe_Destroy (ie_pipe e) s)"

text \<open>\<open>LoadModel\<close> with an array: without a selected peer the name is kept for \<open>Prepare\<close>.\<close>

definition Remote_LoadModel ::
    "'w remote_peers \<Rightarrow> string option list option \<Rightarrow> int \<Rightarrow> remote_inference \<Rightarrow> 'w \<Rightarrow>
     (int \<times> remote_inference \<times> 'w) outcome" where
  "Remote_LoadModel P model sz r w =
    (if sz \<le> 0 then Ret (- EINVAL, r, w)
     else case model of
       None \<Rightarrow> Ret (- EINVAL, r, w)
     | Some [] \<Rightarrow> Undefined
     | Some (None # _) \<Rightarrow> Ret (- EINVAL, r, w)
     | Some (Some m # _) \<Rightarrow>
         if sz \<noteq> 1 then Ret (- ENOTSUP, r, w)
         else if rm_peer r = nullptr then Ret (0, r\<lparr>rm_modelFile := m\<rparr>, w)
         else obind (P (rm_peer r) (PeerInfer (CallLoadModel (Some m))) w) (\<lambda>(a, w'). Ret (r_ret a, r, w')))"

definition Remote_LoadModel1 ::
    "'w remote_peers \<Rightarrow> string option \<Rightarrow> remote_inference \<Rightarrow> 'w \<Rightarrow> (int \<times> remote_inference \<times> 'w) outcome" where
  "Remote_LoadModel1 P model r w =
    (if model = None then Ret (- EINVAL, r, w) else Remote_LoadModel P (Some [model]) 1 r w)"

text \<open>The loop of \<open>Prepare\<close> over the vector.\<close>

record selected =
  sel_freeStorage :: "64 word"
  sel_freeMemory :: "64 word"
  sel_peer :: ptr

fun select_peer :: "'w remote_peers \<Rightarrow> ptr list \<Rightarrow> selected \<Rightarrow> 'w \<Rightarrow> (selected \<times> 'w) outcome" where
  "select_peer P [] sel w = Ret (sel, w)"
| "select_peer P (p # ps) sel w =
    obind (P p PeerGetInfo w) (\<lambda>(a, w1).
      case (if r_ret a < 0 then None else r_peer a) of
        None \<Rightarrow> select_peer P ps sel w1
      | Some info \<Rightarrow>
          if pi_free_memory info > sel_freeMemory sel
          then select_peer P ps \<lparr>sel_freeStorage = pi_free_storage info, sel_freeMemory = pi_free_memory info, sel_peer = p\<rparr> w1
          else if pi_free_memory info = sel_freeMemory sel \<and> pi_free_storage info > sel_freeStorage sel
          then select_peer P ps \<lparr>sel_freeStorage = pi_free_storage info, sel_freeMemory = pi_free_memory info, sel_peer = p\<rparr> w1
          else select_peer P ps sel w1)"

definition Remote_Prepare ::
    "'w remote_peers \<Rightarrow> remote_inference \<Rightarrow> 'w \<Rightarrow> (int \<times> remote_inference \<times> 'w) outcome" where
  "Remote_Prepare P r w =
    (let prepare = (\<lambda>r w. obind (P (rm_peer r) (PeerInfer CallPrepare) w) (\<lambda>(a, w'). Ret (r_ret a, r, w'))) in
     if rm_peerVector r = [] then Ret (- EINVAL, r, w)
     else if rm_peer r \<noteq> nullptr then prepare r w
     else obind (select_peer P (rm_peerVector r) \<lparr>sel_freeStorage = 0, sel_freeMemory = 0, sel_peer = nullptr\<rparr> w) (\<lambda>(sel, w1).
       let p = (if sel_peer sel = nullptr then rm_peerVector r ! 0 else sel_peer sel) in
       if rm_modelFile r \<noteq> []
       then obind (P p (PeerInfer (CallLoadModel (Some (rm_modelFile r)))) w1) (\<lambda>(a, w2).
         if r_ret a < 0 then Ret (r_ret a, r, w2)
         else prepare (r\<lparr>rm_modelFile := [], rm_peer := p\<rparr>) w2)
       else prepare (r\<lparr>rm_peer := p\<rparr>) w1))"

text \<open>The methods of the inference interface.\<close>

definition Remote_call ::
    "'w remote_peers \<Rightarrow> bool \<Rightarrow> (published \<times> 'w) event_handler \<Rightarrow> inference_call \<Rightarrow> remote_inference \<Rightarrow> 'w \<Rightarrow>
     (reply \<times> remote_inference \<times> 'w) outcome" where
  "Remote_call P nd cb c r w =
    (case c of
      CallConfigure options \<Rightarrow> Ret (ret_only 0, r, w)
    | CallLoadModel model \<Rightarrow> obind (Remote_LoadModel1 P model r w) (\<lambda>(ret, r', w'). Ret (ret_only ret, r', w'))
    | CallPrepare \<Rightarrow> obind (Remote_Prepare P r w) (\<lambda>(ret, r', w'). Ret (ret_only ret, r', w'))
    | _ \<Rightarrow>
        if is_event_call c
        then obind (events_call nd cb c (rm_events r) w) (\<lambda>(a, events, w'). Ret (a, r\<lparr>rm_events := events\<rparr>, w'))
        else if rm_peer r = nullptr then Ret (refused (- EINVAL) c, r, w)
        else obind (P (rm_peer r) (PeerInfer c) w) (\<lambda>(a, w'). Ret (a, r, w')))"

definition Remote_AddRuntime :: "ptr \<Rightarrow> remote_inference \<Rightarrow> int" where
  "Remote_AddRuntime runtime r = - EINVAL"

definition Remote_RemoveRuntime :: "ptr \<Rightarrow> remote_inference \<Rightarrow> int" where
  "Remote_RemoveRuntime runtime r = - EINVAL"

text \<open>\<open>PeerEventHandler\<close>, with the event object of the inference it is registered for.\<close>

definition PeerEventHandler ::
    "bool \<Rightarrow> evtype \<Rightarrow> event_data \<Rightarrow> inference_events option \<Rightarrow> (handler_return \<times> inference_events option) outcome" where
  "PeerEventHandler nd type eventInfo events =
    (if type AND EVT_ERROR = EVT_ERROR then Ret (RETURN_RENEW, events)
     else case events of
       None \<Rightarrow> Undefined
     | Some e \<Rightarrow>
         let (allocated, q) = allocation (ie_queue e) in
         if \<not> allocated then Ret (RETURN_CANCEL, Some (e\<lparr>ie_queue := q\<rparr>))
         else let (ret, q) = PublishEventData (Some eventInfo) q in
         if ret < 0 \<and> \<not> nd then Aborted
         else Ret (RETURN_RENEW, Some (e\<lparr>ie_queue := q\<rparr>)))"

definition Remote_AddPeer ::
    "'w remote_peers \<Rightarrow> ptr \<Rightarrow> remote_inference \<Rightarrow> 'w \<Rightarrow> (int \<times> remote_inference \<times> 'w) outcome" where
  "Remote_AddPeer P peer r w =
    (if peer = nullptr then Undefined
     else obind (P peer (PeerInfer (CallAddHandler peer_event_handler forwarded_types (rm_this r))) w) (\<lambda>(a, w1).
       if r_ret a < 0 then Ret (r_ret a, r, w1)
       else obind (P peer PeerActivate w1) (\<lambda>(a, w2).
         if r_ret a < 0
         then obind (P peer (PeerInfer (CallRemoveHandler peer_event_handler forwarded_types (rm_this r))) w2) (\<lambda>(_, w3).
           Ret (r_ret a, r, w3))
         else Ret (r_ret a, r\<lparr>rm_peerVector := rm_peerVector r @ [peer]\<rparr>, w2))))"

definition Remote_RemovePeer ::
    "'w remote_peers \<Rightarrow> ptr \<Rightarrow> remote_inference \<Rightarrow> 'w \<Rightarrow> (int \<times> remote_inference \<times> 'w) outcome" where
  "Remote_RemovePeer P peer r w =
    (if peer \<notin> set (rm_peerVector r) then Ret (- ENOENT, r, w)
     else obind (P peer PeerDeactivate w) (\<lambda>(_, w1).
       obind (P peer (PeerInfer (CallRemoveHandler peer_event_handler forwarded_types (rm_this r))) w1) (\<lambda>(a, w2).
         Ret (r_ret a, r\<lparr>rm_peer := (if rm_peer r = peer then nullptr else rm_peer r),
           rm_peerVector := remove1 peer (rm_peerVector r)\<rparr>, w2))))"

primrec Remote_op ::
    "'w remote_peers \<Rightarrow> bool \<Rightarrow> (published \<times> 'w) event_handler \<Rightarrow> inference_op \<Rightarrow> remote_inference \<Rightarrow> 'w \<Rightarrow>
     (reply \<times> remote_inference \<times> 'w) outcome" where
  "Remote_op P nd cb (Method c) r w = Remote_call P nd cb c r w"
| "Remote_op P nd cb (LoadModels model sz) r w = obind (Remote_LoadModel P model sz r w) (\<lambda>(ret, r', w'). Ret (ret_only ret, r', w'))"
| "Remote_op P nd cb (AddRuntime p) r w = Ret (ret_only (Remote_AddRuntime p r), r, w)"
| "Remote_op P nd cb (RemoveRuntime p) r w = Ret (ret_only (Remote_RemoveRuntime p r), r, w)"
| "Remote_op P nd cb (AddPeer p) r w = obind (Remote_AddPeer P p r w) (\<lambda>(ret, r', w'). Ret (ret_only ret, r', w'))"
| "Remote_op P nd cb (RemovePeer p) r w = obind (Remote_RemovePeer P p r w) (\<lambda>(ret, r', w'). Ret (ret_only ret, r', w'))"

fun Remote_run ::
    "'w remote_peers \<Rightarrow> bool \<Rightarrow> (published \<times> 'w) event_handler \<Rightarrow> inference_op list \<Rightarrow> remote_inference \<Rightarrow> 'w \<Rightarrow>
     (reply list \<times> remote_inference \<times> 'w) outcome" where
  "Remote_run P nd cb [] r w = Ret ([], r, w)"
| "Remote_run P nd cb (c # cs) r w =
    obind (Remote_op P nd cb c r w) (\<lambda>(a, r1, w1).
      obind (Remote_run P nd cb cs r1 w1) (\<lambda>(as, r2, w2). Ret (a # as, r2, w2)))"

section \<open>The best peer\<close>

text \<open>What a peer has to offer, ordered by memory and then by storage.\<close>

datatype capacity = Capacity (cap_memory: "64 word") (cap_storage: "64 word")

instantiation capacity :: linorder
begin

definition less_eq_capacity :: "capacity \<Rightarrow> capacity \<Rightarrow> bool" where
  "less_eq_capacity a b \<longleftrightarrow>
    cap_memory a < cap_memory b \<or> cap_memory a = cap_memory b \<and> cap_storage a \<le> cap_storage b"

definition less_capacity :: "capacity \<Rightarrow> capacity \<Rightarrow> bool" where
  "less_capacity a b \<longleftrightarrow>
    cap_memory a < cap_memory b \<or> cap_memory a = cap_memory b \<and> cap_storage a < cap_storage b"

instance
  by standard (auto simp: less_eq_capacity_def less_capacity_def capacity.expand)

end

lemmas capacity_order = less_eq_capacity_def less_capacity_def

text \<open>Objects at their addresses, which answer every call; a call through a null pointer is undefined.\<close>

definition objects_at :: "(ptr \<Rightarrow> 'c \<Rightarrow> 'w \<Rightarrow> reply \<times> 'w) \<Rightarrow> ptr \<Rightarrow> 'c \<Rightarrow> 'w \<Rightarrow> (reply \<times> 'w) outcome" where
  "objects_at Q p c w = (if p = nullptr then Undefined else Ret (Q p c w))"

lemma objects_at_simps [simp]:
  "p \<noteq> 0 \<Longrightarrow> objects_at Q p c w = Ret (Q p c w)" "objects_at Q 0 c w = Undefined"
  by (simp_all add: objects_at_def)

text \<open>The capacities that the peers report, one after the other.\<close>

fun reports :: "(ptr \<Rightarrow> peer_call \<Rightarrow> 'w \<Rightarrow> reply \<times> 'w) \<Rightarrow> ptr list \<Rightarrow> 'w \<Rightarrow> (ptr \<times> capacity) list \<times> 'w" where
  "reports Q [] w = ([], w)"
| "reports Q (p # ps) w =
    (let (a, w1) = Q p PeerGetInfo w; (rs, w2) = reports Q ps w1 in
     ((case (if r_ret a < 0 then None else r_peer a) of
        None \<Rightarrow> []
      | Some info \<Rightarrow> [(p, Capacity (pi_free_memory info) (pi_free_storage info))]) @ rs, w2))"

text \<open>The first of the reports with the greatest capacity, which is more than \<open>b\<close>.\<close>

definition first_max :: "capacity \<Rightarrow> (ptr \<times> capacity) list \<Rightarrow> ptr \<times> capacity \<Rightarrow> bool" where
  "first_max b rs r \<longleftrightarrow> b < snd r \<and>
    (\<exists>before after. rs = before @ r # after \<and> (\<forall>x \<in> set before. snd x < snd r) \<and> (\<forall>x \<in> set after. snd x \<le> snd r))"

lemma first_max_here: "b < snd r \<Longrightarrow> \<forall>x \<in> set rs. snd x \<le> snd r \<Longrightarrow> first_max b (r # rs) r"
  unfolding first_max_def by (intro conjI exI [of _ "[]"] exI [of _ rs]) auto

lemma first_max_later:
  assumes "first_max b' rs r" and "b \<le> b'" and "snd x \<le> b'"
  shows "first_max b (x # rs) r"
proof -
  obtain before after where 1: "b' < snd r" "rs = before @ r # after"
      "\<forall>x \<in> set before. snd x < snd r" "\<forall>x \<in> set after. snd x \<le> snd r"
    using assms(1) by (auto simp: first_max_def)
  then have "x # rs = (x # before) @ r # after" "\<forall>x \<in> set (x # before). snd x < snd r" using assms(3) by auto
  with 1 assms(2) show ?thesis unfolding first_max_def by (meson le_less_trans)
qed

lemma first_max_mem: "first_max b rs r \<Longrightarrow> r \<in> set rs"
  by (auto simp: first_max_def)

definition sel_capacity :: "selected \<Rightarrow> capacity" where
  "sel_capacity sel = Capacity (sel_freeMemory sel) (sel_freeStorage sel)"

lemma select_peer_reports:
  assumes "nullptr \<notin> set ps" and "reports Q ps w = (rs, w1)"
  shows "\<exists>sel'. select_peer (objects_at Q) ps sel w = Ret (sel', w1) \<and>
    (sel' = sel \<and> (\<forall>x \<in> set rs. snd x \<le> sel_capacity sel)
     \<or> first_max (sel_capacity sel) rs (sel_peer sel', sel_capacity sel'))"
  using assms
proof (induction ps arbitrary: sel w rs)
  case (Cons p ps)
  obtain a w2 where a: "Q p PeerGetInfo w = (a, w2)" by fastforce
  obtain rs2 where rs2: "reports Q ps w2 = (rs2, w1)"
    using Cons.prems(2) a by (cases "reports Q ps w2") auto
  have ps: "nullptr \<notin> set ps" "p \<noteq> 0" using Cons.prems(1) by auto
  note IH = Cons.IH [OF ps(1) rs2]
  show ?case
  proof (cases "if r_ret a < 0 then None else r_peer a")
    case None
    then show ?thesis using IH [of sel] Cons.prems(2) a rs2 ps(2) by simp
  next
    case (Some info)
    let ?c = "Capacity (pi_free_memory info) (pi_free_storage info)"
    let ?s = "\<lparr>sel_freeStorage = pi_free_storage info, sel_freeMemory = pi_free_memory info, sel_peer = p\<rparr>"
    have rs: "rs = (p, ?c) # rs2" using Cons.prems(2) a rs2 Some by simp
    have step: "select_peer (objects_at Q) (p # ps) sel w =
        select_peer (objects_at Q) ps (if sel_capacity sel < ?c then ?s else sel) w2"
      using a Some ps(2) by (simp add: capacity_order sel_capacity_def)
    have c: "sel_capacity ?s = ?c" "sel_peer ?s = p" by (simp_all add: sel_capacity_def)
    show ?thesis
    proof (cases "sel_capacity sel < ?c")
      case True
      from IH [of ?s] obtain sel' where sel': "select_peer (objects_at Q) ps ?s w2 = Ret (sel', w1)"
        and or: "sel' = ?s \<and> (\<forall>x \<in> set rs2. snd x \<le> ?c) \<or> first_max ?c rs2 (sel_peer sel', sel_capacity sel')"
        unfolding c by blast
      from or have "first_max (sel_capacity sel) rs (sel_peer sel', sel_capacity sel')"
      proof
        assume "sel' = ?s \<and> (\<forall>x \<in> set rs2. snd x \<le> ?c)"
        then show ?thesis unfolding rs using True c first_max_here [of _ "(p, ?c)" rs2] by simp
      next
        assume "first_max ?c rs2 (sel_peer sel', sel_capacity sel')"
        then show ?thesis unfolding rs by (rule first_max_later) (use True in simp_all)
      qed
      with sel' step True show ?thesis by auto
    next
      case False
      with IH [of sel] step rs show ?thesis
        by (auto dest: first_max_later [of _ _ _ "sel_capacity sel" "(p, ?c)"] simp: not_less)
    qed
  qed
qed (simp add: sel_capacity_def)

lemma reports_peers: "x \<in> set (fst (reports Q ps w)) \<Longrightarrow> fst x \<in> set ps"
proof (induction ps arbitrary: w)
  case (Cons p ps)
  obtain a w1 where "Q p PeerGetInfo w = (a, w1)" by fastforce
  with Cons.prems Cons.IH [of w1] show ?case
    by (cases "if r_ret a < 0 then None else r_peer a") (auto simp: split_def Let_def)
qed simp

text \<open>What \<open>Prepare\<close> does with the peer it has selected.\<close>

definition prepare_with ::
    "(ptr \<Rightarrow> peer_call \<Rightarrow> 'w \<Rightarrow> reply \<times> 'w) \<Rightarrow> ptr \<Rightarrow> remote_inference \<Rightarrow> 'w \<Rightarrow> int \<times> remote_inference \<times> 'w" where
  "prepare_with Q p r w =
    (let prepare = (\<lambda>r w. let (a, w') = Q p (PeerInfer CallPrepare) w in (r_ret a, r, w')) in
     if rm_modelFile r = [] then prepare (r\<lparr>rm_peer := p\<rparr>) w
     else let (a, w') = Q p (PeerInfer (CallLoadModel (Some (rm_modelFile r)))) w in
       if r_ret a < 0 then (r_ret a, r, w') else prepare (r\<lparr>rm_modelFile := [], rm_peer := p\<rparr>) w')"

lemma Remote_Prepare_with:
  assumes "rm_peer r = nullptr" and "rm_peerVector r \<noteq> []"
    and "select_peer (objects_at Q) (rm_peerVector r) \<lparr>sel_freeStorage = 0, sel_freeMemory = 0, sel_peer = nullptr\<rparr> w
      = Ret (sel, w1)"
    and "p = (if sel_peer sel = nullptr then rm_peerVector r ! 0 else sel_peer sel)" and "p \<noteq> 0"
  shows "Remote_Prepare (objects_at Q) r w = Ret (prepare_with Q p r w1)"
  using assms
  by (cases "sel_peer sel = nullptr") (simp_all add: Remote_Prepare_def prepare_with_def Let_def split_def)

text \<open>
  C22. \<open>Prepare\<close> selects the best peer. When none is selected yet, whatever the peers report, it takes the first
  of those that report the most free memory and among these the most free storage; when no peer reports anything, the first
  that was added. The model that is waiting is loaded into this peer before it is prepared, and a failing load leaves the
  inference without a selected peer and with its model.
\<close>

theorem prepare_selects_best:
  assumes "rm_peer r = nullptr" and "rm_peerVector r \<noteq> []" and "nullptr \<notin> set (rm_peerVector r)"
    and "reports Q (rm_peerVector r) w = (rs, w1)"
  shows "\<exists>p \<in> set (rm_peerVector r).
      Remote_Prepare (objects_at Q) r w = Ret (prepare_with Q p r w1)
    \<and> ((\<exists>c. first_max (Capacity 0 0) rs (p, c))
       \<or> p = rm_peerVector r ! 0 \<and> (\<forall>x \<in> set rs. snd x = Capacity 0 0))"
proof -
  let ?sel = "\<lparr>sel_freeStorage = 0, sel_freeMemory = 0, sel_peer = nullptr\<rparr>"
  have zero: "sel_capacity ?sel = Capacity 0 0" "\<And>c. c \<le> Capacity 0 0 \<longleftrightarrow> c = Capacity 0 0"
    by (auto simp: sel_capacity_def less_eq_capacity_def capacity.expand)
  obtain sel' where sel': "select_peer (objects_at Q) (rm_peerVector r) ?sel w = Ret (sel', w1)"
    and or: "sel' = ?sel \<and> (\<forall>x \<in> set rs. snd x = Capacity 0 0)
      \<or> first_max (Capacity 0 0) rs (sel_peer sel', sel_capacity sel')"
    using select_peer_reports [OF assms(3,4), of ?sel] unfolding zero by blast
  define p where "p = (if sel_peer sel' = nullptr then rm_peerVector r ! 0 else sel_peer sel')"
  have first: "rm_peerVector r ! 0 \<in> set (rm_peerVector r)" using assms(2) by simp
  from or have p: "p \<in> set (rm_peerVector r) \<and> ((\<exists>c. first_max (Capacity 0 0) rs (p, c))
       \<or> p = rm_peerVector r ! 0 \<and> (\<forall>x \<in> set rs. snd x = Capacity 0 0))"
  proof
    assume "first_max (Capacity 0 0) rs (sel_peer sel', sel_capacity sel')"
    moreover from this have "sel_peer sel' \<in> set (rm_peerVector r)"
      using reports_peers [of _ Q "rm_peerVector r" w] assms(4) first_max_mem by fastforce
    ultimately show ?thesis using assms(3) by (auto simp: p_def)
  qed (use first in \<open>auto simp: p_def\<close>)
  then have "p \<noteq> 0" using assms(3) by metis
  from Remote_Prepare_with [OF assms(1,2) sel' p_def this] p show ?thesis by blast
qed

text \<open>Three peers that report their capacity (the third cannot) and keep a log of the calls.\<close>

definition logging_peers :: "ptr \<Rightarrow> peer_call \<Rightarrow> (ptr \<times> peer_call) list \<Rightarrow> reply \<times> (ptr \<times> peer_call) list" where
  "logging_peers p c calls =
    ((if c = PeerGetInfo
      then if p = 30 then ret_only (- EINVAL)
        else (ret_only 0)\<lparr>r_peer := Some \<lparr>pi_free_memory = 512, pi_free_storage = word_of_nat p\<rparr>\<rparr>
      else ret_only 0), calls @ [(p, c)])"

definition three_peers :: remote_inference where
  "three_peers = \<lparr>rm_this = 9, rm_autoSplit = False, rm_events = None, rm_peer = nullptr, rm_peerVector = [30, 10, 20],
    rm_modelFile = ''m''\<rparr>"

lemma prepare_selects_best_witness:
  "\<exists>c. first_max (Capacity 0 0) [(10, Capacity 512 10), (20, Capacity 512 20)] (20, c)
    \<and> Remote_Prepare (objects_at logging_peers) three_peers [] =
      Ret (0, three_peers\<lparr>rm_modelFile := [], rm_peer := 20\<rparr>,
        [(30, PeerGetInfo), (10, PeerGetInfo), (20, PeerGetInfo), (20, PeerInfer (CallLoadModel (Some ''m''))),
         (20, PeerInfer CallPrepare)])"
proof -
  let ?w = "[(30, PeerGetInfo), (10, PeerGetInfo), (20, PeerGetInfo)]"
  let ?rs = "[(10, Capacity 512 10), (20, Capacity 512 20)]"
  have "reports logging_peers (rm_peerVector three_peers) [] = (?rs, ?w)"
    by (simp add: three_peers_def logging_peers_def errno_defs)
  from prepare_selects_best [OF _ _ _ this] obtain p where p: "p \<in> {30, 10, 20}"
      "Remote_Prepare (objects_at logging_peers) three_peers [] = Ret (prepare_with logging_peers p three_peers ?w)"
      "(\<exists>c. first_max (Capacity 0 0) ?rs (p, c)) \<or> Capacity 512 10 = Capacity 0 0"
    by (auto simp: three_peers_def)
  have "\<not> first_max (Capacity 0 0) ?rs (10, c)" "\<not> first_max (Capacity 0 0) ?rs (30, c)" for c
    by (auto simp: first_max_def append_eq_Cons_conv Cons_eq_append_conv capacity_order)
  with p have "p = 20" "\<exists>c. first_max (Capacity 0 0) ?rs (20, c)" by auto
  with p(2) show ?thesis
    by (simp add: prepare_with_def logging_peers_def three_peers_def)
qed

section \<open>The peers of an inference\<close>

text \<open>The selected peer is one of those that were added, and none of these is null.\<close>

definition remote_ok :: "remote_inference \<Rightarrow> bool" where
  "remote_ok r \<longleftrightarrow> nullptr \<notin> set (rm_peerVector r) \<and> (rm_peer r = nullptr \<or> rm_peer r \<in> set (rm_peerVector r))
    \<and> rm_events r \<noteq> None"

text \<open>Calls with proper arguments. Fetching is left out: it runs the client's handlers.\<close>

fun proper_op :: "inference_op \<Rightarrow> bool" where
  "proper_op (Method (CallFetchEventData data)) = False"
| "proper_op (LoadModels model sz) = (model \<noteq> Some [])"
| "proper_op (AddPeer p) = (p \<noteq> nullptr)"
| "proper_op c = True"

lemma objects_at_Ret: "objects_at Q p c w = Ret x \<longleftrightarrow> p \<noteq> nullptr \<and> x = Q p c w"
  by (auto simp: objects_at_def)

text \<open>A call that returns, with its result as it must be.\<close>

definition returns :: "'a outcome \<Rightarrow> ('a \<Rightarrow> bool) \<Rightarrow> bool" where
  "returns m P \<longleftrightarrow> (\<exists>v. m = Ret v \<and> P v)"

lemma returns_Ret [simp]: "returns (Ret v) P \<longleftrightarrow> P v"
  by (simp add: returns_def)

lemma returns_obind [simp]: "returns (obind m f) P \<longleftrightarrow> returns m (\<lambda>v. returns (f v) P)"
  by (cases m) (simp_all add: returns_def)

lemma returns_at [simp]: "returns (objects_at Q p c w) P \<longleftrightarrow> p \<noteq> nullptr \<and> P (Q p c w)"
  by (auto simp: returns_def objects_at_Ret)

lemma returns_mono: "returns m P \<Longrightarrow> (\<And>v. P v \<Longrightarrow> P' v) \<Longrightarrow> returns m P'"
  by (auto simp: returns_def)

text \<open>What no method but \<open>AddPeer\<close> and \<open>RemovePeer\<close> changes.\<close>

definition keeps_peers :: "remote_inference \<Rightarrow> remote_inference \<Rightarrow> bool" where
  "keeps_peers r r' \<longleftrightarrow> remote_ok r' \<and> rm_peerVector r' = rm_peerVector r \<and> rm_this r' = rm_this r"

text \<open>
  What these methods rely on: in a \<open>good\<close> state every peer answers the calls with \<open>proper\<close> arguments, and the state stays
  good.
\<close>

locale peers_answer =
  fixes P :: "'w remote_peers" and good :: "'w \<Rightarrow> bool" and proper :: "inference_call \<Rightarrow> bool"
  assumes infer: "good w \<Longrightarrow> p \<noteq> nullptr \<Longrightarrow> proper c \<Longrightarrow> \<not> is_event_call c \<Longrightarrow>
      returns (P p (PeerInfer c) w) (\<lambda>(a, w'). good w')"
    and get_info: "good w \<Longrightarrow> p \<noteq> nullptr \<Longrightarrow> returns (P p PeerGetInfo w) (\<lambda>(a, w'). good w')"
    and own_calls: "proper (CallLoadModel model)" "proper CallPrepare"
begin

lemma LoadModel_ok:
  assumes "remote_ok r" and "good w" and "model \<noteq> Some []"
  shows "returns (Remote_LoadModel P model sz r w) (\<lambda>(ret, r', w'). keeps_peers r r' \<and> good w')"
proof -
  have "returns (P (rm_peer r) (PeerInfer (CallLoadModel m)) w) (\<lambda>(a, w'). good w')" if "rm_peer r \<noteq> nullptr" for m
    using infer [OF assms(2) that own_calls(1)] by simp
  then show ?thesis
    using assms by (auto simp: Remote_LoadModel_def remote_ok_def keeps_peers_def split_def elim: returns_mono split: option.split list.split)
qed

lemma select_peer_ok:
  assumes "nullptr \<notin> set ps" and "good w"
  shows "returns (select_peer P ps sel w) (\<lambda>(sel', w'). good w' \<and> (sel_peer sel' = sel_peer sel \<or> sel_peer sel' \<in> set ps))"
  using assms
proof (induction ps arbitrary: sel w)
  case (Cons p ps)
  obtain a w1 where 1: "P p PeerGetInfo w = Ret (a, w1)" "good w1"
    using get_info [of w p] Cons.prems by (auto simp: returns_def)
  have "\<exists>sel1. select_peer P (p # ps) sel w = select_peer P ps sel1 w1 \<and> (sel1 = sel \<or> sel_peer sel1 = p)"
    using 1 by (auto split: option.split)
  then obtain sel1 where sel1: "select_peer P (p # ps) sel w = select_peer P ps sel1 w1" "sel1 = sel \<or> sel_peer sel1 = p" by blast
  have "nullptr \<notin> set ps" using Cons.prems(1) by simp
  from Cons.IH [OF this 1(2), of sel1] show ?case
    unfolding sel1(1) by (rule returns_mono) (use sel1(2) in auto)
qed simp

lemma Prepare_ok:
  assumes "remote_ok r" and "good w"
  shows "returns (Remote_Prepare P r w) (\<lambda>(ret, r', w'). keeps_peers r r' \<and> good w')"
proof -
  have prepare: "returns (P p (PeerInfer CallPrepare) x) (\<lambda>(a, w'). keeps_peers r r' \<and> good w')"
    if "p \<noteq> nullptr" "good x" "keeps_peers r r'" for p x r'
    using infer [OF that(2,1) own_calls(2)] that(3) by simp
  show ?thesis
  proof (cases "rm_peerVector r = [] \<or> rm_peer r \<noteq> nullptr")
    case True
    then show ?thesis
      using prepare [of "rm_peer r" w r] assms by (auto simp: Remote_Prepare_def Let_def split_def keeps_peers_def)
  next
    case False
    let ?sel = "\<lparr>sel_freeStorage = 0, sel_freeMemory = 0, sel_peer = nullptr\<rparr>"
    have null: "nullptr \<notin> set (rm_peerVector r)" using assms(1) by (simp add: remote_ok_def)
    obtain sel w1 where sel: "select_peer P (rm_peerVector r) ?sel w = Ret (sel, w1)" "good w1"
        "sel_peer sel = nullptr \<or> sel_peer sel \<in> set (rm_peerVector r)"
      using select_peer_ok [OF null assms(2), of ?sel] by (auto simp: returns_def)
    define p where "p = (if sel_peer sel = nullptr then rm_peerVector r ! 0 else sel_peer sel)"
    have mem: "p \<in> set (rm_peerVector r)" using sel(3) False by (auto simp: p_def)
    then have p0: "p \<noteq> nullptr" using null by metis
    have keeps: "keeps_peers r (r\<lparr>rm_peer := p\<rparr>)" "keeps_peers r (r\<lparr>rm_modelFile := [], rm_peer := p\<rparr>)" "keeps_peers r r"
      using assms(1) mem by (auto simp: keeps_peers_def remote_ok_def)
    obtain a w2 where 2: "P p (PeerInfer (CallLoadModel (Some (rm_modelFile r)))) w1 = Ret (a, w2)" "good w2"
      using infer [OF sel(2) p0 own_calls(1) [of "Some (rm_modelFile r)"]] by (auto simp: returns_def)
    have "Remote_Prepare P r w =
        (let prepare = (\<lambda>r w. obind (P p (PeerInfer CallPrepare) w) (\<lambda>(a, w'). Ret (r_ret a, r, w'))) in
         if rm_modelFile r = [] then prepare (r\<lparr>rm_peer := p\<rparr>) w1
         else if r_ret a < 0 then Ret (r_ret a, r, w2) else prepare (r\<lparr>rm_modelFile := [], rm_peer := p\<rparr>) w2)"
      using False sel(1) 2(1) by (simp add: Remote_Prepare_def p_def Let_def)
    then show ?thesis
      using 2(2) keeps prepare [OF p0 sel(2) keeps(1)] prepare [OF p0 2(2) keeps(2)]
      by (simp add: Let_def split_def)
  qed
qed

lemma call_ok:
  assumes "remote_ok r" and "good w" and "proper_op (Method c)" and "is_event_call c \<or> proper c"
  shows "returns (Remote_call P nd cb c r w) (\<lambda>(a, r', w'). keeps_peers r r' \<and> good w')"
proof (cases "is_event_call c")
  case True
  have "returns (events_call nd cb c (rm_events r) w) (\<lambda>(a, events', w'). events' \<noteq> None \<and> w' = w)"
    using True assms by (cases c) (auto simp: events_call_def remote_ok_def split_def Let_def)
  then show ?thesis
    using True assms by (cases c) (auto simp: Remote_call_def remote_ok_def keeps_peers_def split_def elim: returns_mono)
next
  case False
  have r: "keeps_peers r r" using assms(1) by (simp add: keeps_peers_def)
  have "returns (P (rm_peer r) (PeerInfer c) w) (\<lambda>(a, w'). good w')" if "rm_peer r \<noteq> nullptr"
    using infer [OF assms(2) that] assms(4) False by simp
  then show ?thesis
    using False r assms LoadModel_ok [OF assms(1,2), of "Some [Some m]" 1 for m] Prepare_ok [OF assms(1,2)]
    by (cases c) (auto simp: Remote_call_def Remote_LoadModel1_def split_def)
qed

lemma op_ok:
  assumes "remote_ok r" and "good w" and "proper_op c"
    and "case c of Method m \<Rightarrow> is_event_call m \<or> proper m | AddPeer p \<Rightarrow> False | RemovePeer p \<Rightarrow> False | _ \<Rightarrow> True"
  shows "returns (Remote_op P nd cb c r w) (\<lambda>(a, r', w'). keeps_peers r r' \<and> good w')"
  using assms call_ok [OF assms(1,2)] LoadModel_ok [OF assms(1,2)]
  by (cases c) (auto simp: split_def keeps_peers_def)

end

interpretation any_peers: peers_answer "objects_at Q" "\<lambda>_. True" "\<lambda>_. True" for Q
  by unfold_locales (simp_all add: split_def)

lemma Remote_AddPeer_ok:
  "remote_ok r \<Longrightarrow> p \<noteq> nullptr \<Longrightarrow> returns (Remote_AddPeer (objects_at Q) p r w) (\<lambda>(ret, r', w'). remote_ok r')"
  by (auto simp: Remote_AddPeer_def remote_ok_def split_def)

lemma Remote_RemovePeer_ok:
  "remote_ok r \<Longrightarrow> returns (Remote_RemovePeer (objects_at Q) p r w) (\<lambda>(ret, r', w'). remote_ok r')"
  by (cases "p = nullptr") (auto simp: Remote_RemovePeer_def remote_ok_def split_def dest: set_remove1_subset [THEN subsetD])

lemma Remote_op_ok:
  assumes "remote_ok r" and "proper_op c"
  shows "returns (Remote_op (objects_at Q) nd cb c r w) (\<lambda>(a, r', w'). remote_ok r')"
proof (cases "\<exists>p. c = AddPeer p \<or> c = RemovePeer p")
  case True
  then show ?thesis
    using Remote_AddPeer_ok [OF assms(1), of _ Q w] Remote_RemovePeer_ok [OF assms(1), of Q _ w] assms(2)
    by (auto simp: split_def)
next
  case False
  then have "returns (Remote_op (objects_at Q) nd cb c r w) (\<lambda>(a, r', w'). keeps_peers r r' \<and> True)"
    using assms by (intro any_peers.op_ok) (auto split: inference_op.split)
  then show ?thesis by (rule returns_mono) (auto simp: keeps_peers_def)
qed

text \<open>
  C21. The remote inference is safe. Whatever its peers answer, and whatever a client does with proper arguments and in
  which order (adding and removing peers, also the selected one, loading, preparing, invoking, in any state), every call
  returns: no null pointer is dereferenced and no assertion fails; the selected peer is always one of those that
  were added and not removed.
\<close>

theorem remote_never_crashes:
  assumes "remote_ok r" and "list_all proper_op ops"
  shows "\<exists>replies r' w'. Remote_run (objects_at Q) nd cb ops r w = Ret (replies, r', w')
    \<and> length replies = length ops \<and> remote_ok r'"
  using assms
proof (induction ops arbitrary: r w)
  case (Cons c ops)
  obtain a r1 w1 where 1: "Remote_op (objects_at Q) nd cb c r w = Ret (a, r1, w1)" "remote_ok r1"
    using Remote_op_ok [of r c Q nd cb w] Cons.prems by (auto simp: returns_def)
  with Cons.IH [of r1 w1] Cons.prems(2) show ?case by auto
qed simp

definition fresh_remote :: remote_inference where
  "fresh_remote = \<lparr>rm_this = 9, rm_autoSplit = False, rm_events = Some (events_of \<lparr>ep_handle = 3, ep_publish = 4\<rparr>),
    rm_peer = nullptr, rm_peerVector = [], rm_modelFile = []\<rparr>"

definition ex_ops :: "inference_op list" where
  "ex_ops = [LoadModels (Some [Some ''m'']) 1, Method CallPrepare, AddPeer 10, Method (CallInvoke 7 1 0), Method CallPrepare,
    RemovePeer 10, Method CallStop, AddRuntime 5]"

lemma remote_never_crashes_witness:
  "\<exists>replies r' w'. Remote_run (objects_at logging_peers) False (\<lambda>h t ed d s. (RETURN_RENEW, [], s)) ex_ops fresh_remote []
      = Ret (replies, r', w') \<and> length replies = 8 \<and> remote_ok r'"
proof -
  have ops: "list_all proper_op ex_ops" "length ex_ops = 8" by (simp_all add: ex_ops_def)
  have "remote_ok fresh_remote" by (simp add: fresh_remote_def remote_ok_def)
  from remote_never_crashes [OF this ops(1), of logging_peers False "\<lambda>h t ed d s. (RETURN_RENEW, [], s)" "[]"] ops(2)
  show ?thesis by simp
qed

text \<open>
  The model is loaded once. The file name that waits for \<open>Prepare\<close> is dropped as soon as one peer has loaded it,
  so when the selected peer is removed and another one takes its place, the new peer is prepared and used without a
  model, and no call reports it.
\<close>

theorem model_lost_with_peer:
  assumes "remote_ok r" and "rm_peerVector r = []" and "m \<noteq> []" and "p \<noteq> nullptr" and "q \<noteq> nullptr"
    and "\<And>p c. r_ret (ans p c) = 0"
  shows "\<exists>replies r' calls. Remote_run (objects_at (\<lambda>p c calls. (ans p c, calls @ [(p, c)]))) nd cb
      [LoadModels (Some [Some m]) 1, AddPeer p, Method CallPrepare, RemovePeer p, AddPeer q, Method CallPrepare,
       Method (CallInvoke input sz ctx)] r [] = Ret (replies, r', calls)
    \<and> map r_ret replies = [0, 0, 0, 0, 0, 0, 0]
    \<and> filter (\<lambda>(x, c). \<exists>f. c = PeerInfer (CallLoadModel f)) calls = [(p, PeerInfer (CallLoadModel (Some m)))]
    \<and> last calls = (q, PeerInfer (CallInvoke input sz ctx))"
proof -
  have "rm_peer r = 0" using assms(1,2) by (simp add: remote_ok_def)
  with assms(2-) show ?thesis
    by (cases "r_peer (ans p PeerGetInfo)"; cases "r_peer (ans q PeerGetInfo)")
      (simp_all add: Remote_LoadModel_def Remote_AddPeer_def Remote_RemovePeer_def Remote_call_def Remote_Prepare_def Let_def)
qed

lemma model_lost_with_peer_witness:
  "\<exists>replies r' w. Remote_run (objects_at (\<lambda>p c calls. (ret_only 0, calls @ [(p, c)]))) True (\<lambda>h t ed d s. (RETURN_RENEW, [], s))
      [LoadModels (Some [Some ''m'']) 1, AddPeer 10, Method CallPrepare, RemovePeer 10, AddPeer 20, Method CallPrepare,
       Method (CallInvoke 7 1 0)] fresh_remote [] = Ret (replies, r', w)
    \<and> filter (\<lambda>(x, c). \<exists>f. c = PeerInfer (CallLoadModel f)) w = [(10, PeerInfer (CallLoadModel (Some ''m'')))]
    \<and> last w = (20, PeerInfer (CallInvoke 7 1 0))"
  using model_lost_with_peer [of fresh_remote "''m''" 10 20 "\<lambda>p c. ret_only 0" True "\<lambda>h t ed d s. (RETURN_RENEW, [], s)" 7 1 0]
  by (auto simp: fresh_remote_def remote_ok_def)

end
