(* ===== verification/Inference_Impl.thy ===== *)
theory Inference_Impl
  imports Inference_Remote Inference_Runtime
begin

text \<open>
  \<^verbatim>\<open>libbeyond/src/inference_impl.cc\<close>: the inference object a client creates. It parses its arguments with
  \<^verbatim>\<open>getopt_long\<close>, creates the local or the remote inference and hands every call to it. \<^verbatim>\<open>inference.cc\<close>: the names and
  sizes of the tensor types. \<^verbatim>\<open>inference_impl_edge.cc\<close> and \<^verbatim>\<open>inference_impl_distribute.cc\<close>: two modes that refuse every
  call and cannot be created.
\<close>

section \<open>Arguments\<close>

text \<open>
  The loop over \<^verbatim>\<open>getopt_long\<close> with the option string \<^verbatim>\<open>-:s\<close>, which returns the arguments in their order. The array of long
  options has the one entry \<^verbatim>\<open>split\<close> and no terminator: a long option of another name is compared with what lies behind
  the array. A long option that gives a value to \<^verbatim>\<open>split\<close> is an error that the loop ignores. A null pointer is None.
\<close>

fun parse_options :: "string option list \<Rightarrow> bool \<Rightarrow> bool outcome" where
  "parse_options [] autoSplit = Ret autoSplit"
| "parse_options (None # as) autoSplit = Undefined"
| "parse_options (Some a # as) autoSplit =
    (if a = ''--'' then Ret autoSplit
     else if take 2 a = ''--''
     then if takeWhile (\<lambda>c. c \<noteq> CHR ''='') (drop 2 a) \<noteq> ''split'' then Undefined
          else parse_options as (autoSplit \<or> CHR ''='' \<notin> set a)
     else if take 1 a = ''-'' then parse_options as (autoSplit \<or> CHR ''s'' \<in> set a)
     else parse_options as autoSplit)"

section \<open>The modes\<close>

datatype instance_mode = NoInstance | LocalMode local_inference | RemoteMode remote_inference

text \<open>
  \<open>ParseArguments\<close> after the options: the first argument names the mode. It returns 0 also when the instance could not be
  created; an error is the first component.
\<close>

definition ParseArguments :: "ptr \<Rightarrow> int \<Rightarrow> string option list option \<Rightarrow> os \<Rightarrow> (int \<times> instance_mode \<times> os) outcome" where
  "ParseArguments this argc argv s =
    (case argv of
      None \<Rightarrow> Undefined
    | Some [] \<Rightarrow> Undefined
    | Some (a # as) \<Rightarrow>
        if int (length as) + 1 < argc then Undefined
        else obind (parse_options (take (nat (argc - 1)) as) False) (\<lambda>autoSplit.
          case a of
            None \<Rightarrow> Undefined
          | Some mode \<Rightarrow>
              if mode = ''local''
              then (case Local_Create this autoSplit s of
                  (None, s1) \<Rightarrow> Ret (0, NoInstance, s1)
                | (Some L, s1) \<Rightarrow> Ret (0, LocalMode L, s1))
              else if mode = ''remote''
              then (case Remote_Create this autoSplit s of
                  (None, s1) \<Rightarrow> Ret (0, NoInstance, s1)
                | (Some r, s1) \<Rightarrow> Ret (0, RemoteMode r, s1))
              else Ret (- EINVAL, NoInstance, s)))"

text \<open>Without arguments the mode is local.\<close>

definition Inference_Create :: "beyond_argument option \<Rightarrow> ptr \<Rightarrow> os \<Rightarrow> (instance_mode option \<times> os) outcome" where
  "Inference_Create arg this s =
    (let arg = (case arg of
          None \<Rightarrow> \<lparr>arg_argc = 1, arg_argv = Some [Some ''local'']\<rparr>
        | Some a \<Rightarrow> if arg_argc a = 0 then \<lparr>arg_argc = 1, arg_argv = Some [Some ''local'']\<rparr> else a);
         (allocated, s1) = os_new s in
     if \<not> allocated then Ret (None, s1)
     else obind (ParseArguments this (arg_argc arg) (arg_argv arg) s1) (\<lambda>(ret, inst, s2).
       if ret < 0 then Ret (None, os_delete s2) else Ret (Some inst, s2)))"

definition Inference_Destroy :: "instance_mode \<Rightarrow> os \<Rightarrow> os outcome" where
  "Inference_Destroy i s =
    (case i of
      NoInstance \<Rightarrow> Undefined
    | LocalMode L \<Rightarrow> Ret (os_delete (Local_Destroy L s))
    | RemoteMode r \<Rightarrow> Ret (os_delete (Remote_Destroy r s)))"

text \<open>
  Every other method calls the method of the same name of the instance; \<open>LoadModel\<close> with an array checks its argument first.
  \<open>R\<close> and \<open>P\<close> are the runtimes and the peers.
\<close>

definition Inference_op ::
    "'w runtimes \<Rightarrow> 'w remote_peers \<Rightarrow> bool \<Rightarrow> (published \<times> 'w) event_handler \<Rightarrow> inference_op \<Rightarrow> instance_mode \<Rightarrow> 'w \<Rightarrow>
     (reply \<times> instance_mode \<times> 'w) outcome" where
  "Inference_op R P nd cb c i w =
    (if (case c of LoadModels None sz \<Rightarrow> True | _ \<Rightarrow> False) then Ret (ret_only (- EINVAL), i, w)
     else case i of
       NoInstance \<Rightarrow> Undefined
     | LocalMode L \<Rightarrow> obind (Local_op R nd cb c L w) (\<lambda>(a, L', w'). Ret (a, LocalMode L', w'))
     | RemoteMode r \<Rightarrow> obind (Remote_op P nd cb c r w) (\<lambda>(a, r', w'). Ret (a, RemoteMode r', w')))"

fun Inference_run ::
    "'w runtimes \<Rightarrow> 'w remote_peers \<Rightarrow> bool \<Rightarrow> (published \<times> 'w) event_handler \<Rightarrow> inference_op list \<Rightarrow> instance_mode \<Rightarrow> 'w \<Rightarrow>
     (reply list \<times> instance_mode \<times> 'w) outcome" where
  "Inference_run R P nd cb [] i w = Ret ([], i, w)"
| "Inference_run R P nd cb (c # cs) i w =
    obind (Inference_op R P nd cb c i w) (\<lambda>(a, i1, w1).
      obind (Inference_run R P nd cb cs i1 w1) (\<lambda>(as, i2, w2). Ret (a # as, i2, w2)))"

section \<open>The modes that are not implemented\<close>

definition Edge_Create :: "bool \<Rightarrow> os \<Rightarrow> ptr \<times> os" where
  "Edge_Create autoSplit s = (nullptr, s)"

definition Edge_op :: "inference_op \<Rightarrow> reply" where
  "Edge_op c =
    (case c of
      Method CallGetHandle \<Rightarrow> ret_only (- 1)
    | Method (CallFetchEventData data) \<Rightarrow> (ret_only (- ENOSYS))\<lparr>r_event := data\<rparr>
    | Method (CallDestroyEventData data) \<Rightarrow> (ret_only (- ENOSYS))\<lparr>r_event := data\<rparr>
    | Method c \<Rightarrow> refused (- ENOSYS) c
    | _ \<Rightarrow> ret_only (- ENOSYS))"

definition Distribute_Create :: "bool \<Rightarrow> os \<Rightarrow> ptr \<times> os" where
  "Distribute_Create autoSplit s = (nullptr, s)"

definition Distribute_op :: "inference_op \<Rightarrow> reply" where
  "Distribute_op c =
    (case c of
      Method CallGetHandle \<Rightarrow> ret_only (- 1)
    | Method (CallFetchEventData data) \<Rightarrow> (ret_only (- ENOSYS))\<lparr>r_event := data\<rparr>
    | Method (CallDestroyEventData data) \<Rightarrow> (ret_only (- ENOSYS))\<lparr>r_event := data\<rparr>
    | Method c \<Rightarrow> refused (- ENOSYS) c
    | _ \<Rightarrow> ret_only (- ENOSYS))"

section \<open>Tensor types\<close>

datatype beyond_tensor_type =
    TENSOR_INT8 | TENSOR_INT16 | TENSOR_INT32 | TENSOR_INT64
  | TENSOR_UINT8 | TENSOR_UINT16 | TENSOR_UINT32 | TENSOR_UINT64
  | TENSOR_FLOAT16 | TENSOR_FLOAT32 | TENSOR_UNSUPPORTED

primrec TensorTypeToString :: "beyond_tensor_type \<Rightarrow> string" where
  "TensorTypeToString TENSOR_INT8 = ''int8''"
| "TensorTypeToString TENSOR_INT16 = ''int16''"
| "TensorTypeToString TENSOR_INT32 = ''int32''"
| "TensorTypeToString TENSOR_INT64 = ''int64''"
| "TensorTypeToString TENSOR_UINT8 = ''uint8''"
| "TensorTypeToString TENSOR_UINT16 = ''uint16''"
| "TensorTypeToString TENSOR_UINT32 = ''uint32''"
| "TensorTypeToString TENSOR_UINT64 = ''uint64''"
| "TensorTypeToString TENSOR_FLOAT16 = ''float16''"
| "TensorTypeToString TENSOR_FLOAT32 = ''float32''"
| "TensorTypeToString TENSOR_UNSUPPORTED = ''error''"

primrec TensorTypeToSize :: "beyond_tensor_type \<Rightarrow> int" where
  "TensorTypeToSize TENSOR_INT8 = 1"
| "TensorTypeToSize TENSOR_UINT8 = 1"
| "TensorTypeToSize TENSOR_INT16 = 2"
| "TensorTypeToSize TENSOR_UINT16 = 2"
| "TensorTypeToSize TENSOR_FLOAT16 = 2"
| "TensorTypeToSize TENSOR_INT32 = 4"
| "TensorTypeToSize TENSOR_UINT32 = 4"
| "TensorTypeToSize TENSOR_FLOAT32 = 4"
| "TensorTypeToSize TENSOR_INT64 = 8"
| "TensorTypeToSize TENSOR_UINT64 = 8"
| "TensorTypeToSize TENSOR_UNSUPPORTED = 0"

definition TensorTypeStringToType :: "string \<Rightarrow> beyond_tensor_type" where
  "TensorTypeStringToType str =
    (if str = ''int8'' then TENSOR_INT8
     else if str = ''int16'' then TENSOR_INT16
     else if str = ''int32'' then TENSOR_INT32
     else if str = ''int64'' then TENSOR_INT64
     else if str = ''uint8'' then TENSOR_UINT8
     else if str = ''uint16'' then TENSOR_UINT16
     else if str = ''uint32'' then TENSOR_UINT32
     else if str = ''float16'' then TENSOR_FLOAT16
     else if str = ''float32'' then TENSOR_FLOAT32
     else TENSOR_UNSUPPORTED)"

section \<open>Properties\<close>

text \<open>
  Options that \<^verbatim>\<open>getopt_long\<close> can look up, and those that ask for a split.
\<close>

definition foreign_option :: "string \<Rightarrow> bool" where
  "foreign_option a \<longleftrightarrow> take 2 a = ''--'' \<and> takeWhile (\<lambda>c. c \<noteq> CHR ''='') (drop 2 a) \<noteq> ''split''"

definition split_option :: "string \<Rightarrow> bool" where
  "split_option a \<longleftrightarrow> a = ''--split'' \<or> take 1 a = ''-'' \<and> take 2 a \<noteq> ''--'' \<and> CHR ''s'' \<in> set a"

lemma takeWhile_no: "x \<notin> set xs \<Longrightarrow> takeWhile (\<lambda>c. c \<noteq> x) xs = xs"
  by (induction xs) auto

lemma split_option_long:
  assumes "take 2 a = ''--''" and "takeWhile (\<lambda>c. c \<noteq> CHR ''='') (drop 2 a) = ''split''"
  shows "split_option a \<longleftrightarrow> CHR ''='' \<notin> set a"
proof
  assume "CHR ''='' \<notin> set a"
  then have "CHR ''='' \<notin> set (drop 2 a)" by (auto dest: in_set_dropD)
  then have "drop 2 a = ''split''" using assms(2) takeWhile_no by metis
  then have "a = ''--split''" using assms(1) append_take_drop_id [of 2 a] by simp
  then show "split_option a" by (simp add: split_option_def)
qed (use assms(1) in \<open>auto simp: split_option_def\<close>)

lemma parse_options_spec:
  assumes "''--'' \<notin> set opts"
  shows "parse_options (map Some opts) b =
    (if \<exists>a \<in> set opts. foreign_option a then Undefined else Ret (b \<or> (\<exists>a \<in> set opts. split_option a)))"
  using assms
proof (induction opts arbitrary: b)
  case (Cons a opts)
  consider (foreign) "foreign_option a"
    | (long) "take 2 a = ''--''" "takeWhile (\<lambda>c. c \<noteq> CHR ''='') (drop 2 a) = ''split''"
    | (other) "take 2 a \<noteq> ''--''"
    by (auto simp: foreign_option_def)
  then show ?case
  proof cases
    case foreign
    moreover have "a \<noteq> ''--''" using Cons.prems by auto
    ultimately show ?thesis by (simp add: foreign_option_def)
  next
    case long
    then show ?thesis
      using Cons split_option_long [OF long] by (auto simp: foreign_option_def)
  next
    case other
    then have "\<not> foreign_option a" "a \<noteq> ''--split''" "a \<noteq> ''--''" by (auto simp: foreign_option_def)
    with other Cons show ?thesis by (auto simp: split_option_def)
  qed
qed simp

lemma Local_Create_cases:
  assumes "os_wf s"
  obtains (created) L s' where "Local_Create this sp s = (Some L, s')" "lc_autoSplit L = sp" "lc_runtime L = nullptr"
      "resources (Local_Destroy L s') = resources s"
    | (failed) s' where "Local_Create this sp s = (None, s')" "resources s' = resources s"
proof (cases rule: os_new_cases [OF assms])
  case (1 s1)
  show ?thesis
  proof (cases rule: EventPipe_Create_cases [OF 1(2)])
    case (1 s2 p)
    then show ?thesis
      using \<open>os_new s = _\<close> \<open>live s1 = _\<close> \<open>open_fds s1 = _\<close> os_wf_fresh [OF \<open>os_wf s1\<close>]
      by (intro created) (auto simp: Local_Create_def Local_Destroy_def events_of_def resources_def)
  next
    case (2 s2)
    then show ?thesis
      using \<open>os_new s = _\<close> \<open>live s1 = _\<close> \<open>open_fds s1 = _\<close>
      by (intro failed [of "os_delete s2"]) (auto simp: Local_Create_def resources_def)
  qed
next
  case (2 s1)
  then show ?thesis by (intro failed [of s1]) (auto simp: Local_Create_def resources_def)
qed

lemma Remote_Create_cases:
  assumes "os_wf s"
  obtains (created) r s' where "Remote_Create this sp s = (Some r, s')" "rm_autoSplit r = sp" "remote_ok r"
      "resources (Remote_Destroy r s') = resources s"
    | (failed) s' where "Remote_Create this sp s = (None, s')" "resources s' = resources s"
proof (cases rule: os_new_cases [OF assms])
  case (1 s1)
  show ?thesis
  proof (cases rule: EventPipe_Create_cases [OF 1(2)])
    case (1 s2 p)
    then show ?thesis
      using \<open>os_new s = _\<close> \<open>live s1 = _\<close> \<open>open_fds s1 = _\<close> os_wf_fresh [OF \<open>os_wf s1\<close>]
      by (intro created) (auto simp: Remote_Create_def Remote_Destroy_def events_of_def resources_def remote_ok_def)
  next
    case (2 s2)
    then show ?thesis
      using \<open>os_new s = _\<close> \<open>live s1 = _\<close> \<open>open_fds s1 = _\<close>
      by (intro failed [of "os_delete s2"]) (auto simp: Remote_Create_def resources_def)
  qed
next
  case (2 s1)
  then show ?thesis by (intro failed [of s1]) (auto simp: Remote_Create_def resources_def)
qed

text \<open>
  A mode and its options as they are passed: the array has no null pointer and no \<^verbatim>\<open>--\<close>.
\<close>

definition mode_argument :: "string \<Rightarrow> string list \<Rightarrow> beyond_argument option" where
  "mode_argument mode opts =
    Some \<lparr>arg_argc = 1 + int (length opts), arg_argv = Some (map Some (mode # opts))\<rparr>"

lemma ParseArguments_spec:
  assumes "''--'' \<notin> set opts"
  shows "ParseArguments this (1 + int (length opts)) (Some (map Some (mode # opts))) s =
    (if \<exists>a \<in> set opts. foreign_option a then Undefined
     else let split = (\<exists>a \<in> set opts. split_option a) in
       if mode = ''local''
       then (case Local_Create this split s of
           (None, s1) \<Rightarrow> Ret (0, NoInstance, s1) | (Some L, s1) \<Rightarrow> Ret (0, LocalMode L, s1))
       else if mode = ''remote''
       then (case Remote_Create this split s of
           (None, s1) \<Rightarrow> Ret (0, NoInstance, s1) | (Some r, s1) \<Rightarrow> Ret (0, RemoteMode r, s1))
       else Ret (- EINVAL, NoInstance, s))"
  by (simp add: ParseArguments_def parse_options_spec [OF assms] Let_def)



text \<open>
  The names of the tensor types. No two types share a name; every supported type but the unsigned one of 64 bits is
  found again under its name, and a name that is found is the name of the type it gives; only the unsupported type has no
  size. \<open>TensorTypeStringToType\<close> does not know the name uint64.
\<close>

theorem tensor_type_names:
  "inj TensorTypeToString
   \<and> TensorTypeStringToType (TensorTypeToString t) = (if t = TENSOR_UINT64 then TENSOR_UNSUPPORTED else t)
   \<and> (TensorTypeStringToType str = TENSOR_UNSUPPORTED \<or> TensorTypeToString (TensorTypeStringToType str) = str)
   \<and> (TensorTypeToSize t = 0 \<longleftrightarrow> t = TENSOR_UNSUPPORTED)"
proof (intro conjI)
  show "inj TensorTypeToString"
  proof (rule injI)
    fix t t' show "TensorTypeToString t = TensorTypeToString t' \<Longrightarrow> t = t'" by (cases t; cases t') simp_all
  qed
  show "TensorTypeStringToType str = TENSOR_UNSUPPORTED \<or> TensorTypeToString (TensorTypeStringToType str) = str"
    by (simp add: TensorTypeStringToType_def)
  show "TensorTypeStringToType (TensorTypeToString t) = (if t = TENSOR_UINT64 then TENSOR_UNSUPPORTED else t)"
    by (cases t) (simp_all add: TensorTypeStringToType_def)
  show "TensorTypeToSize t = 0 \<longleftrightarrow> t = TENSOR_UNSUPPORTED" by (cases t) simp_all
qed

text \<open>
  \<open>LoadModel(const char *)\<close> of a local inference never returns for a model that is not null, whatever its runtime
  does, while the overload with an array of one name loads it.
\<close>

theorem local_load_model_diverges:
  "Local_LoadModel1 (Some m) L = None \<and>
   Inference_op R P nd cb (Method (CallLoadModel (Some m))) (LocalMode L) w = Undefined \<and>
   (lc_runtime L = nullptr \<or>
    Inference_op R P nd cb (LoadModels (Some [Some m]) 1) (LocalMode L) w =
      obind (R (lc_runtime L) (CallLoadModel (Some m)) w) (\<lambda>(a, w'). Ret (ret_only (r_ret a), LocalMode L, w')))"
  by (cases "R (lc_runtime L) (CallLoadModel (Some m)) w")
    (auto simp: Local_LoadModel1_diverges Inference_op_def Local_call_def Local_LoadModel_def)

section \<open>A local inference over a runtime over its module\<close>

text \<open>The calls that a local inference hands to its runtime, as operations of the client.\<close>

fun forwarded :: "inference_call \<Rightarrow> bool" where
  "forwarded (CallConfigure x) = False"
| "forwarded (CallLoadModel m) = (m \<noteq> None)"
| "forwarded c = is_sync c"

fun client_op :: "inference_call \<Rightarrow> inference_op" where
  "client_op (CallLoadModel m) = LoadModels (Some [m]) 1"
| "client_op c = Method c"

lemma forwarded_sync: "forwarded c \<Longrightarrow> is_sync c"
  by (cases c) auto

text \<open>The runtime object at address \<open>p\<close>.\<close>

definition runtime_at :: "ptr \<Rightarrow> 'm module \<Rightarrow> bool \<Rightarrow> nat \<Rightarrow> 'm runtime runtimes" where
  "runtime_at p M nd n x c rt = (if x = p then Runtime_call M nd n c rt else Undefined)"

lemma Inference_op_forwarded:
  assumes "forwarded c" and "lc_runtime L = p" and "p \<noteq> nullptr"
    and "Runtime_call M nd n c rt = Ret (caller_view c r, rt')"
  shows "Inference_op (runtime_at p M nd n) P nd cb (client_op c) (LocalMode L) rt = Ret (caller_view c r, LocalMode L, rt')"
  using assms by (cases c) (auto simp: Inference_op_def Local_call_def Local_LoadModel_def runtime_at_def)

lemma Inference_run_forwarded:
  assumes "list_all forwarded cs" and "at_rest A" and "room (length cs) A" and "rt_async rt = Emulator a A"
    and "lc_runtime L = p" and "p \<noteq> nullptr"
  shows "\<exists>A'. Inference_run (runtime_at p M nd (Suc n)) P nd cb (map client_op cs) (LocalMode L) rt =
      Ret (fst (module_session True M cs (as_module A)), LocalMode L, rt\<lparr>rt_async := Emulator a A'\<rparr>)
    \<and> as_module A' = snd (module_session True M cs (as_module A))"
  using assms(1-4)
proof (induction cs arbitrary: A rt)
  case Nil
  then show ?case by (intro exI [of _ A]) simp
next
  case (Cons c cs)
  let ?r = "fst (M (module_view c) (as_module A))"
  obtain A1 where 1: "Runtime_call M nd (Suc n) c rt = Ret (caller_view c ?r, rt\<lparr>rt_async := Emulator a A1\<rparr>)"
      "at_rest A1" "room (length cs) A1" "as_module A1 = snd (M (module_view c) (as_module A))"
    using Runtime_call_sync [of c A "length cs" rt a M nd n] Cons.prems forwarded_sync by auto
  have fwd: "Inference_op (runtime_at p M nd (Suc n)) P nd cb (client_op c) (LocalMode L) rt =
      Ret (caller_view c ?r, LocalMode L, rt\<lparr>rt_async := Emulator a A1\<rparr>)"
    by (rule Inference_op_forwarded) (use Cons.prems(1) assms(5,6) 1(1) in simp_all)
  obtain A2 where "Inference_run (runtime_at p M nd (Suc n)) P nd cb (map client_op cs) (LocalMode L) (rt\<lparr>rt_async := Emulator a A1\<rparr>) =
      Ret (fst (module_session True M cs (as_module A1)), LocalMode L, rt\<lparr>rt_async := Emulator a A2\<rparr>)"
      "as_module A2 = snd (module_session True M cs (as_module A1))"
    using Cons.IH [OF _ 1(2,3), of "rt\<lparr>rt_async := Emulator a A1\<rparr>"] Cons.prems(1) by auto
  with fwd 1(4) show ?case by (intro exI [of _ A2]) (simp add: split_def Let_def)
qed



end
