(* ===== verification/Peer_Tensor.thy ===== *)
theory Peer_Tensor
  imports Posix
begin

text \<open>
  \<^verbatim>\<open>libbeyond-peer_nn/src/peer_model.cc\<close>: the model a peer keeps for its client, and the arrays of tensor information with
  their copies on the heap; with them the loops of \<^verbatim>\<open>peer.cc\<close> that allocate and free tensors, and the conversion
  of a response in \<^verbatim>\<open>peer_grpc_client.cc\<close>. An array and its size are a list (a null pointer with the size 0 is None); the blocks an
  object consists of are counted in the \<open>live\<close> objects of \<open>Posix\<close>.
\<close>

section \<open>Tensor information\<close>

record tensor_info =
  ti_type :: int
  ti_size :: int
  ti_name :: "string option"
  ti_dims :: "int list option"

definition free_block :: "'a option \<Rightarrow> os \<Rightarrow> os" where
  "free_block p s = (case p of None \<Rightarrow> s | Some _ \<Rightarrow> os_delete s)"

fun free_tensor_infos :: "tensor_info list \<Rightarrow> os \<Rightarrow> os" where
  "free_tensor_infos [] s = s"
| "free_tensor_infos (x # xs) s = free_tensor_infos xs (free_block (ti_dims x) (free_block (ti_name x) s))"

text \<open>\<open>FreeTensorInfo\<close> of the first \<open>n\<close> elements: an array of size 0 is not freed.\<close>

definition FreeTensorInfo :: "tensor_info list option \<Rightarrow> nat \<Rightarrow> os \<Rightarrow> tensor_info list option \<times> nat \<times> os" where
  "FreeTensorInfo info n s =
    (case info of
      None \<Rightarrow> (None, n, s)
    | Some xs \<Rightarrow> if n = 0 then (info, n, s) else (None, 0, os_delete (free_tensor_infos (take n xs) s)))"

text \<open>
  The loop of \<open>DupTensorInfo\<close> from an element on, with the elements that are copied already. \<^verbatim>\<open>strdup\<close> and \<^verbatim>\<open>malloc\<close> fail with
  ENOMEM. A null \<open>dims\<close> is dereferenced.
\<close>

fun dup_tensor_infos ::
    "tensor_info list \<Rightarrow> tensor_info list \<Rightarrow> os \<Rightarrow> (int \<times> tensor_info list option \<times> os) outcome" where
  "dup_tensor_infos dest [] s = Ret (0, Some dest, s)"
| "dup_tensor_infos dest (x # xs) s =
    (let (ok, s1) = (case ti_name x of None \<Rightarrow> (True, s) | Some n \<Rightarrow> os_new s) in
     if \<not> ok then Ret (- ENOMEM, None, snd (snd (FreeTensorInfo (Some dest) (length dest) s1)))
     else case ti_dims x of
       None \<Rightarrow> Undefined
     | Some d \<Rightarrow>
         let (ok, s2) = os_new s1 in
         if \<not> ok then Ret (- ENOMEM, None, snd (snd (FreeTensorInfo (Some dest) (length dest) (free_block (ti_name x) s2))))
         else dup_tensor_infos (dest @ [x]) xs s2)"

definition DupTensorInfo :: "tensor_info list \<Rightarrow> os \<Rightarrow> (int \<times> tensor_info list option \<times> os) outcome" where
  "DupTensorInfo src s =
    (let (ok, s1) = os_new s in
     if \<not> ok then Ret (- ENOMEM, None, s1) else dup_tensor_infos [] src s1)"

text \<open>
  \<open>GetTensorInfoFromResponse\<close> of the client: a response has a name and dimensions for every tensor. The array is built by the
  same steps.
\<close>

definition GetTensorInfoFromResponse ::
    "bool \<Rightarrow> (int \<times> int \<times> string \<times> int list) list \<Rightarrow> os \<Rightarrow> (int \<times> tensor_info list option \<times> os) outcome" where
  "GetTensorInfoFromResponse nd infos s =
    (if infos = [] \<and> \<not> nd then Aborted
     else let (ok, s1) = os_new s in
       if \<not> ok then Ret (- ENOMEM, None, s1)
       else dup_tensor_infos []
         (map (\<lambda>(type, sz, name, dims). \<lparr>ti_type = type, ti_size = sz, ti_name = Some name, ti_dims = Some dims\<rparr>) infos) s1)"

section \<open>The model of a peer\<close>

record peer_model =
  pm_input :: "tensor_info list option"
  pm_output :: "tensor_info list option"
  pm_path :: "string option"

definition Model_new :: peer_model where
  "Model_new = \<lparr>pm_input = None, pm_output = None, pm_path = None\<rparr>"

definition free_infos :: "tensor_info list option \<Rightarrow> os \<Rightarrow> os" where
  "free_infos info s = snd (snd (FreeTensorInfo info (case info of None \<Rightarrow> 0 | Some xs \<Rightarrow> length xs) s))"

definition Model_delete :: "peer_model \<Rightarrow> os \<Rightarrow> os" where
  "Model_delete m s = free_infos (pm_output m) (free_infos (pm_input m) (free_block (pm_path m) s))"

definition SetModelPath :: "string \<Rightarrow> peer_model \<Rightarrow> os \<Rightarrow> int \<times> peer_model \<times> os" where
  "SetModelPath modelPath m s =
    (let (ok, s1) = os_new (free_block (pm_path m) s) in
     if ok then (0, m\<lparr>pm_path := Some modelPath\<rparr>, s1) else (- ENOMEM, m\<lparr>pm_path := None\<rparr>, s1))"

definition Model_SetInput :: "tensor_info list option \<Rightarrow> peer_model \<Rightarrow> os \<Rightarrow> int \<times> peer_model \<times> os" where
  "Model_SetInput info m s = (0, m\<lparr>pm_input := info\<rparr>, free_infos (pm_input m) s)"

definition Model_SetOutput :: "tensor_info list option \<Rightarrow> peer_model \<Rightarrow> os \<Rightarrow> int \<times> peer_model \<times> os" where
  "Model_SetOutput info m s = (0, m\<lparr>pm_output := info\<rparr>, free_infos (pm_output m) s)"

section \<open>Tensors\<close>

text \<open>
  \<open>Peer::AllocateTensor\<close> and \<open>FreeTensor\<close> of a client peer, with the array of the information as a list; a tensor is its type, its
  size and its data. The loop with the tensors that are allocated already; it takes the failing element's own error.
\<close>

record tensor =
  tn_type :: int
  tn_size :: int

fun allocate_tensors :: "tensor list \<Rightarrow> tensor_info list \<Rightarrow> os \<Rightarrow> int \<times> tensor list option \<times> os" where
  "allocate_tensors ts [] s = (0, Some ts, s)"
| "allocate_tensors ts (x # xs) s =
    (if ti_size x \<le> 0 then (- EINVAL, None, os_delete ((os_delete ^^ length ts) s))
     else let (ok, s1) = os_new s in
       if \<not> ok then (- ENOMEM, None, os_delete ((os_delete ^^ length ts) s1))
       else allocate_tensors (ts @ [\<lparr>tn_type = ti_type x, tn_size = ti_size x\<rparr>]) xs s1)"

definition Peer_AllocateTensor :: "tensor_info list option \<Rightarrow> os \<Rightarrow> int \<times> tensor list option \<times> os" where
  "Peer_AllocateTensor info s =
    (case info of
      None \<Rightarrow> (- EINVAL, None, s)
    | Some [] \<Rightarrow> (- EINVAL, None, s)
    | Some xs \<Rightarrow>
        let (ok, s1) = os_new s in
        if \<not> ok then (- ENOMEM, None, s1) else allocate_tensors [] xs s1)"

definition Peer_FreeTensor :: "tensor list option \<Rightarrow> os \<Rightarrow> tensor list option \<times> os" where
  "Peer_FreeTensor tensor s =
    (case tensor of
      None \<Rightarrow> (None, s)
    | Some [] \<Rightarrow> (tensor, s)
    | Some ts \<Rightarrow> (None, os_delete ((os_delete ^^ length ts) s)))"

section \<open>Properties\<close>

text \<open>The number of blocks of an array of tensor information without the array itself.\<close>

definition block :: "'a option \<Rightarrow> int" where
  "block p = (if p = None then 0 else 1)"

fun info_blocks :: "tensor_info list \<Rightarrow> int" where
  "info_blocks [] = 0"
| "info_blocks (x # xs) = block (ti_name x) + block (ti_dims x) + info_blocks xs"

lemma info_blocks_append [simp]: "info_blocks (xs @ ys) = info_blocks xs + info_blocks ys"
  by (induction xs) auto

lemma live_free_block [simp]: "live (free_block p s) = live s - block p" "open_fds (free_block p s) = open_fds s"
  by (simp_all add: free_block_def block_def split: option.split)

lemma live_free_tensor_infos [simp]:
  "live (free_tensor_infos xs s) = live s - info_blocks xs" "open_fds (free_tensor_infos xs s) = open_fds s"
  by (induction xs arbitrary: s) auto

lemma os_new_resources: "os_new s = (ok, s') \<Longrightarrow> live s' = live s + (if ok then 1 else 0) \<and> open_fds s' = open_fds s"
  by (auto simp: os_new_def split: if_splits)

text \<open>Copying the blocks of one element: its name, then its dimensions.\<close>

definition dup_element :: "tensor_info \<Rightarrow> os \<Rightarrow> bool \<times> os" where
  "dup_element x s =
    (let (ok, s1) = (case ti_name x of None \<Rightarrow> (True, s) | Some n \<Rightarrow> os_new s) in
     if \<not> ok then (False, s1)
     else let (ok, s2) = os_new s1 in if \<not> ok then (False, free_block (ti_name x) s2) else (True, s2))"

lemma dup_tensor_infos_Cons:
  assumes "ti_dims x \<noteq> None"
  shows "dup_tensor_infos dest (x # xs) s =
    (case dup_element x s of
      (False, s1) \<Rightarrow> Ret (- ENOMEM, None, snd (snd (FreeTensorInfo (Some dest) (length dest) s1)))
    | (True, s1) \<Rightarrow> dup_tensor_infos (dest @ [x]) xs s1)"
  using assms by (auto simp: dup_element_def Let_def split: option.split prod.split)

declare dup_tensor_infos.simps(2) [simp del]

lemma dup_element_ledger:
  assumes "ti_dims x \<noteq> None" and "dup_element x s = (ok, s')"
  shows "open_fds s' = open_fds s \<and> live s' = live s + (if ok then info_blocks [x] else 0)"
proof -
  obtain ok1 s1 where 1: "(case ti_name x of None \<Rightarrow> (True, s) | Some n \<Rightarrow> os_new s) = (ok1, s1)" by fastforce
  have l1: "live s1 = live s + (if ok1 then block (ti_name x) else 0)" "open_fds s1 = open_fds s"
    using 1 os_new_resources [of s ok1 s1] by (auto simp: block_def split: option.splits if_splits)
  obtain ok2 s2 where 2: "os_new s1 = (ok2, s2)" by fastforce
  show ?thesis
    using assms 1 2 l1 os_new_resources [OF 2]
    by (cases ok1; cases ok2) (auto simp: dup_element_def block_def)
qed

lemma live_FreeTensorInfo [simp]:
  "xs \<noteq> [] \<Longrightarrow> FreeTensorInfo (Some xs) (length xs) s = (None, 0, os_delete (free_tensor_infos xs s))"
  "FreeTensorInfo (Some xs) 0 s = (Some xs, 0, s)"
  by (simp_all add: FreeTensorInfo_def)

text \<open>The blocks of an array that is a field of a model.\<close>

definition array_blocks :: "tensor_info list option \<Rightarrow> int" where
  "array_blocks info = (case info of None \<Rightarrow> 0 | Some xs \<Rightarrow> if xs = [] then 0 else 1 + info_blocks xs)"

lemma live_free_infos [simp]:
  "live (free_infos info s) = live s - array_blocks info" "open_fds (free_infos info s) = open_fds s"
  by (auto simp: free_infos_def FreeTensorInfo_def array_blocks_def split: option.split)

lemma dup_more_ledger:
  assumes "list_all (\<lambda>x. ti_dims x \<noteq> None) xs" and "dest \<noteq> []"
  shows "\<exists>ret r s'. dup_tensor_infos dest xs s = Ret (ret, r, s') \<and> open_fds s' = open_fds s \<and>
    (ret = 0 \<and> r = Some (dest @ xs) \<and> live s' = live s + info_blocks xs
     \<or> ret = - ENOMEM \<and> r = None \<and> live s' = live s - 1 - info_blocks dest)"
  using assms
proof (induction xs arbitrary: dest s)
  case (Cons x xs)
  obtain ok s1 where 1: "dup_element x s = (ok, s1)" by fastforce
  note l = dup_element_ledger [OF _ 1]
  show ?case
  proof (cases ok)
    case False
    with Cons.prems 1 l show ?thesis by (simp add: dup_tensor_infos_Cons)
  next
    case True
    from Cons.IH [of "dest @ [x]" s1] Cons.prems obtain ret r s' where
      "dup_tensor_infos (dest @ [x]) xs s1 = Ret (ret, r, s')" "open_fds s' = open_fds s1"
      "ret = 0 \<and> r = Some (dest @ x # xs) \<and> live s' = live s1 + info_blocks xs
       \<or> ret = - ENOMEM \<and> r = None \<and> live s' = live s1 - 1 - info_blocks (dest @ [x])" by auto
    with Cons.prems 1 l True show ?thesis by (auto simp: dup_tensor_infos_Cons)
  qed
qed simp

text \<open>
  The ledger of a copy of tensor information. Every copy of an array whose elements have dimensions returns. It
  either gives the whole array, in exactly the blocks that freeing it gives back, or fails with ENOMEM and no array; then it
  leaves nothing, except when the first element could not be copied: then the array itself, which \<open>FreeTensorInfo\<close> does
  not free because no element is complete, is left.
\<close>

theorem dup_tensor_info_ledger:
  assumes "list_all (\<lambda>x. ti_dims x \<noteq> None) src" and "src \<noteq> []"
  shows "\<exists>ret r s'. DupTensorInfo src s = Ret (ret, r, s') \<and> open_fds s' = open_fds s \<and>
    (if ret = 0 then r = Some src \<and> live s' = live s + 1 + info_blocks src \<and> live (free_infos r s') = live s
     else ret = - ENOMEM \<and> r = None
       \<and> live s' = live s + (if fst (os_new s) \<and> \<not> fst (dup_element (hd src) (snd (os_new s))) then 1 else 0))"
proof -
  obtain x xs where src: "src = x # xs" using assms(2) by (cases src) auto
  obtain ok s1 where 1: "os_new s = (ok, s1)" by fastforce
  obtain ok2 s2 where 2: "dup_element x s1 = (ok2, s2)" by fastforce
  have d: "ti_dims x \<noteq> None" "list_all (\<lambda>x. ti_dims x \<noteq> None) xs" using assms(1) src by simp_all
  note l = os_new_resources [OF 1] dup_element_ledger [OF d(1) 2]
  have e: "ENOMEM \<noteq> 0" by (simp add: errno_defs)
  obtain ret r s' where "dup_tensor_infos [x] xs s2 = Ret (ret, r, s')" "open_fds s' = open_fds s2"
      "ret = 0 \<and> r = Some (x # xs) \<and> live s' = live s2 + info_blocks xs
       \<or> ret = - ENOMEM \<and> r = None \<and> live s' = live s2 - 1 - info_blocks [x]"
    using dup_more_ledger [OF d(2), of "[x]" s2] by auto
  then show ?thesis
    using 1 2 l d(1) e src
    by (cases ok; cases ok2) (auto simp: DupTensorInfo_def dup_tensor_infos_Cons array_blocks_def)
qed

lemma dup_tensor_info_ledger_witness:
  "\<exists>s'. DupTensorInfo [\<lparr>ti_type = 0, ti_size = 4, ti_name = Some ''x'', ti_dims = Some [2, 2]\<rparr>]
      \<lparr>open_fds = {}, next_fd = 0, live = 5, faults = [0, 0, 12]\<rparr> = Ret (- ENOMEM, None, s') \<and> live s' = 6"
proof -
  let ?x = "\<lparr>ti_type = 0, ti_size = 4, ti_name = Some ''x'', ti_dims = Some [2, 2]\<rparr>"
  let ?s = "\<lparr>open_fds = {}, next_fd = 0, live = 5, faults = [0, 0, 12]\<rparr>"
  have new: "os_new ?s = (True, \<lparr>open_fds = {}, next_fd = 0, live = 6, faults = [0, 12]\<rparr>)"
    by (simp add: os_new_def pop_def fault_def)
  have first: "\<not> fst (dup_element ?x (snd (os_new ?s)))"
    by (simp add: new dup_element_def) (simp add: os_new_def pop_def fault_def)
  have D: "\<exists>r s'. DupTensorInfo [?x] ?s = Ret (- ENOMEM, r, s')"
    by (simp add: DupTensorInfo_def new) (simp add: dup_tensor_infos.simps(2) os_new_def pop_def fault_def)
  show ?thesis
    using dup_tensor_info_ledger [of "[?x]" ?s] first D by (auto simp: new errno_defs)
qed

lemma live_os_delete_pow [simp]: "live ((os_delete ^^ n) s) = live s - int n" "open_fds ((os_delete ^^ n) s) = open_fds s"
  by (induction n) auto

lemma allocate_tensors_ledger:
  "allocate_tensors ts xs s = (ret, r, s') \<Longrightarrow> open_fds s' = open_fds s \<and>
    (ret = 0 \<and> r = Some (ts @ map (\<lambda>x. \<lparr>tn_type = ti_type x, tn_size = ti_size x\<rparr>) xs)
       \<and> live s' = live s + int (length xs) \<and> list_all (\<lambda>x. 0 < ti_size x) xs
     \<or> (ret = - EINVAL \<and> (\<exists>x \<in> set xs. ti_size x \<le> 0) \<or> ret = - ENOMEM) \<and> r = None \<and> live s' = live s - 1 - int (length ts))"
proof (induction xs arbitrary: ts s)
  case (Cons x xs)
  obtain ok s1 where 1: "os_new s = (ok, s1)" by fastforce
  show ?case
  proof (cases "0 < ti_size x \<and> ok")
    case True
    with Cons.prems 1 have "allocate_tensors (ts @ [\<lparr>tn_type = ti_type x, tn_size = ti_size x\<rparr>]) xs s1 = (ret, r, s')" by simp
    from Cons.IH [OF this] os_new_resources [OF 1] True show ?thesis by (elim conjE disjE) simp_all
  next
    case False
    then consider (size) "ti_size x \<le> 0" | (memory) "0 < ti_size x" "\<not> ok" by linarith
    then show ?thesis
    proof cases
      case size
      then have "ret = - EINVAL" "r = None" "s' = os_delete ((os_delete ^^ length ts) s)" using Cons.prems by simp_all
      with size show ?thesis by simp
    next
      case memory
      then have "ret = - ENOMEM" "r = None" "s' = os_delete ((os_delete ^^ length ts) s1)" using Cons.prems 1 by simp_all
      with memory os_new_resources [OF 1] show ?thesis by simp
    qed
  qed
qed simp

text \<open>
  Tensors. Whatever allocation fails, allocating tensors either gives one tensor of the type and size of every
  element, which \<open>FreeTensor\<close> gives back completely, or it fails with no tensor and leaves nothing; it refuses exactly
  the arrays with an element of no size, and null.
\<close>

theorem allocate_tensors_balanced:
  "case Peer_AllocateTensor info s of (ret, r, s') \<Rightarrow> open_fds s' = open_fds s \<and>
    (if ret = 0
     then info \<noteq> None \<and> r = Some (map (\<lambda>x. \<lparr>tn_type = ti_type x, tn_size = ti_size x\<rparr>) (the info))
       \<and> list_all (\<lambda>x. 0 < ti_size x) (the info) \<and> live (snd (Peer_FreeTensor r s')) = live s \<and> fst (Peer_FreeTensor r s') = None
     else r = None \<and> live s' = live s
       \<and> (ret = - ENOMEM \<or> ret = - EINVAL \<and> (info = None \<or> info = Some [] \<or> (\<exists>x \<in> set (the info). ti_size x \<le> 0))))"
proof -
  consider (null) "info = None \<or> info = Some []" | (array) x xs where "info = Some (x # xs)"
    by (cases info; cases "the info") auto
  then show ?thesis
  proof cases
    case null
    then show ?thesis by (auto simp: Peer_AllocateTensor_def errno_defs)
  next
    case array
    obtain ok s1 where 1: "os_new s = (ok, s1)" by fastforce
    obtain ret r s' where 2: "allocate_tensors [] (x # xs) s1 = (ret, r, s')" by (cases "allocate_tensors [] (x # xs) s1")
    have e: "ENOMEM \<noteq> 0" "EINVAL \<noteq> 0" by (simp_all add: errno_defs)
    show ?thesis
    proof (cases ok)
      case True
      have "Peer_AllocateTensor info s = (ret, r, s')" using 1 2 True array by (simp add: Peer_AllocateTensor_def)
      with allocate_tensors_ledger [OF 2] os_new_resources [OF 1] True e show ?thesis
        by (auto simp: array Peer_FreeTensor_def)
    next
      case False
      with 1 array e os_new_resources [OF 1] show ?thesis by (simp add: Peer_AllocateTensor_def)
    qed
  qed
qed

end
