(* ===== verification/Peer_Client.thy ===== *)
theory Peer_Client
  imports Peer_Tensor Module_Wrappers Command_Object
begin

text \<open>
  \<^verbatim>\<open>libbeyond-peer_nn/src/peer_grpc_client.cc\<close>: the client of a peer that runs on another device. The stub of the remote
  procedure calls, the pipeline (\<^verbatim>\<open>GrpcClient::Gst\<close>, which is GStreamer's) and the authenticators are parameters; what is
  modelled is the client's own state, the tensor information it caches in the model of the pipeline, and its allocations.
\<close>

section \<open>What the client talks to\<close>

text \<open>Runtimes of a device with the names of their own devices, as a response has them.\<close>

type_synonym device_runtimes = "(string \<times> string list) list"

record server_description =
  sd_input_type :: int
  sd_preprocessing :: "string option"
  sd_postprocessing :: "string option"
  sd_framework :: "string option"
  sd_accel :: "string option"

record client_description =
  cd_input_type :: int
  cd_preprocessing :: "string option"
  cd_postprocessing :: "string option"

datatype rpc_request =
    RpcConfigure server_description
  | RpcExchangeKey string
  | RpcLoadModel string
  | RpcUploadModel string
  | RpcGetInputTensorInfo | RpcGetOutputTensorInfo
  | RpcSetInputTensorInfo "(int \<times> int \<times> string \<times> int list) list"
  | RpcSetOutputTensorInfo "(int \<times> int \<times> string \<times> int list) list"
  | RpcPrepare | RpcStop | RpcGetInfo

text \<open>A response: whether the call itself succeeded, then the fields of the message.\<close>

record rpc_response =
  rr_ok :: bool
  rr_status :: int
  rr_id :: string
  rr_infos :: "(int \<times> int \<times> string \<times> int list) list"
  rr_ports :: "int \<times> int"
  rr_runtimes :: device_runtimes
  rr_free_memory :: "64 word"
  rr_free_storage :: "64 word"

text \<open>\<open>GstCreate\<close> returns less than 0 when there is no pipeline; the other methods return what the code returns.\<close>

datatype gst_call =
    GstCreate string | GstDestroy | GstSetSecret string | GstSetNonce "64 word"
  | GstConfigure client_description
  | GstPrepare string int int
  | GstInvoke ptr int ptr | GstGetOutput ptr int | GstStop

datatype auth_call = AuthKey key_id | AuthSeal key_id string | AuthResult

text \<open>An authenticator returns a code and, for a key or a result, the bytes: None is a null pointer.\<close>

record 'e environment =
  env_stub :: "string \<Rightarrow> string option \<Rightarrow> 'e \<Rightarrow> bool \<times> 'e" \<comment> \<open>address, root certificate\<close>
  env_rpc :: "string \<Rightarrow> rpc_request \<Rightarrow> 'e \<Rightarrow> rpc_response \<times> 'e" \<comment> \<open>with the id in the metadata\<close>
  env_gst :: "gst_call \<Rightarrow> 'e \<Rightarrow> reply \<times> 'e"
  env_auth :: "ptr \<Rightarrow> auth_call \<Rightarrow> 'e \<Rightarrow> (int \<times> string option) \<times> 'e"
  env_server :: "string \<Rightarrow> 'e \<Rightarrow> bool \<times> 'e" \<comment> \<open>whether a server can be started at an address\<close>
  env_file :: "string \<Rightarrow> 'e \<Rightarrow> int \<times> 'e" \<comment> \<open>the error of opening a model file, 0 when it can be opened\<close>
  env_random :: "'e \<Rightarrow> 64 word \<times> 'e" \<comment> \<open>\<open>GetRandom\<close>\<close>
  env_junk :: string \<comment> \<open>what a new block of memory holds\<close>

section \<open>State\<close>

text \<open>The pipeline is known by its model; None is a null pointer.\<close>

record grpc_client =
  gc_peerId :: string
  gc_gst :: "peer_model option"

section \<open>Operations\<close>

definition Client_Create ::
    "'e environment \<Rightarrow> string \<Rightarrow> string option \<Rightarrow> os \<times> 'e \<Rightarrow> grpc_client option \<times> os \<times> 'e" where
  "Client_Create E address rootCA w =
    (case w of (s, e) \<Rightarrow>
      let (ok, s1) = os_new s in
      if \<not> ok then (None, s1, e)
      else let (ok, e1) = env_stub E address rootCA e in
      if \<not> ok then (None, os_delete s1, e1)
      else (Some \<lparr>gc_peerId = [], gc_gst = None\<rparr>, s1, e1))"

definition Client_Destroy :: "'e environment \<Rightarrow> grpc_client \<Rightarrow> os \<times> 'e \<Rightarrow> os \<times> 'e" where
  "Client_Destroy E c w =
    (case w of (s, e) \<Rightarrow>
      case gc_gst c of
        None \<Rightarrow> (os_delete s, e)
      | Some m \<Rightarrow> (os_delete (Model_delete m s), snd (env_gst E GstDestroy e)))"

definition Client_Configure ::
    "'e environment \<Rightarrow> server_description \<Rightarrow> grpc_client \<Rightarrow> 'e \<Rightarrow> int \<times> 'e" where
  "Client_Configure E server c e =
    (let (r, e1) = env_rpc E (gc_peerId c) (RpcConfigure server) e in
     (if rr_ok r then rr_status r else - EFAULT, e1))"

text \<open>
  \<open>Peer::Credential\<close> as it lies in memory: the nonce (8 bytes), the length of the key (4 bytes), the uuid (37 bytes with the
  terminating zero), the key, and the seven bytes by which \<^verbatim>\<open>sizeof\<close> is larger than the offset of the key. Nothing
  writes these, nor what follows the zero of the uuid.
\<close>

definition byte_chars :: "8 word list \<Rightarrow> string" where
  "byte_chars bs = map (\<lambda>b. char_of (unat b)) bs"

definition credential :: "string \<Rightarrow> 64 word \<Rightarrow> string \<Rightarrow> string \<Rightarrow> string" where
  "credential junk nonce uuid key =
    byte_chars (le_bytes 8 (unat nonce)) @ byte_chars (le_bytes 4 (length key)) @
    take UUID_LEN (uuid @ CHR 0x00 # junk @ replicate UUID_LEN (CHR 0x00)) @ key @ take 7 (junk @ replicate 7 (CHR 0x00))"

text \<open>
  \<open>ExchangeKey\<close>, with the authenticator that is used (a null pointer: none) and the uuid of the peer's information (empty also when
  there is no information).
\<close>

definition exchange_request ::
    "'e environment \<Rightarrow> ptr \<Rightarrow> string \<Rightarrow> 64 word \<Rightarrow> os \<times> 'e \<Rightarrow> (int + string \<times> string) \<times> os \<times> 'e" where
  "exchange_request E auth uuid nonce w =
    (case w of (s, e) \<Rightarrow>
      if auth = nullptr then (Inr (''insecure'', []), s, e)
      else if uuid = [] then (Inl (- EINVAL), s, e)
      else let ((ret, key), e1) = env_auth E auth (AuthKey KEY_SECRET) e in
      if ret < 0 then (Inl ret, s, e1)
      else case key of
        None \<Rightarrow> (Inl (- EINVAL), s, e1)
      | Some [] \<Rightarrow> (Inl (- EINVAL), s, e1)
      | Some key \<Rightarrow>
          let (ok, s1) = os_new s in
          if \<not> ok then (Inl (- ENOMEM), s1, e1)
          else let ((ret, _), e2) = env_auth E auth (AuthSeal KEY_PUBLIC (credential (env_junk E) nonce uuid key)) e1 in
          if ret < 0 then (Inl ret, os_delete s1, e2)
          else let ((ret, output), e3) = env_auth E auth AuthResult e2; s2 = os_delete s1 in
          if ret < 0 then (Inl ret, s2, e3)
          else case output of
            None \<Rightarrow> (Inl (- EFAULT), s2, e3)
          | Some [] \<Rightarrow> (Inl (- EFAULT), s2, e3)
          | Some output \<Rightarrow> (Inr (output, key), s2, e3))"

definition Client_ExchangeKey ::
    "'e environment \<Rightarrow> ptr \<Rightarrow> string \<Rightarrow> grpc_client \<Rightarrow> os \<times> 'e \<Rightarrow> int \<times> grpc_client \<times> os \<times> 'e" where
  "Client_ExchangeKey E auth uuid c w =
    (let (nonce, e0) = env_random E (snd w) in
     case exchange_request E auth uuid nonce (fst w, e0) of
      (Inl ret, s, e) \<Rightarrow> (ret, c, s, e)
    | (Inr (request, secret), s, e) \<Rightarrow>
        let (r, e1) = env_rpc E [] (RpcExchangeKey request) e in
        if \<not> rr_ok r then (- EFAULT, c, s, e1)
        else if rr_status r \<noteq> 0 then (rr_status r, c, s, e1)
        else let c = c\<lparr>gc_peerId := rr_id r\<rparr>; (g, e2) = env_gst E (GstCreate (rr_id r)) e1 in
          if r_ret g < 0 then (- EFAULT, c\<lparr>gc_gst := None\<rparr>, s, e2)
          else (0, c\<lparr>gc_gst := Some Model_new\<rparr>, s,
            snd (env_gst E (GstSetNonce nonce) (snd (env_gst E (GstSetSecret secret) e2)))))"

text \<open>\<open>LoadModel\<close> drops the cached information whatever the device answers. Without a pipeline it dereferences null.\<close>

definition Client_LoadModel ::
    "'e environment \<Rightarrow> string \<Rightarrow> grpc_client \<Rightarrow> os \<times> 'e \<Rightarrow> (int \<times> grpc_client \<times> os \<times> 'e) outcome" where
  "Client_LoadModel E modelFilename c w =
    (case w of (s, e) \<Rightarrow>
      let (r, e1) = env_rpc E (gc_peerId c) (RpcLoadModel modelFilename) e in
      if \<not> rr_ok r then Ret (- EFAULT, c, s, e1)
      else case gc_gst c of
        None \<Rightarrow> Undefined
      | Some m \<Rightarrow>
          let (_, m1, s1) = Model_SetInput None m s; (_, m2, s2) = Model_SetOutput None m1 s1 in
          Ret (rr_status r, c\<lparr>gc_gst := Some m2\<rparr>, s2, e1))"

text \<open>\<open>UploadModel\<close> sends the file in chunks; the stub takes the whole file. The buffer is freed on every path.\<close>

definition Client_UploadModel ::
    "'e environment \<Rightarrow> string \<Rightarrow> grpc_client \<Rightarrow> os \<times> 'e \<Rightarrow> int \<times> os \<times> 'e" where
  "Client_UploadModel E modelFilename c w =
    (case w of (s, e) \<Rightarrow>
      let (ok, s1) = os_new s in
      if \<not> ok then (- ENOMEM, s1, e)
      else let (errno, e1) = env_file E modelFilename e in
      if errno \<noteq> 0 then (- errno, os_delete s1, e1)
      else let (r, e2) = env_rpc E (gc_peerId c) (RpcUploadModel modelFilename) e1; s2 = os_delete s1 in
        (if rr_ok r then 0 else - EFAULT, s2, e2))"

text \<open>Tensor information of the input; the cached array comes first.\<close>

definition Client_GetInputTensorInfo ::
    "'e environment \<Rightarrow> bool \<Rightarrow> grpc_client \<Rightarrow> os \<times> 'e \<Rightarrow> (int \<times> tensor_info list option \<times> grpc_client \<times> os \<times> 'e) outcome" where
  "Client_GetInputTensorInfo E nd c w =
    (case w of (s, e) \<Rightarrow>
      case gc_gst c of
        None \<Rightarrow> Undefined
      | Some m \<Rightarrow>
          if pm_input m \<noteq> None \<and> pm_input m \<noteq> Some [] then Ret (0, pm_input m, c, s, e)
          else let (r, e1) = env_rpc E (gc_peerId c) RpcGetInputTensorInfo e in
            if \<not> rr_ok r then Ret (- EFAULT, None, c, s, e1)
            else obind (GetTensorInfoFromResponse nd (rr_infos r) s) (\<lambda>(ret, info, s1).
              if ret < 0 then Ret (ret, None, c, s1, e1)
              else let (_, m1, s2) = Model_SetInput info m s1 in Ret (0, info, c\<lparr>gc_gst := Some m1\<rparr>, s2, e1)))"

definition Client_GetOutputTensorInfo ::
    "'e environment \<Rightarrow> bool \<Rightarrow> grpc_client \<Rightarrow> os \<times> 'e \<Rightarrow> (int \<times> tensor_info list option \<times> grpc_client \<times> os \<times> 'e) outcome" where
  "Client_GetOutputTensorInfo E nd c w =
    (case w of (s, e) \<Rightarrow>
      case gc_gst c of
        None \<Rightarrow> Undefined
      | Some m \<Rightarrow>
          if pm_output m \<noteq> None \<and> pm_output m \<noteq> Some [] then Ret (0, pm_output m, c, s, e)
          else let (r, e1) = env_rpc E (gc_peerId c) RpcGetOutputTensorInfo e in
            if \<not> rr_ok r then Ret (- EFAULT, None, c, s, e1)
            else obind (GetTensorInfoFromResponse nd (rr_infos r) s) (\<lambda>(ret, info, s1).
              if ret < 0 then Ret (ret, None, c, s1, e1)
              else let (_, m1, s2) = Model_SetOutput info m s1 in Ret (0, info, c\<lparr>gc_gst := Some m1\<rparr>, s2, e1)))"

text \<open>\<open>SetRequest\<close>: the message, None when an element has no dimensions. An element without a name has the empty one.\<close>

fun SetRequest :: "tensor_info list \<Rightarrow> (int \<times> int \<times> string \<times> int list) list option outcome" where
  "SetRequest [] = Ret (Some [])"
| "SetRequest (x # xs) =
    (case ti_dims x of
      None \<Rightarrow> Undefined
    | Some [] \<Rightarrow> Ret None
    | Some dims \<Rightarrow>
        obind (SetRequest xs) (\<lambda>request.
          Ret (map_option ((#) (ti_type x, ti_size x, (case ti_name x of None \<Rightarrow> [] | Some n \<Rightarrow> n), dims)) request)))"

text \<open>The status of the response is returned after the information was put into the cache.\<close>

definition Client_SetInputTensorInfo ::
    "'e environment \<Rightarrow> tensor_info list \<Rightarrow> grpc_client \<Rightarrow> os \<times> 'e \<Rightarrow> (int \<times> grpc_client \<times> os \<times> 'e) outcome" where
  "Client_SetInputTensorInfo E info c w =
    (case w of (s, e) \<Rightarrow>
      obind (SetRequest info) (\<lambda>request.
        case request of
          None \<Rightarrow> Ret (- EINVAL, c, s, e)
        | Some request \<Rightarrow>
            let (r, e1) = env_rpc E (gc_peerId c) (RpcSetInputTensorInfo request) e in
            if \<not> rr_ok r then Ret (- EFAULT, c, s, e1)
            else obind (DupTensorInfo info s) (\<lambda>(ret, info', s1).
              if ret < 0 then Ret (ret, c, s1, e1)
              else case gc_gst c of
                None \<Rightarrow> Undefined
              | Some m \<Rightarrow>
                  let (_, m1, s2) = Model_SetInput info' m s1 in Ret (rr_status r, c\<lparr>gc_gst := Some m1\<rparr>, s2, e1))))"

definition Client_SetOutputTensorInfo ::
    "'e environment \<Rightarrow> tensor_info list \<Rightarrow> grpc_client \<Rightarrow> os \<times> 'e \<Rightarrow> (int \<times> grpc_client \<times> os \<times> 'e) outcome" where
  "Client_SetOutputTensorInfo E info c w =
    (case w of (s, e) \<Rightarrow>
      obind (SetRequest info) (\<lambda>request.
        case request of
          None \<Rightarrow> Ret (- EINVAL, c, s, e)
        | Some request \<Rightarrow>
            let (r, e1) = env_rpc E (gc_peerId c) (RpcSetOutputTensorInfo request) e in
            if \<not> rr_ok r then Ret (- EFAULT, c, s, e1)
            else obind (DupTensorInfo info s) (\<lambda>(ret, info', s1).
              if ret < 0 then Ret (ret, c, s1, e1)
              else case gc_gst c of
                None \<Rightarrow> Undefined
              | Some m \<Rightarrow>
                  let (_, m1, s2) = Model_SetOutput info' m s1 in Ret (rr_status r, c\<lparr>gc_gst := Some m1\<rparr>, s2, e1))))"

text \<open>\<open>Prepare\<close> gives the two ports when it succeeds.\<close>

definition Client_Prepare :: "'e environment \<Rightarrow> grpc_client \<Rightarrow> 'e \<Rightarrow> (int \<times> (int \<times> int)) \<times> 'e" where
  "Client_Prepare E c e =
    (let (r, e1) = env_rpc E (gc_peerId c) RpcPrepare e in
     if \<not> rr_ok r then ((- EFAULT, 0, 0), e1)
     else if rr_status r < 0 then ((rr_status r, 0, 0), e1)
     else ((rr_status r, rr_ports r), e1))"

definition Client_Stop :: "'e environment \<Rightarrow> grpc_client \<Rightarrow> 'e \<Rightarrow> int \<times> 'e" where
  "Client_Stop E c e =
    (let (r, e1) = env_rpc E (gc_peerId c) RpcStop e in (if rr_ok r then rr_status r else - EFAULT, e1))"

end
