(* ===== verification/Peer_Info.thy ===== *)
theory Peer_Info
  imports Peer_Client
begin

text \<open>
  The information about a device in \<^verbatim>\<open>libbeyond-peer_nn\<close>: the nested arrays of its runtimes and their own devices, how
  \<^verbatim>\<open>peer.cc\<close> frees (\<open>ResetRuntime\<close>, \<open>ResetInfo\<close>) and copies them (\<open>SetInfo\<close>) and how the client of
  \<^verbatim>\<open>peer_grpc_client.cc\<close> fetches them from the device (\<open>GetInfo\<close>).
\<close>

section \<open>State\<close>

text \<open>An array is a list and a null pointer None; a null name is None.\<close>

record runtime_info =
  ri_name :: "string option"
  ri_devices :: "string option list option"

record nn_info =
  ni_host :: "string option"
  ni_port :: "16 word"
  ni_uuid :: string
  ni_runtimes :: "runtime_info list option"
  ni_free_memory :: "64 word"
  ni_free_storage :: "64 word"

section \<open>Freeing\<close>

fun free_names :: "string option list \<Rightarrow> os \<Rightarrow> os" where
  "free_names [] s = s"
| "free_names (n # ns) s = free_names ns (free_block n s)"

fun free_runtimes :: "runtime_info list \<Rightarrow> os \<Rightarrow> os" where
  "free_runtimes [] s = s"
| "free_runtimes (r # rs) s =
    (let s1 = free_block (ri_name r) s;
         s2 = (case ri_devices r of None \<Rightarrow> s1 | Some ds \<Rightarrow> free_names ds s1) in
     free_runtimes rs (free_block (ri_devices r) s2))"

definition ResetRuntime :: "runtime_info list option \<Rightarrow> os \<Rightarrow> os" where
  "ResetRuntime runtimes s = free_block runtimes (case runtimes of None \<Rightarrow> s | Some rs \<Rightarrow> free_runtimes rs s)"

definition ResetInfo :: "nn_info option \<Rightarrow> os \<Rightarrow> os" where
  "ResetInfo info s =
    (case info of
      None \<Rightarrow> s
    | Some i \<Rightarrow> os_delete (free_block (ni_host i) (ResetRuntime (ni_runtimes i) s)))"

section \<open>Fetching the information of a device\<close>

text \<open>
  The names of the devices of one runtime, with the ones that are copied already; the array has room for \<open>n\<close>. A write
  behind its end is undefined.
\<close>

fun fetch_devices :: "nat \<Rightarrow> string option list \<Rightarrow> string list \<Rightarrow> os \<Rightarrow> (bool \<times> string option list \<times> os) outcome" where
  "fetch_devices n ds [] s = Ret (True, ds, s)"
| "fetch_devices n ds (name # names) s =
    (if n \<le> length ds then Undefined
     else let (ok, s1) = os_new s in
       if \<not> ok then Ret (False, ds, s1) else fetch_devices n (ds @ [Some name]) names s1)"

text \<open>The loop over the runtimes. Every array of devices is allocated with the number \<open>n\<close> of devices of the first runtime.\<close>

fun fetch_runtimes ::
    "nat \<Rightarrow> runtime_info list \<Rightarrow> device_runtimes \<Rightarrow> os \<Rightarrow> (int \<times> runtime_info list option \<times> os) outcome" where
  "fetch_runtimes n rs [] s = Ret (0, Some rs, s)"
| "fetch_runtimes n rs ((name, devices) # others) s =
    (let (ok, s1) = os_new s in
     if \<not> ok then Ret (- ENOMEM, None, ResetRuntime (Some rs) s1)
     else if devices = []
     then fetch_runtimes n (rs @ [\<lparr>ri_name = Some name, ri_devices = None\<rparr>]) others s1
     else let (ok, s2) = os_new s1 in
     if \<not> ok then Ret (- ENOMEM, None, ResetRuntime (Some rs) (os_delete s2))
     else obind (fetch_devices n [] devices s2) (\<lambda>(ok, ds, s3).
       if \<not> ok then Ret (- ENOMEM, None, ResetRuntime (Some rs) (os_delete (os_delete (free_names ds s3))))
       else fetch_runtimes n (rs @ [\<lparr>ri_name = Some name, ri_devices = Some ds\<rparr>]) others s3))"

definition Client_GetInfo ::
    "'e environment \<Rightarrow> grpc_client \<Rightarrow> nn_info \<Rightarrow> os \<times> 'e \<Rightarrow> (int \<times> nn_info \<times> os \<times> 'e) outcome" where
  "Client_GetInfo E c info w =
    (case w of (s, e) \<Rightarrow>
      let (r, e1) = env_rpc E (gc_peerId c) RpcGetInfo e in
      if \<not> rr_ok r then Ret (- EFAULT, info, s, e1)
      else
        let update = (\<lambda>rs s. Ret (0, info\<lparr>ni_runtimes := rs, ni_free_memory := rr_free_memory r,
              ni_free_storage := rr_free_storage r\<rparr>, ResetRuntime (ni_runtimes info) s, e1)) in
        (case rr_runtimes r of
          [] \<Rightarrow> update None s
        | (name, devices) # others \<Rightarrow>
            let (ok, s1) = os_new s in
            if \<not> ok then Ret (- ENOMEM, info, s1, e1)
            else obind (fetch_runtimes (length devices) [] ((name, devices) # others) s1) (\<lambda>(ret, rs, s2).
              if ret < 0 then Ret (ret, info, s2, e1) else update rs s2)))"

section \<open>Copying given information\<close>

text \<open>The two loops of \<open>SetInfo\<close>; a null name is undefined. What is copied when an allocation fails is the second component.\<close>

fun copy_names :: "string option list \<Rightarrow> string option list \<Rightarrow> os \<Rightarrow> (bool \<times> string option list \<times> os) outcome" where
  "copy_names ds [] s = Ret (True, ds, s)"
| "copy_names ds (name # names) s =
    (if name = None then Undefined
     else let (ok, s1) = os_new s in
       if \<not> ok then Ret (False, ds, s1) else copy_names (ds @ [name]) names s1)"

fun copy_runtimes :: "runtime_info list \<Rightarrow> runtime_info list \<Rightarrow> os \<Rightarrow> (bool \<times> runtime_info list \<times> os) outcome" where
  "copy_runtimes rs [] s = Ret (True, rs, s)"
| "copy_runtimes rs (r # others) s =
    (if ri_name r = None then Undefined
     else let (ok, s1) = os_new s in
     if \<not> ok then Ret (False, rs, s1)
     else let (ok, s2) = os_new s1 in
     if \<not> ok then Ret (False, rs @ [\<lparr>ri_name = ri_name r, ri_devices = None\<rparr>], s2)
     else obind (copy_names [] (case ri_devices r of None \<Rightarrow> [] | Some ds \<Rightarrow> ds) s2) (\<lambda>(ok, ds, s3).
       let r' = \<lparr>ri_name = ri_name r, ri_devices = Some ds\<rparr> in
       if \<not> ok then Ret (False, rs @ [r'], s3) else copy_runtimes (rs @ [r']) others s3))"

text \<open>
  \<open>SetInfo\<close> up to the new copy; the result has the copy, or the error. The port may be 0 for a server only.
\<close>

definition copy_info :: "bool \<Rightarrow> nn_info option \<Rightarrow> os \<Rightarrow> ((int + nn_info) \<times> os) outcome" where
  "copy_info isServer info s =
    (case info of
      None \<Rightarrow> Ret (Inl (- EINVAL), s)
    | Some i \<Rightarrow>
        if ni_host i = None then Ret (Inl (- EINVAL), s)
        else if ni_port i = 0 \<and> \<not> isServer then Ret (Inl (- EINVAL), s)
        else let (ok, s1) = os_new s in
        if \<not> ok then Ret (Inl (- ENOMEM), s1)
        else let (ok, s2) = os_new s1 in
        if \<not> ok then Ret (Inl (- ENOMEM), os_delete s2)
        else
          let new = \<lparr>ni_host = ni_host i, ni_port = ni_port i, ni_uuid = take 36 (ni_uuid i), ni_runtimes = None,
                ni_free_memory = 0, ni_free_storage = 0\<rparr>;
              finish = (\<lambda>rs s. Ret (Inr (new\<lparr>ni_runtimes := rs, ni_free_memory := ni_free_memory i,
                ni_free_storage := ni_free_storage i\<rparr>), s)) in
          (case ni_runtimes i of
            None \<Rightarrow> finish None s2
          | Some [] \<Rightarrow> finish None s2
          | Some (r # others) \<Rightarrow>
              let (ok, s3) = os_new s2 in
              if \<not> ok then Ret (Inl (- ENOMEM), ResetInfo (Some new) s3)
              else obind (copy_runtimes [] (r # others) s3) (\<lambda>(ok, rs, s4).
                if \<not> ok then Ret (Inl (- ENOMEM), ResetInfo (Some (new\<lparr>ni_runtimes := Some rs\<rparr>)) s4)
                else finish (Some rs) s4)))"

section \<open>Ledgers\<close>

fun names_blocks :: "string option list \<Rightarrow> int" where
  "names_blocks [] = 0"
| "names_blocks (n # ns) = block n + names_blocks ns"

definition runtime_blocks :: "runtime_info \<Rightarrow> int" where
  "runtime_blocks r = block (ri_name r) + (case ri_devices r of None \<Rightarrow> 0 | Some ds \<Rightarrow> 1 + names_blocks ds)"

fun runtimes_blocks :: "runtime_info list \<Rightarrow> int" where
  "runtimes_blocks [] = 0"
| "runtimes_blocks (r # rs) = runtime_blocks r + runtimes_blocks rs"

text \<open>All the blocks of an information.\<close>

definition nn_info_blocks :: "nn_info option \<Rightarrow> int" where
  "nn_info_blocks info =
    (case info of
      None \<Rightarrow> 0
    | Some i \<Rightarrow> 1 + block (ni_host i) + (case ni_runtimes i of None \<Rightarrow> 0 | Some rs \<Rightarrow> 1 + runtimes_blocks rs))"

lemma names_blocks_append [simp]: "names_blocks (xs @ ys) = names_blocks xs + names_blocks ys"
  by (induction xs) auto

lemma runtimes_blocks_append [simp]: "runtimes_blocks (xs @ ys) = runtimes_blocks xs + runtimes_blocks ys"
  by (induction xs) auto

lemma live_free_names [simp]: "live (free_names ns s) = live s - names_blocks ns" "open_fds (free_names ns s) = open_fds s"
  by (induction ns arbitrary: s) auto

lemma live_free_runtimes [simp]:
  "live (free_runtimes rs s) = live s - runtimes_blocks rs" "open_fds (free_runtimes rs s) = open_fds s"
  by (induction rs arbitrary: s) (auto simp: runtime_blocks_def block_def Let_def split: option.split)

lemma live_ResetRuntime [simp]:
  "live (ResetRuntime rs s) = live s - (case rs of None \<Rightarrow> 0 | Some rs \<Rightarrow> 1 + runtimes_blocks rs)"
  "open_fds (ResetRuntime rs s) = open_fds s"
  by (auto simp: ResetRuntime_def block_def split: option.split)

lemma live_ResetInfo [simp]:
  "live (ResetInfo info s) = live s - nn_info_blocks info" "open_fds (ResetInfo info s) = open_fds s"
  by (auto simp: ResetInfo_def nn_info_blocks_def split: option.split)

section \<open>Properties\<close>

text \<open>Information without null names, and what a copy of it is.\<close>

definition names_ok :: "runtime_info \<Rightarrow> bool" where
  "names_ok r \<longleftrightarrow> ri_name r \<noteq> None \<and> list_all (\<lambda>n. n \<noteq> None) (case ri_devices r of None \<Rightarrow> [] | Some ds \<Rightarrow> ds)"

definition info_ok :: "nn_info \<Rightarrow> bool" where
  "info_ok i \<longleftrightarrow> list_all names_ok (case ni_runtimes i of None \<Rightarrow> [] | Some rs \<Rightarrow> rs)"

definition copied_runtime :: "runtime_info \<Rightarrow> runtime_info" where
  "copied_runtime r = \<lparr>ri_name = ri_name r, ri_devices = Some (case ri_devices r of None \<Rightarrow> [] | Some ds \<Rightarrow> ds)\<rparr>"

definition copied_info :: "nn_info \<Rightarrow> nn_info" where
  "copied_info i = i\<lparr>ni_uuid := take 36 (ni_uuid i),
    ni_runtimes := (case ni_runtimes i of None \<Rightarrow> None | Some rs \<Rightarrow> if rs = [] then None else Some (map copied_runtime rs))\<rparr>"

lemma copy_names_ledger:
  assumes "list_all (\<lambda>n. n \<noteq> None) names"
  shows "\<exists>ok ds' s'. copy_names ds names s = Ret (ok, ds', s') \<and> open_fds s' = open_fds s
    \<and> live s' = live s + names_blocks ds' - names_blocks ds \<and> (ok \<longrightarrow> ds' = ds @ names)"
  using assms
proof (induction names arbitrary: ds s)
  case (Cons name names)
  obtain ok s1 where 1: "os_new s = (ok, s1)" by fastforce
  note l = os_new_resources [OF 1]
  show ?case
  proof (cases ok)
    case True
    from Cons.IH [of "ds @ [name]" s1] Cons.prems 1 l True show ?thesis by (auto simp: block_def)
  next
    case False
    with Cons.prems 1 l show ?thesis by auto
  qed
qed auto

lemma copy_runtimes_ledger:
  assumes "list_all names_ok new"
  shows "\<exists>ok rs' s'. copy_runtimes rs new s = Ret (ok, rs', s') \<and> open_fds s' = open_fds s
    \<and> live s' = live s + runtimes_blocks rs' - runtimes_blocks rs \<and> (ok \<longrightarrow> rs' = rs @ map copied_runtime new)"
  using assms
proof (induction new arbitrary: rs s)
  case (Cons r new)
  have r: "ri_name r \<noteq> None" "list_all (\<lambda>n. n \<noteq> None) (case ri_devices r of None \<Rightarrow> [] | Some ds \<Rightarrow> ds)"
    using Cons.prems by (simp_all add: names_ok_def)
  obtain ok1 s1 where 1: "os_new s = (ok1, s1)" by fastforce
  obtain ok2 s2 where 2: "os_new s1 = (ok2, s2)" by fastforce
  note l = os_new_resources [OF 1] os_new_resources [OF 2]
  obtain ok3 ds s3 where 3: "copy_names [] (case ri_devices r of None \<Rightarrow> [] | Some ds \<Rightarrow> ds) s2 = Ret (ok3, ds, s3)"
      "open_fds s3 = open_fds s2" "live s3 = live s2 + names_blocks ds"
      "ok3 \<longrightarrow> ds = (case ri_devices r of None \<Rightarrow> [] | Some ds \<Rightarrow> ds)"
    using copy_names_ledger [OF r(2), of "[]" s2] by auto
  show ?case
  proof (cases "ok1 \<and> ok2 \<and> ok3")
    case True
    let ?r = "\<lparr>ri_name = ri_name r, ri_devices = Some ds\<rparr>"
    have step: "copy_runtimes rs (r # new) s = copy_runtimes (rs @ [?r]) new s3" using 1 2 3(1) r(1) True by auto
    have "?r = copied_runtime r" using 3(4) True by (simp add: copied_runtime_def)
    moreover have "live s3 = live s + runtime_blocks ?r" "open_fds s3 = open_fds s"
      using l 3(2,3) r(1) True by (auto simp: runtime_blocks_def block_def)
    ultimately show ?thesis using Cons.IH [of "rs @ [?r]" s3] Cons.prems step by auto
  next
    case False
    with 1 2 3 l r(1) show ?thesis
      by (cases ok1; cases ok2) (auto simp: runtime_blocks_def block_def)
  qed
qed auto

lemma copy_info_ledger:
  assumes "info_ok i"
  shows "\<exists>res s'. copy_info isServer (Some i) s = Ret (res, s') \<and> open_fds s' = open_fds s \<and>
    (case res of
      Inl ret \<Rightarrow> live s' = live s
        \<and> (ret = - ENOMEM \<or> ret = - EINVAL \<and> (ni_host i = None \<or> ni_port i = 0 \<and> \<not> isServer))
    | Inr j \<Rightarrow> j = copied_info i \<and> live s' = live s + nn_info_blocks (Some j))"
proof (cases "ni_host i = None \<or> ni_port i = 0 \<and> \<not> isServer")
  case True
  then show ?thesis by (auto simp: copy_info_def)
next
  case False
  then obtain host where host: "ni_host i = Some host" by auto
  obtain ok1 s1 where 1: "os_new s = (ok1, s1)" by fastforce
  obtain ok2 s2 where 2: "os_new s1 = (ok2, s2)" by fastforce
  obtain ok3 s3 where 3: "os_new s2 = (ok3, s3)" by fastforce
  note l = os_new_resources [OF 1] os_new_resources [OF 2] os_new_resources [OF 3]
  show ?thesis
  proof (cases "ok1 \<and> ok2")
    case False
    then show ?thesis using 1 2 l host \<open>\<not> (ni_host i = None \<or> _)\<close> by (cases ok1) (auto simp: copy_info_def Let_def)
  next
    case ok: True
    show ?thesis
    proof (cases "ni_runtimes i = None \<or> ni_runtimes i = Some []")
      case True
      then show ?thesis
        using 1 2 l host ok \<open>\<not> (ni_host i = None \<or> _)\<close>
        by (auto simp: copy_info_def Let_def copied_info_def nn_info_blocks_def block_def)
    next
      case runtimes: False
      then obtain r rs where rs: "ni_runtimes i = Some (r # rs)" by (cases "ni_runtimes i"; cases "the (ni_runtimes i)") auto
      then have "list_all names_ok (r # rs)" using assms by (simp add: info_ok_def)
      from copy_runtimes_ledger [OF this, of "[]" s3] obtain ok4 rs' s4 where 4: "copy_runtimes [] (r # rs) s3 = Ret (ok4, rs', s4)"
          "open_fds s4 = open_fds s3" "live s4 = live s3 + runtimes_blocks rs'" "ok4 \<longrightarrow> rs' = map copied_runtime (r # rs)" by auto
      show ?thesis
        using 1 2 3 4 l host ok rs \<open>\<not> (ni_host i = None \<or> _)\<close>
        by (cases ok3; cases ok4)
          (simp_all add: copy_info_def Let_def copied_info_def nn_info_blocks_def block_def del: copy_runtimes.simps)
    qed
  qed
qed

lemma fetch_devices_ledger:
  assumes "length ds + length names \<le> n"
  shows "\<exists>ok ds' s'. fetch_devices n ds names s = Ret (ok, ds', s') \<and> open_fds s' = open_fds s
    \<and> live s' = live s + names_blocks ds' - names_blocks ds \<and> (ok \<longrightarrow> ds' = ds @ map Some names)"
  using assms
proof (induction names arbitrary: ds s)
  case (Cons name names)
  obtain ok s1 where 1: "os_new s = (ok, s1)" by fastforce
  note l = os_new_resources [OF 1]
  show ?case
  proof (cases ok)
    case True
    from Cons.IH [of "ds @ [Some name]" s1] Cons.prems 1 l True show ?thesis by (auto simp: block_def)
  next
    case False
    with Cons.prems 1 l show ?thesis by auto
  qed
qed auto

text \<open>The runtimes of a response as the client keeps them.\<close>

definition fetched_runtime :: "string \<times> string list \<Rightarrow> runtime_info" where
  "fetched_runtime r =
    \<lparr>ri_name = Some (fst r), ri_devices = (if snd r = [] then None else Some (map Some (snd r)))\<rparr>"

lemma fetch_runtimes_ledger:
  assumes "list_all (\<lambda>r. length (snd r) \<le> n) new"
  shows "\<exists>ret r s'. fetch_runtimes n rs new s = Ret (ret, r, s') \<and> open_fds s' = open_fds s \<and>
    (ret = 0 \<and> r = Some (rs @ map fetched_runtime new) \<and> live s' = live s + runtimes_blocks (map fetched_runtime new)
     \<or> ret = - ENOMEM \<and> live s' = live s - 1 - runtimes_blocks rs)"
  using assms
proof (induction new arbitrary: rs s)
  case (Cons x new)
  obtain name devices where x: "x = (name, devices)" by fastforce
  obtain ok1 s1 where 1: "os_new s = (ok1, s1)" by fastforce
  obtain ok2 s2 where 2: "os_new s1 = (ok2, s2)" by fastforce
  note l = os_new_resources [OF 1] os_new_resources [OF 2]
  have len: "length devices \<le> n" "list_all (\<lambda>r. length (snd r) \<le> n) new" using Cons.prems x by simp_all
  obtain ok3 ds s3 where 3: "fetch_devices n [] devices s2 = Ret (ok3, ds, s3)" "open_fds s3 = open_fds s2"
      "live s3 = live s2 + names_blocks ds" "ok3 \<longrightarrow> ds = map Some devices"
    using fetch_devices_ledger [of "[]" devices n s2] len(1) by auto
  have more: "\<exists>ret r s'. fetch_runtimes n (rs @ [fetched_runtime x]) new t = Ret (ret, r, s') \<and> open_fds s' = open_fds s \<and>
      (ret = 0 \<and> r = Some (rs @ map fetched_runtime (x # new)) \<and> live s' = live s + runtimes_blocks (map fetched_runtime (x # new))
       \<or> ret = - ENOMEM \<and> live s' = live s - 1 - runtimes_blocks rs)"
    if "open_fds t = open_fds s" "live t = live s + runtime_blocks (fetched_runtime x)" for t
    using Cons.IH [OF len(2), of "rs @ [fetched_runtime x]" t] that by auto
  show ?case
  proof (cases "ok1 \<and> (devices = [] \<or> ok2 \<and> ok3)")
    case True
    let ?t = "if devices = [] then s1 else s3"
    have "fetch_runtimes n rs (x # new) s = fetch_runtimes n (rs @ [fetched_runtime x]) new ?t"
      using 1 2 3(1,4) True x by (auto simp: fetched_runtime_def)
    moreover have "open_fds ?t = open_fds s" "live ?t = live s + runtime_blocks (fetched_runtime x)"
      using l 3 True x by (auto simp: fetched_runtime_def runtime_blocks_def block_def)
    ultimately show ?thesis using more [of ?t] by simp
  next
    case False
    with 1 2 3 l x show ?thesis by (cases ok1; cases ok2) auto
  qed
qed simp

lemma fetch_devices_overflow:
  assumes "faults s = []" and "length ds \<le> n" and "n < length ds + length names"
  shows "fetch_devices n ds names s = Undefined"
  using assms
proof (induction names arbitrary: ds s)
  case (Cons name names)
  obtain s1 where "os_new s = (True, s1)" "faults s1 = []"
    using Cons.prems(1) by (simp add: os_new_def pop_def)
  with Cons.IH [of s1 "ds @ [Some name]"] Cons.prems show ?case by simp
qed simp

lemma fetch_devices_calm:
  assumes "faults s = []" and "length ds + length names \<le> n"
  shows "\<exists>s'. fetch_devices n ds names s = Ret (True, ds @ map Some names, s') \<and> faults s' = []"
  using assms
proof (induction names arbitrary: ds s)
  case (Cons name names)
  obtain s1 where "os_new s = (True, s1)" "faults s1 = []"
    using Cons.prems(1) by (simp add: os_new_def pop_def)
  with Cons.IH [of s1 "ds @ [Some name]"] Cons.prems show ?case by simp
qed simp

lemma fetch_runtimes_overflow:
  assumes "faults s = []" and "\<not> list_all (\<lambda>r. length (snd r) \<le> n) new"
  shows "fetch_runtimes n rs new s = Undefined"
  using assms
proof (induction new arbitrary: rs s)
  case (Cons x new)
  obtain name devices where x: "x = (name, devices)" by fastforce
  obtain s1 where 1: "os_new s = (True, s1)" "faults s1 = []" using Cons.prems(1) by (simp add: os_new_def pop_def)
  obtain s2 where 2: "os_new s1 = (True, s2)" "faults s2 = []" using 1(2) by (simp add: os_new_def pop_def)
  show ?case
  proof (cases "length devices \<le> n")
    case True
    then obtain s3 where "fetch_devices n [] devices s2 = Ret (True, map Some devices, s3)" "faults s3 = []"
      using fetch_devices_calm [OF 2(2), of "[]"] by auto
    with 1 2 Cons True x show ?thesis by simp
  next
    case False
    moreover from this have "devices \<noteq> []" by auto
    ultimately show ?thesis using 1 2 x fetch_devices_overflow [OF 2(2), of "[]" n devices] by simp
  qed
qed simp

text \<open>
  C30. The information a device reports. The client allocates the array of devices of every runtime with the number of
  devices of the first one. When no runtime has more, every call returns whatever allocation fails: it either takes over
  all runtimes with their names, the memory and the storage, and frees what it had, or it fails and keeps what it had,
  and no block is lost. When a runtime has more devices than the first and the memory suffices, it writes behind
  the end of an array.
\<close>

theorem GetInfo_devices:
  assumes "env_rpc E (gc_peerId c) RpcGetInfo e = (r, e1)" and "rr_ok r" and "rr_runtimes r = first # others"
  shows "if list_all (\<lambda>x. length (snd x) \<le> length (snd first)) others
    then \<exists>ret info' s'. Client_GetInfo E c info (s, e) = Ret (ret, info', s', e1)
      \<and> live s' - nn_info_blocks (Some info') = live s - nn_info_blocks (Some info)
      \<and> (if ret = 0
         then info' = info\<lparr>ni_runtimes := Some (map fetched_runtime (first # others)),
           ni_free_memory := rr_free_memory r, ni_free_storage := rr_free_storage r\<rparr>
         else info' = info \<and> ret = - ENOMEM)
    else faults s \<noteq> [] \<or> Client_GetInfo E c info (s, e) = Undefined"
proof -
  obtain name devices where first: "first = (name, devices)" by fastforce
  obtain ok s1 where 1: "os_new s = (ok, s1)" by fastforce
  note l = os_new_resources [OF 1]
  have e: "ENOMEM > 0" by (simp add: errno_defs)
  have C: "Client_GetInfo E c info (s, e) = (if \<not> ok then Ret (- ENOMEM, info, s1, e1)
      else obind (fetch_runtimes (length devices) [] (first # others) s1) (\<lambda>(ret, rs, s2).
        if ret < 0 then Ret (ret, info, s2, e1)
        else Ret (0, info\<lparr>ni_runtimes := rs, ni_free_memory := rr_free_memory r, ni_free_storage := rr_free_storage r\<rparr>,
          ResetRuntime (ni_runtimes info) s2, e1)))"
    using assms 1 by (simp add: Client_GetInfo_def first Let_def)
  show ?thesis
  proof (cases "list_all (\<lambda>x. length (snd x) \<le> length (snd first)) others")
    case True
    then have "list_all (\<lambda>x. length (snd x) \<le> length devices) (first # others)" by (simp add: first)
    from fetch_runtimes_ledger [OF this, of "[]" s1] obtain ret rs s2 where 2:
        "fetch_runtimes (length devices) [] (first # others) s1 = Ret (ret, rs, s2)"
        "ret = 0 \<and> rs = Some (map fetched_runtime (first # others)) \<and> live s2 = live s1 + runtimes_blocks (map fetched_runtime (first # others))
         \<or> ret = - ENOMEM \<and> live s2 = live s1 - 1" by auto
    show ?thesis
    proof (cases "ok \<and> ret = 0")
      case ok: True
      then have "Client_GetInfo E c info (s, e) = Ret (0, info\<lparr>ni_runtimes := rs, ni_free_memory := rr_free_memory r,
          ni_free_storage := rr_free_storage r\<rparr>, ResetRuntime (ni_runtimes info) s2, e1)" using C 2(1) by simp
      with True ok 2(2) l e show ?thesis by (auto simp: nn_info_blocks_def split: option.split)
    next
      case False
      then have "Client_GetInfo E c info (s, e) = Ret (- ENOMEM, info, if ok then s2 else s1, e1)" using C 2 e by auto
      with True False 2(2) l e show ?thesis by (cases ok) auto
    qed
  next
    case False
    have "Client_GetInfo E c info (s, e) = Undefined" if "faults s = []"
    proof -
      have "ok" "faults s1 = []" using 1 that by (auto simp: os_new_def pop_def)
      with fetch_runtimes_overflow [of s1 "length devices" "first # others" "[]"] False first show ?thesis by (simp add: C)
    qed
    with False show ?thesis by auto
  qed
qed

text \<open>A device with two runtimes; the second has the two devices of the first, or one more.\<close>

definition ex_device :: "string list \<Rightarrow> unit environment" where
  "ex_device devices = \<lparr>env_stub = \<lambda>a r e. (True, e),
    env_rpc = \<lambda>i c e. (\<lparr>rr_ok = True, rr_status = 0, rr_id = ''id'', rr_infos = [], rr_ports = (7, 8),
      rr_runtimes = [(''tflite'', [''cpu'', ''gpu'']), (''snpe'', devices)], rr_free_memory = 64, rr_free_storage = 32\<rparr>, e),
    env_gst = \<lambda>c e. (ret_only 0, e), env_auth = \<lambda>p c e. ((0, None), e), env_server = \<lambda>a e. (True, e),
    env_file = \<lambda>f e. (0, e), env_random = \<lambda>e. (41, e), env_junk = []\<rparr>"

definition ex_info :: nn_info where
  "ex_info = \<lparr>ni_host = Some ''h'', ni_port = 5, ni_uuid = ''u'', ni_runtimes = None, ni_free_memory = 0, ni_free_storage = 0\<rparr>"

lemma GetInfo_devices_witness:
  "Client_GetInfo (ex_device [''a'', ''b'', ''c'']) \<lparr>gc_peerId = ''id'', gc_gst = None\<rparr> ex_info
      (\<lparr>open_fds = {}, next_fd = 0, live = 2, faults = []\<rparr>, ()) = Undefined"
  using GetInfo_devices [of "ex_device [''a'', ''b'', ''c'']" "\<lparr>gc_peerId = ''id'', gc_gst = None\<rparr>" "()" _ "()"
      "(''tflite'', [''cpu'', ''gpu''])" "[(''snpe'', [''a'', ''b'', ''c''])]" ex_info "\<lparr>open_fds = {}, next_fd = 0, live = 2, faults = []\<rparr>"]
  by (simp add: ex_device_def)

end
