(* ===== verification/Peer_Config.thy ===== *)
theory Peer_Config
  imports Peer_Client
begin

text \<open>
  The configuration of a client peer in \<^verbatim>\<open>libbeyond-peer_nn/src/peer.cc\<close>: the descriptions of the pipelines for an image or a
  video (\<open>ConfigureImageInput\<close>, \<open>ConfigureVideoInput\<close>) and the copies of a configuration (\<open>DuplicateConfig\<close>, \<open>FreeConfig\<close>).
\<close>

section \<open>Text\<close>

text \<open>An int as \<^verbatim>\<open>operator<<\<close> and \<^verbatim>\<open>std::to_string\<close> write it.\<close>

fun digits :: "nat \<Rightarrow> string" where
  "digits n = (if n < 10 then [char_of (48 + n)] else digits (n div 10) @ [char_of (48 + n mod 10)])"

declare digits.simps [simp del]

definition to_string :: "int \<Rightarrow> string" where
  "to_string i = (if i < 0 then ''-'' @ digits (nat (- i)) else digits (nat i))"

text \<open>\<^verbatim>\<open>strstr\<close>: whether a text occurs in another one.\<close>

fun strstr :: "string \<Rightarrow> string \<Rightarrow> bool" where
  "strstr [] needle = (needle = [])"
| "strstr (c # cs) needle = (take (length needle) (c # cs) = needle \<or> strstr cs needle)"

section \<open>Pipelines\<close>

record frame_config =
  fc_format :: string
  fc_width :: int
  fc_height :: int
  fc_convert_format :: string
  fc_convert_width :: int
  fc_convert_height :: int
  fc_transform_mode :: "string option"
  fc_transform_option :: "string option"

text \<open>The part of the server's description after the decoder; both functions end with it.\<close>

definition server_format :: "frame_config \<Rightarrow> string" where
  "server_format f =
    (if fc_width f \<noteq> fc_convert_width f \<or> fc_height f \<noteq> fc_convert_height f then '' ! videoscale '' else [])
    @ '' ! video/x-raw,format='' @ fc_convert_format f
    @ '',width='' @ to_string (fc_convert_width f)
    @ '',height='' @ to_string (fc_convert_height f)
    @ '' ! tensor_converter''
    @ (case (fc_transform_mode f, fc_transform_option f) of
        (Some mode, Some option) \<Rightarrow> '' ! tensor_transform mode='' @ mode @ '' option='' @ option
      | _ \<Rightarrow> [])"

text \<open>The descriptions of the client and of the server.\<close>

definition ConfigureImageInput :: "frame_config \<Rightarrow> string \<times> string" where
  "ConfigureImageInput f =
    (''video/x-raw,format='' @ fc_format f @ '',width='' @ to_string (fc_width f)
       @ '',height='' @ to_string (fc_height f) @ '',framerate=0/1''
       @ (if strstr (fc_format f) ''I420'' then '' ! jpegenc''
          else '' ! videoconvert ! video/x-raw,format=I420 ! jpegenc''),
     ''jpegdec ! videoconvert'' @ server_format f)"

definition ConfigureVideoInput :: "frame_config \<Rightarrow> int \<Rightarrow> string \<times> string" where
  "ConfigureVideoInput f fps =
    (''video/x-raw,format='' @ fc_format f @ '',width='' @ to_string (fc_width f)
       @ '',height='' @ to_string (fc_height f) @ '',framerate='' @ to_string fps @ ''/1''
       @ (if strstr (fc_format f) ''I420'' then '' ! vp8enc''
          else '' ! videoconvert ! video/x-raw,format=I420 ! vp8enc''),
     ''vp8dec ! videoconvert'' @ server_format f)"

section \<open>Copies of a configuration\<close>

record peer_config =
  pc_client :: client_description
  pc_server :: server_description

text \<open>The strings of a configuration in the order in which they are copied.\<close>

definition config_strings :: "peer_config \<Rightarrow> string option list" where
  "config_strings c =
    [cd_preprocessing (pc_client c), cd_postprocessing (pc_client c),
     sd_preprocessing (pc_server c), sd_postprocessing (pc_server c),
     sd_framework (pc_server c), sd_accel (pc_server c)]"

fun free_strings :: "string option list \<Rightarrow> os \<Rightarrow> os" where
  "free_strings [] s = s"
| "free_strings (x # xs) s = free_strings xs (free_block x s)"

definition FreeConfig :: "peer_config option \<Rightarrow> os \<Rightarrow> os" where
  "FreeConfig config s = (case config of None \<Rightarrow> s | Some c \<Rightarrow> os_delete (free_strings (config_strings c) s))"

text \<open>The \<^verbatim>\<open>strdup\<close>s of \<open>DuplicateConfig\<close>: whether all succeed, and what was copied up to the failing one.\<close>

fun dup_strings :: "string option list \<Rightarrow> string option list \<Rightarrow> os \<Rightarrow> bool \<times> string option list \<times> os" where
  "dup_strings xs [] s = (True, xs, s)"
| "dup_strings xs (x # ys) s =
    (let (ok, s1) = (case x of None \<Rightarrow> (True, s) | Some _ \<Rightarrow> os_new s) in
     if \<not> ok then (False, xs, s1) else dup_strings (xs @ [x]) ys s1)"

text \<open>The copy has one input type, that of the client.\<close>

definition copied_config :: "peer_config \<Rightarrow> peer_config" where
  "copied_config c = c\<lparr>pc_server := (pc_server c)\<lparr>sd_input_type := cd_input_type (pc_client c)\<rparr>\<rparr>"

definition DuplicateConfig :: "peer_config option \<Rightarrow> os \<Rightarrow> peer_config option \<times> os" where
  "DuplicateConfig config s =
    (case config of
      None \<Rightarrow> (None, s)
    | Some c \<Rightarrow>
        let (ok, s1) = os_new s in
        if \<not> ok then (None, s1)
        else let (ok, copied, s2) = dup_strings [] (config_strings c) s1 in
          if ok then (Some (copied_config c), s2) else (None, os_delete (free_strings copied s2)))"

section \<open>Properties\<close>

fun strings_blocks :: "string option list \<Rightarrow> int" where
  "strings_blocks [] = 0"
| "strings_blocks (x # xs) = block x + strings_blocks xs"

definition config_blocks :: "peer_config option \<Rightarrow> int" where
  "config_blocks config = (case config of None \<Rightarrow> 0 | Some c \<Rightarrow> 1 + strings_blocks (config_strings c))"

lemma strings_blocks_append [simp]: "strings_blocks (xs @ ys) = strings_blocks xs + strings_blocks ys"
  by (induction xs) auto

lemma live_free_strings [simp]: "live (free_strings xs s) = live s - strings_blocks xs" "open_fds (free_strings xs s) = open_fds s"
  by (induction xs arbitrary: s) auto

lemma live_FreeConfig [simp]: "live (FreeConfig c s) = live s - config_blocks c" "open_fds (FreeConfig c s) = open_fds s"
  by (auto simp: FreeConfig_def config_blocks_def split: option.split)

lemma dup_strings_ledger:
  assumes "dup_strings xs ys s = (ok, zs, s')"
  shows "open_fds s' = open_fds s \<and> live s' = live s + strings_blocks zs - strings_blocks xs \<and> (ok \<longrightarrow> zs = xs @ ys)"
  using assms
proof (induction ys arbitrary: xs s)
  case (Cons y ys)
  obtain ok1 s1 where 1: "(case y of None \<Rightarrow> (True, s) | Some _ \<Rightarrow> os_new s) = (ok1, s1)" by fastforce
  have l: "open_fds s1 = open_fds s" "live s1 = live s + (if ok1 then block y else 0)"
    using 1 os_new_resources [of s ok1 s1] by (auto simp: block_def split: option.splits)
  show ?case
  proof (cases ok1)
    case True
    with Cons.prems 1 have "dup_strings (xs @ [y]) ys s1 = (ok, zs, s')" by simp
    from Cons.IH [OF this] l True show ?thesis by auto
  next
    case False
    with Cons.prems 1 l show ?thesis by simp
  qed
qed auto

lemma config_strings_copied [simp]: "config_strings (copied_config c) = config_strings c"
  by (simp add: config_strings_def copied_config_def)

lemma DuplicateConfig_ledger:
  assumes "DuplicateConfig config s = (r, s')"
  shows "open_fds s' = open_fds s \<and> live s' = live s + config_blocks r \<and> (r = None \<or> r = map_option copied_config config)"
proof (cases config)
  case (Some c)
  obtain ok s1 where 1: "os_new s = (ok, s1)" by fastforce
  obtain ok2 zs s2 where 2: "dup_strings [] (config_strings c) s1 = (ok2, zs, s2)" by (cases "dup_strings [] (config_strings c) s1")
  note l = os_new_resources [OF 1] dup_strings_ledger [OF 2]
  have "(r, s') = (if \<not> ok then (None, s1) else if ok2 then (Some (copied_config c), s2) else (None, os_delete (free_strings zs s2)))"
    using assms 1 2 by (auto simp: DuplicateConfig_def Some)
  then show ?thesis
    using l by (cases ok; cases ok2) (simp_all add: Some config_blocks_def)
qed (use assms in \<open>simp add: DuplicateConfig_def config_blocks_def\<close>)

end
