(* ===== verification/Peer_NN.thy ===== *)
theory Peer_NN
  imports Peer_Info Peer_Config Inference_Remote
begin

text \<open>
  \<^verbatim>\<open>libbeyond-peer_nn/src/peer.cc\<close> and \<^verbatim>\<open>peer_event_object.cc\<close>: the peer module. A peer is the client or the server end
  of a connection; a client has a \<open>grpc_client\<close> (\<open>Peer_Client\<close>) while it is activated. The information about the device
  (\<open>Peer_Info\<close>) is set by the application and announced to the handlers; a configuration (\<open>Peer_Config\<close>) that comes before
  the activation is reserved and sent then.
\<close>

section \<open>The event object of a peer\<close>

definition PeerEvent_Create :: "os \<Rightarrow> event_pipe option \<times> os" where
  "PeerEvent_Create s =
    (let (ret, s1, rd, wr) = os_pair s in
     if ret < 0 then (None, s1)
     else let (ok, s2) = os_new s1 in
     if \<not> ok then (None, close_fd wr (close_fd rd s2))
     else (Some \<lparr>ep_handle = rd, ep_publish = wr\<rparr>, s2))"

definition PeerEvent_Destroy :: "event_pipe \<Rightarrow> os \<Rightarrow> os" where
  "PeerEvent_Destroy p s = os_delete (close_fd (ep_publish p) (close_fd (ep_handle p) s))"

definition PeerEvent_Publish :: "evtype \<Rightarrow> ptr \<Rightarrow> published \<Rightarrow> int \<times> published" where
  "PeerEvent_Publish type data q =
    (let (ok, q1) = allocation q in
     if \<not> ok then (- ENOMEM, q1) else PublishEventData (Some \<lparr>ed_type = type, ed_data = data\<rparr>) q1)"

text \<open>The fetcher: a read error becomes an ERROR event of its own.\<close>

definition peer_fetcher :: "(published \<times> 'u) event_fetcher" where
  "peer_fetcher type data s =
    (case s of (q, u) \<Rightarrow>
      let failed = pq_fault q \<noteq> 0;
          q1 = (if failed then pq_step q else (pq_step q)\<lparr>pq_events := tl (pq_events q)\<rparr>) in
      (case (if failed then None else hd (pq_events q)) of
        None \<Rightarrow>
          let (ok, q2) = allocation q1 in
          if \<not> ok then (RETURN_CANCEL, data, q2, u)
          else (RETURN_RENEW, Some \<lparr>ed_type = EVT_ERROR, ed_data = nullptr\<rparr>, q2, u)
      | Some ed \<Rightarrow> (RETURN_RENEW, Some (ed\<lparr>ed_type := ed_type ed OR type\<rparr>), q1, u)))"

definition PeerEvent_FetchEventData ::
    "(published \<times> 'u) event_handler \<Rightarrow> event_data option \<Rightarrow> event_object \<Rightarrow> published \<times> 'u \<Rightarrow>
     (int \<times> event_data option \<times> event_object \<times> published \<times> 'u) outcome" where
  "PeerEvent_FetchEventData cb data eo s = FetchEventData (Some peer_fetcher) cb (pipe_ready (fst s)) data eo s"

section \<open>State\<close>

text \<open>A server is known by whether it runs. The client has the framework and the accelerator it was created for.\<close>

datatype peer_context =
    ServerContext bool string
  | ClientContext "grpc_client option" string string

record nn_peer =
  np_events :: inference_events
  np_context :: peer_context
  np_info :: "nn_info option"
  np_reserved :: "peer_config option"
  np_authenticator :: ptr
  np_caAuthenticator :: ptr

section \<open>Life cycle\<close>

text \<open>
  An allocation of the context that fails throws an exception that nobody catches: \<open>Aborted\<close>. The reserved configuration of a
  client has the framework and the accelerator; that the copy of the accelerator may fail is not checked.
\<close>

definition Peer_NN_Create ::
    "bool \<Rightarrow> string option \<Rightarrow> string option \<Rightarrow> string option \<Rightarrow> os \<Rightarrow> (nn_peer option \<times> os) outcome" where
  "Peer_NN_Create isServer framework accel storagePath s =
    (let (ok, s1) = os_new s in
     if \<not> ok then Ret (None, s1)
     else case PeerEvent_Create s1 of
       (None, s2) \<Rightarrow> Ret (None, os_delete s2)
     | (Some p, s2) \<Rightarrow>
         let (ok, s3) = os_new s2 in
         if \<not> ok then Aborted
         else let peer = (\<lambda>context reserved. \<lparr>np_events = events_of p, np_context = context, np_info = None,
                np_reserved = reserved, np_authenticator = nullptr, np_caAuthenticator = nullptr\<rparr>) in
         if isServer
         then Ret (Some (peer (ServerContext False (case storagePath of None \<Rightarrow> [] | Some x \<Rightarrow> x)) None), s3)
         else case framework of
           None \<Rightarrow> Ret (Some (peer (ClientContext None [] []) None), s3)
         | Some fw \<Rightarrow>
             let context = ClientContext None fw (case accel of None \<Rightarrow> [] | Some x \<Rightarrow> x); (ok, s4) = os_new s3 in
             if \<not> ok then Ret (None, os_delete (os_delete (PeerEvent_Destroy p s4)))
             else let (fw_ok, s5) = os_new s4;
                  (accel', s6) = (case accel of
                      None \<Rightarrow> (None, s5)
                    | Some x \<Rightarrow> let (ok, t) = os_new s5 in (if ok then Some x else None, t));
                  config = (\<lambda>fw. \<lparr>pc_client = \<lparr>cd_input_type = 0, cd_preprocessing = None, cd_postprocessing = None\<rparr>,
                    pc_server = \<lparr>sd_input_type = 0, sd_preprocessing = None, sd_postprocessing = None,
                      sd_framework = fw, sd_accel = accel'\<rparr>\<rparr>) in
             if \<not> fw_ok
             then Ret (None, os_delete (os_delete (PeerEvent_Destroy p (FreeConfig (Some (config None)) s6))))
             else Ret (Some (peer context (Some (config (Some fw)))), s6))"

text \<open>\<open>Destroy\<close> frees the event object, the information, the context and the peer. It does not look at the client, the server and the reserved configuration.\<close>

definition Peer_NN_Destroy :: "nn_peer \<Rightarrow> os \<Rightarrow> os" where
  "Peer_NN_Destroy peer s =
    os_delete (os_delete (ResetInfo (np_info peer) (PeerEvent_Destroy (ie_pipe (np_events peer)) s)))"

section \<open>Configuration\<close>

datatype peer_option =
    OptAuthenticator ptr
  | OptCAAuthenticator ptr
  | OptImage frame_config
  | OptVideo frame_config int
  | OptOtherInput
  | OptPlugin peer_config

definition input_config :: "int \<Rightarrow> string \<times> string \<Rightarrow> string \<Rightarrow> string \<Rightarrow> peer_config" where
  "input_config type formats framework accel =
    \<lparr>pc_client = \<lparr>cd_input_type = type, cd_preprocessing = Some (fst formats), cd_postprocessing = None\<rparr>,
     pc_server = \<lparr>sd_input_type = type, sd_preprocessing = Some (snd formats @ '' !''), sd_postprocessing = None,
       sd_framework = Some (if framework = [] then ''tensorflow-lite'' else framework), sd_accel = Some accel\<rparr>\<rparr>"

text \<open>The configuration that \<open>ConfigureInput\<close> makes of the options, with its two temporary strings; an error code otherwise.\<close>

definition configured :: "string \<Rightarrow> string \<Rightarrow> peer_option \<Rightarrow> os \<Rightarrow> (int + peer_config \<times> bool) \<times> os" where
  "configured framework accel opt s =
    (case opt of
      OptPlugin config \<Rightarrow> (Inr (config, False), s)
    | OptImage f \<Rightarrow>
        let (ok, s1) = os_new s in
        if \<not> ok then (Inl (- ENOMEM), s1)
        else let (ok, s2) = os_new s1 in
        if \<not> ok then (Inl (- ENOMEM), os_delete s2)
        else (Inr (input_config 2 (ConfigureImageInput f) framework accel, True), s2)
    | OptVideo f fps \<Rightarrow>
        let (ok, s1) = os_new s in
        if \<not> ok then (Inl (- ENOMEM), s1)
        else let (ok, s2) = os_new s1 in
        if \<not> ok then (Inl (- ENOMEM), os_delete s2)
        else (Inr (input_config 1 (ConfigureVideoInput f fps) framework accel, True), s2)
    | _ \<Rightarrow> (Inl (- ENOTSUP), s))"

definition ConfigureInput ::
    "'e environment \<Rightarrow> peer_option \<Rightarrow> nn_peer \<Rightarrow> os \<times> 'e \<Rightarrow> (int \<times> nn_peer \<times> os \<times> 'e) outcome" where
  "ConfigureInput E opt peer w =
    (case np_context peer of
      ServerContext running storage \<Rightarrow> (case w of (s, e) \<Rightarrow> Ret (0, peer, s, e))
    | ClientContext grpc framework accel \<Rightarrow>
        (case w of (s, e) \<Rightarrow>
          case configured framework accel opt s of
            (Inl ret, s1) \<Rightarrow> Ret (ret, peer, s1, e)
          | (Inr (config, temporary), s1) \<Rightarrow>
              let cleanup = (\<lambda>s. if temporary then os_delete (os_delete s) else s) in
              (case grpc of
                None \<Rightarrow>
                  let (reserved, s2) = DuplicateConfig (Some config) s1 in
                  if reserved = None then Ret (0, peer, cleanup s2, e)
                  else Ret (0, peer\<lparr>np_reserved := reserved\<rparr>, cleanup (FreeConfig (np_reserved peer) s2), e)
              | Some c \<Rightarrow>
                  let (ret, e1) = Client_Configure E (pc_server config) c e in
                  if ret < 0 then Ret (ret, peer, cleanup s1, e1)
                  else if gc_gst c = None then Undefined
                  else let (r, e2) = env_gst E (GstConfigure (pc_client config)) e1 in
                    Ret (r_ret r, peer, cleanup s1, e2))))"

text \<open>None: null options, or a null object in them.\<close>

definition Peer_NN_Configure ::
    "'e environment \<Rightarrow> peer_option option \<Rightarrow> nn_peer \<Rightarrow> os \<times> 'e \<Rightarrow> (int \<times> nn_peer \<times> os \<times> 'e) outcome" where
  "Peer_NN_Configure E opt peer w =
    (case w of (s, e) \<Rightarrow>
      case opt of
        None \<Rightarrow> Ret (- EINVAL, peer, s, e)
      | Some (OptAuthenticator p) \<Rightarrow> Ret (0, peer\<lparr>np_authenticator := p\<rparr>, s, e)
      | Some (OptCAAuthenticator p) \<Rightarrow> Ret (0, peer\<lparr>np_caAuthenticator := p\<rparr>, s, e)
      | Some opt \<Rightarrow> ConfigureInput E opt peer (s, e))"

section \<open>Activation\<close>

text \<open>The keys: an error code, or the private key, the certificate and the root certificate (None: not asked for).\<close>

definition get_key :: "'e environment \<Rightarrow> ptr \<Rightarrow> key_id \<Rightarrow> 'e \<Rightarrow> (int + string) \<times> 'e" where
  "get_key E p key e =
    (let ((ret, data), e1) = env_auth E p (AuthKey key) e in
     if ret < 0 then (Inl ret, e1)
     else (case data of None \<Rightarrow> Inl (- EINVAL) | Some [] \<Rightarrow> Inl (- EINVAL) | Some d \<Rightarrow> Inr d, e1))"

definition activation_keys :: "'e environment \<Rightarrow> nn_peer \<Rightarrow> 'e \<Rightarrow> (int + string option \<times> string option) \<times> 'e" where
  "activation_keys E peer e =
    (let (certificate, e1) =
        (if np_authenticator peer = nullptr then (Inr None, e)
         else case get_key E (np_authenticator peer) KEY_PRIVATE e of
           (Inl ret, e1) \<Rightarrow> (Inl ret, e1)
         | (Inr _, e1) \<Rightarrow>
             (case get_key E (np_authenticator peer) KEY_CERTIFICATE e1 of
               (Inl ret, e2) \<Rightarrow> (Inl ret, e2)
             | (Inr c, e2) \<Rightarrow> (Inr (Some c), e2))) in
     case certificate of
       Inl ret \<Rightarrow> (Inl ret, e1)
     | Inr cert \<Rightarrow>
         if np_caAuthenticator peer = nullptr then (Inr (cert, None), e1)
         else (case get_key E (np_caAuthenticator peer) KEY_CERTIFICATE e1 of
             (Inl ret, e2) \<Rightarrow> (Inl (- EINVAL), e2)
           | (Inr ca, e2) \<Rightarrow> (Inr (cert, Some ca), e2)))"

text \<open>
  The client's part of \<open>Activate\<close>: connect, exchange the keys, send the reserved configuration. On every failure the client
  is destroyed. \<open>None\<close> for the client is the null pointer it is left with.
\<close>

definition activate_client ::
    "'e environment \<Rightarrow> nn_peer \<Rightarrow> nn_info \<Rightarrow> string \<Rightarrow> string option \<Rightarrow> os \<times> 'e \<Rightarrow>
     (int \<times> grpc_client option \<times> os \<times> 'e) outcome" where
  "activate_client E peer info address cert w =
    (case Client_Create E address cert w of
      (None, w1) \<Rightarrow> Ret (- EFAULT, None, w1)
    | (Some c, w1) \<Rightarrow>
        if (np_authenticator peer \<noteq> nullptr \<or> np_caAuthenticator peer \<noteq> nullptr) \<and> ni_uuid info = []
        then Ret (- EINVAL, None, Client_Destroy E c w1)
        else
          let auth = (if np_caAuthenticator peer \<noteq> nullptr then np_caAuthenticator peer else np_authenticator peer);
              (ret, c, w2) = Client_ExchangeKey E auth (ni_uuid info) c w1 in
          if ret < 0 then Ret (ret, None, Client_Destroy E c w2)
          else (case np_reserved peer of
              None \<Rightarrow> Ret (ret, Some c, w2)
            | Some config \<Rightarrow>
                let (s, e2) = w2; (ret, e3) = Client_Configure E (pc_server config) c e2 in
                if ret < 0 then Ret (ret, None, Client_Destroy E c (s, e3))
                else if gc_gst c = None then Undefined
                else let (r, e4) = env_gst E (GstConfigure (pc_client config)) e3 in
                  if r_ret r < 0 then Ret (r_ret r, None, Client_Destroy E c (s, e4))
                  else Ret (r_ret r, Some c, s, e4)))"

definition Peer_NN_Activate ::
    "'e environment \<Rightarrow> nn_peer \<Rightarrow> os \<times> 'e \<Rightarrow> (int \<times> nn_peer \<times> os \<times> 'e) outcome" where
  "Peer_NN_Activate E peer w =
    (case w of (s, e) \<Rightarrow>
      case np_info peer of
        None \<Rightarrow> Ret (- EINVAL, peer, s, e)
      | Some info \<Rightarrow>
          (case ni_host info of
            None \<Rightarrow> Undefined
          | Some host \<Rightarrow>
              let address = host @ '':'' @ to_string (uint (ni_port info)) in
              (case activation_keys E peer e of
                (Inl ret, e1) \<Rightarrow> Ret (ret, peer, s, e1)
              | (Inr (certificate, ca), e1) \<Rightarrow>
                  (case np_context peer of
                    ServerContext running storage \<Rightarrow>
                      if running then Ret (- EALREADY, peer, s, e1)
                      else let (ok, e2) = env_server E address e1 in
                        if \<not> ok then Ret (- EFAULT, peer, s, e2)
                        else Ret (0, peer\<lparr>np_context := ServerContext True storage\<rparr>, s, e2)
                  | ClientContext (Some c) framework accel \<Rightarrow> Ret (- EALREADY, peer, s, e1)
                  | ClientContext None framework accel \<Rightarrow>
                      let cert = (if np_caAuthenticator peer = nullptr then certificate else ca) in
                      obind (activate_client E peer info address cert (s, e1)) (\<lambda>(ret, c, s2, e2).
                        let peer' = peer\<lparr>np_context := ClientContext c framework accel\<rparr> in
                        if c = None then Ret (ret, peer', s2, e2)
                        else Ret (ret, peer'\<lparr>np_reserved := None\<rparr>, FreeConfig (np_reserved peer) s2, e2))))))"

definition Peer_NN_Deactivate :: "'e environment \<Rightarrow> nn_peer \<Rightarrow> os \<times> 'e \<Rightarrow> int \<times> nn_peer \<times> os \<times> 'e" where
  "Peer_NN_Deactivate E peer w =
    (case np_context peer of
      ServerContext running storage \<Rightarrow>
        if \<not> running then (- EILSEQ, peer, w) else (0, peer\<lparr>np_context := ServerContext False storage\<rparr>, w)
    | ClientContext None framework accel \<Rightarrow> (- EILSEQ, peer, w)
    | ClientContext (Some c) framework accel \<Rightarrow>
        (0, peer\<lparr>np_context := ClientContext None framework accel\<rparr>, Client_Destroy E c w))"

section \<open>Information\<close>

text \<open>\<open>SetInfo\<close>: the old information is freed once the new one is complete, and the handlers are told.\<close>

definition Peer_NN_SetInfo :: "nn_info option \<Rightarrow> nn_peer \<Rightarrow> os \<Rightarrow> (int \<times> nn_peer \<times> os) outcome" where
  "Peer_NN_SetInfo info peer s =
    (let isServer = (case np_context peer of ServerContext _ _ \<Rightarrow> True | _ \<Rightarrow> False) in
     obind (copy_info isServer info s) (\<lambda>(res, s1).
       case res of
         Inl ret \<Rightarrow> Ret (ret, peer, s1)
       | Inr new \<Rightarrow>
           let events = np_events peer;
               (ret, q) = PeerEvent_Publish (event_code PEER_INFO_UPDATED) nullptr (ie_queue events) in
           Ret (if ret < 0 then ret else 0, peer\<lparr>np_info := Some new, np_events := events\<lparr>ie_queue := q\<rparr>\<rparr>,
             ResetInfo (np_info peer) s1)))"

text \<open>
  \<open>GetInfo\<close> asks the device while the client is active; whether that worked is not looked at. Without information (which
  \<open>Activate\<close> does not allow) only a call that fails does not dereference null.
\<close>

definition no_info :: nn_info where
  "no_info = \<lparr>ni_host = None, ni_port = 0, ni_uuid = [], ni_runtimes = None, ni_free_memory = 0, ni_free_storage = 0\<rparr>"

definition Peer_NN_GetInfo ::
    "'e environment \<Rightarrow> nn_peer \<Rightarrow> os \<times> 'e \<Rightarrow> (nn_info option \<times> nn_peer \<times> os \<times> 'e) outcome" where
  "Peer_NN_GetInfo E peer w =
    (case (np_context peer, np_info peer) of
      (ClientContext (Some c) framework accel, Some info) \<Rightarrow>
        obind (Client_GetInfo E c info w) (\<lambda>(_, info', w'). Ret (Some info', peer\<lparr>np_info := Some info'\<rparr>, w'))
    | (ClientContext (Some c) framework accel, None) \<Rightarrow>
        obind (Client_GetInfo E c no_info w) (\<lambda>(ret, _, w'). if ret = 0 then Undefined else Ret (None, peer, w'))
    | _ \<Rightarrow> Ret (np_info peer, peer, w))"

section \<open>The inference methods\<close>

text \<open>
  Of a server every method is refused with ENOTSUP, of a client without a connection with EILSEQ. \<open>LoadModel\<close> sends the file
  when the device does not have it.
\<close>

definition Peer_NN_LoadModel ::
    "'e environment \<Rightarrow> string option \<Rightarrow> nn_peer \<Rightarrow> os \<times> 'e \<Rightarrow> (int \<times> nn_peer \<times> os \<times> 'e) outcome" where
  "Peer_NN_LoadModel E model peer w =
    (case np_context peer of
      ServerContext _ _ \<Rightarrow> Ret (- ENOTSUP, peer, w)
    | ClientContext grpc framework accel \<Rightarrow>
        (case (model, grpc) of
          (None, _) \<Rightarrow> Ret (- EINVAL, peer, w)
        | (Some m, None) \<Rightarrow> Ret (- EILSEQ, peer, w)
        | (Some m, Some c) \<Rightarrow>
            obind (Client_LoadModel E m c w) (\<lambda>(ret, c', w').
              let peer' = peer\<lparr>np_context := ClientContext (Some c') framework accel\<rparr> in
              if ret = - ENOENT then let (ret', w'') = Client_UploadModel E m c' w' in Ret (ret', peer', w'')
              else Ret (ret, peer', w'))))"

text \<open>The four methods for tensor information; a failing get leaves the caller's variables.\<close>

definition Peer_NN_GetTensorInfo ::
    "'e environment \<Rightarrow> bool \<Rightarrow> bool \<Rightarrow> nn_peer \<Rightarrow> os \<times> 'e \<Rightarrow>
     (int \<times> tensor_info list option \<times> nn_peer \<times> os \<times> 'e) outcome" where
  "Peer_NN_GetTensorInfo E nd isInput peer w =
    (case np_context peer of
      ServerContext _ _ \<Rightarrow> Ret (- ENOTSUP, None, peer, w)
    | ClientContext None framework accel \<Rightarrow> Ret (- EILSEQ, None, peer, w)
    | ClientContext (Some c) framework accel \<Rightarrow>
        obind (if isInput then Client_GetInputTensorInfo E nd c w else Client_GetOutputTensorInfo E nd c w)
          (\<lambda>(ret, info, c', w').
            Ret (if ret < 0 then ret else 0, info, peer\<lparr>np_context := ClientContext (Some c') framework accel\<rparr>, w')))"

definition Peer_NN_SetTensorInfo ::
    "'e environment \<Rightarrow> bool \<Rightarrow> tensor_info list option \<Rightarrow> nn_peer \<Rightarrow> os \<times> 'e \<Rightarrow> (int \<times> nn_peer \<times> os \<times> 'e) outcome" where
  "Peer_NN_SetTensorInfo E isInput info peer w =
    (case np_context peer of
      ServerContext _ _ \<Rightarrow> Ret (- ENOTSUP, peer, w)
    | ClientContext grpc framework accel \<Rightarrow>
        (case info of
          None \<Rightarrow> Ret (- EINVAL, peer, w)
        | Some [] \<Rightarrow> Ret (- EINVAL, peer, w)
        | Some (x # xs) \<Rightarrow>
            if ti_size x = 0 \<or> ti_dims x = None then Ret (- EINVAL, peer, w)
            else (case grpc of
                None \<Rightarrow> Ret (- EILSEQ, peer, w)
              | Some c \<Rightarrow>
                  obind (if isInput then Client_SetInputTensorInfo E (x # xs) c w else Client_SetOutputTensorInfo E (x # xs) c w)
                    (\<lambda>(ret, c', w'). Ret (ret, peer\<lparr>np_context := ClientContext (Some c') framework accel\<rparr>, w')))))"

text \<open>\<open>Prepare\<close> asks the device for its ports and connects the pipeline to them.\<close>

definition Peer_NN_Prepare :: "'e environment \<Rightarrow> nn_peer \<Rightarrow> 'e \<Rightarrow> (int \<times> 'e) outcome" where
  "Peer_NN_Prepare E peer e =
    (case np_context peer of
      ServerContext _ _ \<Rightarrow> Ret (- ENOTSUP, e)
    | ClientContext None framework accel \<Rightarrow> Ret (- EILSEQ, e)
    | ClientContext (Some c) framework accel \<Rightarrow>
        let ((ret, reqPort, resPort), e1) = Client_Prepare E c e in
        if ret < 0 then Ret (ret, e1)
        else if gc_gst c = None then Undefined
        else case np_info peer of
          None \<Rightarrow> Undefined
        | Some info \<Rightarrow>
            (case ni_host info of
              None \<Rightarrow> Undefined
            | Some host \<Rightarrow> let (r, e2) = env_gst E (GstPrepare host reqPort resPort) e1 in Ret (r_ret r, e2)))"

text \<open>The tensors at \<open>input\<close> are given as pairs of a size and whether the data are not null.\<close>

definition Peer_NN_Invoke ::
    "'e environment \<Rightarrow> (ptr \<Rightarrow> (int \<times> bool) list) \<Rightarrow> ptr \<Rightarrow> int \<Rightarrow> ptr \<Rightarrow> nn_peer \<Rightarrow> 'e \<Rightarrow> (int \<times> 'e) outcome" where
  "Peer_NN_Invoke E tensors input sz context peer e =
    (case np_context peer of
      ServerContext _ _ \<Rightarrow> Ret (- ENOTSUP, e)
    | ClientContext None framework accel \<Rightarrow> Ret (- EILSEQ, e)
    | ClientContext (Some c) framework accel \<Rightarrow>
        if gc_gst c = None then Ret (- EILSEQ, e)
        else if input = nullptr \<or> sz \<le> 0 then Ret (- EINVAL, e)
        else if length (tensors input) < nat sz then Undefined
        else if list_ex (\<lambda>(size, data). size \<le> 0 \<or> \<not> data) (take (nat sz) (tensors input)) then Ret (- EINVAL, e)
        else let (r, e1) = env_gst E (GstInvoke input sz context) e in Ret (r_ret r, e1))"

definition Peer_NN_GetOutput :: "'e environment \<Rightarrow> ptr \<Rightarrow> int \<Rightarrow> nn_peer \<Rightarrow> 'e \<Rightarrow> reply \<times> 'e" where
  "Peer_NN_GetOutput E tensor sz peer e =
    (case np_context peer of
      ServerContext _ _ \<Rightarrow> (refused (- ENOTSUP) (CallGetOutput tensor sz), e)
    | ClientContext None framework accel \<Rightarrow> (refused (- EILSEQ) (CallGetOutput tensor sz), e)
    | ClientContext (Some c) framework accel \<Rightarrow>
        if gc_gst c = None then (refused (- EILSEQ) (CallGetOutput tensor sz), e)
        else env_gst E (GstGetOutput tensor sz) e)"

definition Peer_NN_Stop :: "'e environment \<Rightarrow> nn_peer \<Rightarrow> 'e \<Rightarrow> (int \<times> 'e) outcome" where
  "Peer_NN_Stop E peer e =
    (case np_context peer of
      ServerContext _ _ \<Rightarrow> Ret (- ENOTSUP, e)
    | ClientContext None framework accel \<Rightarrow> Ret (- EILSEQ, e)
    | ClientContext (Some c) framework accel \<Rightarrow>
        if gc_gst c = None then Undefined
        else let (r, e1) = env_gst E GstStop e in
          if r_ret r < 0 then Ret (r_ret r, e1) else Ret (Client_Stop E c e1))"

section \<open>A peer as an object of the library\<close>

text \<open>
  Peers at their addresses, with the allocations and what is outside. The arrays that calls pass by their addresses are a
  parameter: what is stored at an address, and the address of what a call returns.
\<close>

record memory =
  mm_infos :: "ptr \<Rightarrow> tensor_info list"
  mm_tensors :: "ptr \<Rightarrow> (int \<times> bool) list"
  mm_options :: "ptr \<Rightarrow> peer_option"
  mm_info :: "ptr \<Rightarrow> nn_info"
  mm_place_infos :: "tensor_info list \<Rightarrow> ptr"
  mm_place_tensors :: "tensor list \<Rightarrow> ptr"

record 'e peer_world =
  pw_peers :: "ptr \<Rightarrow> nn_peer"
  pw_os :: os
  pw_env :: 'e

text \<open>The array of \<open>sz\<close> elements at an address: None for a null pointer or no elements.\<close>

definition infos_at :: "memory \<Rightarrow> ptr \<Rightarrow> int \<Rightarrow> tensor_info list option" where
  "infos_at mem p sz = (if p = nullptr \<or> sz \<le> 0 then None else Some (take (nat sz) (mm_infos mem p)))"

definition set_peer :: "ptr \<Rightarrow> nn_peer \<times> os \<times> 'e \<Rightarrow> 'e peer_world \<Rightarrow> 'e peer_world" where
  "set_peer p x w = w\<lparr>pw_peers := (pw_peers w)(p := fst x), pw_os := fst (snd x), pw_env := snd (snd x)\<rparr>"

definition place_infos :: "memory \<Rightarrow> int \<Rightarrow> tensor_info list option \<Rightarrow> inference_call \<Rightarrow> reply" where
  "place_infos mem ret info c =
    (if ret < 0 then refused ret c
     else (ret_only ret)\<lparr>r_ptr := (case info of None \<Rightarrow> nullptr | Some xs \<Rightarrow> mm_place_infos mem xs),
       r_size := (case info of None \<Rightarrow> 0 | Some xs \<Rightarrow> int (length xs))\<rparr>)"

definition Peer_NN_infer ::
    "'e environment \<Rightarrow> memory \<Rightarrow> bool \<Rightarrow> (published \<times> 'e peer_world) event_handler \<Rightarrow> ptr \<Rightarrow> inference_call \<Rightarrow>
     'e peer_world \<Rightarrow> (reply \<times> 'e peer_world) outcome" where
  "Peer_NN_infer E mem nd cb p c w =
    (let peer = pw_peers w p; s = pw_os w; e = pw_env w; events = np_events peer in
     case c of
       CallConfigure options \<Rightarrow>
         obind (Peer_NN_Configure E (if options = nullptr then None else Some (mm_options mem options)) peer (s, e))
           (\<lambda>(ret, x). Ret (ret_only ret, set_peer p x w))
     | CallLoadModel model \<Rightarrow> obind (Peer_NN_LoadModel E model peer (s, e)) (\<lambda>(ret, x). Ret (ret_only ret, set_peer p x w))
     | CallGetInputTensorInfo info sz \<Rightarrow>
         obind (Peer_NN_GetTensorInfo E nd True peer (s, e)) (\<lambda>(ret, i, x). Ret (place_infos mem ret i c, set_peer p x w))
     | CallGetOutputTensorInfo info sz \<Rightarrow>
         obind (Peer_NN_GetTensorInfo E nd False peer (s, e)) (\<lambda>(ret, i, x). Ret (place_infos mem ret i c, set_peer p x w))
     | CallSetInputTensorInfo info sz \<Rightarrow>
         obind (Peer_NN_SetTensorInfo E True (infos_at mem info sz) peer (s, e)) (\<lambda>(ret, x). Ret (ret_only ret, set_peer p x w))
     | CallSetOutputTensorInfo info sz \<Rightarrow>
         obind (Peer_NN_SetTensorInfo E False (infos_at mem info sz) peer (s, e)) (\<lambda>(ret, x). Ret (ret_only ret, set_peer p x w))
     | CallAllocateTensor info sz tensor \<Rightarrow>
         (case np_context peer of
           ServerContext _ _ \<Rightarrow> Ret (refused (- ENOTSUP) c, w)
         | _ \<Rightarrow>
             let (ret, ts, s') = Peer_AllocateTensor (infos_at mem info sz) s in
             Ret ((ret_only ret)\<lparr>r_ptr := (case ts of None \<Rightarrow> tensor | Some ts \<Rightarrow> mm_place_tensors mem ts)\<rparr>, w\<lparr>pw_os := s'\<rparr>))
     | CallFreeTensor tensor sz \<Rightarrow>
         (case np_context peer of
           ServerContext _ _ \<Rightarrow> Ret (refused 0 c, w)
         | _ \<Rightarrow>
             if tensor = nullptr \<or> sz \<le> 0 then Ret (refused 0 c, w)
             else Ret (ret_only 0, w\<lparr>pw_os := os_delete ((os_delete ^^ nat sz) s)\<rparr>))
     | CallPrepare \<Rightarrow> obind (Peer_NN_Prepare E peer e) (\<lambda>(ret, e'). Ret (ret_only ret, w\<lparr>pw_env := e'\<rparr>))
     | CallInvoke input sz ctx \<Rightarrow>
         obind (Peer_NN_Invoke E (mm_tensors mem) input sz ctx peer e) (\<lambda>(ret, e'). Ret (ret_only ret, w\<lparr>pw_env := e'\<rparr>))
     | CallGetOutput tensor sz \<Rightarrow> (let (r, e') = Peer_NN_GetOutput E tensor sz peer e in Ret (r, w\<lparr>pw_env := e'\<rparr>))
     | CallStop \<Rightarrow> obind (Peer_NN_Stop E peer e) (\<lambda>(ret, e'). Ret (ret_only ret, w\<lparr>pw_env := e'\<rparr>))
     | CallGetHandle \<Rightarrow> Ret (ret_only (GetHandle (ie_object events)), w)
     | CallAddHandler h t d \<Rightarrow>
         (let (ok, q) = allocation (ie_queue events); (ret, eo) = AddHandler ok h t d (ie_object events) in
          Ret (ret_only ret, set_peer p (peer\<lparr>np_events := events\<lparr>ie_object := eo, ie_queue := q\<rparr>\<rparr>, s, e) w))
     | CallRemoveHandler h t d \<Rightarrow>
         (let (ret, eo) = RemoveHandler h t d (ie_object events) in
          Ret (ret_only ret, set_peer p (peer\<lparr>np_events := events\<lparr>ie_object := eo\<rparr>\<rparr>, s, e) w))
     | CallFetchEventData data \<Rightarrow>
         obind (PeerEvent_FetchEventData cb data (ie_object events) (ie_queue events, w)) (\<lambda>(ret, data', eo, q, w').
           Ret ((ret_only ret)\<lparr>r_event := data'\<rparr>,
             w'\<lparr>pw_peers := (pw_peers w')(p := (pw_peers w' p)\<lparr>np_events := events\<lparr>ie_object := eo, ie_queue := q\<rparr>\<rparr>)\<rparr>))
     | CallDestroyEventData data \<Rightarrow> Ret ((ret_only 0)\<lparr>r_event := None\<rparr>, w))"

definition Peer_NN_call ::
    "'e environment \<Rightarrow> memory \<Rightarrow> bool \<Rightarrow> (published \<times> 'e peer_world) event_handler \<Rightarrow> 'e peer_world remote_peers" where
  "Peer_NN_call E mem nd cb p c w =
    (let peer = pw_peers w p; s = pw_os w; e = pw_env w in
     case c of
       PeerInfer c \<Rightarrow> Peer_NN_infer E mem nd cb p c w
     | PeerActivate \<Rightarrow> obind (Peer_NN_Activate E peer (s, e)) (\<lambda>(ret, x). Ret (ret_only ret, set_peer p x w))
     | PeerDeactivate \<Rightarrow> (case Peer_NN_Deactivate E peer (s, e) of (ret, x) \<Rightarrow> Ret (ret_only ret, set_peer p x w))
     | PeerGetInfo \<Rightarrow>
         obind (Peer_NN_GetInfo E peer (s, e)) (\<lambda>(info, x).
           Ret ((ret_only 0)\<lparr>r_peer := map_option (\<lambda>i. \<lparr>pi_free_memory = ni_free_memory i, pi_free_storage = ni_free_storage i\<rparr>) info\<rparr>,
             set_peer p x w))
     | PeerSetInfo info \<Rightarrow>
         obind (Peer_NN_SetInfo (if info = nullptr then None else Some (mm_info mem info)) peer s) (\<lambda>(ret, peer', s').
           Ret (ret_only ret, set_peer p (peer', s', e) w)))"

section \<open>Properties: activation\<close>

text \<open>The blocks of a connected client: itself and what the model of its pipeline has.\<close>

definition model_blocks :: "peer_model \<Rightarrow> int" where
  "model_blocks m = block (pm_path m) + array_blocks (pm_input m) + array_blocks (pm_output m)"

definition client_blocks :: "grpc_client \<Rightarrow> int" where
  "client_blocks c = 1 + (case gc_gst c of None \<Rightarrow> 0 | Some m \<Rightarrow> model_blocks m)"

lemma live_Model_delete [simp]: "live (Model_delete m s) = live s - model_blocks m" "open_fds (Model_delete m s) = open_fds s"
  by (simp_all add: Model_delete_def model_blocks_def)

lemma Client_Destroy_ledger:
  "live (fst (Client_Destroy E c (s, e))) = live s - client_blocks c" "open_fds (fst (Client_Destroy E c (s, e))) = open_fds s"
  by (simp_all add: Client_Destroy_def client_blocks_def split: option.split)

lemma Client_Create_ledger:
  assumes "Client_Create E a ca (s, e) = (r, s', e')"
  shows "open_fds s' = open_fds s \<and>
    (case r of None \<Rightarrow> live s' = live s | Some c \<Rightarrow> c = \<lparr>gc_peerId = [], gc_gst = None\<rparr> \<and> live s' = live s + 1)"
proof -
  obtain ok s1 where 1: "os_new s = (ok, s1)" by fastforce
  obtain ok2 e1 where 2: "env_stub E a ca e = (ok2, e1)" by fastforce
  show ?thesis
    using assms 1 2 os_new_resources [OF 1]
    by (cases ok; cases ok2) (clarsimp simp: Client_Create_def)+
qed

lemma exchange_request_ledger:
  assumes "exchange_request E auth uuid nonce (s, e) = (r, s', e')"
  shows "live s' = live s \<and> open_fds s' = open_fds s"
proof -
  obtain ok s1 where 1: "os_new s = (ok, s1)" by fastforce
  have "s' = s \<or> \<not> ok \<and> s' = s1 \<or> ok \<and> s' = os_delete s1"
    using assms by (auto simp: exchange_request_def 1 Let_def split: if_splits prod.splits option.splits list.splits)
  with os_new_resources [OF 1] show ?thesis by (elim disjE) simp_all
qed

lemma Client_ExchangeKey_ledger:
  assumes "Client_ExchangeKey E auth uuid c (s, e) = (ret, c', s', e')" and "gc_gst c = None"
    and "\<And>key e. rr_status (fst (env_rpc E [] (RpcExchangeKey key) e)) \<le> 0"
  shows "live s' = live s \<and> open_fds s' = open_fds s \<and>
    (ret < 0 \<and> gc_gst c' = None \<or> gc_gst c' = Some Model_new)"
proof -
  obtain nonce e0 where 0: "env_random E e = (nonce, e0)" by fastforce
  obtain r s1 e1 where 1: "exchange_request E auth uuid nonce (s, e0) = (r, s1, e1)" by (cases "exchange_request E auth uuid nonce (s, e0)")
  note l = exchange_request_ledger [OF 1]
  show ?thesis
  proof (cases r)
    case (Inl x)
    with 1 have "x < 0"
      by (auto simp: exchange_request_def errno_defs Let_def split: if_splits prod.splits option.splits list.splits)
    with assms(1,2) 0 1 l Inl show ?thesis by (simp add: Client_ExchangeKey_def)
  next
    case (Inr x)
    obtain request secret where x: "x = (request, secret)" by fastforce
    obtain a e2 where a: "env_rpc E [] (RpcExchangeKey request) e1 = (a, e2)" by fastforce
    obtain g e3 where g: "env_gst E (GstCreate (rr_id a)) e2 = (g, e3)" by fastforce
    have "rr_status a \<le> 0" using assms(3) [of request e1] a by simp
    with assms(1,2) 0 1 l Inr x a g show ?thesis
      by (cases "rr_ok a"; cases "rr_status a = 0"; cases "r_ret g < 0")
        (auto simp: Client_ExchangeKey_def errno_defs Let_def)
  qed
qed

lemma activate_client_ledger:
  assumes "\<And>key e. rr_status (fst (env_rpc E [] (RpcExchangeKey key) e)) \<le> 0"
  shows "\<exists>ret r s' e'. activate_client E peer info address cert (s, e) = Ret (ret, r, s', e') \<and> open_fds s' = open_fds s \<and>
    (case r of
      None \<Rightarrow> ret < 0 \<and> live s' = live s
    | Some c \<Rightarrow> 0 \<le> ret \<and> gc_gst c = Some Model_new \<and> live s' = live s + client_blocks c)"
proof -
  obtain r s1 e1 where 1: "Client_Create E address cert (s, e) = (r, s1, e1)" by (cases "Client_Create E address cert (s, e)")
  note l1 = Client_Create_ledger [OF 1]
  show ?thesis
  proof (cases r)
    case None
    with 1 l1 show ?thesis by (simp add: activate_client_def errno_defs)
  next
    case (Some c)
    let ?auth = "if np_caAuthenticator peer \<noteq> nullptr then np_caAuthenticator peer else np_authenticator peer"
    have c: "gc_gst c = None" "client_blocks c = 1" "live s1 = live s + 1" "open_fds s1 = open_fds s"
      using l1 Some by (simp_all add: client_blocks_def)
    obtain ret c2 s2 e2 where 2: "Client_ExchangeKey E ?auth (ni_uuid info) c (s1, e1) = (ret, c2, s2, e2)"
      by (cases "Client_ExchangeKey E ?auth (ni_uuid info) c (s1, e1)")
    note l2 = Client_ExchangeKey_ledger [OF 2 c(1) assms]
    show ?thesis
    proof (cases "(np_authenticator peer \<noteq> nullptr \<or> np_caAuthenticator peer \<noteq> nullptr) \<and> ni_uuid info = [] \<or> ret < 0")
      case True
      have "gc_gst c2 = None \<or> gc_gst c2 = Some Model_new" using l2 by auto
      then have "client_blocks c2 = 1"
        by (auto simp: client_blocks_def Model_new_def model_blocks_def block_def array_blocks_def)
      obtain t1 x1 where D1: "Client_Destroy E c (s1, e1) = (t1, x1)" by fastforce
      obtain t2 x2 where D2: "Client_Destroy E c2 (s2, e2) = (t2, x2)" by fastforce
      have t: "live t1 = live s" "open_fds t1 = open_fds s" "live t2 = live s" "open_fds t2 = open_fds s"
        using Client_Destroy_ledger [of E c s1 e1] Client_Destroy_ledger [of E c2 s2 e2] D1 D2 l2 c \<open>client_blocks c2 = 1\<close>
        by simp_all
      have "activate_client E peer info address cert (s, e) =
          (if (np_authenticator peer \<noteq> nullptr \<or> np_caAuthenticator peer \<noteq> nullptr) \<and> ni_uuid info = []
           then Ret (- EINVAL, None, t1, x1) else Ret (ret, None, t2, x2))"
        using True 1 2 Some D1 D2 by (auto simp: activate_client_def Let_def)
      with t True show ?thesis by (auto simp: errno_defs)
    next
      case False
      then have c2: "gc_gst c2 = Some Model_new" "client_blocks c2 = 1" "live s2 = live s + 1" "open_fds s2 = open_fds s" "0 \<le> ret"
        using l2 c by (auto simp: client_blocks_def Model_new_def model_blocks_def block_def array_blocks_def)
      have A: "activate_client E peer info address cert (s, e) =
        (case np_reserved peer of
              None \<Rightarrow> Ret (ret, Some c2, s2, e2)
            | Some config \<Rightarrow>
                let (ret, e3) = Client_Configure E (pc_server config) c2 e2 in
                if ret < 0 then Ret (ret, None, Client_Destroy E c2 (s2, e3))
                else let (r, e4) = env_gst E (GstConfigure (pc_client config)) e3 in
                  if r_ret r < 0 then Ret (r_ret r, None, Client_Destroy E c2 (s2, e4))
                  else Ret (r_ret r, Some c2, s2, e4))"
        using False 1 2 Some c2(1) by (cases "np_reserved peer") (auto simp: activate_client_def Let_def split_def)
      show ?thesis
      proof (cases "np_reserved peer")
        case None
        with A c2 show ?thesis by simp
      next
        case (Some config)
        obtain ret3 e3 where 3: "Client_Configure E (pc_server config) c2 e2 = (ret3, e3)" by fastforce
        obtain g e4 where 4: "env_gst E (GstConfigure (pc_client config)) e3 = (g, e4)" by fastforce
        have D: "live (fst (Client_Destroy E c2 (s2, x))) = live s" "open_fds (fst (Client_Destroy E c2 (s2, x))) = open_fds s" for x
          using c2 by (simp_all add: Client_Destroy_ledger)
        show ?thesis
          using A Some 3 4 c2 D [of e3] D [of e4]
          by (cases "ret3 < 0"; cases "r_ret g < 0"; cases "Client_Destroy E c2 (s2, e3)"; cases "Client_Destroy E c2 (s2, e4)") auto
      qed
    qed
  qed
qed

lemma activation_keys_fail: "activation_keys E peer e = (Inl ret, e1) \<Longrightarrow> ret < 0"
  by (auto simp: activation_keys_def get_key_def errno_defs Let_def
    split: if_splits prod.splits sum.splits option.splits list.splits)

text \<open>
  C28. Activation is all or nothing. For a client with information that is not connected, and a device that does not answer the
  exchange of the keys with a positive status, \<open>Activate\<close> returns whatever call fails. If it fails the peer is as it was, the
  reserved configuration included, and no block and no descriptor is left. If it succeeds the peer has a client with a new pipeline,
  the reserved configuration is sent and freed, and the client is the only new block.
\<close>

theorem activate_all_or_nothing:
  assumes "np_context peer = ClientContext None fw accel" and "np_info peer = Some info" and "ni_host info \<noteq> None"
    and "\<And>key e. rr_status (fst (env_rpc E [] (RpcExchangeKey key) e)) \<le> 0"
  shows "\<exists>ret peer' s' e'. Peer_NN_Activate E peer (s, e) = Ret (ret, peer', s', e') \<and> open_fds s' = open_fds s \<and>
    (if ret < 0 then peer' = peer \<and> live s' = live s
     else \<exists>c. gc_gst c = Some Model_new \<and> live s' = live s + 1 - config_blocks (np_reserved peer)
       \<and> peer' = peer\<lparr>np_context := ClientContext (Some c) fw accel, np_reserved := None\<rparr>)"
proof -
  obtain host where host: "ni_host info = Some host" using assms(3) by auto
  obtain k e1 where k: "activation_keys E peer e = (k, e1)" by fastforce
  show ?thesis
  proof (cases k)
    case (Inl ret)
    with activation_keys_fail [of E peer e ret e1] k assms(1,2) host show ?thesis by (simp add: Peer_NN_Activate_def)
  next
    case (Inr x)
    obtain certificate ca where x: "x = (certificate, ca)" by fastforce
    let ?address = "host @ '':'' @ to_string (uint (ni_port info))"
    let ?cert = "if np_caAuthenticator peer = nullptr then certificate else ca"
    obtain ret r s' e' where a: "activate_client E peer info ?address ?cert (s, e1) = Ret (ret, r, s', e')"
        "open_fds s' = open_fds s"
        "case r of None \<Rightarrow> ret < 0 \<and> live s' = live s
         | Some c \<Rightarrow> 0 \<le> ret \<and> gc_gst c = Some Model_new \<and> live s' = live s + client_blocks c"
      using activate_client_ledger [OF assms(4), of peer info ?address ?cert s e1] by auto
    have b: "client_blocks c = 1" if "gc_gst c = Some Model_new" for c
      using that by (simp add: client_blocks_def Model_new_def model_blocks_def block_def array_blocks_def)
    have "Peer_NN_Activate E peer (s, e) =
        (if r = None then Ret (ret, peer\<lparr>np_context := ClientContext r fw accel\<rparr>, s', e')
         else Ret (ret, peer\<lparr>np_context := ClientContext r fw accel, np_reserved := None\<rparr>, FreeConfig (np_reserved peer) s', e'))"
      using assms(1,2) host k Inr x a(1) by (simp add: Peer_NN_Activate_def Let_def)
    moreover have "peer\<lparr>np_context := ClientContext None fw accel\<rparr> = peer" using assms(1) [symmetric] by simp
    ultimately show ?thesis using a b by (cases r) auto
  qed
qed

text \<open>A device that accepts everything, and a client for it with a reserved configuration.\<close>

definition ex_config :: peer_config where
  "ex_config = \<lparr>pc_client = \<lparr>cd_input_type = 0, cd_preprocessing = None, cd_postprocessing = None\<rparr>,
    pc_server = \<lparr>sd_input_type = 0, sd_preprocessing = None, sd_postprocessing = None,
      sd_framework = Some ''tflite'', sd_accel = None\<rparr>\<rparr>"

definition ex_peer :: "grpc_client option \<Rightarrow> nn_peer" where
  "ex_peer c = \<lparr>np_events = events_of \<lparr>ep_handle = 3, ep_publish = 4\<rparr>, np_context = ClientContext c ''tflite'' [],
    np_info = Some ex_info, np_reserved = Some ex_config, np_authenticator = nullptr, np_caAuthenticator = nullptr\<rparr>"

lemma activate_all_or_nothing_witness:
  "\<exists>ret peer' s' e'. Peer_NN_Activate (ex_device [''cpu'']) (ex_peer None)
      (\<lparr>open_fds = {}, next_fd = 0, live = 8, faults = []\<rparr>, ()) = Ret (ret, peer', s', e')
    \<and> ret \<noteq> - EINVAL \<and> open_fds s' = {}"
proof -
  let ?s = "\<lparr>open_fds = {}, next_fd = 0, live = 8, faults = []\<rparr>"
  have "\<exists>peer' s' e'. Peer_NN_Activate (ex_device [''cpu'']) (ex_peer None) (?s, ()) = Ret (0, peer', s', e')"
    by (simp add: Peer_NN_Activate_def activate_client_def activation_keys_def ex_peer_def ex_info_def ex_device_def
      Client_Create_def Client_ExchangeKey_def exchange_request_def Client_Configure_def os_new_def pop_def fault_def ret_only_def)
  moreover have "\<exists>ret peer' s' e'. Peer_NN_Activate (ex_device [''cpu'']) (ex_peer None) (?s, ()) = Ret (ret, peer', s', e') \<and> open_fds s' = open_fds ?s"
    using activate_all_or_nothing [of "ex_peer None" "''tflite''" "[]" ex_info "ex_device [''cpu'']" ?s "()"]
    by (auto simp: ex_peer_def ex_info_def ex_device_def)
  ultimately show ?thesis by (auto simp: errno_defs)
qed

section \<open>Properties: tensor information and information\<close>

lemma SetRequest_dims: "SetRequest xs = Ret (Some request) \<Longrightarrow> list_all (\<lambda>x. ti_dims x \<noteq> None) xs"
  by (induction xs arbitrary: request) (auto split: option.splits list.splits simp: obind_eq_Ret)

lemma os_new_calm: "faults s = [] \<Longrightarrow> \<exists>s'. os_new s = (True, s') \<and> faults s' = []"
  by (simp add: os_new_def pop_def)

lemma dup_element_calm: "faults s = [] \<Longrightarrow> \<exists>s'. dup_element x s = (True, s') \<and> faults s' = []"
  using os_new_calm [of s] by (auto simp: dup_element_def Let_def split: option.split dest: os_new_calm)

lemma dup_tensor_infos_calm:
  assumes "list_all (\<lambda>x. ti_dims x \<noteq> None) xs" and "faults s = []"
  shows "\<exists>s'. dup_tensor_infos dest xs s = Ret (0, Some (dest @ xs), s') \<and> faults s' = []"
  using assms
proof (induction xs arbitrary: dest s)
  case (Cons x xs)
  obtain s1 where 1: "dup_element x s = (True, s1)" "faults s1 = []" using dup_element_calm Cons.prems(2) by blast
  with Cons.IH [of s1 "dest @ [x]"] Cons.prems show ?case by (simp add: dup_tensor_infos_Cons)
qed simp

lemma DupTensorInfo_calm:
  assumes "SetRequest xs = Ret (Some request)" and "faults s = []"
  shows "\<exists>s'. DupTensorInfo xs s = Ret (0, Some xs, s') \<and> faults s' = []"
proof -
  obtain s1 where 1: "os_new s = (True, s1)" "faults s1 = []" using os_new_calm assms(2) by blast
  with dup_tensor_infos_calm [OF SetRequest_dims [OF assms(1)] 1(2), of "[]"] show ?thesis by (simp add: DupTensorInfo_def)
qed

text \<open>
  Tensor information that was set is what the peer has. When the device is reached and the memory suffices, setting the
  information of the input or the output returns the device's status, and every later get of the same side gives the array that
  was set, without asking the device and without a change of the peer: also when the device refused it.
\<close>

theorem set_then_get_tensor_info:
  assumes "np_context peer = ClientContext (Some c) fw accel" and "gc_gst c \<noteq> None"
    and "xs \<noteq> []" and "ti_size (hd xs) \<noteq> 0" and "SetRequest xs = Ret (Some request)" and "faults s = []"
    and "env_rpc E (gc_peerId c) ((if isInput then RpcSetInputTensorInfo else RpcSetOutputTensorInfo) request) e = (r, e1)"
    and "rr_ok r"
  shows "\<exists>peer' s'. Peer_NN_SetTensorInfo E isInput (Some xs) peer (s, e) = Ret (rr_status r, peer', s', e1)
    \<and> (\<forall>e2. Peer_NN_GetTensorInfo E nd isInput peer' (s', e2) = Ret (0, Some xs, peer', s', e2))"
proof -
  obtain x ys where xs: "xs = x # ys" using assms(3) by (cases xs) auto
  obtain m where m: "gc_gst c = Some m" using assms(2) by auto
  obtain s1 where 1: "DupTensorInfo xs s = Ret (0, Some xs, s1)" using DupTensorInfo_calm assms(5,6) by blast
  obtain ds where d: "ti_dims x = Some ds" using SetRequest_dims [OF assms(5)] xs by auto
  show ?thesis
    using assms 1 m d
    by (cases isInput)
      (simp_all del: SetRequest.simps(2) add: xs Peer_NN_SetTensorInfo_def Peer_NN_GetTensorInfo_def Client_SetInputTensorInfo_def Client_SetOutputTensorInfo_def
        Client_GetInputTensorInfo_def Client_GetOutputTensorInfo_def Model_SetInput_def Model_SetOutput_def)
qed

text \<open>A device that refuses every call with the status -22.\<close>

definition ex_refusing :: "unit environment" where
  "ex_refusing = (ex_device [])\<lparr>env_rpc := \<lambda>i c e. (\<lparr>rr_ok = True, rr_status = - EINVAL, rr_id = [], rr_infos = [], rr_ports = (0, 0),
    rr_runtimes = [], rr_free_memory = 0, rr_free_storage = 0\<rparr>, e)\<rparr>"

lemma set_then_get_tensor_info_witness:
  "\<exists>peer' s'. Peer_NN_SetTensorInfo ex_refusing True (Some [\<lparr>ti_type = 0, ti_size = 4, ti_name = None, ti_dims = Some [2, 2]\<rparr>])
      (ex_peer (Some \<lparr>gc_peerId = ''id'', gc_gst = Some Model_new\<rparr>)) (\<lparr>open_fds = {}, next_fd = 0, live = 8, faults = []\<rparr>, ())
        = Ret (- EINVAL, peer', s', ())
    \<and> Peer_NN_GetTensorInfo ex_refusing True True peer' (s', ())
        = Ret (0, Some [\<lparr>ti_type = 0, ti_size = 4, ti_name = None, ti_dims = Some [2, 2]\<rparr>], peer', s', ())"
  using set_then_get_tensor_info [of "ex_peer (Some \<lparr>gc_peerId = ''id'', gc_gst = Some Model_new\<rparr>)"
      "\<lparr>gc_peerId = ''id'', gc_gst = Some Model_new\<rparr>" "''tflite''" "[]"
      "[\<lparr>ti_type = 0, ti_size = 4, ti_name = None, ti_dims = Some [2, 2]\<rparr>]" "[(0, 4, [], [2, 2])]"
      "\<lparr>open_fds = {}, next_fd = 0, live = 8, faults = []\<rparr>" ex_refusing True "()" _ "()" True]
  by (simp add: ex_peer_def ex_refusing_def)

text \<open>
  C29. New information. Given information without null names, \<open>SetInfo\<close> returns whatever allocation fails. If the peer does not get
  a new information, nothing changes and no block is left: either memory is short, or the host is null, or a client's port
  is 0. Otherwise the peer has a copy of what was given, the old information is given back, and an event
  PEER_INFO_UPDATED is in the pipe, unless publishing it failed, which is what is returned then.
\<close>

theorem set_info_replaces:
  assumes "info_ok i"
  shows "\<exists>ret peer' s'. Peer_NN_SetInfo (Some i) peer s = Ret (ret, peer', s') \<and> open_fds s' = open_fds s \<and>
    (peer' = peer \<and> live s' = live s
       \<and> (ret = - ENOMEM \<or> ret = - EINVAL \<and> (ni_host i = None \<or> ni_port i = 0 \<and> (\<exists>c fw accel. np_context peer = ClientContext c fw accel)))
     \<or> (\<exists>r q. PeerEvent_Publish (event_code PEER_INFO_UPDATED) nullptr (ie_queue (np_events peer)) = (r, q)
       \<and> ret = min r 0
       \<and> peer' = peer\<lparr>np_info := Some (copied_info i), np_events := (np_events peer)\<lparr>ie_queue := q\<rparr>\<rparr>
       \<and> live s' - nn_info_blocks (np_info peer') = live s - nn_info_blocks (np_info peer)))"
proof -
  let ?server = "case np_context peer of ServerContext _ _ \<Rightarrow> True | _ \<Rightarrow> False"
  obtain res s1 where 1: "copy_info ?server (Some i) s = Ret (res, s1)" "open_fds s1 = open_fds s"
      "case res of
        Inl ret \<Rightarrow> live s1 = live s \<and> (ret = - ENOMEM \<or> ret = - EINVAL \<and> (ni_host i = None \<or> ni_port i = 0 \<and> \<not> ?server))
      | Inr j \<Rightarrow> j = copied_info i \<and> live s1 = live s + nn_info_blocks (Some j)"
    using copy_info_ledger [OF assms, of ?server s] by auto
  obtain r q where 2: "PeerEvent_Publish (event_code PEER_INFO_UPDATED) nullptr (ie_queue (np_events peer)) = (r, q)" by fastforce
  show ?thesis
  proof (cases res)
    case (Inl ret)
    with 1 show ?thesis by (cases "np_context peer") (auto simp: Peer_NN_SetInfo_def)
  next
    case (Inr j)
    with 1 2 have "Peer_NN_SetInfo (Some i) peer s = Ret (min r 0,
        peer\<lparr>np_info := Some (copied_info i), np_events := (np_events peer)\<lparr>ie_queue := q\<rparr>\<rparr>, ResetInfo (np_info peer) s1)"
      by (simp add: Peer_NN_SetInfo_def Let_def)
    with 1 2 Inr show ?thesis by simp
  qed
qed

definition ex_new_info :: nn_info where
  "ex_new_info = \<lparr>ni_host = Some ''device'', ni_port = 3000, ni_uuid = ''u'',
    ni_runtimes = Some [\<lparr>ri_name = Some ''tflite'', ri_devices = Some [Some ''cpu'', Some ''gpu'']\<rparr>], ni_free_memory = 64, ni_free_storage = 32\<rparr>"

lemma set_info_replaces_witness:
  "\<exists>peer' s'. Peer_NN_SetInfo (Some ex_new_info) (ex_peer None) \<lparr>open_fds = {}, next_fd = 0, live = 8, faults = []\<rparr> = Ret (0, peer', s')
    \<and> np_info peer' = Some ex_new_info \<and> live s' = 13"
proof -
  let ?s = "\<lparr>open_fds = {}, next_fd = 0, live = 8, faults = []\<rparr>"
  have i: "info_ok ex_new_info" by (simp add: info_ok_def names_ok_def ex_new_info_def)
  have ok: "\<exists>peer' s'. Peer_NN_SetInfo (Some ex_new_info) (ex_peer None) ?s = Ret (0, peer', s')"
    by (simp add: Peer_NN_SetInfo_def copy_info_def ex_new_info_def ex_peer_def os_new_def pop_def fault_def Let_def
      PeerEvent_Publish_def events_of_def allocation_def PublishEventData_def pq_fault_def)
  have blocks: "copied_info ex_new_info = ex_new_info" "nn_info_blocks (Some ex_new_info) = 7" "nn_info_blocks (np_info (ex_peer None)) = 2"
    by (simp_all add: copied_info_def copied_runtime_def ex_new_info_def nn_info_blocks_def runtime_blocks_def block_def ex_peer_def ex_info_def)
  show ?thesis using set_info_replaces [OF i, of "ex_peer None" ?s] ok blocks by (auto simp: errno_defs)
qed

end
