(* ===== verification/Remote_Peers.thy ===== *)
theory Remote_Peers
  imports Peer_NN
begin

text \<open>
  The remote inference of \<^verbatim>\<open>libbeyond/src/inference_impl_remote.cc\<close> (\<open>Inference_Remote\<close>) together with the peers of
  \<^verbatim>\<open>libbeyond-peer_nn/src/peer.cc\<close> (\<open>Peer_NN\<close>). The contract of a peer, as far as adding and removing it goes, is about
  which handlers are registered at it and whether it is activated; \<open>Peer_NN\<close> keeps it with every device that
  answers in the way its client relies on.
\<close>

section \<open>The contract of a peer\<close>

text \<open>What is seen of a peer: the handlers that are registered and whether it is activated.\<close>

type_synonym peer_view = "reg_key set \<times> bool"

fun neutral_call :: "(inference_call \<Rightarrow> bool) \<Rightarrow> peer_call \<Rightarrow> bool" where
  "neutral_call proper (PeerInfer c) = (proper c \<and> \<not> is_event_call c)"
| "neutral_call proper PeerGetInfo = True"
| "neutral_call proper _ = False"

text \<open>The handler that an inference registers at its peers.\<close>

definition remote_key :: "remote_inference \<Rightarrow> reg_key" where
  "remote_key r = (peer_event_handler, forwarded_types, rm_this r)"

text \<open>
  An inference and its peers: no peer is in the vector twice, the inference's handler is registered at exactly the peers in
  the vector, and they are all activated.
\<close>

definition attached :: "('w \<Rightarrow> ptr \<Rightarrow> peer_view) \<Rightarrow> remote_inference \<Rightarrow> 'w \<Rightarrow> bool" where
  "attached view r w \<longleftrightarrow> remote_ok r \<and> distinct (rm_peerVector r)
    \<and> (\<forall>p. p \<noteq> nullptr \<longrightarrow> (remote_key r \<in> fst (view w p) \<longleftrightarrow> p \<in> set (rm_peerVector r)))
    \<and> (\<forall>p \<in> set (rm_peerVector r). snd (view w p))"

text \<open>The vector as the client of the inference knows it, from its calls and what they returned.\<close>

fun peers_after :: "inference_op list \<Rightarrow> reply list \<Rightarrow> ptr list \<Rightarrow> ptr list" where
  "peers_after (AddPeer p # ops) (a # as) ps = peers_after ops as (if r_ret a < 0 then ps else ps @ [p])"
| "peers_after (RemovePeer p # ops) (a # as) ps = peers_after ops as (remove1 p ps)"
| "peers_after (_ # ops) (a # as) ps = peers_after ops as ps"
| "peers_after _ _ ps = ps"

definition proper_with :: "(inference_call \<Rightarrow> bool) \<Rightarrow> inference_op \<Rightarrow> bool" where
  "proper_with proper op \<longleftrightarrow> proper_op op \<and> (case op of Method c \<Rightarrow> is_event_call c \<or> proper c | _ \<Rightarrow> True)"

lemma forwarded_types_nonzero [simp]: "forwarded_types \<noteq> 0"
  by (simp add: forwarded_types_def)

locale peer_contract =
  fixes P :: "'w remote_peers" and good :: "'w \<Rightarrow> bool" and proper :: "inference_call \<Rightarrow> bool"
    and view :: "'w \<Rightarrow> ptr \<Rightarrow> peer_view"
  assumes neutral: "good w \<Longrightarrow> p \<noteq> nullptr \<Longrightarrow> neutral_call proper c \<Longrightarrow>
      returns (P p c w) (\<lambda>(a, w'). good w' \<and> view w' = view w)"
    and add: "good w \<Longrightarrow> p \<noteq> nullptr \<Longrightarrow> t \<noteq> 0 \<Longrightarrow>
      returns (P p (PeerInfer (CallAddHandler h t d)) w) (\<lambda>(a, w'). good w' \<and>
        (if r_ret a < 0 then view w' = view w
         else (h, t, d) \<notin> fst (view w p) \<and> view w' = (view w)(p := (insert (h, t, d) (fst (view w p)), snd (view w p)))))"
    and remove: "good w \<Longrightarrow> p \<noteq> nullptr \<Longrightarrow> t \<noteq> 0 \<Longrightarrow>
      returns (P p (PeerInfer (CallRemoveHandler h t d)) w) (\<lambda>(a, w'). good w' \<and>
        view w' = (view w)(p := (fst (view w p) - {(h, t, d)}, snd (view w p))))"
    and activate: "good w \<Longrightarrow> p \<noteq> nullptr \<Longrightarrow>
      returns (P p PeerActivate w) (\<lambda>(a, w'). good w' \<and>
        view w' = (if r_ret a < 0 then view w else (view w)(p := (fst (view w p), True))))"
    and deactivate: "good w \<Longrightarrow> p \<noteq> nullptr \<Longrightarrow>
      returns (P p PeerDeactivate w) (\<lambda>(a, w'). good w' \<and> view w' = (view w)(p := (fst (view w p), False)))"
    and own_calls: "proper (CallLoadModel model)" "proper CallPrepare"

sublocale peer_contract \<subseteq> frame: peers_answer P "\<lambda>w. good w \<and> view w = v" proper for v
  using neutral own_calls by unfold_locales (fastforce simp: split_def elim: returns_mono)+

context peer_contract
begin

lemma AddPeer_attached:
  assumes "attached view r w" and "good w" and "p \<noteq> nullptr"
  shows "returns (Remote_AddPeer P p r w) (\<lambda>(ret, r', w'). attached view r' w' \<and> good w'
    \<and> rm_peerVector r' = (if ret < 0 then rm_peerVector r else rm_peerVector r @ [p]))"
proof -
  obtain a w1 where 1: "P p (PeerInfer (CallAddHandler peer_event_handler forwarded_types (rm_this r))) w = Ret (a, w1)"
    "good w1" "if r_ret a < 0 then view w1 = view w
       else remote_key r \<notin> fst (view w p) \<and> view w1 = (view w)(p := (insert (remote_key r) (fst (view w p)), snd (view w p)))"
    using add [OF assms(2,3) forwarded_types_nonzero, of peer_event_handler "rm_this r"] by (auto simp: returns_def remote_key_def)
  obtain b w2 where 2: "P p PeerActivate w1 = Ret (b, w2)" "good w2"
    "view w2 = (if r_ret b < 0 then view w1 else (view w1)(p := (fst (view w1 p), True)))"
    using activate [OF 1(2) assms(3)] by (auto simp: returns_def)
  obtain c w3 where 3: "P p (PeerInfer (CallRemoveHandler peer_event_handler forwarded_types (rm_this r))) w2 = Ret (c, w3)"
    "good w3" "view w3 = (view w2)(p := (fst (view w2 p) - {remote_key r}, snd (view w2 p)))"
    using remove [OF 2(2) assms(3) forwarded_types_nonzero, of peer_event_handler "rm_this r"] by (auto simp: returns_def remote_key_def)
  consider "r_ret a < 0" | "0 \<le> r_ret a" "r_ret b < 0" | "0 \<le> r_ret a" "0 \<le> r_ret b" by linarith
  then show ?thesis
  proof cases
    case 1
    with \<open>if r_ret a < 0 then _ else _\<close> \<open>P p (PeerInfer (CallAddHandler _ _ _)) w = _\<close> \<open>good w1\<close> assms show ?thesis
      by (simp add: Remote_AddPeer_def attached_def)
  next
    case 2
    then have "view w3 = view w" using 1(3) \<open>view w2 = _\<close> 3(3) by (auto simp: fun_eq_iff)
    then show ?thesis using 1(1) \<open>P p PeerActivate w1 = _\<close> 3(1,2) 2 assms by (simp add: Remote_AddPeer_def attached_def)
  next
    case 3
    then have v: "view w2 = (view w)(p := (insert (remote_key r) (fst (view w p)), True))" and "remote_key r \<notin> fst (view w p)"
      using 1(3) 2(3) by (auto simp: fun_eq_iff)
    then have "p \<notin> set (rm_peerVector r)" using assms(1,3) by (auto simp: attached_def)
    with v show ?thesis
      using 1(1) 2(1,2) 3 assms by (auto simp: Remote_AddPeer_def attached_def remote_ok_def remote_key_def)
  qed
qed

lemma RemovePeer_attached:
  assumes "attached view r w" and "good w"
  shows "returns (Remote_RemovePeer P p r w) (\<lambda>(ret, r', w'). attached view r' w' \<and> good w' \<and> rm_peerVector r' = remove1 p (rm_peerVector r))"
proof (cases "p \<in> set (rm_peerVector r)")
  case True
  moreover have "nullptr \<notin> set (rm_peerVector r)" using assms(1) by (simp add: attached_def remote_ok_def)
  ultimately have p: "p \<noteq> nullptr" by metis
  obtain a w1 where 1: "P p PeerDeactivate w = Ret (a, w1)" "good w1" "view w1 = (view w)(p := (fst (view w p), False))"
    using deactivate [OF assms(2) p] by (auto simp: returns_def)
  obtain b w2 where 2: "P p (PeerInfer (CallRemoveHandler peer_event_handler forwarded_types (rm_this r))) w1 = Ret (b, w2)"
    "good w2" "view w2 = (view w1)(p := (fst (view w1 p) - {remote_key r}, snd (view w1 p)))"
    using remove [OF 1(2) p forwarded_types_nonzero, of peer_event_handler "rm_this r"] by (auto simp: returns_def remote_key_def)
  have v: "view w2 = (view w)(p := (fst (view w p) - {remote_key r}, False))" using 1(3) 2(3) by (auto simp: fun_eq_iff)
  have "set (remove1 p (rm_peerVector r)) = set (rm_peerVector r) - {p}" "distinct (remove1 p (rm_peerVector r))"
    using assms(1) by (simp_all add: attached_def)
  with True v 1(1) 2(1,2) assms show ?thesis
    by (auto simp: Remote_RemovePeer_def attached_def remote_ok_def remote_key_def)
next
  case False
  then show ?thesis using assms by (simp add: Remote_RemovePeer_def remove1_idem)
qed

lemma op_attached:
  assumes "attached view r w" and "good w" and "proper_with proper op"
  shows "returns (Remote_op P nd cb op r w) (\<lambda>(a, r', w'). attached view r' w' \<and> good w'
    \<and> rm_peerVector r' = peers_after [op] [a] (rm_peerVector r))"
proof (cases "\<exists>p. op = AddPeer p \<or> op = RemovePeer p")
  case True
  then show ?thesis
    using AddPeer_attached [OF assms(1,2)] RemovePeer_attached [OF assms(1,2)] assms(3)
    by (auto simp: split_def proper_with_def elim!: returns_mono)
next
  case False
  have "returns (Remote_op P nd cb op r w) (\<lambda>(a, r', w'). keeps_peers r r' \<and> good w' \<and> view w' = view w)"
    using assms False by (intro frame.op_ok) (auto simp: attached_def proper_with_def split: inference_op.splits)
  then show ?thesis
    by (rule returns_mono) (use False assms(1) in \<open>cases op; auto simp: attached_def keeps_peers_def remote_key_def\<close>)
qed

lemma run_attached:
  assumes "attached view r w" and "good w" and "list_all (proper_with proper) ops"
  shows "returns (Remote_run P nd cb ops r w) (\<lambda>(as, r', w'). attached view r' w' \<and> good w'
    \<and> length as = length ops \<and> rm_peerVector r' = peers_after ops as (rm_peerVector r))"
  using assms
proof (induction ops arbitrary: r w)
  case (Cons op ops)
  obtain a r1 w1 where 1: "Remote_op P nd cb op r w = Ret (a, r1, w1)" "attached view r1 w1" "good w1"
      "rm_peerVector r1 = peers_after [op] [a] (rm_peerVector r)"
    using op_attached [of r w op nd cb] Cons.prems by (auto simp: returns_def)
  have step: "peers_after (op # ops) (a # as) ps = peers_after ops as (peers_after [op] [a] ps)" for as ps
    by (cases op) auto
  show ?case
    using Cons.IH [OF 1(2,3)] Cons.prems(3) 1 by (auto simp: returns_def step)
qed simp

end

section \<open>The peers of peer_nn keep the contract\<close>

definition nn_active :: "nn_peer \<Rightarrow> bool" where
  "nn_active peer =
    (case np_context peer of ServerContext running storage \<Rightarrow> running | ClientContext c fw accel \<Rightarrow> c \<noteq> None)"

definition nn_view :: "'e peer_world \<Rightarrow> ptr \<Rightarrow> peer_view" where
  "nn_view w p = (set (registry (ie_object (np_events (pw_peers w p)))), nn_active (pw_peers w p))"

text \<open>A peer between two calls: no handler is running, information has a host, a connected client has a pipeline and information.\<close>

definition nn_ok :: "nn_peer \<Rightarrow> bool" where
  "nn_ok peer \<longleftrightarrow> registry_ok (ie_object (np_events peer)) \<and> idle (ie_object (np_events peer))
    \<and> (case np_info peer of None \<Rightarrow> True | Some i \<Rightarrow> ni_host i \<noteq> None)
    \<and> (case np_context peer of ClientContext (Some c) fw accel \<Rightarrow> gc_gst c \<noteq> None \<and> np_info peer \<noteq> None | _ \<Rightarrow> True)"

text \<open>
  What the client relies on when a device answers: no positive status for an exchange of keys, tensor information with at
  least one tensor (only asserted), and no runtime with more devices than the first one.
\<close>

definition device_ok :: "'e environment \<Rightarrow> bool \<Rightarrow> bool" where
  "device_ok E nd \<longleftrightarrow>
    (\<forall>i key e. rr_status (fst (env_rpc E i (RpcExchangeKey key) e)) \<le> 0)
    \<and> (\<forall>i e. list_all (\<lambda>x. length (snd x) \<le> length (snd (hd (rr_runtimes (fst (env_rpc E i RpcGetInfo e))))))
          (rr_runtimes (fst (env_rpc E i RpcGetInfo e))))
    \<and> (nd \<or> (\<forall>i e. rr_infos (fst (env_rpc E i RpcGetInputTensorInfo e)) \<noteq> [] \<and> rr_infos (fst (env_rpc E i RpcGetOutputTensorInfo e)) \<noteq> []))"

text \<open>Arguments as the interface asks for them: information with dimensions, and arrays as long as their size says.\<close>

fun nn_proper :: "memory \<Rightarrow> inference_call \<Rightarrow> bool" where
  "nn_proper mem (CallSetInputTensorInfo info sz) = list_all (\<lambda>x. ti_dims x \<noteq> None) (mm_infos mem info)"
| "nn_proper mem (CallSetOutputTensorInfo info sz) = list_all (\<lambda>x. ti_dims x \<noteq> None) (mm_infos mem info)"
| "nn_proper mem (CallInvoke input sz ctx) = (nat sz \<le> length (mm_tensors mem input))"
| "nn_proper mem c = True"

definition nn_good :: "'e environment \<Rightarrow> bool \<Rightarrow> 'e peer_world \<Rightarrow> bool" where
  "nn_good E nd w \<longleftrightarrow> device_ok E nd \<and> (\<forall>p. nn_ok (pw_peers w p))"

lemma nn_view_sel [simp]:
  "fst (nn_view w p) = set (registry (ie_object (np_events (pw_peers w p))))" "snd (nn_view w p) = nn_active (pw_peers w p)"
  by (simp_all add: nn_view_def)

lemma nn_view_same [simp]:
  "(nn_view w)(p := (set (registry (ie_object (np_events (pw_peers w p)))), nn_active (pw_peers w p))) = nn_view w"
  by (simp add: nn_view_def fun_eq_iff)

text \<open>What a call that changes neither the registrations nor the activation makes of a peer.\<close>

definition nn_keeps :: "nn_peer \<Rightarrow> nn_peer \<Rightarrow> bool" where
  "nn_keeps peer peer' \<longleftrightarrow> nn_ok peer' \<and> np_events peer' = np_events peer \<and> nn_active peer' = nn_active peer"

lemmas nn_defs = nn_keeps_def nn_ok_def nn_active_def

lemma set_peer_good:
  assumes "nn_good E nd w" and "nn_keeps (pw_peers w p) peer'"
  shows "nn_good E nd (set_peer p (peer', x) w) \<and> nn_view (set_peer p (peer', x) w) = nn_view w"
  using assms by (auto simp: nn_good_def nn_keeps_def set_peer_def nn_view_def fun_eq_iff)

lemma dup_more_returns:
  "list_all (\<lambda>x. ti_dims x \<noteq> None) xs \<Longrightarrow> \<exists>ret r s'. dup_tensor_infos dest xs s = Ret (ret, r, s') \<and> (ret < 0 \<or> r \<noteq> None)"
proof (induction xs arbitrary: dest s)
  case (Cons x xs)
  obtain ok s1 where 1: "dup_element x s = (ok, s1)" by fastforce
  with Cons.IH [of "dest @ [x]" s1] Cons.prems show ?case by (cases ok) (auto simp: dup_tensor_infos_Cons errno_defs)
qed simp

lemma DupTensorInfo_returns:
  "list_all (\<lambda>x. ti_dims x \<noteq> None) xs \<Longrightarrow> returns (DupTensorInfo xs s) (\<lambda>_. True)"
  using dup_more_returns [of xs "[]"] by (fastforce simp: DupTensorInfo_def returns_def split_def Let_def)

lemma GetTensorInfoFromResponse_returns:
  "nd \<or> infos \<noteq> [] \<Longrightarrow> returns (GetTensorInfoFromResponse nd infos s) (\<lambda>_. True)"
  using dup_more_returns [of "map (\<lambda>(type, sz, name, dims). \<lparr>ti_type = type, ti_size = sz, ti_name = Some name, ti_dims = Some dims\<rparr>) infos" "[]"]
  by (fastforce simp: GetTensorInfoFromResponse_def returns_def split_def Let_def list_all_iff)

lemma SetRequest_returns: "list_all (\<lambda>x. ti_dims x \<noteq> None) xs \<Longrightarrow> returns (SetRequest xs) (\<lambda>_. True)"
  by (induction xs) (auto split: option.split list.split elim!: returns_mono)

lemma Client_GetTensorInfo_returns:
  assumes "device_ok E nd" and "gc_gst c \<noteq> None"
  shows "returns (if isInput then Client_GetInputTensorInfo E nd c w else Client_GetOutputTensorInfo E nd c w)
    (\<lambda>(ret, info, c', w'). gc_gst c' \<noteq> None)"
proof -
  obtain m where m: "gc_gst c = Some m" using assms(2) by auto
  obtain s e where w: "w = (s, e)" by fastforce
  let ?i = "fst (env_rpc E (gc_peerId c) RpcGetInputTensorInfo e)" and ?o = "fst (env_rpc E (gc_peerId c) RpcGetOutputTensorInfo e)"
  have "nd \<or> rr_infos ?i \<noteq> []" "nd \<or> rr_infos ?o \<noteq> []" using assms(1) by (auto simp: device_ok_def)
  then have "returns (GetTensorInfoFromResponse nd (rr_infos ?i) s) (\<lambda>_. True)"
      "returns (GetTensorInfoFromResponse nd (rr_infos ?o) s) (\<lambda>_. True)"
    by (simp_all add: GetTensorInfoFromResponse_returns)
  then show ?thesis
    using m by (auto simp: w Client_GetInputTensorInfo_def Client_GetOutputTensorInfo_def Let_def split_def elim!: returns_mono)
qed

lemma Client_SetTensorInfo_returns:
  assumes "list_all (\<lambda>x. ti_dims x \<noteq> None) xs" and "gc_gst c \<noteq> None"
  shows "returns (if isInput then Client_SetInputTensorInfo E xs c w else Client_SetOutputTensorInfo E xs c w)
    (\<lambda>(ret, c', w'). gc_gst c' \<noteq> None)"
proof -
  obtain m where m: "gc_gst c = Some m" using assms(2) by auto
  have "returns (DupTensorInfo xs s) (\<lambda>_. True)" for s using DupTensorInfo_returns assms(1) by blast
  then show ?thesis
    using m SetRequest_returns [OF assms(1)]
    by (cases w)
      (auto simp: Client_SetInputTensorInfo_def Client_SetOutputTensorInfo_def Let_def split_def elim!: returns_mono split: option.split)
qed

lemma nn_keeps_refl: "nn_ok peer \<Longrightarrow> nn_keeps peer peer"
  by (simp add: nn_keeps_def)

lemma Peer_NN_Configure_keeps:
  assumes "nn_ok peer"
  shows "returns (Peer_NN_Configure E opt peer (s, e)) (\<lambda>(ret, peer', x). nn_keeps peer peer')"
proof -
  have "returns (ConfigureInput E opt peer (s, e)) (\<lambda>(ret, peer', x). nn_keeps peer peer')" for opt
  proof (cases "np_context peer")
    case (ServerContext running storage)
    with assms show ?thesis by (simp add: ConfigureInput_def nn_keeps_refl)
  next
    case (ClientContext grpc fw accel)
    obtain r s1 where 1: "configured fw accel opt s = (r, s1)" by fastforce
    have "gc_gst c \<noteq> None" if "grpc = Some c" for c using assms ClientContext that by (simp add: nn_ok_def)
    moreover have "nn_keeps peer (peer\<lparr>np_reserved := x\<rparr>)" for x
      using assms by (auto simp: nn_defs split: peer_context.splits option.splits)
    ultimately show ?thesis
      using 1 assms ClientContext
      by (cases r; cases grpc) (auto simp: ConfigureInput_def nn_keeps_refl Let_def split_def)
  qed
  moreover have "nn_keeps peer (peer\<lparr>np_authenticator := x\<rparr>)" "nn_keeps peer (peer\<lparr>np_caAuthenticator := x\<rparr>)" for x
    using assms by (auto simp: nn_defs split: peer_context.splits option.splits)
  ultimately show ?thesis
    using assms by (auto simp: Peer_NN_Configure_def nn_keeps_refl split: option.split peer_option.split)
qed

lemma client_kept:
  assumes "nn_ok peer" and "np_context peer = ClientContext (Some c) fw accel" and "gc_gst c' \<noteq> None"
  shows "nn_keeps peer (peer\<lparr>np_context := ClientContext (Some c') fw accel\<rparr>)"
  using assms by (simp add: nn_defs)

lemma Peer_NN_LoadModel_keeps:
  assumes "nn_ok peer"
  shows "returns (Peer_NN_LoadModel E model peer w) (\<lambda>(ret, peer', x). nn_keeps peer peer')"
proof (cases "\<exists>c fw accel m. np_context peer = ClientContext (Some c) fw accel \<and> model = Some m")
  case True
  then obtain c fw accel m where c: "np_context peer = ClientContext (Some c) fw accel" "model = Some m" by blast
  then have "gc_gst c \<noteq> None" using assms by (simp add: nn_ok_def)
  then have "returns (Client_LoadModel E m c w) (\<lambda>(ret, c', w'). gc_gst c' \<noteq> None)"
    by (auto simp: Client_LoadModel_def Let_def split_def)
  then show ?thesis
    using c client_kept [OF assms c(1)] by (auto simp: Peer_NN_LoadModel_def Let_def split_def elim!: returns_mono)
next
  case False
  then show ?thesis using assms by (auto simp: Peer_NN_LoadModel_def nn_keeps_refl split: peer_context.split option.split)
qed

lemma Peer_NN_GetTensorInfo_keeps:
  assumes "nn_ok peer" and "device_ok E nd"
  shows "returns (Peer_NN_GetTensorInfo E nd isInput peer w) (\<lambda>(ret, info, peer', x). nn_keeps peer peer')"
proof (cases "\<exists>c fw accel. np_context peer = ClientContext (Some c) fw accel")
  case True
  then obtain c fw accel where c: "np_context peer = ClientContext (Some c) fw accel" by blast
  then have "gc_gst c \<noteq> None" using assms by (simp add: nn_ok_def)
  from Client_GetTensorInfo_returns [OF assms(2) this, of isInput w] client_kept [OF assms(1) c] c show ?thesis
    by (auto simp: Peer_NN_GetTensorInfo_def split_def elim!: returns_mono)
next
  case False
  then show ?thesis using assms by (auto simp: Peer_NN_GetTensorInfo_def nn_keeps_refl split: peer_context.split option.split)
qed

lemma Peer_NN_SetTensorInfo_keeps:
  assumes "nn_ok peer" and "case info of None \<Rightarrow> True | Some xs \<Rightarrow> list_all (\<lambda>x. ti_dims x \<noteq> None) xs"
  shows "returns (Peer_NN_SetTensorInfo E isInput info peer w) (\<lambda>(ret, peer', x). nn_keeps peer peer')"
proof (cases "\<exists>c fw accel x xs. np_context peer = ClientContext (Some c) fw accel \<and> info = Some (x # xs)")
  case True
  then obtain c fw accel x xs where c: "np_context peer = ClientContext (Some c) fw accel" and i: "info = Some (x # xs)" by blast
  have "gc_gst c \<noteq> None" using assms c by (simp add: nn_ok_def)
  moreover have "list_all (\<lambda>x. ti_dims x \<noteq> None) (x # xs)" using assms(2) i by simp
  ultimately have "returns (if isInput then Client_SetInputTensorInfo E (x # xs) c w else Client_SetOutputTensorInfo E (x # xs) c w)
      (\<lambda>(ret, c', w'). gc_gst c' \<noteq> None)" by (intro Client_SetTensorInfo_returns)
  then show ?thesis
    using client_kept [OF assms(1) c] c i assms(1)
    by (auto simp: Peer_NN_SetTensorInfo_def split_def nn_keeps_refl elim!: returns_mono)
next
  case False
  then show ?thesis
    using assms by (auto simp: Peer_NN_SetTensorInfo_def nn_keeps_refl split: peer_context.split option.split list.split)
qed

lemma Client_GetInfo_returns:
  assumes "device_ok E nd"
  shows "returns (Client_GetInfo E c info w) (\<lambda>(ret, info', w'). ni_host info' = ni_host info)"
proof -
  obtain s e where w: "w = (s, e)" by fastforce
  obtain r e1 where r: "env_rpc E (gc_peerId c) RpcGetInfo e = (r, e1)" by fastforce
  show ?thesis
  proof (cases "rr_runtimes r")
    case Nil
    with r show ?thesis by (simp add: w Client_GetInfo_def Let_def)
  next
    case (Cons first others)
    obtain name devices where first: "first = (name, devices)" by fastforce
    have "list_all (\<lambda>x. length (snd x) \<le> length devices) (first # others)"
    proof -
      let ?r = "fst (env_rpc E (gc_peerId c) RpcGetInfo e)"
      have "list_all (\<lambda>x. length (snd x) \<le> length (snd (hd (rr_runtimes ?r)))) (rr_runtimes ?r)"
        using assms unfolding device_ok_def by blast
      then show ?thesis using r Cons first by simp
    qed
    from fetch_runtimes_ledger [OF this, of "[]"] have
      "returns (fetch_runtimes (length devices) [] (first # others) s1) (\<lambda>_. True)" for s1
      by (force simp: returns_def)
    then show ?thesis
      using r Cons first by (auto simp: w Client_GetInfo_def Let_def split_def simp del: fetch_runtimes.simps(2) elim!: returns_mono)
  qed
qed

lemma Peer_NN_GetInfo_keeps:
  assumes "nn_ok peer" and "device_ok E nd"
  shows "returns (Peer_NN_GetInfo E peer w) (\<lambda>(info, peer', x). nn_keeps peer peer')"
proof (cases "\<exists>c fw accel. np_context peer = ClientContext (Some c) fw accel")
  case True
  then obtain c fw accel where c: "np_context peer = ClientContext (Some c) fw accel" by blast
  then obtain info where info: "np_info peer = Some info" "ni_host info \<noteq> None" using assms(1) by (auto simp: nn_ok_def)
  have "nn_keeps peer (peer\<lparr>np_info := Some info'\<rparr>)" if "ni_host info' = ni_host info" for info'
    using assms(1) c info that by (simp add: nn_defs)
  with Client_GetInfo_returns [OF assms(2), of c info w] c info show ?thesis
    by (auto simp: Peer_NN_GetInfo_def split_def elim!: returns_mono)
next
  case False
  then show ?thesis using assms by (auto simp: Peer_NN_GetInfo_def nn_keeps_refl split: peer_context.split option.split)
qed

lemma Peer_NN_device_calls:
  assumes "nn_ok peer"
  shows "returns (Peer_NN_Prepare E peer e) (\<lambda>_. True)" "returns (Peer_NN_Stop E peer e) (\<lambda>_. True)"
    and "nat sz \<le> length (tensors input) \<Longrightarrow> returns (Peer_NN_Invoke E tensors input sz ctx peer e) (\<lambda>_. True)"
  using assms
  by (auto simp: Peer_NN_Prepare_def Peer_NN_Stop_def Peer_NN_Invoke_def nn_ok_def Let_def split_def split: peer_context.split option.splits)

lemma Peer_NN_Activate_view:
  assumes "nn_ok peer" and "device_ok E nd"
  shows "returns (Peer_NN_Activate E peer w) (\<lambda>(ret, peer', x). nn_ok peer' \<and> np_events peer' = np_events peer
    \<and> nn_active peer' = (if ret < 0 then nn_active peer else True))"
proof (cases "np_info peer")
  case None
  with assms(1) show ?thesis by (auto simp: Peer_NN_Activate_def errno_defs)
next
  case (Some info)
  then obtain host where host: "ni_host info = Some host" using assms(1) by (auto simp: nn_ok_def)
  obtain s e where w: "w = (s, e)" by fastforce
  obtain k e1 where k: "activation_keys E peer e = (k, e1)" by fastforce
  note fails = activation_keys_fail [of E peer e _ e1]
  let ?address = "host @ '':'' @ to_string (uint (ni_port info))"
  show ?thesis
  proof (cases "\<exists>x fw accel. k = Inr x \<and> np_context peer = ClientContext None fw accel")
    case True
    then obtain certificate ca fw accel where x: "k = Inr (certificate, ca)" "np_context peer = ClientContext None fw accel" by auto
    let ?cert = "if np_caAuthenticator peer = nullptr then certificate else ca"
    have "rr_status (fst (env_rpc E [] (RpcExchangeKey key) e)) \<le> 0" for key e using assms(2) by (simp add: device_ok_def)
    from activate_client_ledger [of E, OF this, of peer info ?address ?cert s e1] obtain ret r s' e' where
      a: "activate_client E peer info ?address ?cert (s, e1) = Ret (ret, r, s', e')"
        "case r of None \<Rightarrow> ret < 0 | Some c \<Rightarrow> 0 \<le> ret \<and> gc_gst c = Some Model_new" by (auto split: option.splits)
    have "Peer_NN_Activate E peer w =
        (if r = None then Ret (ret, peer\<lparr>np_context := ClientContext r fw accel\<rparr>, s', e')
         else Ret (ret, peer\<lparr>np_context := ClientContext r fw accel, np_reserved := None\<rparr>, FreeConfig (np_reserved peer) s', e'))"
      using host k x a(1) Some by (simp add: w Peer_NN_Activate_def Let_def)
    then show ?thesis using a(2) x(2) Some host assms(1) by (cases r) (auto simp: nn_ok_def nn_active_def)
  next
    case False
    then show ?thesis
      using host k Some assms(1) fails
      by (cases k; cases "np_context peer")
        (auto simp: w Peer_NN_Activate_def nn_ok_def nn_active_def errno_defs Let_def split_def split: option.splits)
  qed
qed

lemma Peer_NN_Deactivate_view:
  assumes "nn_ok peer" and "Peer_NN_Deactivate E peer w = (ret, peer', x)"
  shows "nn_ok peer' \<and> np_events peer' = np_events peer \<and> \<not> nn_active peer'"
  using assms by (auto simp: Peer_NN_Deactivate_def nn_ok_def nn_active_def split: peer_context.splits option.splits if_splits)

lemma registry_remove:
  assumes "registry_ok eo" and "idle eo" and "t \<noteq> 0"
  shows "set (registry (snd (RemoveHandler h t d eo))) = set (registry eo) - {(h, t, d)}"
proof -
  have "set (remove1 (h, t, d) xs) = set xs - {(h, t, d)}" if "sorted_wrt (\<lambda>a b. \<not> key_clash a b) xs" for xs
    using that assms(3) by (induction xs) (auto simp: image_iff)
  with assms eo_reg.remove_present [of eo "(h, t, d)"] eo_reg.remove_absent [of "(h, t, d)" eo] show ?thesis
    by (cases "(h, t, d) \<in> set (registry eo)") (auto simp: registry_ok_def)
qed

text \<open>Peers whose event object changed only.\<close>

lemma set_events_view:
  assumes "nn_good E nd w" and "registry_ok (ie_object ev)" and "idle (ie_object ev)"
  shows "nn_good E nd (set_peer p ((pw_peers w p)\<lparr>np_events := ev\<rparr>, x) w)
    \<and> nn_view (set_peer p ((pw_peers w p)\<lparr>np_events := ev\<rparr>, x) w)
      = (nn_view w)(p := (set (registry (ie_object ev)), snd (nn_view w p)))"
proof -
  have "nn_ok (pw_peers w p)" using assms(1) by (simp add: nn_good_def)
  then have "nn_ok ((pw_peers w p)\<lparr>np_events := ev\<rparr>)"
    using assms(2,3) by (auto simp: nn_ok_def split: peer_context.splits option.splits)
  moreover have "nn_active ((pw_peers w p)\<lparr>np_events := ev\<rparr>) = nn_active (pw_peers w p)" by (simp add: nn_active_def)
  ultimately show ?thesis using assms(1) by (auto simp: nn_good_def set_peer_def nn_view_def fun_eq_iff)
qed

lemma kept_returns:
  assumes "nn_good E nd w" and "returns m (\<lambda>v. nn_keeps (pw_peers w p) (fst (f v)))"
  shows "returns m (\<lambda>v. nn_good E nd (set_peer p (f v) w) \<and> nn_view (set_peer p (f v) w) = nn_view w)"
  using assms(2)
proof (rule returns_mono)
  fix v assume "nn_keeps (pw_peers w p) (fst (f v))"
  from set_peer_good [OF assms(1) this, of "snd (f v)"]
  show "nn_good E nd (set_peer p (f v) w) \<and> nn_view (set_peer p (f v) w) = nn_view w" by simp
qed

lemma neutral_infer:
  assumes good: "nn_good E nd w" and "nn_proper mem c" and "\<not> is_event_call c"
  shows "returns (Peer_NN_infer E mem nd cb p c w) (\<lambda>(a, w'). nn_good E nd w' \<and> nn_view w' = nn_view w)"
proof -
  have ok: "nn_ok (pw_peers w p)" "device_ok E nd" using good by (simp_all add: nn_good_def)
  have os: "nn_good E nd (w\<lparr>pw_os := x\<rparr>)" "nn_view (w\<lparr>pw_os := x\<rparr>) = nn_view w"
      "nn_good E nd (w\<lparr>pw_env := y\<rparr>)" "nn_view (w\<lparr>pw_env := y\<rparr>) = nn_view w" for x y
    using good by (simp_all add: nn_good_def nn_view_def fun_eq_iff)
  have infos: "case infos_at mem info sz of None \<Rightarrow> True | Some xs \<Rightarrow> list_all (\<lambda>x. ti_dims x \<noteq> None) xs"
    if "list_all (\<lambda>x. ti_dims x \<noteq> None) (mm_infos mem info)" for info sz
    using that by (auto simp: infos_at_def list_all_iff dest: in_set_takeD)
  let ?peer = "pw_peers w p" and ?x = "(pw_os w, pw_env w)"
  let ?kept = "\<lambda>x. nn_good E nd (set_peer p x w) \<and> nn_view (set_peer p x w) = nn_view w"
  have 1: "returns (Peer_NN_Configure E opt ?peer ?x) (\<lambda>v. ?kept (snd v))" for opt
    using Peer_NN_Configure_keeps [OF ok(1)] by (intro kept_returns [OF good]) (simp add: split_def)
  have 2: "returns (Peer_NN_LoadModel E model ?peer ?x) (\<lambda>v. ?kept (snd v))" for model
    using Peer_NN_LoadModel_keeps [OF ok(1)] by (intro kept_returns [OF good]) (simp add: split_def)
  have 3: "returns (Peer_NN_GetTensorInfo E nd isInput ?peer ?x) (\<lambda>v. ?kept (snd (snd v)))" for isInput
    using Peer_NN_GetTensorInfo_keeps [OF ok] by (intro kept_returns [OF good]) (simp add: split_def)
  have 4: "returns (Peer_NN_SetTensorInfo E isInput (infos_at mem info sz) ?peer ?x) (\<lambda>v. ?kept (snd v))"
    if "list_all (\<lambda>x. ti_dims x \<noteq> None) (mm_infos mem info)" for info isInput sz
    using Peer_NN_SetTensorInfo_keeps [OF ok(1) infos [OF that]] by (intro kept_returns [OF good]) (simp add: split_def)
  show ?thesis
    using 1 2 3 4 assms os Peer_NN_device_calls(1,2) [OF ok(1), of E "pw_env w"]
      Peer_NN_device_calls(3) [OF ok(1), where E = E and e = "pw_env w"]
    by (cases c) (auto simp: Peer_NN_infer_def Let_def split_def split: peer_context.splits)
qed

interpretation nn_peers: peer_contract "Peer_NN_call E mem nd cb" "nn_good E nd" "nn_proper mem" nn_view for E mem nd cb
proof (unfold_locales, goal_cases)
  case (1 w p c)
  then show ?case
  proof (cases c)
    case PeerGetInfo
    have "nn_ok (pw_peers w p)" "device_ok E nd" using 1 by (simp_all add: nn_good_def)
    from Peer_NN_GetInfo_keeps [OF this, of "(pw_os w, pw_env w)"] kept_returns [OF 1(1), where f = snd] PeerGetInfo show ?thesis
      by (simp add: Peer_NN_call_def Let_def split_def)
  qed (use neutral_infer 1 in \<open>auto simp: Peer_NN_call_def\<close>)
next
  case (2 w p t h d)
  let ?ev = "np_events (pw_peers w p)"
  obtain ok q where q: "allocation (ie_queue ?ev) = (ok, q)" by fastforce
  obtain ret eo where eo: "AddHandler ok h t d (ie_object ?ev) = (ret, eo)" by fastforce
  have inv: "registry_ok (ie_object ?ev)" "idle (ie_object ?ev)" using 2(1) by (simp_all add: nn_good_def nn_ok_def)
  have eo_ok: "registry_ok eo" "idle eo"
    using registry_ok_AddHandler [OF inv(1), of ok h t d] idle_AddHandler [OF inv(2), of ok h t d] eo by simp_all
  have "if ret < 0 then eo = ie_object ?ev
    else (h, t, d) \<notin> set (registry (ie_object ?ev)) \<and> set (registry eo) = insert (h, t, d) (set (registry (ie_object ?ev)))"
    using AddHandler_fails [OF eo] AddHandler_Ret_0 [of ok h t d "ie_object ?ev" eo] eo 2(3) by (cases "ret = 0") auto
  then show ?case
    using q eo set_events_view [OF 2(1), of "?ev\<lparr>ie_object := eo, ie_queue := q\<rparr>" p "(pw_os w, pw_env w)"] eo_ok
    by (auto simp: Peer_NN_call_def Peer_NN_infer_def Let_def)
next
  case (3 w p t h d)
  let ?ev = "np_events (pw_peers w p)"
  obtain ret eo where eo: "RemoveHandler h t d (ie_object ?ev) = (ret, eo)" by fastforce
  have inv: "registry_ok (ie_object ?ev)" "idle (ie_object ?ev)" using 3(1) by (simp_all add: nn_good_def nn_ok_def)
  have "registry_ok eo" "idle eo"
    using eo_reg.inv_remove [of "ie_object ?ev" "(h, t, d)"] inv eo by simp_all
  then show ?case
    using eo registry_remove [OF inv 3(3), of h d] set_events_view [OF 3(1), of "?ev\<lparr>ie_object := eo\<rparr>" p "(pw_os w, pw_env w)"]
    by (auto simp: Peer_NN_call_def Peer_NN_infer_def Let_def)
next
  case (4 w p)
  have "nn_ok (pw_peers w p)" "device_ok E nd" using 4 by (simp_all add: nn_good_def)
  from Peer_NN_Activate_view [OF this, of "(pw_os w, pw_env w)"] 4(1) show ?case
    by (auto simp: Peer_NN_call_def Let_def split_def nn_good_def nn_view_def set_peer_def fun_eq_iff elim!: returns_mono)
next
  case (5 w p)
  obtain ret peer' x where d: "Peer_NN_Deactivate E (pw_peers w p) (pw_os w, pw_env w) = (ret, peer', x)"
    by (cases "Peer_NN_Deactivate E (pw_peers w p) (pw_os w, pw_env w)")
  have "nn_ok (pw_peers w p)" using 5 by (simp add: nn_good_def)
  from Peer_NN_Deactivate_view [OF this d] 5(1) d show ?case
    by (auto simp: Peer_NN_call_def nn_good_def nn_view_def set_peer_def fun_eq_iff)
qed simp_all

section \<open>Properties\<close>

text \<open>
  C27. A remote inference over peers of peer_nn. Whatever a device answers within what the client relies on, and whatever calls of
  the operating system fail, every sequence of calls with proper arguments on the inference returns; its vector is what the client
  knows from its calls and their results, no peer is in it twice, every peer in it is activated, and the inference's handler
  is registered at exactly these peers: a failing activation or a removal takes it back.
\<close>

theorem remote_attaches_peers:
  assumes "device_ok E nd" and "\<And>p. nn_ok (pw_peers w p)" and "attached nn_view r w"
    and "list_all (proper_with (nn_proper mem)) ops"
  shows "\<exists>replies r' w'. Remote_run (Peer_NN_call E mem nd cb) nd cb' ops r w = Ret (replies, r', w')
    \<and> length replies = length ops \<and> rm_peerVector r' = peers_after ops replies (rm_peerVector r) \<and> attached nn_view r' w'"
  using nn_peers.run_attached [of r w E nd mem ops cb nd cb'] assms by (auto simp: nn_good_def returns_def)

definition ex_memory :: memory where
  "ex_memory = \<lparr>mm_infos = \<lambda>p. [], mm_tensors = \<lambda>p. [(4, True)], mm_options = \<lambda>p. OptOtherInput, mm_info = \<lambda>p. ex_info,
    mm_place_infos = \<lambda>x. 1, mm_place_tensors = \<lambda>x. 2\<rparr>"

definition ex_world :: "unit peer_world" where
  "ex_world = \<lparr>pw_peers = \<lambda>p. ex_peer None, pw_os = \<lparr>open_fds = {}, next_fd = 0, live = 8, faults = []\<rparr>, pw_env = ()\<rparr>"

definition ex_calls :: "inference_op list" where
  "ex_calls = [AddPeer 10, AddPeer 20, Method CallPrepare, AddPeer 10, RemovePeer 10, Method (CallInvoke 7 1 0)]"

lemma remote_attaches_peers_witness:
  "\<exists>replies r' w'. Remote_run (Peer_NN_call (ex_device [''cpu'']) ex_memory True (\<lambda>h t ed d s. (RETURN_RENEW, [], s))) True
      (\<lambda>h t ed d s. (RETURN_RENEW, [], s)) ex_calls fresh_remote ex_world = Ret (replies, r', w')
    \<and> length replies = 6 \<and> rm_peerVector r' = peers_after ex_calls replies [] \<and> attached nn_view r' w'"
proof -
  have "device_ok (ex_device [''cpu'']) True" by (simp add: device_ok_def ex_device_def)
  moreover have "nn_ok (pw_peers ex_world p)" for p
    by (simp add: ex_world_def nn_ok_def ex_peer_def events_of_def EventObject_new_def registry_ok_def registry_def idle_def ex_info_def)
  moreover have "attached nn_view fresh_remote ex_world"
    by (simp add: attached_def remote_ok_def fresh_remote_def nn_view_def ex_world_def ex_peer_def events_of_def EventObject_new_def registry_def)
  moreover have "list_all (proper_with (nn_proper ex_memory)) ex_calls" by (simp add: ex_calls_def proper_with_def ex_memory_def)
  moreover have "length ex_calls = 6" "rm_peerVector fresh_remote = []" by (simp_all add: ex_calls_def fresh_remote_def)
  ultimately show ?thesis
    using remote_attaches_peers [of "ex_device [''cpu'']" True ex_world fresh_remote ex_memory ex_calls] by auto
qed

text \<open>\<open>PeerEventHandler\<close> as a handler of the peer, with the events of the inference as its state; it is used where it returns.\<close>

definition forward :: "bool \<Rightarrow> (published \<times> inference_events option) event_handler" where
  "forward nd h t ed d s =
    (case PeerEventHandler nd t ed (snd s) of
      Ret (ret, events) \<Rightarrow> (ret, [], fst s, events)
    | _ \<Rightarrow> (RETURN_CANCEL, [], s))"

text \<open>No read, write or allocation fails.\<close>

definition quiet :: "inference_events \<Rightarrow> bool" where
  "quiet e \<longleftrightarrow> pq_events (ie_queue e) = [] \<and> pq_errors (ie_queue e) = [] \<and> pq_new (ie_queue e) = []
    \<and> registry_ok (ie_object e) \<and> idle (ie_object e) \<and> 0 \<le> eo_handle (ie_object e)"

definition info_updated :: event_data where
  "info_updated = \<lparr>ed_type = event_code PEER_INFO_UPDATED OR EVT_READ, ed_data = nullptr\<rparr>"

lemma forwards_info:
  assumes "quiet e"
  shows "PeerEventHandler nd (ed_type info_updated AND forwarded_types) info_updated (Some e)
    = Ret (RETURN_RENEW, Some (e\<lparr>ie_queue := (ie_queue e)\<lparr>pq_events := [Some info_updated]\<rparr>\<rparr>))"
  using assms
  by (simp add: PeerEventHandler_def quiet_def info_updated_def forwarded_types_def allocation_def PublishEventData_def pq_fault_def pq_step_def)

lemma fetch_info:
  assumes "quiet pe" and "eo_handlers (ie_object pe)
      = [\<lparr>hd_handler = peer_event_handler, hd_type = forwarded_types, hd_data = this, hd_in_use = False, hd_is_deleted = False\<rparr>]"
    and "quiet e"
  shows "PeerEvent_FetchEventData (forward nd) None (ie_object pe)
      ((ie_queue pe)\<lparr>pq_events := [Some \<lparr>ed_type = event_code PEER_INFO_UPDATED, ed_data = nullptr\<rparr>]\<rparr>, Some e)
    = Ret (0, Some info_updated, ie_object pe, ie_queue pe, Some (e\<lparr>ie_queue := (ie_queue e)\<lparr>pq_events := [Some info_updated]\<rparr>\<rparr>))"
proof -
  have sc: "self_contained (forward nd) ed eo" for ed eo
    by (auto simp: self_contained_def forward_def split: outcome.split)
  have q: "(ie_queue pe)\<lparr>pq_events := []\<rparr> = ie_queue pe" using assms(1) by (simp add: quiet_def)
  have "forwarded_types AND ed_type info_updated \<noteq> 0" by (simp add: forwarded_types_def info_updated_def)
  then have "notify (forward nd) info_updated (eo_handlers (ie_object pe)) (ie_queue pe, Some e)
      = (eo_handlers (ie_object pe), ie_queue pe, Some (e\<lparr>ie_queue := (ie_queue e)\<lparr>pq_events := [Some info_updated]\<rparr>\<rparr>))"
    using forwards_info [OF assms(3), of nd] by (simp add: assms(2) forward_def)
  moreover have "(ie_object pe)\<lparr>eo_handlers := eo_handlers (ie_object pe)\<rparr> = ie_object pe" by simp
  ultimately have D: "dispatch (forward nd) info_updated 0 (ie_object pe) (ie_queue pe, Some e)
      = Ret (ie_object pe, ie_queue pe, Some (e\<lparr>ie_queue := (ie_queue e)\<lparr>pq_events := [Some info_updated]\<rparr>\<rparr>))"
    using dispatch_notify [of "ie_object pe" "[]" "eo_handlers (ie_object pe)" "forward nd" info_updated "(ie_queue pe, Some e)"] sc assms(1,2)
    by (simp add: quiet_def)
  let ?q = "(ie_queue pe)\<lparr>pq_events := [Some \<lparr>ed_type = event_code PEER_INFO_UPDATED, ed_data = nullptr\<rparr>]\<rparr>"
  have "pq_step ?q = ?q" using assms(1) by (simp add: quiet_def pq_step_def)
  then have "peer_fetcher EVT_READ None (?q, Some e) = (RETURN_RENEW, Some info_updated, ie_queue pe, Some e)"
    using assms(1) q by (simp add: peer_fetcher_def pq_fault_def quiet_def info_updated_def)
  with D assms(1) show ?thesis
    by (simp add: PeerEvent_FetchEventData_def FetchEventData_def pipe_ready_def select_type_def quiet_def)
qed

lemma copy_info_error: "copy_info isServer info s = Ret (Inl ret, s') \<Longrightarrow> ret < 0"
  by (auto simp: copy_info_def Let_def errno_defs obind_eq_Ret split: option.splits if_splits prod.splits list.splits)

text \<open>
  C31. News about a device reaches the client of the inference. When \<open>SetInfo\<close> has succeeded for a peer at which an inference
  is registered and nothing fails, fetching the peer's event makes the inference's handler publish it, and the next fetch of the inference
  returns a PEER_INFO_UPDATED event with the READ bit and runs the client's handlers on it.
\<close>

theorem info_event_reaches_client:
  assumes "Peer_NN_SetInfo (Some i) peer s = Ret (0, peer', s')"
    and "quiet (np_events peer)" and "eo_handlers (ie_object (np_events peer))
      = [\<lparr>hd_handler = peer_event_handler, hd_type = forwarded_types, hd_data = this, hd_in_use = False, hd_is_deleted = False\<rparr>]"
    and "quiet e" and "self_contained cb info_updated (ie_object e)"
    and "self_contained cb \<lparr>ed_type = EVT_ERROR, ed_data = nullptr\<rparr> (ie_object e)"
  shows "\<exists>e'. PeerEvent_FetchEventData (forward nd) None (ie_object (np_events peer')) (ie_queue (np_events peer'), Some e)
      = Ret (0, Some info_updated, ie_object (np_events peer), ie_queue (np_events peer), Some e')
    \<and> events_call nd cb (CallFetchEventData None) (Some e') x
      = (let (hs, q, x') = notify cb info_updated (eo_handlers (ie_object e)) (ie_queue e, x) in
         Ret ((ret_only 0)\<lparr>r_event := Some info_updated\<rparr>, Some (e\<lparr>ie_object := (ie_object e)\<lparr>eo_handlers := hs\<rparr>, ie_queue := q\<rparr>), x'))"
proof -
  let ?pe = "np_events peer" and ?ed = "\<lparr>ed_type = event_code PEER_INFO_UPDATED, ed_data = nullptr\<rparr>"
  let ?e = "e\<lparr>ie_queue := (ie_queue e)\<lparr>pq_events := [Some info_updated]\<rparr>\<rparr>"
  have pub: "PeerEvent_Publish (event_code PEER_INFO_UPDATED) nullptr (ie_queue ?pe) = (0, (ie_queue ?pe)\<lparr>pq_events := [Some ?ed]\<rparr>)"
    using assms(2) by (simp add: quiet_def PeerEvent_Publish_def allocation_def PublishEventData_def pq_fault_def pq_step_def)
  have "np_events peer' = ?pe\<lparr>ie_queue := (ie_queue ?pe)\<lparr>pq_events := [Some ?ed]\<rparr>\<rparr>"
    using assms(1) pub
    by (cases "copy_info (case np_context peer of ServerContext _ _ \<Rightarrow> True | _ \<Rightarrow> False) (Some i) s")
      (auto simp: Peer_NN_SetInfo_def Let_def split: sum.splits dest: copy_info_error)
  with fetch_info [OF assms(2,3,4), of nd] have 1:
    "PeerEvent_FetchEventData (forward nd) None (ie_object (np_events peer')) (ie_queue (np_events peer'), Some e)
      = Ret (0, Some info_updated, ie_object ?pe, ie_queue ?pe, Some ?e)" by simp
  have ed: "info_updated\<lparr>ed_type := ed_type info_updated OR EVT_READ\<rparr> = info_updated" by (simp add: info_updated_def)
  have q: "pq_fault (ie_queue ?e) = 0" "(pq_step (ie_queue ?e))\<lparr>pq_events := []\<rparr> = ie_queue e"
    using assms(4) by (simp_all add: quiet_def pq_fault_def pq_step_def)
  have "Pipe_FetchEventData nd cb None (ie_object e) (ie_queue ?e, x)
      = (let (hs, s') = notify cb info_updated (eo_handlers (ie_object e)) (ie_queue e, x) in
         Ret (0, Some info_updated, (ie_object e)\<lparr>eo_handlers := hs\<rparr>, s'))"
    using fetch_one [of "ie_object e" "ie_queue ?e" info_updated cb nd x] assms(4-6) ed q by (simp add: quiet_def)
  then have "events_call nd cb (CallFetchEventData None) (Some ?e) x
      = (let (hs, q, x') = notify cb info_updated (eo_handlers (ie_object e)) (ie_queue e, x) in
         Ret ((ret_only 0)\<lparr>r_event := Some info_updated\<rparr>, Some (e\<lparr>ie_object := (ie_object e)\<lparr>eo_handlers := hs\<rparr>, ie_queue := q\<rparr>), x'))"
    by (simp add: events_call_def Let_def split_def)
  with 1 show ?thesis by blast
qed

definition ex_registered :: nn_peer where
  "ex_registered = (let p = ex_peer None; e = np_events p in
    p\<lparr>np_events := e\<lparr>ie_object := (ie_object e)\<lparr>eo_handlers := [\<lparr>hd_handler = peer_event_handler, hd_type = forwarded_types,
      hd_data = 9, hd_in_use = False, hd_is_deleted = False\<rparr>]\<rparr>\<rparr>\<rparr>)"

lemma info_event_reaches_client_witness:
  "\<exists>peer' s' e'. Peer_NN_SetInfo (Some ex_new_info) ex_registered \<lparr>open_fds = {}, next_fd = 0, live = 8, faults = []\<rparr> = Ret (0, peer', s')
    \<and> PeerEvent_FetchEventData (forward True) None (ie_object (np_events peer')) (ie_queue (np_events peer'), Some (events_of \<lparr>ep_handle = 5, ep_publish = 6\<rparr>))
      = Ret (0, Some info_updated, ie_object (np_events ex_registered), ie_queue (np_events ex_registered), Some e')
    \<and> events_call True (\<lambda>h t ed d s. (RETURN_RENEW, [], s)) (CallFetchEventData None) (Some e') ()
      = Ret ((ret_only 0)\<lparr>r_event := Some info_updated\<rparr>, Some (events_of \<lparr>ep_handle = 5, ep_publish = 6\<rparr>), ())"
proof -
  let ?s = "\<lparr>open_fds = {}, next_fd = 0, live = 8, faults = []\<rparr>" and ?e = "events_of \<lparr>ep_handle = 5, ep_publish = 6\<rparr>"
  have q: "quiet (np_events ex_registered)" "quiet ?e"
    by (simp_all add: quiet_def ex_registered_def ex_peer_def events_of_def EventObject_new_def registry_ok_def registry_def idle_def)
  have "\<exists>peer' s'. Peer_NN_SetInfo (Some ex_new_info) ex_registered ?s = Ret (0, peer', s')"
    by (simp add: Peer_NN_SetInfo_def copy_info_def ex_new_info_def ex_registered_def ex_peer_def os_new_def pop_def fault_def Let_def
      PeerEvent_Publish_def events_of_def allocation_def PublishEventData_def pq_fault_def)
  then obtain peer' s' where 1: "Peer_NN_SetInfo (Some ex_new_info) ex_registered ?s = Ret (0, peer', s')" by blast
  have sc: "self_contained (\<lambda>h t ed d s. (RETURN_RENEW, [], s)) ed eo" for ed eo by (simp add: self_contained_def)
  have h: "eo_handlers (ie_object (np_events ex_registered))
      = [\<lparr>hd_handler = peer_event_handler, hd_type = forwarded_types, hd_data = 9, hd_in_use = False, hd_is_deleted = False\<rparr>]"
    by (simp add: ex_registered_def Let_def)
  have e: "eo_handlers (ie_object ?e) = []" "?e\<lparr>ie_object := (ie_object ?e)\<lparr>eo_handlers := []\<rparr>, ie_queue := ie_queue ?e\<rparr> = ?e"
    by (simp_all add: events_of_def EventObject_new_def)
  from info_event_reaches_client [OF 1 q(1) h q(2) sc sc, where nd = True and x = "()"] 1 show ?thesis
    by (simp only: e notify.simps Let_def prod.case) blast
qed

end
