(* ===== verification/Auth_SSL.thy ===== *)
theory Auth_SSL
  imports Posix Module_Interface "HOL-Library.Sublist"
begin

text \<open>
  \<^verbatim>\<open>libbeyond-authenticator_ssl/src/authenticator.cc\<close>, the part over OpenSSL: keys and certificates, encryption, signatures and
  base64. OpenSSL is a parameter: \<open>openssl\<close> is a record of the functions it computes, and its calls fail as the script of the
  operating system says. Every object of OpenSSL, every reference to a key and every block of memory counts as one live object; an
  \<^verbatim>\<open>RSA\<close> that was assigned to a key is a part of it.

  A buffer and its size are the list of its bytes; sizes are below \<open>2 ^ 31\<close>. A call that moves bytes returns -2 when the script
  has 2. The assertions about \<^verbatim>\<open>BIO_push\<close> and \<^verbatim>\<open>BIO_set_close\<close> state what OpenSSL documents; the dumps and checks
  of debug builds are left out. \<^verbatim>\<open>size_t\<close> is as wide as \<^verbatim>\<open>int\<close> in \<open>GenerateSign\<close>, which converts between pointers to them.
\<close>

section \<open>Sequences of calls\<close>

text \<open>
  The shape of every function here: a call, and when it fails, the objects obtained so far are given back and an error is returned.
  The number is how many objects the branch gives back.
\<close>

definition give_back :: "nat \<Rightarrow> os \<Rightarrow> os" where
  "give_back k = (os_delete ^^ k)"

definition finish :: "'r \<Rightarrow> nat \<Rightarrow> os \<Rightarrow> ('r \<times> os) outcome" where
  "finish r k s = Ret (r, give_back k s)"

text \<open>A call that creates an object or takes a reference.\<close>

definition acquire :: "'r \<Rightarrow> nat \<Rightarrow> (os \<Rightarrow> ('r \<times> os) outcome) \<Rightarrow> os \<Rightarrow> ('r \<times> os) outcome" where
  "acquire err k f s = (let (allocated, s1) = os_new s in if allocated then f s1 else finish err k s1)"

text \<open>A call that creates nothing.\<close>

definition attempt :: "'r \<Rightarrow> nat \<Rightarrow> (os \<Rightarrow> ('r \<times> os) outcome) \<Rightarrow> os \<Rightarrow> ('r \<times> os) outcome" where
  "attempt err k f s = (let (ret, s1) = os_call s in if ret < 0 then finish err k s1 else f s1)"

text \<open>A call that returns a number, here \<open>n\<close>; -2 says that it is not implemented.\<close>

definition transfer :: "int \<Rightarrow> 'r \<Rightarrow> 'r \<Rightarrow> nat \<Rightarrow> (os \<Rightarrow> ('r \<times> os) outcome) \<Rightarrow> os \<Rightarrow> ('r \<times> os) outcome" where
  "transfer n unsupported err k f s =
    (let (r, s1) = os_call s; ret = (if r < 0 then r else n) in
     if ret = - 2 then finish unsupported k s1 else if ret \<le> 0 then finish err k s1 else f s1)"

definition release :: "nat \<Rightarrow> (os \<Rightarrow> ('r \<times> os) outcome) \<Rightarrow> os \<Rightarrow> ('r \<times> os) outcome" where
  "release k f s = f (give_back k s)"

definition held :: "'a option \<Rightarrow> nat" where
  "held x = (case x of None \<Rightarrow> 0 | Some _ \<Rightarrow> 1)"

section \<open>OpenSSL\<close>

type_synonym bytes = string
type_synonym pkey = nat \<comment> \<open>which pair of keys\<close>
type_synonym x509_name = "(string \<times> string) list"

datatype crypto_op = ENCRYPT | DECRYPT

datatype nid = NID_basic_constraints | NID_key_usage | NID_netscape_cert_type | NID_ext_key_usage
  | NID_subject_alt_name | NID_subject_key_identifier | NID_authority_key_identifier

record x509 =
  x_version :: int
  x_pubkey :: "pkey option"
  x_serial :: int
  x_not_before :: int \<comment> \<open>seconds from now\<close>
  x_not_after :: int
  x_subject :: x509_name
  x_issuer :: x509_name
  x_extensions :: "(nid \<times> string \<times> x509_name) list" \<comment> \<open>with the subject of the issuer given\<close>
  x_signature :: "pkey option" \<comment> \<open>the key that signed it\<close>

definition X509_new :: x509 where
  "X509_new = \<lparr>x_version = 0, x_pubkey = None, x_serial = 0, x_not_before = 0, x_not_after = 0, x_subject = [],
    x_issuer = [], x_extensions = [], x_signature = None\<rparr>"

text \<open>
  \<open>ssl_aes\<close> gives what the update and the final call write; the final call fails with \<open>None\<close> on a wrong padding. Random numbers come
  from a counter that every use advances.
\<close>

record openssl =
  ssl_keygen :: "int \<Rightarrow> nat \<Rightarrow> pkey option" \<comment> \<open>None: not that many bits\<close>
  ssl_random :: "nat \<Rightarrow> nat \<Rightarrow> bytes"
  ssl_pem_private :: "pkey \<Rightarrow> bytes"
  ssl_pem_public :: "pkey \<Rightarrow> bytes"
  ssl_pem_x509 :: "x509 \<Rightarrow> bytes"
  ssl_read_private :: "bytes \<Rightarrow> pkey option"
  ssl_read_x509 :: "bytes \<Rightarrow> x509 option"
  ssl_rsa :: "crypto_op \<Rightarrow> pkey \<Rightarrow> bytes \<Rightarrow> bytes option"
  ssl_aes :: "crypto_op \<Rightarrow> bytes \<Rightarrow> bytes \<Rightarrow> bytes \<Rightarrow> bytes \<times> bytes option"
  ssl_encode64 :: "bytes \<Rightarrow> bytes"
  ssl_decode64 :: "bytes \<Rightarrow> bytes"
  ssl_sign :: "pkey \<Rightarrow> bytes \<Rightarrow> bytes"
  ssl_verify :: "pkey \<Rightarrow> bytes \<Rightarrow> bytes \<Rightarrow> bool"
  ssl_extension :: "nid \<Rightarrow> string \<Rightarrow> bool" \<comment> \<open>whether the value can be read\<close>

section \<open>Configuration and context\<close>

record ssl_config =
  sc_bits :: int
  sc_serial :: int
  sc_days :: int
  sc_isCA :: bool
  sc_enableBase64 :: bool
  sc_secretKeyBits :: int
  sc_passphrase :: string
  sc_privateKey :: string
  sc_certificate :: string
  sc_alternativeName :: string
  sc_secretKey :: string

record ssl_context =
  cx_x509 :: "x509 option"
  cx_keypair :: "pkey option"
  cx_secretKey :: bytes
  cx_entropy :: nat

definition BITS_TO_BYTES :: "int \<Rightarrow> int" where
  "BITS_TO_BYTES bits = bits div 8"

definition DAYS_TO_SECONDS :: "int \<Rightarrow> int" where
  "DAYS_TO_SECONDS days = days * 24 * 60 * 60"

definition INT_MAX :: int where
  "INT_MAX = 2 ^ 31 - 1"

definition DEFAULT_BIO_BUFSZ :: nat where
  "DEFAULT_BIO_BUFSZ = 4096"

section \<open>Base64\<close>

definition EncodeBase64 :: "openssl \<Rightarrow> bytes \<Rightarrow> os \<Rightarrow> ((int + bytes) \<times> os) outcome" where
  "EncodeBase64 X input =
    acquire (Inl (- EFAULT)) 0
    (acquire (Inl (- EFAULT)) 1
    (transfer (int (length input)) (Inl (- ENOTSUP)) (Inl (- EFAULT)) 2
    (attempt (Inl (- EFAULT)) 2
    (attempt (Inl (- EFAULT)) 2
    (if ssl_encode64 X input = [] then finish (Inl (- EINVAL)) 2
     else acquire (Inl (- ENOMEM)) 2 (finish (Inr (ssl_encode64 X input)) 2))))))"

definition DecodeBase64 :: "openssl \<Rightarrow> bytes \<Rightarrow> os \<Rightarrow> ((int + bytes) \<times> os) outcome" where
  "DecodeBase64 X input =
    (let decoded = take (length input) (ssl_decode64 X input) in
     acquire (Inl (- EFAULT)) 0
     (acquire (Inl (- EFAULT)) 1
     (acquire (Inl (- ENOMEM)) 2
     (transfer (int (length decoded)) (Inl (- ENOTSUP)) (Inl (- EFAULT)) 3
     (release 2
     (attempt (Inl (- ENOMEM)) 1
     (finish (Inr decoded) 0)))))))"

section \<open>Encryption\<close>

text \<open>
  The key of the operation, with whether a reference to it is taken. The calls with a context hold the context and that reference.
  The operation is called twice: for the size of its output, then for the output.
\<close>

definition CryptoAsymmetric ::
    "openssl \<Rightarrow> ssl_context \<Rightarrow> crypto_op \<Rightarrow> key_id \<Rightarrow> bytes \<Rightarrow> os \<Rightarrow> ((int + bytes option) \<times> os) outcome" where
  "CryptoAsymmetric X cx op kid input =
    (let operation = (\<lambda>key h.
       acquire (Inl (- EFAULT)) h
       (attempt (Inl (- EFAULT)) (h + 1)
       (attempt (Inl (- EFAULT)) (h + 1)
       (transfer 1 (Inl (- ENOTSUP)) (Inl (- EFAULT)) (h + 1)
       (acquire (Inl (- ENOMEM)) (h + 1)
       (attempt (Inl (- EFAULT)) (h + 2)
       (case ssl_rsa X op key input of
          None \<Rightarrow> finish (Inl (- EFAULT)) (h + 2)
        | Some out \<Rightarrow> finish (Inr (Some out)) (h + 1))))))))
     in
     case kid of
       KEY_PRIVATE \<Rightarrow>
         (case cx_keypair cx of None \<Rightarrow> finish (Inl (- EINVAL)) 0 | Some key \<Rightarrow> operation key 0)
     | KEY_PUBLIC \<Rightarrow>
         (case cx_x509 cx of
           None \<Rightarrow> finish (Inl (- EINVAL)) 0
         | Some x \<Rightarrow>
             (case x_pubkey x of
               None \<Rightarrow> finish (Inl (- EFAULT)) 0
             | Some key \<Rightarrow> acquire (Inl (- EFAULT)) 0 (operation key 1)))
     | _ \<Rightarrow> finish (Inl (- EINVAL)) 0)"

text \<open>
  AES-256 in CBC mode. The initialisation reads 32 bytes behind \<^verbatim>\<open>c_str()\<close> and 16 behind \<open>iv\<close>, whatever is there. The output has
  the size of the input rounded up to blocks; the update and the final call write what they have to write, into it or behind its end. A
  reallocation to no bytes frees the block and returns null, which the code takes for a failure: \<open>Inr None\<close> is that freed pointer.
\<close>

definition AES_KEY_SIZE :: nat where "AES_KEY_SIZE = 32"
definition AES_BLOCK_SIZE :: nat where "AES_BLOCK_SIZE = 16"

definition outlen :: "bytes \<Rightarrow> nat" where
  "outlen input =
    (let paddingSize = length input mod AES_BLOCK_SIZE;
         paddingSize = (if paddingSize = 0 then 0 else AES_BLOCK_SIZE - paddingSize) in
     length input + paddingSize)"

definition CryptoSymmetric ::
    "openssl \<Rightarrow> ssl_context \<Rightarrow> crypto_op \<Rightarrow> bytes \<Rightarrow> bytes \<Rightarrow> os \<Rightarrow> ((int + bytes option) \<times> os) outcome" where
  "CryptoSymmetric X cx op iv input =
    (let c_str = cx_secretKey cx @ [CHR 0x00];
         (updated, final) = ssl_aes X op (take AES_KEY_SIZE c_str) (take AES_BLOCK_SIZE iv) input in
     acquire (Inl (- EFAULT)) 0
     (if length c_str < AES_KEY_SIZE \<or> length iv < AES_BLOCK_SIZE then (\<lambda>_. Undefined)
      else attempt (Inl (- EFAULT)) 1
       (attempt (Inl (- EFAULT)) 1
       (acquire (Inl (- ENOMEM)) 1
       (attempt (Inl (- EFAULT)) 2
       (if length updated > outlen input then (\<lambda>_. Undefined)
        else attempt (Inl (- EFAULT)) 2
         (case final of
           None \<Rightarrow> finish (Inl (- EFAULT)) 2
         | Some rest \<Rightarrow>
             let out = updated @ rest in
             if length out > outlen input then (\<lambda>_. Undefined)
             else if length out < outlen input then
               if out = [] then finish (Inr None) 2
               else attempt (Inr (Some out)) 1 (finish (Inr (Some out)) 1)
             else finish (Inr (Some out)) 1)))))))"

section \<open>Keys as text\<close>

text \<open>The common end of the functions that write a key: read the text back from the \<^verbatim>\<open>BIO\<close>, free it, copy the text.\<close>

definition bio_text :: "bytes \<Rightarrow> os \<Rightarrow> ((int + bytes) \<times> os) outcome" where
  "bio_text written =
    (let buffer = take DEFAULT_BIO_BUFSZ written in
     attempt (Inl (- EFAULT)) 1
     (if buffer = [] then finish (Inl (- EFAULT)) 1
      else release 1 (acquire (Inl (- ENOMEM)) 0 (finish (Inr buffer) 0))))"

definition GetPrivateKey :: "openssl \<Rightarrow> ssl_context \<Rightarrow> os \<Rightarrow> ((int + bytes) \<times> os) outcome" where
  "GetPrivateKey X cx =
    (case cx_keypair cx of
      None \<Rightarrow> finish (Inl (- EINVAL)) 0
    | Some key \<Rightarrow>
        acquire (Inl (- EFAULT)) 0
        (attempt (Inl (- EFAULT)) 1
        (bio_text (ssl_pem_private X key))))"

text \<open>Holds the \<^verbatim>\<open>BIO\<close>, then the key, then its RSA.\<close>

definition GetPublicKey :: "openssl \<Rightarrow> ssl_context \<Rightarrow> os \<Rightarrow> ((int + bytes) \<times> os) outcome" where
  "GetPublicKey X cx =
    (case cx_x509 cx of
      None \<Rightarrow> finish (Inl (- EINVAL)) 0
    | Some x \<Rightarrow>
        acquire (Inl (- EFAULT)) 0
        (case x_pubkey x of
          None \<Rightarrow> finish (Inl (- EFAULT)) 1
        | Some key \<Rightarrow>
            acquire (Inl (- EFAULT)) 1
            (acquire (Inl (- EFAULT)) 2
            (attempt (Inl (- EFAULT)) 3
            (release 2
            (bio_text (ssl_pem_public X key)))))))"

definition GetCertificate :: "openssl \<Rightarrow> ssl_context \<Rightarrow> os \<Rightarrow> ((int + bytes) \<times> os) outcome" where
  "GetCertificate X cx =
    (case cx_x509 cx of
      None \<Rightarrow> finish (Inl (- EINVAL)) 0
    | Some x \<Rightarrow>
        acquire (Inl (- EFAULT)) 0
        (attempt (Inl (- EFAULT)) 1
        (bio_text (ssl_pem_x509 X x))))"

definition GetSecretKey :: "openssl \<Rightarrow> ssl_config \<Rightarrow> ssl_context \<Rightarrow> os \<Rightarrow> ((int + bytes) \<times> os) outcome" where
  "GetSecretKey X cfg cx =
    (if cx_secretKey cx = [] then finish (Inl (- EINVAL)) 0
     else if sc_enableBase64 cfg then EncodeBase64 X (cx_secretKey cx)
     else acquire (Inl (- ENOMEM)) 0 (finish (Inr (cx_secretKey cx)) 0))"

section \<open>Signatures\<close>

text \<open>Holds the RSA, the new key (which takes the RSA), the digest context, the signature.\<close>

definition GenerateSign :: "openssl \<Rightarrow> ssl_context \<Rightarrow> bytes \<Rightarrow> os \<Rightarrow> ((int + bytes) \<times> os) outcome" where
  "GenerateSign X cx data =
    (case cx_keypair cx of
      None \<Rightarrow> finish (Inl (- EINVAL)) 0
    | Some key \<Rightarrow>
        acquire (Inl (- EFAULT)) 0
        (acquire (Inl (- EFAULT)) 1
        (attempt (Inl (- EFAULT)) 2
        (release 1
        (acquire (Inl (- EFAULT)) 1
        (attempt (Inl (- EFAULT)) 2
        (attempt (Inl (- EFAULT)) 2
        (attempt (Inl (- EFAULT)) 2
        (attempt (Inl (- EFAULT)) 2
        (acquire (Inl (- ENOMEM)) 2
        (attempt (Inl (- EFAULT)) 3
        (finish (Inr (ssl_sign X key data)) 2))))))))))))"

text \<open>
  Holds the certificate's key, its RSA, the new key, the digest context. No branch frees the new key. The second component is what is
  written to \<open>authentic\<close>, if anything.
\<close>

definition VerifySign ::
    "openssl \<Rightarrow> ssl_context \<Rightarrow> bytes \<Rightarrow> bytes \<Rightarrow> os \<Rightarrow> ((int \<times> bool option) \<times> os) outcome" where
  "VerifySign X cx signedData original =
    (case cx_x509 cx of
      None \<Rightarrow> finish (- EINVAL, None) 0
    | Some x \<Rightarrow>
        (case x_pubkey x of
          None \<Rightarrow> finish (- EFAULT, None) 0
        | Some key \<Rightarrow>
            acquire (- EFAULT, None) 0
            (acquire (- EFAULT, None) 1
            (acquire (- EFAULT, None) 2
            (attempt (- EFAULT, None) 2
            (release 1
            (acquire (- EFAULT, None) 1
            (attempt (- EFAULT, None) 2
            (attempt (- EFAULT, None) 2
            (attempt (- EFAULT, None) 2
            (attempt (- EFAULT, Some False) 2
            (finish (0, Some (ssl_verify X key original signedData)) 2))))))))))))"

section \<open>Keys and certificates\<close>

definition LoadPrivateKey :: "openssl \<Rightarrow> bytes \<Rightarrow> os \<Rightarrow> ((int + pkey) \<times> os) outcome" where
  "LoadPrivateKey X text =
    acquire (Inl (- EFAULT)) 0
    (if text = [] then finish (Inl (- EFAULT)) 1
     else attempt (Inl (- EFAULT)) 1
      (case ssl_read_private X text of
         None \<Rightarrow> finish (Inl (- EFAULT)) 1
       | Some key \<Rightarrow> acquire (Inl (- EFAULT)) 1 (finish (Inr key) 1)))"

text \<open>\<open>LoadCertificate\<close> of a text.\<close>

definition LoadX509 :: "openssl \<Rightarrow> bytes \<Rightarrow> os \<Rightarrow> ((int + x509) \<times> os) outcome" where
  "LoadX509 X text =
    acquire (Inl (- EFAULT)) 0
    (if text = [] then finish (Inl (- EFAULT)) 1
     else attempt (Inl (- EFAULT)) 1
      (case ssl_read_x509 X text of
         None \<Rightarrow> finish (Inl (- EFAULT)) 1
       | Some x \<Rightarrow> acquire (Inl (- EFAULT)) 1 (finish (Inr x) 1)))"

text \<open>\<open>LoadCertificate\<close> of the configuration: the second half loads the certificate.\<close>

definition load_configured_x509 ::
    "openssl \<Rightarrow> ssl_config \<Rightarrow> int \<Rightarrow> ssl_context \<Rightarrow> os \<Rightarrow> ((int \<times> ssl_context) \<times> os) outcome" where
  "load_configured_x509 X cfg ret cx s =
    (if sc_certificate cfg = [] then Ret ((ret, cx), s)
     else obind (LoadX509 X (sc_certificate cfg) s) (\<lambda>(r, s1).
       case r of
         Inl e \<Rightarrow> Ret ((e, cx), s1)
       | Inr x \<Rightarrow> finish (0, cx\<lparr>cx_x509 := Some x\<rparr>) (held (cx_x509 cx)) s1))"

definition LoadCertificate ::
    "openssl \<Rightarrow> ssl_config \<Rightarrow> ssl_context \<Rightarrow> os \<Rightarrow> ((int \<times> ssl_context) \<times> os) outcome" where
  "LoadCertificate X cfg cx s =
    (if sc_privateKey cfg = [] then load_configured_x509 X cfg (- ENOENT) cx s
     else obind (LoadPrivateKey X (sc_privateKey cfg) s) (\<lambda>(r, s1).
       case r of
         Inl e \<Rightarrow> Ret ((e, cx), s1)
       | Inr key \<Rightarrow>
           load_configured_x509 X cfg 0 (cx\<lparr>cx_keypair := Some key\<rparr>) (give_back (held (cx_keypair cx)) s1)))"

text \<open>The text has the size that the bits say.\<close>

definition LoadSecretKey ::
    "openssl \<Rightarrow> ssl_config \<Rightarrow> ssl_context \<Rightarrow> os \<Rightarrow> ((int \<times> ssl_context) \<times> os) outcome" where
  "LoadSecretKey X cfg cx s =
    (if sc_enableBase64 cfg then
       obind (DecodeBase64 X (take (nat (BITS_TO_BYTES (sc_secretKeyBits cfg))) (sc_secretKey cfg)) s) (\<lambda>(r, s1).
         case r of
           Inl e \<Rightarrow> Ret ((e, cx), s1)
         | Inr key \<Rightarrow> finish (0, cx\<lparr>cx_secretKey := key\<rparr>) 1 s1)
     else Ret ((0, cx\<lparr>cx_secretKey := sc_secretKey cfg\<rparr>), s))"

text \<open>When there are no random bytes the buffer is not freed.\<close>

definition GenerateSecretKey ::
    "openssl \<Rightarrow> ssl_config \<Rightarrow> ssl_context \<Rightarrow> os \<Rightarrow> ((int \<times> ssl_context) \<times> os) outcome" where
  "GenerateSecretKey X cfg cx =
    (let keyLength = nat (BITS_TO_BYTES (sc_secretKeyBits cfg)) in
     acquire (- ENOMEM, cx) 0
     (attempt (- EFAULT, cx) 0
     (finish (0, cx\<lparr>cx_secretKey := ssl_random X keyLength (cx_entropy cx), cx_entropy := cx_entropy cx + 1\<rparr>) 1)))"

text \<open>Holds the key, the RSA, the number; then the key takes the RSA.\<close>

definition GenerateKey ::
    "openssl \<Rightarrow> ssl_config \<Rightarrow> ssl_context \<Rightarrow> os \<Rightarrow> ((int \<times> ssl_context) \<times> os) outcome" where
  "GenerateKey X cfg cx =
    (let err = (- EFAULT, cx) in
     acquire err 0
     (acquire err 1
     (acquire err 2
     (attempt err 3
     (case ssl_keygen X (sc_bits cfg) (cx_entropy cx) of
        None \<Rightarrow> finish err 3
      | Some key \<Rightarrow>
          release 1
          (attempt err 2
          (release 1
          (finish (0, cx\<lparr>cx_keypair := Some key, cx_entropy := cx_entropy cx + 1\<rparr>) (held (cx_keypair cx))))))))))"

text \<open>
  The calls that fill in a certificate are not looked at by the code and succeed here. \<open>AddExtension\<close> tells whether the extension
  could be made; the functions below ignore that, so that a value which cannot be read is left out.
\<close>

definition AddExtension ::
    "openssl \<Rightarrow> x509 \<Rightarrow> nid \<Rightarrow> string \<Rightarrow> x509 option \<Rightarrow> os \<Rightarrow> ((int \<times> x509) \<times> os) outcome" where
  "AddExtension X cert n value issuer =
    (let subject = x_subject (case issuer of None \<Rightarrow> cert | Some i \<Rightarrow> i) in
     if ssl_extension X n value
     then acquire (- EFAULT, cert) 0 (finish (0, cert\<lparr>x_extensions := x_extensions cert @ [(n, value, subject)]\<rparr>) 1)
     else finish (- EFAULT, cert) 0)"

fun add_extensions :: "openssl \<Rightarrow> x509 \<Rightarrow> (nid \<times> string) list \<Rightarrow> os \<Rightarrow> (x509 \<times> os) outcome" where
  "add_extensions X cert [] s = Ret (cert, s)"
| "add_extensions X cert ((n, value) # exts) s =
    obind (AddExtension X cert n value None s) (\<lambda>((_, cert), s). add_extensions X cert exts s)"

definition certificate_subject :: "bool \<Rightarrow> x509_name" where
  "certificate_subject isCA =
    [(''C'', ''KR''), (''O'', ''BeyonD'')] @
    (if isCA then [(''CN'', ''beyond.net'')] else [(''OU'', ''Inference''), (''CN'', ''edge.beyond.net'')])"

definition certificate_extensions :: "ssl_config \<Rightarrow> (nid \<times> string) list" where
  "certificate_extensions cfg =
    (if sc_isCA cfg then
       [(NID_basic_constraints, ''critical,CA:TRUE,pathlen:0''),
        (NID_key_usage, ''critical,keyCertSign,cRLSign,keyEncipherment''),
        (NID_netscape_cert_type, ''sslCA,emailCA,objCA'')]
     else
       [(NID_basic_constraints, ''critical,CA:FALSE''),
        (NID_key_usage, ''critical,keyCertSign,cRLSign,keyEncipherment,nonRepudiation,digitalSignature''),
        (NID_ext_key_usage, ''serverAuth,clientAuth'')])
    @ (if sc_alternativeName cfg = [] then [] else [(NID_subject_alt_name, ''IP:'' @ sc_alternativeName cfg)])
    @ [(NID_subject_key_identifier, ''hash'')]"

definition unsigned_certificate :: "ssl_config \<Rightarrow> ssl_context \<Rightarrow> x509" where
  "unsigned_certificate cfg cx =
    X509_new\<lparr>x_version := 2, x_pubkey := cx_keypair cx, x_serial := sc_serial cfg, x_not_before := 0,
      x_not_after := DAYS_TO_SECONDS (sc_days cfg), x_subject := certificate_subject (sc_isCA cfg)\<rparr>"

text \<open>
  The authenticator that issues: its \<open>GetKey\<close>, with the code and the key, \<open>None\<close> for a null pointer. The function holds the new
  certificate, then the issuer's private key, then its certificate.
\<close>

type_synonym issuer = "key_id \<Rightarrow> os \<Rightarrow> ((int \<times> bytes option) \<times> os) outcome"

definition key_text :: "bytes option \<Rightarrow> bytes" where
  "key_text key = (case key of None \<Rightarrow> [] | Some text \<Rightarrow> text)"

definition install_x509 :: "ssl_context \<Rightarrow> x509 \<Rightarrow> os \<Rightarrow> ((int \<times> ssl_context) \<times> os) outcome" where
  "install_x509 cx cert = finish (0, cx\<lparr>cx_x509 := Some cert\<rparr>) (held (cx_x509 cx))"

definition sign_with ::
    "openssl \<Rightarrow> ssl_context \<Rightarrow> x509 \<Rightarrow> pkey \<Rightarrow> x509 \<Rightarrow> os \<Rightarrow> ((int \<times> ssl_context) \<times> os) outcome" where
  "sign_with X cx cert pkey_ca x509_ca s =
    obind (AddExtension X (cert\<lparr>x_issuer := x_subject x509_ca\<rparr>) NID_authority_key_identifier
        ''keyid:always,issuer:always'' (Some x509_ca) s) (\<lambda>((_, cert), s).
      release 1
      (attempt (- EFAULT, cx) 2
      (release 1
      (install_x509 cx (cert\<lparr>x_signature := Some pkey_ca\<rparr>)))) s)"

definition sign_with_key ::
    "openssl \<Rightarrow> issuer \<Rightarrow> ssl_context \<Rightarrow> x509 \<Rightarrow> pkey \<Rightarrow> os \<Rightarrow> ((int \<times> ssl_context) \<times> os) outcome" where
  "sign_with_key X I cx cert pkey_ca s =
    obind (I KEY_CERTIFICATE s) (\<lambda>((ret, key), s).
      if ret < 0 then finish (ret, cx) 2 s
      else obind (LoadX509 X (key_text key) s) (\<lambda>(r, s).
        release (held key)
        (case r of
           Inl e \<Rightarrow> finish (e, cx) 2
         | Inr x509_ca \<Rightarrow> sign_with X cx cert pkey_ca x509_ca) s))"

definition sign_by_issuer ::
    "openssl \<Rightarrow> issuer \<Rightarrow> ssl_context \<Rightarrow> x509 \<Rightarrow> os \<Rightarrow> ((int \<times> ssl_context) \<times> os) outcome" where
  "sign_by_issuer X I cx cert s =
    obind (I KEY_PRIVATE s) (\<lambda>((ret, key), s).
      if ret < 0 then finish (ret, cx) 1 s
      else obind (LoadPrivateKey X (key_text key) s) (\<lambda>(r, s).
        case r of
          Inl e \<Rightarrow> finish (e, cx) 1 s
        | Inr pkey_ca \<Rightarrow> release (held key) (sign_with_key X I cx cert pkey_ca) s))"

definition GenerateCertificate ::
    "openssl \<Rightarrow> issuer option \<Rightarrow> ssl_config \<Rightarrow> ssl_context \<Rightarrow> os \<Rightarrow> ((int \<times> ssl_context) \<times> os) outcome" where
  "GenerateCertificate X authenticator cfg cx =
    acquire (- EFAULT, cx) 0
    (if DAYS_TO_SECONDS (sc_days cfg) > INT_MAX then (\<lambda>_. Undefined)
     else attempt (- EFAULT, cx) 1 (\<lambda>s.
       obind (add_extensions X (unsigned_certificate cfg cx) (certificate_extensions cfg) s) (\<lambda>(cert, s).
         case authenticator of
           None \<Rightarrow>
             (case cx_keypair cx of
               None \<Rightarrow> finish (- EFAULT, cx) 1 s
             | Some key \<Rightarrow>
                 attempt (- EFAULT, cx) 1
                 (install_x509 cx (cert\<lparr>x_issuer := x_subject cert, x_signature := Some key\<rparr>)) s)
         | Some I \<Rightarrow> sign_by_issuer X I cx cert s)))"

section \<open>Ledgers\<close>

text \<open>The function returns; its result, the descriptors and the number of live objects it leaves are related by \<open>R\<close>.\<close>

definition ends :: "('r \<Rightarrow> int set \<Rightarrow> int \<Rightarrow> bool) \<Rightarrow> ('r \<times> os) outcome \<Rightarrow> bool" where
  "ends R m \<longleftrightarrow> (\<exists>r s'. m = Ret (r, s') \<and> R r (open_fds s') (live s'))"

text \<open>The most frequent relation: \<open>Q r\<close> objects more than \<open>b\<close>, and a result that satisfies \<open>P\<close>.\<close>

abbreviation settles ::
    "int set \<Rightarrow> int \<Rightarrow> ('r \<Rightarrow> int) \<Rightarrow> ('r \<Rightarrow> bool) \<Rightarrow> ('r \<times> os) outcome \<Rightarrow> bool" where
  "settles F b Q P \<equiv> ends (\<lambda>r F' l. F' = F \<and> l = b + Q r \<and> P r)"

named_theorems settle \<comment> \<open>introduction rules for \<open>ends\<close>, backwards through a function\<close>

lemma give_back_simps [simp]:
  "open_fds (give_back k s) = open_fds s" "live (give_back k s) = live s - int k"
  by (induction k) (auto simp: give_back_def)

lemma held_simps [simp]: "held None = 0" "held (Some x) = 1"
  by (simp_all add: held_def)

lemma ends_Ret: "R r (open_fds s) (live s) \<Longrightarrow> ends R (Ret (r, s))"
  by (simp add: ends_def)

lemma ends_finish [settle]: "R r (open_fds s) (live s - int k) \<Longrightarrow> ends R (finish r k s)"
  by (simp add: ends_def finish_def)

lemma ends_acquire [settle]:
  assumes "R err (open_fds s) (live s - int k)"
    and "\<And>s1. open_fds s1 = open_fds s \<Longrightarrow> live s1 = live s + 1 \<Longrightarrow> ends R (f s1)"
  shows "ends R (acquire err k f s)"
  using assms by (auto simp: acquire_def os_new_def ends_finish)

lemma ends_attempt [settle]:
  assumes "R err (open_fds s) (live s - int k)"
    and "\<And>s1. open_fds s1 = open_fds s \<Longrightarrow> live s1 = live s \<Longrightarrow> ends R (f s1)"
  shows "ends R (attempt err k f s)"
  using assms by (auto simp: attempt_def os_call_def ends_finish)

lemma ends_transfer [settle]:
  assumes "R err (open_fds s) (live s - int k)" and "R unsupported (open_fds s) (live s - int k)"
    and "\<And>s1. 0 < n \<Longrightarrow> open_fds s1 = open_fds s \<Longrightarrow> live s1 = live s \<Longrightarrow> ends R (f s1)"
  shows "ends R (transfer n unsupported err k f s)"
  using assms by (auto simp: transfer_def os_call_def Let_def ends_finish)

lemma ends_release [settle]: "ends R (f (give_back k s)) \<Longrightarrow> ends R (release k f s)"
  by (simp add: release_def)

lemma ends_bind:
  assumes "ends R m" and "\<And>r s1. R r (open_fds s1) (live s1) \<Longrightarrow> ends R' (f (r, s1))"
  shows "ends R' (obind m f)"
  using assms by (auto simp: ends_def)

lemma ends_mono: "ends R m \<Longrightarrow> (\<And>r F l. R r F l \<Longrightarrow> R' r F l) \<Longrightarrow> ends R' m"
  by (auto simp: ends_def)

text \<open>When no call fails, the functions run through.\<close>

named_theorems calm \<comment> \<open>equations for states without failing calls\<close>

lemma give_back_update: "give_back k s = s\<lparr>live := live s - int k\<rparr>"
  by (induction k) (auto simp: give_back_def os_delete_def)

lemma pop_calm [simp]: "faults s = [] \<Longrightarrow> pop s = s"
  by (simp add: pop_def)

lemma calm_simps [calm]:
  "faults s = [] \<Longrightarrow> acquire err k f s = f (s\<lparr>live := live s + 1\<rparr>)"
  "faults s = [] \<Longrightarrow> attempt err k f s = f s"
  "faults s = [] \<Longrightarrow> 0 < n \<Longrightarrow> transfer n unsupported err k f s = f s"
  "release k f s = f (s\<lparr>live := live s - int k\<rparr>)"
  "finish r k s = Ret (r, s\<lparr>live := live s - int k\<rparr>)"
  by (simp_all add: acquire_def attempt_def transfer_def release_def finish_def os_new_def os_call_def give_back_update Let_def)

text \<open>The usual contract: on an error nothing is left, otherwise one object with the right contents.\<close>

abbreviation one_or_error :: "int + 'a \<Rightarrow> int" where
  "one_or_error r \<equiv> (case r of Inl _ \<Rightarrow> 0 | Inr _ \<Rightarrow> 1)"

abbreviation right_or_error :: "('a \<Rightarrow> bool) \<Rightarrow> int + 'a \<Rightarrow> bool" where
  "right_or_error P r \<equiv> (case r of Inl e \<Rightarrow> e < 0 | Inr x \<Rightarrow> P x)"


lemma errno_pos [simp]:
  "0 < EFAULT" "0 < EINVAL" "0 < ENOMEM" "0 < ENOTSUP" "0 < ENOENT"
  "0 \<le> EFAULT" "0 \<le> EINVAL" "0 \<le> ENOMEM" "0 \<le> ENOTSUP" "0 \<le> ENOENT"
  "EFAULT \<noteq> 0" "EINVAL \<noteq> 0" "ENOMEM \<noteq> 0" "ENOTSUP \<noteq> 0" "ENOENT \<noteq> 0"
  by (simp_all add: errno_defs)

lemma EncodeBase64_settles:
  "settles (open_fds s) (live s) one_or_error (right_or_error (\<lambda>out. out = ssl_encode64 X input \<and> out \<noteq> [] \<and> input \<noteq> []))
    (EncodeBase64 X input s)"
  by (auto intro!: settle simp: EncodeBase64_def)

lemma DecodeBase64_settles:
  "settles (open_fds s) (live s) one_or_error
    (right_or_error (\<lambda>out. out = take (length input) (ssl_decode64 X input) \<and> out \<noteq> [])) (DecodeBase64 X input s)"
  by (auto intro!: settle simp: DecodeBase64_def Let_def)

text \<open>What an asymmetric operation computes: the public half is that of the certificate.\<close>

definition asymmetric_key :: "ssl_context \<Rightarrow> key_id \<Rightarrow> pkey option" where
  "asymmetric_key cx kid =
    (case kid of KEY_PRIVATE \<Rightarrow> cx_keypair cx | KEY_PUBLIC \<Rightarrow> Option.bind (cx_x509 cx) x_pubkey | _ \<Rightarrow> None)"

lemma CryptoAsymmetric_settles:
  "settles (open_fds s) (live s) one_or_error
    (right_or_error (\<lambda>out. out \<noteq> None \<and> (\<exists>key. asymmetric_key cx kid = Some key \<and> ssl_rsa X op key input = out)))
    (CryptoAsymmetric X cx op kid input s)"
  by (auto intro!: settle simp: CryptoAsymmetric_def asymmetric_key_def Let_def split: key_id.splits option.splits)

lemma bio_text_settles:
  "open_fds s = F \<Longrightarrow> live s = b + 1 \<Longrightarrow>
    settles F b one_or_error (right_or_error (\<lambda>out. out = take DEFAULT_BIO_BUFSZ text \<and> out \<noteq> [])) (bio_text text s)"
  by (force intro!: settle simp: bio_text_def Let_def)

lemma GetPrivateKey_settles:
  "settles (open_fds s) (live s) one_or_error
    (right_or_error (\<lambda>out. \<exists>key. cx_keypair cx = Some key \<and> out = take DEFAULT_BIO_BUFSZ (ssl_pem_private X key) \<and> out \<noteq> []))
    (GetPrivateKey X cx s)"
  by (auto intro!: settle bio_text_settles [THEN ends_mono] simp: GetPrivateKey_def split: option.splits sum.splits)

lemma GenerateSign_settles:
  "settles (open_fds s) (live s) one_or_error
    (right_or_error (\<lambda>sig. \<exists>key. cx_keypair cx = Some key \<and> sig = ssl_sign X key data)) (GenerateSign X cx data s)"
  by (auto intro!: settle simp: GenerateSign_def split: option.splits)


lemma GetPublicKey_settles:
  "settles (open_fds s) (live s) one_or_error
    (right_or_error (\<lambda>out. \<exists>x key. cx_x509 cx = Some x \<and> x_pubkey x = Some key
      \<and> out = take DEFAULT_BIO_BUFSZ (ssl_pem_public X key) \<and> out \<noteq> []))
    (GetPublicKey X cx s)"
  by (auto intro!: settle bio_text_settles [THEN ends_mono] simp: GetPublicKey_def split: option.splits sum.splits)

lemma GetCertificate_settles:
  "settles (open_fds s) (live s) one_or_error
    (right_or_error (\<lambda>out. \<exists>x. cx_x509 cx = Some x \<and> out = take DEFAULT_BIO_BUFSZ (ssl_pem_x509 X x) \<and> out \<noteq> []))
    (GetCertificate X cx s)"
  by (auto intro!: settle bio_text_settles [THEN ends_mono] simp: GetCertificate_def split: option.splits sum.splits)

lemma GetSecretKey_settles:
  "settles (open_fds s) (live s) one_or_error
    (right_or_error (\<lambda>out. cx_secretKey cx \<noteq> [] \<and>
      out = (if sc_enableBase64 cfg then ssl_encode64 X (cx_secretKey cx) else cx_secretKey cx) \<and> out \<noteq> []))
    (GetSecretKey X cfg cx s)"
  by (auto intro!: settle EncodeBase64_settles [THEN ends_mono] simp: GetSecretKey_def split: sum.splits)

lemma LoadPrivateKey_settles:
  "settles (open_fds s) (live s) one_or_error
    (right_or_error (\<lambda>key. text \<noteq> [] \<and> ssl_read_private X text = Some key)) (LoadPrivateKey X text s)"
  by (auto intro!: settle simp: LoadPrivateKey_def split: option.splits)

lemma LoadX509_settles:
  "settles (open_fds s) (live s) one_or_error
    (right_or_error (\<lambda>x. text \<noteq> [] \<and> ssl_read_x509 X text = Some x)) (LoadX509 X text s)"
  by (auto intro!: settle simp: LoadX509_def split: option.splits)

text \<open>A verification leaves the new key behind whenever it gets as far as that.\<close>

lemma VerifySign_ends:
  "ends (\<lambda>(ret, authentic) F l. F = open_fds s \<and> (l = live s \<or> l = live s + 1) \<and> ret \<le> 0 \<and>
      (ret = 0 \<longrightarrow> l = live s + 1 \<and>
        (\<exists>x key. cx_x509 cx = Some x \<and> x_pubkey x = Some key \<and> authentic = Some (ssl_verify X key original signedData))) \<and>
      (ret < 0 \<longrightarrow> authentic \<noteq> Some True))
    (VerifySign X cx signedData original s)"
  by (auto intro!: settle simp: VerifySign_def split: option.splits)

text \<open>
  The symmetric operations when the key and the vector are long enough and what OpenSSL writes fits. The bound on the
  update is the one that it documents.
\<close>

definition aes_out :: "openssl \<Rightarrow> ssl_context \<Rightarrow> crypto_op \<Rightarrow> bytes \<Rightarrow> bytes \<Rightarrow> bytes option" where
  "aes_out X cx op iv input =
    (let (updated, final) =
       ssl_aes X op (take AES_KEY_SIZE (cx_secretKey cx @ [CHR 0x00])) (take AES_BLOCK_SIZE iv) input in
     map_option ((@) updated) final)"

definition aes_fits :: "openssl \<Rightarrow> ssl_context \<Rightarrow> crypto_op \<Rightarrow> bytes \<Rightarrow> bytes \<Rightarrow> bool" where
  "aes_fits X cx op iv input \<longleftrightarrow>
    AES_KEY_SIZE \<le> Suc (length (cx_secretKey cx)) \<and> AES_BLOCK_SIZE \<le> length iv
    \<and> length (fst (ssl_aes X op (take AES_KEY_SIZE (cx_secretKey cx @ [CHR 0x00])) (take AES_BLOCK_SIZE iv) input)) \<le> outlen input
    \<and> (\<forall>out. aes_out X cx op iv input = Some out \<longrightarrow> length out \<le> outlen input)"

lemma CryptoSymmetric_settles:
  assumes "aes_fits X cx op iv input"
  shows "settles (open_fds s) (live s) (\<lambda>r. case r of Inr (Some _) \<Rightarrow> 1 | _ \<Rightarrow> 0)
    (right_or_error (\<lambda>out. \<exists>text. aes_out X cx op iv input = Some text
      \<and> (out = Some text \<or> out = None \<and> text = [])))
    (CryptoSymmetric X cx op iv input s)"
  using assms
  by (auto intro!: settle simp: CryptoSymmetric_def aes_out_def aes_fits_def Let_def split: prod.splits option.splits if_splits)


section \<open>What the context holds\<close>

definition context_objects :: "ssl_context \<Rightarrow> int" where
  "context_objects cx = int (held (cx_keypair cx)) + int (held (cx_x509 cx))"

text \<open>An operation that keeps the ledger of the context.\<close>

abbreviation keeps_context ::
    "os \<Rightarrow> ssl_context \<Rightarrow> (int \<Rightarrow> ssl_context \<Rightarrow> bool) \<Rightarrow> ((int \<times> ssl_context) \<times> os) outcome \<Rightarrow> bool" where
  "keeps_context s cx P \<equiv> ends (\<lambda>(ret, cx') F l. F = open_fds s \<and> l - context_objects cx' = live s - context_objects cx
    \<and> ret \<le> 0 \<and> P ret cx')"

lemma load_configured_x509_keeps:
  assumes "ret \<le> 0"
  shows "keeps_context s cx (\<lambda>ret' cx'. cx' = cx \<and> (sc_certificate cfg = [] \<longrightarrow> ret' = ret) \<and> (sc_certificate cfg \<noteq> [] \<longrightarrow> ret' < 0)
      \<or> ret' = 0 \<and> sc_certificate cfg \<noteq> [] \<and> (\<exists>x. ssl_read_x509 X (sc_certificate cfg) = Some x \<and> cx' = cx\<lparr>cx_x509 := Some x\<rparr>))
    (load_configured_x509 X cfg ret cx s)"
  using assms
  by (auto intro!: ends_Ret ends_finish ends_bind [OF LoadX509_settles] simp: load_configured_x509_def context_objects_def
      split: sum.splits)

text \<open>What the configured texts stand for.\<close>

definition loaded_context :: "openssl \<Rightarrow> ssl_config \<Rightarrow> ssl_context \<Rightarrow> ssl_context" where
  "loaded_context X cfg cx =
    cx\<lparr>cx_keypair := (if sc_privateKey cfg = [] then cx_keypair cx else ssl_read_private X (sc_privateKey cfg)),
       cx_x509 := (if sc_certificate cfg = [] then cx_x509 cx else ssl_read_x509 X (sc_certificate cfg))\<rparr>"

lemma LoadCertificate_keeps:
  "keeps_context s cx (\<lambda>ret cx'. (ret = 0 \<longrightarrow> cx' = loaded_context X cfg cx) \<and> cx_secretKey cx' = cx_secretKey cx)
    (LoadCertificate X cfg cx s)"
proof (cases "sc_privateKey cfg = []")
  case True
  then show ?thesis
    by (auto intro!: load_configured_x509_keeps [THEN ends_mono] simp: LoadCertificate_def loaded_context_def)
next
  case False
  show ?thesis
    unfolding LoadCertificate_def if_not_P [OF False]
  proof (rule ends_bind [OF LoadPrivateKey_settles], goal_cases)
    case (1 r s1)
    show ?case
    proof (cases r)
      case (Inl e)
      with 1 show ?thesis by (simp add: ends_Ret)
    next
      case (Inr key)
      with 1 have l: "open_fds s1 = open_fds s" "live s1 = live s + 1" "ssl_read_private X (sc_privateKey cfg) = Some key"
        by simp_all
      show ?thesis
        unfolding Inr prod.case sum.case
        by (rule ends_mono [OF load_configured_x509_keeps])
          (use l False in \<open>auto simp: context_objects_def loaded_context_def\<close>)
    qed
  qed
qed

lemma LoadSecretKey_keeps:
  "keeps_context s cx (\<lambda>ret cx'. cx_keypair cx' = cx_keypair cx \<and> cx_x509 cx' = cx_x509 cx \<and> (ret < 0 \<longrightarrow> cx' = cx)
      \<and> (ret = 0 \<longrightarrow> sc_enableBase64 cfg \<longrightarrow> cx_secretKey cx' \<noteq> []))
    (LoadSecretKey X cfg cx s)"
  by (auto intro!: ends_Ret ends_finish ends_bind [OF DecodeBase64_settles] simp: LoadSecretKey_def context_objects_def
      min_def split: sum.splits if_splits)

text \<open>Only the failing generator of random numbers leaves a block behind.\<close>

lemma GenerateSecretKey_ends:
  "ends (\<lambda>(ret, cx') F l. F = open_fds s \<and> ret \<le> 0 \<and> (ret < 0 \<longrightarrow> cx' = cx \<and> (l = live s \<or> ret = - EFAULT \<and> l = live s + 1))
      \<and> (ret = 0 \<longrightarrow> l = live s \<and> cx' = cx\<lparr>cx_secretKey := ssl_random X (nat (BITS_TO_BYTES (sc_secretKeyBits cfg))) (cx_entropy cx),
          cx_entropy := cx_entropy cx + 1\<rparr>))
    (GenerateSecretKey X cfg cx s)"
  by (auto intro!: settle simp: GenerateSecretKey_def Let_def)

lemma GenerateKey_keeps:
  "keeps_context s cx (\<lambda>ret cx'. (ret < 0 \<longrightarrow> cx' = cx) \<and> (ret = 0 \<longrightarrow>
      (\<exists>key. ssl_keygen X (sc_bits cfg) (cx_entropy cx) = Some key \<and> cx' = cx\<lparr>cx_keypair := Some key, cx_entropy := cx_entropy cx + 1\<rparr>)))
    (GenerateKey X cfg cx s)"
  by (auto intro!: settle simp: GenerateKey_def context_objects_def Let_def split: option.splits)


section \<open>Certificates\<close>

text \<open>The extensions that can be read, as they enter a certificate with this subject; a failing call leaves one out.\<close>

definition readable :: "openssl \<Rightarrow> x509_name \<Rightarrow> (nid \<times> string) list \<Rightarrow> (nid \<times> string \<times> x509_name) list" where
  "readable X subject exts = map (\<lambda>(n, v). (n, v, subject)) (filter (\<lambda>(n, v). ssl_extension X n v) exts)"

lemma readable_simps [simp]:
  "readable X subject [] = []"
  "readable X subject ((n, v) # exts) =
    (if ssl_extension X n v then (n, v, subject) # readable X subject exts else readable X subject exts)"
  by (simp_all add: readable_def)

text \<open>What extending a certificate by a list of extensions makes of it.\<close>

definition extended :: "openssl \<Rightarrow> x509_name \<Rightarrow> (nid \<times> string) list \<Rightarrow> x509 \<Rightarrow> x509 \<Rightarrow> bool" where
  "extended X subject exts cert cert' \<longleftrightarrow>
    (\<exists>es. cert' = cert\<lparr>x_extensions := x_extensions cert @ es\<rparr> \<and> subseq es (readable X subject exts))"

lemma extended_refl [simp]: "extended X u exts cert cert"
  by (auto simp: extended_def intro: exI [of _ "[]"])

lemma extended_one [simp]:
  "ssl_extension X n v \<Longrightarrow> extended X u [(n, v)] cert (cert\<lparr>x_extensions := x_extensions cert @ [(n, v, u)]\<rparr>)"
  by (auto simp: extended_def)

lemma extended_Cons:
  assumes "extended X u [(n, v)] cert cert'" and "extended X u exts cert' cert''"
  shows "extended X u ((n, v) # exts) cert cert''"
proof -
  from assms obtain es es' where 1: "subseq es (readable X u [(n, v)])" "subseq es' (readable X u exts)"
      "cert'' = cert\<lparr>x_extensions := x_extensions cert @ es @ es'\<rparr>" by (auto simp: extended_def)
  have "subseq (es @ es') (readable X u ((n, v) # exts))"
    using list_emb_append_mono [OF 1(1,2)] by (simp split: if_splits)
  with 1(3) show ?thesis by (auto simp: extended_def)
qed

lemma extended_subject: "extended X u exts cert cert' \<Longrightarrow> x_subject cert' = x_subject cert"
  by (auto simp: extended_def)

lemma AddExtension_ends:
  "ends (\<lambda>(ret, cert') F l. F = open_fds s \<and> l = live s \<and>
      extended X (x_subject (case issuer of None \<Rightarrow> cert | Some i \<Rightarrow> i)) [(n, value)] cert cert')
    (AddExtension X cert n value issuer s)"
  by (auto intro!: settle simp: AddExtension_def Let_def)

lemma add_extensions_ends:
  "ends (\<lambda>cert' F l. F = open_fds s \<and> l = live s \<and> extended X (x_subject cert) exts cert cert') (add_extensions X cert exts s)"
proof (induction exts arbitrary: cert s)
  case Nil
  show ?case by (simp add: ends_Ret)
next
  case (Cons e exts)
  obtain n v where e: "e = (n, v)" by (cases e)
  show ?case
    unfolding e add_extensions.simps
  proof (rule ends_bind [OF AddExtension_ends], clarsimp)
    fix cert' and s1 :: os
    assume 1: "open_fds s1 = open_fds s" "live s1 = live s" "extended X (x_subject cert) [(n, v)] cert cert'"
    show "ends (\<lambda>cert' F l. F = open_fds s \<and> l = live s \<and> extended X (x_subject cert) ((n, v) # exts) cert cert')
        (add_extensions X cert' exts s1)"
      by (rule ends_mono [OF Cons.IH]) (use 1 extended_subject [OF 1(3)] extended_Cons [OF 1(3)] in simp)
  qed
qed


text \<open>A new certificate before it is signed: what the configuration asks for, less the extensions that could not be made.\<close>

definition drafted :: "openssl \<Rightarrow> ssl_config \<Rightarrow> ssl_context \<Rightarrow> x509 \<Rightarrow> bool" where
  "drafted X cfg cx =
    extended X (certificate_subject (sc_isCA cfg)) (certificate_extensions cfg) (unsigned_certificate cfg cx)"

definition self_signed :: "openssl \<Rightarrow> ssl_config \<Rightarrow> ssl_context \<Rightarrow> x509 \<Rightarrow> bool" where
  "self_signed X cfg cx cert \<longleftrightarrow>
    (\<exists>draft. drafted X cfg cx draft \<and> cert = draft\<lparr>x_issuer := x_subject draft, x_signature := cx_keypair cx\<rparr>)"

definition signed_by :: "openssl \<Rightarrow> ssl_config \<Rightarrow> ssl_context \<Rightarrow> pkey \<Rightarrow> x509 \<Rightarrow> x509 \<Rightarrow> bool" where
  "signed_by X cfg cx key ca cert \<longleftrightarrow>
    (\<exists>draft draft'. drafted X cfg cx draft
      \<and> extended X (x_subject ca) [(NID_authority_key_identifier, ''keyid:always,issuer:always'')]
          (draft\<lparr>x_issuer := x_subject ca\<rparr>) draft'
      \<and> cert = draft'\<lparr>x_signature := Some key\<rparr>)"

lemma unsigned_subject [simp]: "x_subject (unsigned_certificate cfg cx) = certificate_subject (sc_isCA cfg)"
  by (simp add: unsigned_certificate_def)

text \<open>\<open>R\<close> of the result, in the code around the signature: on an error the certificate is not installed.\<close>

lemma install_x509_keeps:
  assumes "open_fds s1 = open_fds s" and "live s1 = live s + 1" and "P 0 (cx\<lparr>cx_x509 := Some cert\<rparr>)"
  shows "keeps_context s cx P (install_x509 cx cert s1)"
  using assms by (auto intro!: settle simp: install_x509_def context_objects_def)

lemma GenerateCertificate_self:
  assumes "DAYS_TO_SECONDS (sc_days cfg) \<le> INT_MAX"
  shows "keeps_context s cx (\<lambda>ret cx'. (ret < 0 \<longrightarrow> cx' = cx) \<and>
      (ret = 0 \<longrightarrow> (\<exists>cert. self_signed X cfg cx cert \<and> cx' = cx\<lparr>cx_x509 := Some cert\<rparr>)))
    (GenerateCertificate X None cfg cx s)"
  unfolding GenerateCertificate_def
proof (intro ends_acquire, goal_cases)
  case (2 s1)
  show ?case
    unfolding if_not_P [OF iffD2 [OF not_less assms]]
  proof (intro ends_attempt, goal_cases)
    case (2 s2)
    show ?case
    proof (rule ends_bind [OF add_extensions_ends], simp, elim conjE, goal_cases)
      case (1 cert s3)
      note s3 = \<open>open_fds s1 = _\<close> \<open>live s1 = _\<close> 2 1
      show ?case
      proof (cases "cx_keypair cx")
        case None
        with s3 show ?thesis by (auto intro!: settle)
      next
        case (Some key)
        have "self_signed X cfg cx (cert\<lparr>x_issuer := x_subject cert, x_signature := Some key\<rparr>)"
          using s3 Some by (auto simp: self_signed_def drafted_def)
        with s3 Some show ?thesis
          by (auto intro!: ends_attempt install_x509_keeps)
      qed
    qed
  qed (use \<open>open_fds s1 = _\<close> \<open>live s1 = _\<close> in simp)
qed simp


text \<open>The result of the issuer's signature. On an error the private key of the issuer may be left behind.\<close>

definition issued :: "openssl \<Rightarrow> (key_id \<Rightarrow> bytes \<Rightarrow> bool) \<Rightarrow> ssl_config \<Rightarrow> ssl_context \<Rightarrow> x509 \<Rightarrow> bool" where
  "issued X gives cfg cx cert \<longleftrightarrow>
    (\<exists>t u key ca. gives KEY_PRIVATE t \<and> ssl_read_private X t = Some key
      \<and> gives KEY_CERTIFICATE u \<and> ssl_read_x509 X u = Some ca \<and> signed_by X cfg cx key ca cert)"

abbreviation issuing ::
    "openssl \<Rightarrow> (key_id \<Rightarrow> bytes \<Rightarrow> bool) \<Rightarrow> ssl_config \<Rightarrow> os \<Rightarrow> ssl_context \<Rightarrow> (int \<times> ssl_context) \<Rightarrow> int set \<Rightarrow> int \<Rightarrow> bool" where
  "issuing X gives cfg s cx \<equiv> \<lambda>(ret, cx') F l. F = open_fds s \<and> ret \<le> 0
    \<and> (ret < 0 \<longrightarrow> cx' = cx \<and> (l = live s \<or> l = live s + 1))
    \<and> (ret = 0 \<longrightarrow> l - context_objects cx' = live s - context_objects cx
        \<and> (\<exists>cert. issued X gives cfg cx cert \<and> cx' = cx\<lparr>cx_x509 := Some cert\<rparr>))"

lemma sign_with_ends:
  assumes "drafted X cfg cx draft" and "gives KEY_PRIVATE t" "ssl_read_private X t = Some key"
      "gives KEY_CERTIFICATE u" "ssl_read_x509 X u = Some ca"
    and s0: "open_fds s0 = open_fds s" "live s0 = live s + 3"
  shows "ends (issuing X gives cfg s cx) (sign_with X cx draft key ca s0)"
  unfolding sign_with_def
proof (rule ends_bind [OF AddExtension_ends], goal_cases)
  case (1 r s1)
  obtain ret cert where r: "r = (ret, cert)" by (cases r)
  with 1 have "issued X gives cfg cx (cert\<lparr>x_signature := Some key\<rparr>)"
    using assms(1-5) unfolding issued_def signed_by_def by fastforce
  with 1 r s0 show ?case
    by (auto intro!: settle simp: install_x509_def context_objects_def)
qed

text \<open>
  What the code relies on of the issuer: \<open>GetKey\<close> returns, it hands over one block with the key, and nothing when it fails. \<open>gives\<close>
  is what the keys are.
\<close>

locale issuing_authenticator =
  fixes I :: issuer
    and gives :: "key_id \<Rightarrow> bytes \<Rightarrow> bool"
  assumes GetKey_ends: "ends (\<lambda>(ret, key) F l. F = open_fds s \<and>
    (if ret < 0 then l = live s else l = live s + int (held key) \<and> gives kid (key_text key))) (I kid s)"
begin

lemma sign_with_key_ends:
  assumes key: "drafted X cfg cx draft" "gives KEY_PRIVATE t" "ssl_read_private X t = Some key"
    and s0: "open_fds s0 = open_fds s" "live s0 = live s + 2"
  shows "ends (issuing X gives cfg s cx) (sign_with_key X I cx draft key s0)"
  unfolding sign_with_key_def
proof (rule ends_bind [OF GetKey_ends], goal_cases)
  case (1 r s1)
  obtain ret u where r: "r = (ret, u)" by (cases r)
  show ?case
  proof (cases "ret < 0")
    case True
    with 1 r s0 show ?thesis by (auto intro!: settle)
  next
    case False
    with 1 r have s1: "open_fds s1 = open_fds s" "live s1 = live s + 2 + int (held u)" "gives KEY_CERTIFICATE (key_text u)"
      using s0 by simp_all
    show ?thesis
      unfolding r prod.case if_not_P [OF False]
    proof (rule ends_bind [OF LoadX509_settles], goal_cases)
      case (1 v s2)
      show ?case
      proof (cases v)
        case (Inl e)
        with 1 s1 show ?thesis by (cases u) (auto intro!: settle)
      next
        case (Inr a)
        with 1 s1 show ?thesis by (auto intro!: settle sign_with_ends [where gives = gives, OF key])
      qed
    qed
  qed
qed

lemma sign_by_issuer_ends:
  assumes draft: "drafted X cfg cx draft"
    and s0: "open_fds s0 = open_fds s" "live s0 = live s + 1"
  shows "ends (issuing X gives cfg s cx) (sign_by_issuer X I cx draft s0)"
  unfolding sign_by_issuer_def
proof (rule ends_bind [OF GetKey_ends], goal_cases)
  case (1 r s1)
  obtain ret t where r: "r = (ret, t)" by (cases r)
  show ?case
  proof (cases "ret < 0")
    case True
    with 1 r s0 show ?thesis by (auto intro!: settle)
  next
    case False
    with 1 r have s1: "open_fds s1 = open_fds s" "live s1 = live s + 1 + int (held t)" "gives KEY_PRIVATE (key_text t)"
      using s0 by simp_all
    show ?thesis
      unfolding r prod.case if_not_P [OF False]
    proof (rule ends_bind [OF LoadPrivateKey_settles], goal_cases)
      case (1 v s2)
      show ?case
      proof (cases v)
        case (Inl e)
        with 1 s1 show ?thesis by (cases t) (auto intro!: settle)
      next
        case (Inr a)
        with 1 s1 show ?thesis by (auto intro!: settle sign_with_key_ends [OF draft, of "key_text t"])
      qed
    qed
  qed
qed

lemma GenerateCertificate_issuer:
  assumes "DAYS_TO_SECONDS (sc_days cfg) \<le> INT_MAX"
  shows "ends (issuing X gives cfg s cx) (GenerateCertificate X (Some I) cfg cx s)"
  unfolding GenerateCertificate_def if_not_P [OF iffD2 [OF not_less assms(1)]]
proof (intro ends_acquire ends_attempt, goal_cases)
  case (3 s1 s2)
  show ?case
  proof (rule ends_bind [OF add_extensions_ends], simp, elim conjE, goal_cases)
    case (1 draft s3)
    with 3 show ?case by (auto intro!: sign_by_issuer_ends simp: drafted_def)
  qed
qed simp_all

end

end
