(* ===== verification/Auth_Config.thy ===== *)
theory Auth_Config
  imports Auth_SSL
begin

text \<open>
  \<^verbatim>\<open>libbeyond-authenticator_ssl/src/authenticator.cc\<close>: the state of an authenticator, its construction and its configuration, as a
  structure and as JSON. The parser of JSON is a parameter; what the code asks of a parsed value follows jsoncpp: asking a value that is
  neither null nor an object for a member throws, which nothing catches.
\<close>

section \<open>State\<close>

text \<open>
  The output of an encryption or decryption: the bytes, \<open>None\<close> for a block that is freed already; or no output at all, a null pointer. An
  authenticator that issues certificates is known by its \<open>GetKey\<close>. The output queue is the pipe between \<open>outputProducer\<close> and
  \<open>outputConsumer\<close>; \<open>au_events\<close> is what was published at the event object.
\<close>

type_synonym crypto_output = "bytes option"

record authenticator =
  au_config :: ssl_config
  au_context :: ssl_context
  au_issuer :: "issuer option"
  au_activated :: bool
  au_eventObject :: bool
  au_output :: "crypto_output option list"
  au_events :: "evtype list"

definition DEFAULT_SECRET_KEY_BITS :: int where "DEFAULT_SECRET_KEY_BITS = 256"
definition DEFAULT_BITS :: int where "DEFAULT_BITS = 4096"
definition DEFAULT_SERIAL :: int where "DEFAULT_SERIAL = 1"
definition DEFAULT_DAYS :: int where "DEFAULT_DAYS = 365"

definition SSLConfig_new :: ssl_config where
  "SSLConfig_new = \<lparr>sc_bits = DEFAULT_BITS, sc_serial = DEFAULT_SERIAL, sc_days = DEFAULT_DAYS, sc_isCA = True,
    sc_enableBase64 = True, sc_secretKeyBits = DEFAULT_SECRET_KEY_BITS, sc_passphrase = [], sc_privateKey = [],
    sc_certificate = [], sc_alternativeName = [], sc_secretKey = []\<rparr>"

definition Authenticator_new :: authenticator where
  "Authenticator_new =
    \<lparr>au_config = SSLConfig_new,
     au_context = \<lparr>cx_x509 = None, cx_keypair = None, cx_secretKey = [], cx_entropy = 0\<rparr>,
     au_issuer = None, au_activated = False, au_eventObject = False, au_output = [], au_events = []\<rparr>"

section \<open>Structures\<close>

record config_ssl =
  os_bits :: int
  os_serial :: int
  os_days :: int
  os_isCA :: int
  os_enableBase64 :: int
  os_passphrase :: "string option"
  os_private_key :: "string option"
  os_certificate :: "string option"
  os_alternative_name :: "string option"

record config_secret_key =
  ok_key :: "string option"
  ok_key_bits :: int

definition text_or_clear :: "string option \<Rightarrow> string" where
  "text_or_clear x = (case x of None \<Rightarrow> [] | Some t \<Rightarrow> t)"

text \<open>A positive number is taken, 0 stands for the default and a negative one for what there was.\<close>

definition number_or_default :: "int \<Rightarrow> int \<Rightarrow> int \<Rightarrow> int" where
  "number_or_default n dflt old = (if n > 0 then n else if n = 0 then dflt else old)"

definition flag_or_true :: "int \<Rightarrow> bool" where
  "flag_or_true n = (if n \<ge> 0 then n \<noteq> 0 else True)"

definition ConfigureSSL :: "config_ssl \<Rightarrow> ssl_config \<Rightarrow> ssl_config" where
  "ConfigureSSL ssl cfg = cfg\<lparr>
    sc_passphrase := text_or_clear (os_passphrase ssl),
    sc_privateKey := text_or_clear (os_private_key ssl),
    sc_certificate := text_or_clear (os_certificate ssl),
    sc_alternativeName := text_or_clear (os_alternative_name ssl),
    sc_bits := number_or_default (os_bits ssl) DEFAULT_BITS (sc_bits cfg),
    sc_days := number_or_default (os_days ssl) DEFAULT_DAYS (sc_days cfg),
    sc_serial := number_or_default (os_serial ssl) DEFAULT_SERIAL (sc_serial cfg),
    sc_isCA := flag_or_true (os_isCA ssl),
    sc_enableBase64 := flag_or_true (os_enableBase64 ssl)\<rparr>"

text \<open>
  The key is copied with the size that the bits say: the terminating zero may be copied as well, and more than that is behind the string.
\<close>

definition with_context :: "authenticator \<Rightarrow> ((int \<times> ssl_context) \<times> os) outcome \<Rightarrow> (int \<times> authenticator \<times> os) outcome" where
  "with_context a m = obind m (\<lambda>((ret, cx), s). Ret (ret, a\<lparr>au_context := cx\<rparr>, s))"

definition apply_secret_key :: "openssl \<Rightarrow> authenticator \<Rightarrow> os \<Rightarrow> (int \<times> authenticator \<times> os) outcome" where
  "apply_secret_key X a s =
    with_context a
      (if sc_secretKey (au_config a) = [] then GenerateSecretKey X (au_config a) (au_context a) s
       else LoadSecretKey X (au_config a) (au_context a) s)"

definition ConfigureSecretKey ::
    "openssl \<Rightarrow> config_secret_key \<Rightarrow> authenticator \<Rightarrow> os \<Rightarrow> (int \<times> authenticator \<times> os) outcome" where
  "ConfigureSecretKey X secrets a s =
    (case ok_key secrets of
      Some key \<Rightarrow>
        if ok_key_bits secrets \<le> 0 then Ret (- EINVAL, a, s)
        else
          let n = nat (BITS_TO_BYTES (ok_key_bits secrets)) in
          if n > length key + 1 then Undefined
          else apply_secret_key X (a\<lparr>au_config := (au_config a)\<lparr>sc_secretKey := take n (key @ [CHR 0x00]),
            sc_secretKeyBits := ok_key_bits secrets\<rparr>\<rparr>) s
    | None \<Rightarrow>
        apply_secret_key X (a\<lparr>au_config := (au_config a)\<lparr>sc_secretKey := [],
          sc_secretKeyBits := (if ok_key_bits secrets \<ge> 0 then ok_key_bits secrets else DEFAULT_SECRET_KEY_BITS)\<rparr>\<rparr>) s)"

definition ConfigureAuthenticator :: "issuer \<Rightarrow> authenticator \<Rightarrow> authenticator" where
  "ConfigureAuthenticator I a = a\<lparr>au_issuer := Some I\<rparr>"

section \<open>JSON\<close>

text \<open>A number with a fraction has no integer value; the parser keeps the last of several members of one name.\<close>

datatype json = JNull | JBool bool | JInt int | JReal "int option" | JString string
  | JArray "json list" | JObject "(string \<times> json) list"

fun json_empty :: "json \<Rightarrow> bool" where
  "json_empty JNull = True"
| "json_empty (JArray js) = (js = [])"
| "json_empty (JObject ms) = (ms = [])"
| "json_empty _ = False"

definition int_range :: "int \<Rightarrow> bool" where
  "int_range i \<longleftrightarrow> - (2 ^ 31) \<le> i \<and> i \<le> INT_MAX"

fun json_int :: "json \<Rightarrow> int option" where
  "json_int (JInt i) = (if int_range i then Some i else None)"
| "json_int (JReal (Some i)) = (if int_range i then Some i else None)"
| "json_int _ = None"

fun json_string :: "json \<Rightarrow> string option" where
  "json_string (JString t) = Some t"
| "json_string _ = None"

text \<open>\<^verbatim>\<open>operator[]\<close>: \<open>Aborted\<close> is the exception.\<close>

fun json_member :: "json \<Rightarrow> string \<Rightarrow> json outcome" where
  "json_member JNull name = Ret JNull"
| "json_member (JObject ms) name = Ret (case map_of ms name of None \<Rightarrow> JNull | Some v \<Rightarrow> v)"
| "json_member _ name = Aborted"

definition member_string :: "json \<Rightarrow> string \<Rightarrow> string option outcome" where
  "member_string v name = obind (json_member v name) (\<lambda>m. Ret (json_string m))"

definition member_int :: "json \<Rightarrow> string \<Rightarrow> int outcome" where
  "member_int v name = obind (json_member v name) (\<lambda>m. Ret (case json_int m of None \<Rightarrow> - 1 | Some i \<Rightarrow> i))"

definition secret_key_of_json :: "json \<Rightarrow> config_secret_key outcome" where
  "secret_key_of_json v =
    obind (member_string v ''key'') (\<lambda>key.
    obind (member_int v ''key_bits'') (\<lambda>bits.
    Ret \<lparr>ok_key = key, ok_key_bits = bits\<rparr>))"

definition ssl_of_json :: "json \<Rightarrow> config_ssl outcome" where
  "ssl_of_json v =
    obind (member_string v ''passphrase'') (\<lambda>passphrase.
    obind (member_string v ''private_key'') (\<lambda>private_key.
    obind (member_string v ''certificate'') (\<lambda>certificate.
    obind (member_string v ''alternative_name'') (\<lambda>alternative_name.
    obind (member_int v ''bits'') (\<lambda>bits.
    obind (member_int v ''days'') (\<lambda>days.
    obind (member_int v ''serial'') (\<lambda>serial.
    obind (member_int v ''is_ca'') (\<lambda>isCA.
    obind (member_int v ''enable_base64'') (\<lambda>enableBase64.
    Ret \<lparr>os_bits = bits, os_serial = serial, os_days = days, os_isCA = isCA, os_enableBase64 = enableBase64,
      os_passphrase = passphrase, os_private_key = private_key, os_certificate = certificate,
      os_alternative_name = alternative_name\<rparr>)))))))))"

definition configure_ssl_json :: "json \<Rightarrow> authenticator \<Rightarrow> os \<Rightarrow> (int \<times> authenticator \<times> os) outcome" where
  "configure_ssl_json root a s =
    obind (json_member root ''ssl'') (\<lambda>ssl.
      if json_empty ssl then Ret (0, a, s)
      else obind (ssl_of_json ssl) (\<lambda>option.
        Ret (0, a\<lparr>au_config := ConfigureSSL option (au_config a)\<rparr>, s)))"

definition configure_json :: "openssl \<Rightarrow> json \<Rightarrow> authenticator \<Rightarrow> os \<Rightarrow> (int \<times> authenticator \<times> os) outcome" where
  "configure_json X root a s =
    obind (json_member root ''secret_key'') (\<lambda>secretKey.
      if json_empty secretKey then configure_ssl_json root a s
      else obind (secret_key_of_json secretKey) (\<lambda>option.
        obind (ConfigureSecretKey X option a s) (\<lambda>(ret, a, s).
          if ret < 0 then Ret (ret, a, s) else configure_ssl_json root a s)))"

text \<open>
  The parser gives the value and whether it has something to say about it. The reader is allocated with \<^verbatim>\<open>new\<close>, which throws
  when there is no memory; no branch deletes it.
\<close>

type_synonym json_parser = "string \<Rightarrow> (json \<times> bool) option"

definition ConfigureJSON ::
    "openssl \<Rightarrow> json_parser \<Rightarrow> string \<Rightarrow> authenticator \<Rightarrow> os \<Rightarrow> (int \<times> authenticator \<times> os) outcome" where
  "ConfigureJSON X parse text a s =
    (let (allocated, s) = os_new s in
     if \<not> allocated then Aborted
     else case parse text of
       None \<Rightarrow> Ret (- EINVAL, a, s)
     | Some (root, errors) \<Rightarrow> if errors then Ret (- EFAULT, a, s) else configure_json X root a s)"

text \<open>A configuration has a type and an object; without an object it is \<open>NoObject\<close>.\<close>

datatype auth_option = ConfigSSL config_ssl | ConfigAuthenticator issuer | ConfigJSON string
  | ConfigSecretKey config_secret_key | ConfigOther | NoObject

definition Auth_Configure ::
    "openssl \<Rightarrow> json_parser \<Rightarrow> auth_option option \<Rightarrow> authenticator \<Rightarrow> os \<Rightarrow> (int \<times> authenticator \<times> os) outcome" where
  "Auth_Configure X parse options a s =
    (case options of
      None \<Rightarrow> Ret (0, a, s)
    | Some option \<Rightarrow>
        (case option of
          NoObject \<Rightarrow> Ret (- EINVAL, a, s)
        | ConfigSSL ssl \<Rightarrow> Ret (0, a\<lparr>au_config := ConfigureSSL ssl (au_config a)\<rparr>, s)
        | ConfigAuthenticator I \<Rightarrow> Ret (0, ConfigureAuthenticator I a, s)
        | ConfigJSON text \<Rightarrow> ConfigureJSON X parse text a s
        | ConfigSecretKey secrets \<Rightarrow> ConfigureSecretKey X secrets a s
        | ConfigOther \<Rightarrow> Ret (- EINVAL, a, s)))"

section \<open>Typing of JSON configurations\<close>

text \<open>A section is null or has members; an empty array counts as absent.\<close>

fun section_ok :: "json \<Rightarrow> bool" where
  "section_ok JNull = True"
| "section_ok (JObject ms) = True"
| "section_ok (JArray js) = (js = [])"
| "section_ok _ = False"

definition member_of :: "json \<Rightarrow> string \<Rightarrow> json" where
  "member_of root name = (case root of JObject ms \<Rightarrow> (case map_of ms name of None \<Rightarrow> JNull | Some v \<Rightarrow> v) | _ \<Rightarrow> JNull)"

definition config_typed :: "json \<Rightarrow> bool" where
  "config_typed root \<longleftrightarrow> (root = JNull \<or> (\<exists>ms. root = JObject ms))
    \<and> section_ok (member_of root ''secret_key'') \<and> section_ok (member_of root ''ssl'')"

text \<open>The numbers of a configuration that certificates and keys are made with.\<close>

definition config_wf :: "ssl_config \<Rightarrow> bool" where
  "config_wf cfg \<longleftrightarrow> 0 < sc_bits cfg \<and> 0 < sc_serial cfg \<and> 0 < sc_days cfg \<and> 0 \<le> sc_secretKeyBits cfg"


lemma json_member_typed: "config_typed root \<Longrightarrow> json_member root name = Ret (member_of root name)"
  by (auto simp: config_typed_def member_of_def)

lemma json_member_Ret: "json_member v name = Ret m \<Longrightarrow> (v = JNull \<or> (\<exists>ms. v = JObject ms)) \<and> m = member_of v name"
  by (cases v) (auto simp: member_of_def split: option.splits)

lemma section_member: "section_ok v \<Longrightarrow> \<not> json_empty v \<Longrightarrow> json_member v name = Ret (member_of v name)"
  by (cases v) (auto simp: member_of_def)

lemma section_ok_member: "json_member v name = Ret m \<Longrightarrow> section_ok v"
  by (cases v) auto

lemma section_ok_empty: "json_empty v \<Longrightarrow> section_ok v"
  by (cases v) auto

lemma with_context_Ret:
  "with_context a m = Ret (ret, a', s') \<longleftrightarrow> (\<exists>cx. m = Ret ((ret, cx), s') \<and> a' = a\<lparr>au_context := cx\<rparr>)"
  by (auto simp: with_context_def obind_eq_Ret)

lemma ends_Ret_eq: "ends R m \<Longrightarrow> m = Ret (r, s') \<Longrightarrow> R r (open_fds s') (live s')"
  by (auto simp: ends_def)

lemma ends_not_Aborted: "ends R m \<Longrightarrow> m \<noteq> Aborted \<and> m \<noteq> Undefined \<and> m \<noteq> Blocked"
  by (auto simp: ends_def)

lemma apply_secret_key_Ret:
  assumes "apply_secret_key X a s = Ret (ret, a', s')"
  shows "au_config a' = au_config a \<and> a' = a\<lparr>au_context := au_context a'\<rparr> \<and> open_fds s' = open_fds s \<and> ret \<le> 0
    \<and> context_objects (au_context a') = context_objects (au_context a)
    \<and> (ret = 0 \<longrightarrow> live s' = live s)"
proof -
  let ?P = "\<lambda>cx. open_fds s' = open_fds s \<and> ret \<le> 0 \<and> context_objects cx = context_objects (au_context a) \<and> (ret = 0 \<longrightarrow> live s' = live s)"
  obtain cx where a': "a' = a\<lparr>au_context := cx\<rparr>"
    and cx: "(if sc_secretKey (au_config a) = [] then GenerateSecretKey X (au_config a) (au_context a) s
       else LoadSecretKey X (au_config a) (au_context a) s) = Ret ((ret, cx), s')"
    using assms by (auto simp: apply_secret_key_def with_context_Ret)
  have "?P cx"
  proof (cases "sc_secretKey (au_config a) = []")
    case True
    with cx have "GenerateSecretKey X (au_config a) (au_context a) s = Ret ((ret, cx), s')" by simp
    from ends_Ret_eq [OF GenerateSecretKey_ends this] show ?thesis by (cases "ret = 0") (simp_all add: context_objects_def)
  next
    case False
    with cx have "LoadSecretKey X (au_config a) (au_context a) s = Ret ((ret, cx), s')" by simp
    from ends_Ret_eq [OF LoadSecretKey_keeps this] show ?thesis by (auto simp: context_objects_def)
  qed
  with a' show ?thesis by simp
qed

lemma with_context_returns: "ends R m \<Longrightarrow> \<exists>ret a' s'. with_context a m = Ret (ret, a', s')"
  by (auto simp: ends_def with_context_def)

lemma apply_secret_key_returns: "\<exists>ret a' s'. apply_secret_key X a s = Ret (ret, a', s')"
  unfolding apply_secret_key_def
  by (cases "sc_secretKey (au_config a) = []")
    (simp_all add: with_context_returns [OF GenerateSecretKey_ends] with_context_returns [OF LoadSecretKey_keeps])

lemma ConfigureSecretKey_not_aborted: "ConfigureSecretKey X k a s \<noteq> Aborted"
  using apply_secret_key_returns [of X _ s]
  by (auto simp: ConfigureSecretKey_def Let_def split: option.split) (metis outcome.distinct(3))+

lemma ConfigureSecretKey_Ret:
  assumes "ConfigureSecretKey X k a s = Ret (ret, a', s')" and "config_wf (au_config a)"
  shows "config_wf (au_config a') \<and> open_fds s' = open_fds s \<and> ret \<le> 0
    \<and> context_objects (au_context a') = context_objects (au_context a) \<and> (ret = 0 \<longrightarrow> live s' = live s)"
proof (cases "\<exists>key. ok_key k = Some key \<and> ok_key_bits k \<le> 0")
  case True
  with assms show ?thesis by (auto simp: ConfigureSecretKey_def)
next
  case False
  with assms(1) obtain cfg where cfg: "apply_secret_key X (a\<lparr>au_config := cfg\<rparr>) s = Ret (ret, a', s')"
      "\<exists>t n. cfg = (au_config a)\<lparr>sc_secretKey := t, sc_secretKeyBits := n\<rparr> \<and> 0 \<le> n"
    by (force simp: ConfigureSecretKey_def DEFAULT_SECRET_KEY_BITS_def Let_def split: option.splits if_splits)
  have "config_wf cfg" using cfg(2) assms(2) by (auto simp: config_wf_def)
  with apply_secret_key_Ret [OF cfg(1)] show ?thesis by auto
qed

lemma ConfigureSSL_wf [simp]: "config_wf cfg \<Longrightarrow> config_wf (ConfigureSSL ssl cfg)"
  by (auto simp: config_wf_def ConfigureSSL_def number_or_default_def DEFAULT_BITS_def DEFAULT_DAYS_def DEFAULT_SERIAL_def)

lemma secret_key_of_json_typed: "section_ok v \<Longrightarrow> \<not> json_empty v \<Longrightarrow> \<exists>k. secret_key_of_json v = Ret k"
  by (simp add: secret_key_of_json_def member_string_def member_int_def section_member)

lemma ssl_of_json_typed: "section_ok v \<Longrightarrow> \<not> json_empty v \<Longrightarrow> \<exists>k. ssl_of_json v = Ret k"
  by (simp add: ssl_of_json_def member_string_def member_int_def section_member)

lemma secret_key_of_json_Ret: "secret_key_of_json v = Ret k \<Longrightarrow> section_ok v"
  by (auto simp: secret_key_of_json_def member_string_def obind_eq_Ret dest: section_ok_member)

lemma ssl_of_json_Ret: "ssl_of_json v = Ret k \<Longrightarrow> section_ok v"
  by (auto simp: ssl_of_json_def member_string_def obind_eq_Ret dest: section_ok_member)

lemma configure_ssl_json_not_aborted: "config_typed root \<Longrightarrow> configure_ssl_json root a s \<noteq> Aborted"
  using ssl_of_json_typed [of "member_of root ''ssl''"]
  by (auto simp: configure_ssl_json_def json_member_typed config_typed_def)

lemma configure_ssl_json_Ret:
  assumes "configure_ssl_json root a s = Ret (ret, a', s')"
  shows "section_ok (member_of root ''ssl'') \<and> ret = 0 \<and> s' = s \<and> au_context a' = au_context a
    \<and> (config_wf (au_config a) \<longrightarrow> config_wf (au_config a'))"
  using assms
  by (auto simp: configure_ssl_json_def obind_eq_Ret dest!: json_member_Ret dest: ssl_of_json_Ret section_ok_empty split: if_splits)

lemma configure_json_not_aborted:
  assumes "config_typed root"
  shows "configure_json X root a s \<noteq> Aborted"
proof (cases "json_empty (member_of root ''secret_key'')")
  case True
  then show ?thesis
    using configure_ssl_json_not_aborted [OF assms] by (simp add: configure_json_def json_member_typed [OF assms])
next
  case False
  with secret_key_of_json_typed assms obtain k where k: "secret_key_of_json (member_of root ''secret_key'') = Ret k"
    by (auto simp: config_typed_def)
  show ?thesis
    using ConfigureSecretKey_not_aborted [of X k a s] configure_ssl_json_not_aborted [OF assms]
    by (cases "ConfigureSecretKey X k a s") (auto simp: configure_json_def json_member_typed [OF assms] False k split: if_splits)
qed

lemma configure_json_Ret:
  assumes "configure_json X root a s = Ret (ret, a', s')" and "config_wf (au_config a)"
  shows "config_wf (au_config a') \<and> open_fds s' = open_fds s \<and> ret \<le> 0
    \<and> (ret = 0 \<longrightarrow> config_typed root \<and> live s' = live s \<and> context_objects (au_context a') = context_objects (au_context a))"
proof -
  obtain v where v: "json_member root ''secret_key'' = Ret v" using assms(1) by (auto simp: configure_json_def obind_eq_Ret)
  note root = json_member_Ret [OF v]
  show ?thesis
  proof (cases "json_empty v")
    case True
    with assms v have "configure_ssl_json root a s = Ret (ret, a', s')" by (simp add: configure_json_def)
    from configure_ssl_json_Ret [OF this] True root assms(2) show ?thesis
      by (auto simp: config_typed_def section_ok_empty)
  next
    case False
    with assms(1) v obtain k r1 a1 s1 where k: "secret_key_of_json v = Ret k"
        "ConfigureSecretKey X k a s = Ret (r1, a1, s1)"
        "(if r1 < 0 then Ret (r1, a1, s1) else configure_ssl_json root a1 s1) = Ret (ret, a', s')"
      by (auto simp: configure_json_def obind_eq_Ret)
    note 1 = ConfigureSecretKey_Ret [OF k(2) assms(2)] secret_key_of_json_Ret [OF k(1)]
    show ?thesis
    proof (cases "r1 < 0")
      case True
      with k(3) 1 show ?thesis by simp
    next
      case False
      with k(3) configure_ssl_json_Ret [of root a1 s1 ret a' s'] 1 root show ?thesis
        by (auto simp: config_typed_def)
    qed
  qed
qed


section \<open>Properties\<close>

text \<open>
  C36. The typing of JSON configurations. If the text parses and there is memory for the reader, a configuration whose root and whose
  sections are null or objects never throws, whatever its members are; one that is taken without an error has that
  type, keeps the ledger of the context except for the reader that is left behind, and keeps the numbers of the configuration positive.
\<close>

theorem json_config_types:
  assumes "parse text = Some (root, False)" and "fault s = 0" and "config_wf (au_config a)"
  shows "(config_typed root \<longrightarrow> Auth_Configure X parse (Some (ConfigJSON text)) a s \<noteq> Aborted)
    \<and> (\<forall>a' s'. Auth_Configure X parse (Some (ConfigJSON text)) a s = Ret (0, a', s') \<longrightarrow>
        config_typed root \<and> config_wf (au_config a') \<and> open_fds s' = open_fds s \<and> live s' = live s + 1
        \<and> context_objects (au_context a') = context_objects (au_context a))"
proof -
  obtain s1 where s1: "os_new s = (True, s1)" "open_fds s1 = open_fds s" "live s1 = live s + 1"
    using assms(2) by (simp add: os_new_def)
  have eq: "Auth_Configure X parse (Some (ConfigJSON text)) a s = configure_json X root a s1"
    using assms(1) s1 by (simp add: Auth_Configure_def ConfigureJSON_def)
  show ?thesis
    unfolding eq
  proof (intro conjI [OF impI] allI impI)
    fix a' s' assume "configure_json X root a s1 = Ret (0, a', s')"
    from configure_json_Ret [OF this assms(3)] s1(2,3)
    show "config_typed root \<and> config_wf (au_config a') \<and> open_fds s' = open_fds s \<and> live s' = live s + 1
        \<and> context_objects (au_context a') = context_objects (au_context a)" by simp
  qed (rule configure_json_not_aborted)
qed

text \<open>An instance of OpenSSL: keys are numbers, their texts have their length, the cipher pads, and a base64 with two characters a byte.\<close>

definition pad :: "bytes \<Rightarrow> bytes" where
  "pad m = m @ replicate (AES_BLOCK_SIZE - length m mod AES_BLOCK_SIZE) (char_of (AES_BLOCK_SIZE - length m mod AES_BLOCK_SIZE))"

definition unpad :: "bytes \<Rightarrow> bytes option" where
  "unpad c = (if c = [] \<or> of_char (last c) > length c then None else Some (take (length c - of_char (last c)) c))"

fun spread :: "bytes \<Rightarrow> bytes" where
  "spread [] = []"
| "spread (c # cs) = c # CHR ''='' # spread cs"

fun gather :: "bytes \<Rightarrow> bytes" where
  "gather (c # d # cs) = c # gather cs"
| "gather _ = []"

definition ex_ssl :: openssl where
  "ex_ssl = \<lparr>ssl_keygen = (\<lambda>bits n. if 512 \<le> bits then Some n else None), ssl_random = (\<lambda>len n. replicate len (CHR ''r'')),
    ssl_pem_private = (\<lambda>k. replicate (Suc k) (CHR ''k'')), ssl_pem_public = (\<lambda>k. replicate (Suc k) (CHR ''p'')),
    ssl_pem_x509 = (\<lambda>x. CHR ''x'' # replicate (case x_pubkey x of None \<Rightarrow> 0 | Some k \<Rightarrow> k + 1) (CHR ''c'')),
    ssl_read_private = (\<lambda>t. Some (length t - 1)),
    ssl_read_x509 = (\<lambda>t. Some (X509_new\<lparr>x_pubkey := (if length t = 1 then None else Some (length t - 2))\<rparr>)),
    ssl_rsa = (\<lambda>op key m. Some m),
    ssl_aes = (\<lambda>op key iv m. case op of ENCRYPT \<Rightarrow> ([], Some (pad m)) | DECRYPT \<Rightarrow> ([], unpad m)),
    ssl_encode64 = spread, ssl_decode64 = gather,
    ssl_sign = (\<lambda>key m. CHR ''s'' # replicate key (CHR ''k'') @ m),
    ssl_verify = (\<lambda>key m sig. sig = CHR ''s'' # replicate key (CHR ''k'') @ m),
    ssl_extension = (\<lambda>n v. v \<noteq> ''IP:localhost'')\<rparr>"

definition plain_os :: os where
  "plain_os = \<lparr>open_fds = {0, 1, 2}, next_fd = 3, live = 7, faults = []\<rparr>"

definition ex_json :: json_parser where
  "ex_json text =
    (if text = ''{ssl}'' then Some (JObject [(''ssl'', JObject [(''bits'', JInt 2048), (''is_ca'', JBool False)])], False)
     else if text = ''{ssl:1}'' then Some (JObject [(''ssl'', JInt 1)], False) else None)"

lemma json_config_types_witness:
  "Auth_Configure ex_ssl ex_json (Some (ConfigJSON ''{ssl}'')) Authenticator_new plain_os \<noteq> Aborted
    \<and> Auth_Configure ex_ssl ex_json (Some (ConfigJSON ''{ssl:1}'')) Authenticator_new plain_os = Aborted"
proof -
  have "config_typed (JObject [(''ssl'', JObject [(''bits'', JInt 2048), (''is_ca'', JBool False)])])"
    by (simp add: config_typed_def member_of_def)
  with json_config_types [of ex_json "''{ssl}''" _ plain_os Authenticator_new ex_ssl] show ?thesis
    by (simp add: ex_json_def plain_os_def config_wf_def Authenticator_new_def SSLConfig_new_def DEFAULT_BITS_def DEFAULT_DAYS_def
        DEFAULT_SERIAL_def DEFAULT_SECRET_KEY_BITS_def)
      (simp add: Auth_Configure_def ConfigureJSON_def ex_json_def os_new_def pop_def configure_json_def
        configure_ssl_json_def ssl_of_json_def member_string_def)
qed

text \<open>How the structures are written as JSON.\<close>

definition json_text :: "string option \<Rightarrow> json" where
  "json_text x = (case x of None \<Rightarrow> JNull | Some t \<Rightarrow> JString t)"

definition json_of_ssl :: "config_ssl \<Rightarrow> json" where
  "json_of_ssl o1 = JObject
    [(''passphrase'', json_text (os_passphrase o1)), (''private_key'', json_text (os_private_key o1)),
     (''certificate'', json_text (os_certificate o1)), (''alternative_name'', json_text (os_alternative_name o1)),
     (''bits'', JInt (os_bits o1)), (''serial'', JInt (os_serial o1)), (''days'', JInt (os_days o1)),
     (''is_ca'', JInt (os_isCA o1)), (''enable_base64'', JInt (os_enableBase64 o1))]"

definition json_of_secret_key :: "config_secret_key \<Rightarrow> json" where
  "json_of_secret_key k = JObject [(''key'', json_text (ok_key k)), (''key_bits'', JInt (ok_key_bits k))]"

definition ssl_in_range :: "config_ssl \<Rightarrow> bool" where
  "ssl_in_range o1 \<longleftrightarrow> int_range (os_bits o1) \<and> int_range (os_serial o1) \<and> int_range (os_days o1) \<and> int_range (os_isCA o1)
    \<and> int_range (os_enableBase64 o1)"

lemma json_text_string [simp]: "json_string (json_text x) = x"
  by (cases x) (simp_all add: json_text_def)

lemma ssl_of_json_of_ssl: "ssl_in_range o1 \<Longrightarrow> ssl_of_json (json_of_ssl o1) = Ret o1"
  by (simp add: ssl_of_json_def json_of_ssl_def member_string_def member_int_def ssl_in_range_def)

lemma secret_key_of_json_of: "int_range (ok_key_bits k) \<Longrightarrow> secret_key_of_json (json_of_secret_key k) = Ret k"
  by (simp add: secret_key_of_json_def json_of_secret_key_def member_string_def member_int_def)

text \<open>
  A JSON configuration is the two structures it is written from, first the secret key and then the rest: configuring with it does to
  the authenticator, call by call, what configuring with the structures does, after the one allocation of the reader.
\<close>

theorem json_means_structs:
  assumes "parse text = Some (JObject [(''secret_key'', json_of_secret_key k), (''ssl'', json_of_ssl o1)], False)"
    and "int_range (ok_key_bits k)" and "ssl_in_range o1" and "os_new s = (True, s1)"
  shows "Auth_Configure X parse (Some (ConfigJSON text)) a s =
    obind (Auth_Configure X parse (Some (ConfigSecretKey k)) a s1) (\<lambda>(ret, a, s).
      if ret < 0 then Ret (ret, a, s) else Auth_Configure X parse (Some (ConfigSSL o1)) a s)"
proof -
  have ne: "\<not> json_empty (json_of_secret_key k)" "\<not> json_empty (json_of_ssl o1)"
    by (simp_all add: json_of_secret_key_def json_of_ssl_def)
  have ssl: "configure_ssl_json (JObject [(''secret_key'', json_of_secret_key k), (''ssl'', json_of_ssl o1)]) a s =
      Auth_Configure X parse (Some (ConfigSSL o1)) a s" for a s
    using ne by (simp add: configure_ssl_json_def ssl_of_json_of_ssl [OF assms(3)] Auth_Configure_def)
  have "Auth_Configure X parse (Some (ConfigJSON text)) a s =
      configure_json X (JObject [(''secret_key'', json_of_secret_key k), (''ssl'', json_of_ssl o1)]) a s1"
    using assms(1,4) by (simp add: Auth_Configure_def ConfigureJSON_def)
  also have "\<dots> = obind (ConfigureSecretKey X k a s1) (\<lambda>(ret, a, s).
      if ret < 0 then Ret (ret, a, s) else Auth_Configure X parse (Some (ConfigSSL o1)) a s)"
    using ne by (simp add: configure_json_def secret_key_of_json_of [OF assms(2)] ssl cong: if_cong)
  finally show ?thesis by (simp add: Auth_Configure_def)
qed

definition ex_secret :: config_secret_key where "ex_secret = \<lparr>ok_key = None, ok_key_bits = 256\<rparr>"

definition ex_option :: config_ssl where
  "ex_option = \<lparr>os_bits = 0, os_serial = 5, os_days = -1, os_isCA = 0, os_enableBase64 = 1, os_passphrase = None,
    os_private_key = None, os_certificate = Some ''cc'', os_alternative_name = Some ''127.0.0.1''\<rparr>"

lemma json_means_structs_witness:
  "\<exists>a' s'. Auth_Configure ex_ssl (\<lambda>_. Some (JObject [(''secret_key'', json_of_secret_key ex_secret), (''ssl'', json_of_ssl ex_option)], False))
      (Some (ConfigJSON ''{}'')) Authenticator_new plain_os = Ret (0, a', s')
    \<and> sc_bits (au_config a') = 4096 \<and> sc_days (au_config a') = 365 \<and> \<not> sc_isCA (au_config a') \<and> live s' = 8"
proof -
  let ?s1 = "plain_os\<lparr>live := 8\<rparr>"
    and ?parse = "\<lambda>_::string. Some (JObject [(''secret_key'', json_of_secret_key ex_secret), (''ssl'', json_of_ssl ex_option)], False)"
  have s1: "os_new plain_os = (True, ?s1)" by (simp add: os_new_def plain_os_def pop_def)
  have *: "Auth_Configure ex_ssl ?parse (Some (ConfigJSON ''{}'')) Authenticator_new plain_os =
    obind (Auth_Configure ex_ssl ?parse (Some (ConfigSecretKey ex_secret)) Authenticator_new ?s1) (\<lambda>(ret, a, s).
      if ret < 0 then Ret (ret, a, s) else Auth_Configure ex_ssl ?parse (Some (ConfigSSL ex_option)) a s)"
    by (rule json_means_structs [OF _ _ _ s1])
      (simp_all add: ex_secret_def ex_option_def int_range_def INT_MAX_def ssl_in_range_def)
  show ?thesis
    unfolding *
    by
      (simp_all add: ex_secret_def ex_option_def int_range_def INT_MAX_def ssl_in_range_def Auth_Configure_def
        ConfigureSecretKey_def apply_secret_key_def with_context_def GenerateSecretKey_def Let_def acquire_def attempt_def
        finish_def os_new_def os_call_def pop_def plain_os_def give_back_def ConfigureSSL_def number_or_default_def
        flag_or_true_def Authenticator_new_def SSLConfig_new_def DEFAULT_BITS_def DEFAULT_DAYS_def DEFAULT_SERIAL_def)
qed


text \<open>
  What is documented of base64: decoding undoes encoding, a text is at least as long as what it stands for, and four characters stand for at
  most three bytes.
\<close>

definition base64_ok :: "openssl \<Rightarrow> bool" where
  "base64_ok X \<longleftrightarrow> (\<forall>m. ssl_decode64 X (ssl_encode64 X m) = m) \<and> (\<forall>m. length m \<le> length (ssl_encode64 X m))
    \<and> (\<forall>t. 4 * length (ssl_decode64 X t) \<le> 3 * length t)"

lemma base64_okD:
  assumes "base64_ok X"
  shows "ssl_decode64 X (ssl_encode64 X m) = m" "length m \<le> length (ssl_encode64 X m)"
    "4 * length (ssl_decode64 X t) \<le> 3 * length t"
  using assms by (auto simp: base64_ok_def)

lemma gather_spread [simp]: "gather (spread m) = m"
  by (induction m) auto

lemma length_spread [simp]: "length (spread m) = 2 * length m"
  by (induction m) auto

lemma length_gather: "2 * length (gather t) \<le> length t"
  by (induction t rule: gather.induct) auto

lemma ex_ssl_base64: "base64_ok ex_ssl"
proof -
  have "4 * length (gather t) \<le> 3 * length t" for t
    using length_gather [of t] by linarith
  then show ?thesis by (simp add: base64_ok_def ex_ssl_def)
qed

lemma DecodeBase64_calm:
  assumes "faults s = []" and "take (length t) (ssl_decode64 X t) \<noteq> []"
  shows "\<exists>s'. DecodeBase64 X t s = Ret (Inr (take (length t) (ssl_decode64 X t)), s')"
  using assms
  by (simp add: DecodeBase64_def calm)

text \<open>
  C40. A secret key that one authenticator exports is the key of another one that is configured with the text and the size of the text in
  bits. Configured with the size of the key, as the example in the source has it, the text is cut: when that
  succeeds, the key is another one, and it is at most three quarters as long.
\<close>

theorem secret_key_transfer:
  assumes "base64_ok X" and "GetSecretKey X cfg cx s = Ret (Inr t, s1)" and "sc_enableBase64 cfg"
    and "sc_enableBase64 (au_config a)"
  shows "(faults s2 = [] \<longrightarrow>
      (\<exists>a' s'. ConfigureSecretKey X \<lparr>ok_key = Some t, ok_key_bits = 8 * int (length t)\<rparr> a s2 = Ret (0, a', s')
        \<and> cx_secretKey (au_context a') = cx_secretKey cx))
    \<and> (\<forall>a' s'. ConfigureSecretKey X \<lparr>ok_key = Some t, ok_key_bits = 8 * int (length (cx_secretKey cx))\<rparr> a s2 = Ret (0, a', s')
        \<longrightarrow> 4 * length (cx_secretKey (au_context a')) \<le> 3 * length (cx_secretKey cx) \<and> cx_secretKey (au_context a') \<noteq> cx_secretKey cx)"
proof (intro conjI impI allI)
  let ?k = "cx_secretKey cx"
  note b64 = base64_okD [OF assms(1)]
  from ends_Ret_eq [OF GetSecretKey_settles assms(2)] assms(3) have t: "t = ssl_encode64 X ?k" "?k \<noteq> []" "t \<noteq> []" by auto
  then have len: "length ?k \<le> length t" "0 < length ?k" using b64 by simp_all
  have load: "ConfigureSecretKey X \<lparr>ok_key = Some t, ok_key_bits = 8 * int n\<rparr> a s2 =
      with_context a' (LoadSecretKey X (au_config a') (au_context a) s2)"
    if "0 < n" "n \<le> length t" "a' = a\<lparr>au_config := (au_config a)\<lparr>sc_secretKey := take n t, sc_secretKeyBits := 8 * int n\<rparr>\<rparr>" for n a'
    using that t(3) by (simp add: ConfigureSecretKey_def apply_secret_key_def BITS_TO_BYTES_def with_context_def)
  {
    assume "faults s2 = []"
    from DecodeBase64_calm [OF this, of t X] obtain s3 where "DecodeBase64 X t s2 = Ret (Inr ?k, s3)"
      using t b64 len by auto
    then show "\<exists>a' s'. ConfigureSecretKey X \<lparr>ok_key = Some t, ok_key_bits = 8 * int (length t)\<rparr> a s2 = Ret (0, a', s')
        \<and> cx_secretKey (au_context a') = ?k"
      using load [OF _ order_refl refl] t(3) assms(4) by (simp add: LoadSecretKey_def BITS_TO_BYTES_def with_context_def finish_def)
  next
    fix a' s'
    assume "ConfigureSecretKey X \<lparr>ok_key = Some t, ok_key_bits = 8 * int (length ?k)\<rparr> a s2 = Ret (0, a', s')"
    then obtain cx' where "LoadSecretKey X ((au_config a)\<lparr>sc_secretKey := take (length ?k) t, sc_secretKeyBits := 8 * int (length ?k)\<rparr>)
        (au_context a) s2 = Ret ((0, cx'), s')" "au_context a' = cx'"
      using load [OF len(2,1) refl] by (auto simp: with_context_Ret)
    then obtain r s3 where r: "DecodeBase64 X (take (length ?k) t) s2 = Ret (r, s3)"
        "(case r of Inl e \<Rightarrow> Ret ((e, au_context a), s3)
          | Inr key \<Rightarrow> finish (0, (au_context a)\<lparr>cx_secretKey := key\<rparr>) 1 s3) = Ret ((0, cx'), s')"
      using assms(4) by (auto simp: LoadSecretKey_def BITS_TO_BYTES_def obind_eq_Ret)
    from ends_Ret_eq [OF DecodeBase64_settles r(1)] r(2)
    have "cx_secretKey cx' = take (min (length ?k) (length t)) (ssl_decode64 X (take (length ?k) t))"
      by (auto simp: finish_def min.commute split: sum.splits)
    then have "4 * length (cx_secretKey cx') \<le> 3 * length ?k"
      using b64(3) [of "take (length ?k) t"] len by simp
    with \<open>au_context a' = cx'\<close> len(2)
    show "4 * length (cx_secretKey (au_context a')) \<le> 3 * length ?k" "cx_secretKey (au_context a') \<noteq> ?k" by auto
  }
qed

definition ex_context :: ssl_context where
  "ex_context = \<lparr>cx_x509 = None, cx_keypair = Some 3, cx_secretKey = replicate 32 (CHR ''q''), cx_entropy = 5\<rparr>"

lemma GetSecretKey_calm:
  assumes "faults s = []" and "cx_secretKey cx \<noteq> []" and "sc_enableBase64 cfg" and "ssl_encode64 X (cx_secretKey cx) \<noteq> []"
  shows "\<exists>s'. GetSecretKey X cfg cx s = Ret (Inr (ssl_encode64 X (cx_secretKey cx)), s')"
  using assms
  by (simp add: GetSecretKey_def EncodeBase64_def calm)

lemma secret_key_transfer_witness:
  "\<exists>a' s'. ConfigureSecretKey ex_ssl \<lparr>ok_key = Some (spread (cx_secretKey ex_context)), ok_key_bits = 512\<rparr> Authenticator_new plain_os
      = Ret (0, a', s') \<and> cx_secretKey (au_context a') = replicate 32 (CHR ''q'')"
proof -
  have ne: "ssl_encode64 ex_ssl (cx_secretKey ex_context) = spread (cx_secretKey ex_context)" "spread (cx_secretKey ex_context) \<noteq> []"
    by (simp_all add: ex_ssl_def ex_context_def numeral_eq_Suc)
  obtain s1 where "GetSecretKey ex_ssl SSLConfig_new ex_context plain_os = Ret (Inr (spread (cx_secretKey ex_context)), s1)"
    using GetSecretKey_calm [of plain_os ex_context SSLConfig_new ex_ssl] ne
    by (auto simp: plain_os_def ex_context_def SSLConfig_new_def)
  from secret_key_transfer [OF ex_ssl_base64 this, of Authenticator_new plain_os] show ?thesis
    by (simp add: SSLConfig_new_def Authenticator_new_def plain_os_def ex_context_def)
qed

end
