(* ===== verification/Auth_Commands.thy ===== *)
theory Auth_Commands
  imports Auth_Config
begin

text \<open>
  \<^verbatim>\<open>libbeyond-authenticator_ssl/src/authenticator.cc\<close>: the operations of an authenticator that works in the caller's
  thread: preparation, encryption and its results, keys, signatures. The same functions are what the thread of an asynchronous
  authenticator runs. The two pipes are queues, as \<open>Command_Object\<close> shows; a message on its way is one live object.
\<close>

section \<open>The pipe of results and the events\<close>

definition send_output :: "crypto_output option \<Rightarrow> authenticator \<Rightarrow> os \<Rightarrow> int \<times> authenticator \<times> os" where
  "send_output output a s =
    (let (ret, s1) = send_message s in
     (ret, if ret < 0 then a else a\<lparr>au_output := au_output a @ [output]\<rparr>, s1))"

text \<open>An event is allocated for its receiver. Nothing is published without an event object, and nobody looks at the result.\<close>

definition EVENT_PREPARE_DONE :: evtype where "EVENT_PREPARE_DONE = 0x08010100"
definition EVENT_PREPARE_ERROR :: evtype where "EVENT_PREPARE_ERROR = 0x08010200"
definition EVENT_DEACTIVATE_DONE :: evtype where "EVENT_DEACTIVATE_DONE = 0x08020100"
definition EVENT_CRYPTO_DONE :: evtype where "EVENT_CRYPTO_DONE = 0x08040100"
definition EVENT_CRYPTO_ERROR :: evtype where "EVENT_CRYPTO_ERROR = 0x08040200"

definition publish_event :: "evtype \<Rightarrow> authenticator \<Rightarrow> os \<Rightarrow> authenticator \<times> os" where
  "publish_event t a s =
    (if \<not> au_eventObject a then (a, s)
     else let (ret, s1) = send_message s in (if ret < 0 then a else a\<lparr>au_events := au_events a @ [t]\<rparr>, s1))"

section \<open>Encryption\<close>

text \<open>The input of the operation: \<open>Inr\<close> with whether a block was allocated for it.\<close>

definition crypto_input :: "openssl \<Rightarrow> crypto_op \<Rightarrow> bytes \<Rightarrow> ssl_config \<Rightarrow> os \<Rightarrow> ((int + bytes) \<times> os) outcome" where
  "crypto_input X op data cfg s =
    (if op = DECRYPT \<and> sc_enableBase64 cfg then DecodeBase64 X data s else Ret (Inr data, s))"

definition crypto_operation ::
    "openssl \<Rightarrow> crypto_op \<Rightarrow> int \<Rightarrow> bytes \<Rightarrow> bytes \<Rightarrow> ssl_context \<Rightarrow> os \<Rightarrow> ((int + bytes option) \<times> os) outcome" where
  "crypto_operation X op kid iv input cx =
    (case key_of_id kid of
      None \<Rightarrow> finish (Inl (- EINVAL)) 0
    | Some KEY_SECRET \<Rightarrow> CryptoSymmetric X cx op iv input
    | Some KEY_PRIVATE \<Rightarrow> CryptoAsymmetric X cx op KEY_PRIVATE input
    | Some _ \<Rightarrow> CryptoAsymmetric X cx op KEY_PUBLIC input)"

text \<open>
  The output object of a successful operation, whose text is encoded when it was encrypted. \<open>None\<close> is a null pointer, and so is the
  object of a failed operation; freeing a block for the second time is undefined.
\<close>

definition make_output ::
    "openssl \<Rightarrow> crypto_op \<Rightarrow> ssl_config \<Rightarrow> int + bytes option \<Rightarrow> os \<Rightarrow> (crypto_output option \<times> os) outcome" where
  "make_output X op cfg r s =
    (case r of
      Inl e \<Rightarrow> Ret (None, s)
    | Inr out \<Rightarrow>
        let (allocated, s1) = os_new s in
        if \<not> allocated then (if out = None then Undefined else Ret (None, give_back 1 s1))
        else if op = ENCRYPT \<and> sc_enableBase64 cfg then
          (case out of
            None \<Rightarrow> Undefined
          | Some b \<Rightarrow>
              obind (EncodeBase64 X b s1) (\<lambda>(r, s2).
                case r of
                  Inl e \<Rightarrow> Ret (None, give_back 2 s2)
                | Inr t \<Rightarrow> Ret (Some (Some t), give_back 1 s2)))
        else Ret (Some out, s1))"

text \<open>When the output cannot be sent it is deleted with its block. What the operation itself returned is not returned.\<close>

definition crypto_send :: "crypto_output option \<Rightarrow> authenticator \<Rightarrow> os \<Rightarrow> (int \<times> authenticator \<times> os) outcome" where
  "crypto_send output a s =
    (let (ret, a1, s1) = send_output output a s in
     if ret \<ge> 0 then Ret (ret, a1, s1)
     else case output of
       None \<Rightarrow> Ret (ret, a1, s1)
     | Some None \<Rightarrow> Undefined
     | Some (Some b) \<Rightarrow> Ret (ret, a1, give_back 2 s1))"

definition Crypto ::
    "openssl \<Rightarrow> crypto_op \<Rightarrow> int \<Rightarrow> bytes \<Rightarrow> bytes \<Rightarrow> authenticator \<Rightarrow> os \<Rightarrow> (int \<times> authenticator \<times> os) outcome" where
  "Crypto X op kid data iv a s =
    obind (crypto_input X op data (au_config a) s) (\<lambda>(r, s1).
      case r of
        Inl e \<Rightarrow> Ret (e, a, s1)
      | Inr input \<Rightarrow>
          obind (crypto_operation X op kid iv input (au_context a) s1) (\<lambda>(r, s2).
          obind (make_output X op (au_config a) r
              (give_back (if op = DECRYPT \<and> sc_enableBase64 (au_config a) then 1 else 0) s2)) (\<lambda>(output, s3).
          crypto_send output a s3)))"

text \<open>The checks of \<open>Encrypt\<close> and \<open>Decrypt\<close>, with the key that the operation does not take; \<open>[]\<close> is a missing vector.\<close>

definition crypto_check :: "crypto_op \<Rightarrow> int \<Rightarrow> bytes \<Rightarrow> authenticator \<Rightarrow> int" where
  "crypto_check op kid iv a =
    (if \<not> au_activated a then - EILSEQ
     else if key_of_id kid = Some KEY_SECRET then (if iv = [] then - EINVAL else 0)
     else if key_of_id kid = Some (case op of ENCRYPT \<Rightarrow> KEY_PRIVATE | DECRYPT \<Rightarrow> KEY_PUBLIC) then - EINVAL
     else 0)"

definition Encrypt ::
    "openssl \<Rightarrow> int \<Rightarrow> bytes \<Rightarrow> bytes \<Rightarrow> authenticator \<Rightarrow> os \<Rightarrow> (int \<times> authenticator \<times> os) outcome" where
  "Encrypt X kid data iv a s =
    (let ret = crypto_check ENCRYPT kid iv a in if ret < 0 then Ret (ret, a, s) else Crypto X ENCRYPT kid data iv a s)"

definition Decrypt ::
    "openssl \<Rightarrow> int \<Rightarrow> bytes \<Rightarrow> bytes \<Rightarrow> authenticator \<Rightarrow> os \<Rightarrow> (int \<times> authenticator \<times> os) outcome" where
  "Decrypt X kid data iv a s =
    (let ret = crypto_check DECRYPT kid iv a in if ret < 0 then Ret (ret, a, s) else Crypto X DECRYPT kid data iv a s)"

text \<open>A result: the code, and the output if there is one. Without a message in the pipe the call waits for ever.\<close>

definition GetResult :: "authenticator \<Rightarrow> os \<Rightarrow> (int \<times> crypto_output option \<times> authenticator \<times> os) outcome" where
  "GetResult a s =
    (if \<not> au_activated a then Ret (- EILSEQ, None, a, s)
     else let (r, s1) = os_call s in
       if r < 0 then Ret (- EFAULT, None, a, s1)
       else case au_output a of
         [] \<Rightarrow> Blocked
       | output # rest \<Rightarrow>
           let a1 = a\<lparr>au_output := rest\<rparr>; s2 = os_delete s1 in
           (case output of
             None \<Rightarrow> Ret (- EINVAL, None, a1, s2)
           | Some out \<Rightarrow> Ret (0, Some out, a1, os_delete s2)))"

section \<open>Keys\<close>

definition get_auth_key :: "openssl \<Rightarrow> ssl_config \<Rightarrow> ssl_context \<Rightarrow> int \<Rightarrow> os \<Rightarrow> ((int + bytes) \<times> os) outcome" where
  "get_auth_key X cfg cx kid =
    (case key_of_id kid of
      None \<Rightarrow> finish (Inl (- EINVAL)) 0
    | Some KEY_PRIVATE \<Rightarrow> GetPrivateKey X cx
    | Some KEY_PUBLIC \<Rightarrow> GetPublicKey X cx
    | Some KEY_CERTIFICATE \<Rightarrow> GetCertificate X cx
    | Some KEY_SECRET \<Rightarrow> GetSecretKey X cfg cx)"

definition GetKey :: "openssl \<Rightarrow> int \<Rightarrow> authenticator \<Rightarrow> os \<Rightarrow> ((int + bytes) \<times> os) outcome" where
  "GetKey X kid a = get_auth_key X (au_config a) (au_context a) kid"

definition GenerateSignature :: "openssl \<Rightarrow> bytes \<Rightarrow> authenticator \<Rightarrow> os \<Rightarrow> ((int + bytes) \<times> os) outcome" where
  "GenerateSignature X data a = GenerateSign X (au_context a) data"

definition VerifySignature ::
    "openssl \<Rightarrow> bytes \<Rightarrow> bytes \<Rightarrow> authenticator \<Rightarrow> os \<Rightarrow> ((int \<times> bool option) \<times> os) outcome" where
  "VerifySignature X signedData original a = VerifySign X (au_context a) signedData original"

section \<open>Preparation and the end\<close>

text \<open>What becomes of the keys and the certificate is overwritten by what becomes of the secret key.\<close>

definition generate_keys :: "openssl \<Rightarrow> authenticator \<Rightarrow> os \<Rightarrow> ((int \<times> ssl_context) \<times> os) outcome" where
  "generate_keys X a s =
    (let cfg = au_config a; cx = au_context a in
     if sc_privateKey cfg = [] \<and> sc_certificate cfg = [] then
       obind (GenerateKey X cfg cx s) (\<lambda>((ret, cx), s).
         if ret = 0 then GenerateCertificate X (au_issuer a) cfg cx s else Ret ((ret, cx), s))
     else LoadCertificate X cfg cx s)"

definition CommandGenerate :: "openssl \<Rightarrow> authenticator \<Rightarrow> os \<Rightarrow> (int \<times> authenticator \<times> os) outcome" where
  "CommandGenerate X a s =
    obind (generate_keys X a s) (\<lambda>((ret, cx), s).
    obind (if cx_secretKey cx = [] then GenerateSecretKey X (au_config a) cx s else Ret ((ret, cx), s)) (\<lambda>((ret, cx), s).
      let (a, s) = publish_event (if ret = 0 then EVENT_PREPARE_DONE else EVENT_PREPARE_ERROR) (a\<lparr>au_context := cx\<rparr>) s in
      Ret (ret, a, s)))"

text \<open>The secret key stays.\<close>

definition CommandCleanup :: "authenticator \<Rightarrow> os \<Rightarrow> int \<times> authenticator \<times> os" where
  "CommandCleanup a s =
    (let cx = au_context a;
         (a, s) = publish_event EVENT_DEACTIVATE_DONE (a\<lparr>au_context := cx\<lparr>cx_keypair := None, cx_x509 := None\<rparr>\<rparr>)
           (give_back (held (cx_keypair cx) + held (cx_x509 cx)) s) in
     (0, a, s))"

definition Auth_Activate :: "authenticator \<Rightarrow> int \<times> authenticator" where
  "Auth_Activate a = (0, a\<lparr>au_activated := True\<rparr>)"

definition Prepare :: "openssl \<Rightarrow> authenticator \<Rightarrow> os \<Rightarrow> (int \<times> authenticator \<times> os) outcome" where
  "Prepare X a s = (if \<not> au_activated a then Ret (- EILSEQ, a, s) else CommandGenerate X a s)"

definition Auth_Deactivate :: "authenticator \<Rightarrow> os \<Rightarrow> int \<times> authenticator \<times> os" where
  "Auth_Deactivate a s =
    (if \<not> au_activated a then (- EILSEQ, a, s)
     else let (ret, a, s) = CommandCleanup a s in (ret, a\<lparr>au_activated := ret \<noteq> 0\<rparr>, s))"


section \<open>What is known of the cipher\<close>

text \<open>
  Documented behaviour of AES in CBC mode with padding: encryption never fails and pads to the next multiple of the block size, a whole
  block when there is nothing to fill up; the update writes no more than its input; decryption with the same key and vector gives the
  text back.
\<close>

definition aes_ok :: "openssl \<Rightarrow> bool" where
  "aes_ok X \<longleftrightarrow> (\<forall>key iv m. \<exists>u f. ssl_aes X ENCRYPT key iv m = (u, Some f) \<and> length u \<le> length m
    \<and> length u + length f = AES_BLOCK_SIZE * (length m div AES_BLOCK_SIZE + 1)
    \<and> (\<exists>v w. ssl_aes X DECRYPT key iv (u @ f) = (v, Some w) \<and> v @ w = m))"

lemma outlen_eq: "outlen m = (if length m mod 16 = 0 then length m else 16 * (length m div 16 + 1))"
proof -
  have "length m + (16 - length m mod 16) = 16 * (length m div 16 + 1)"
    by presburger
  then show ?thesis by (simp add: outlen_def AES_BLOCK_SIZE_def Let_def)
qed

definition secret_ready :: "authenticator \<Rightarrow> bytes \<Rightarrow> bool" where
  "secret_ready a iv \<longleftrightarrow> au_activated a \<and> AES_KEY_SIZE \<le> Suc (length (cx_secretKey (au_context a))) \<and> AES_BLOCK_SIZE \<le> length iv"

abbreviation SECRET_KEY :: int where "SECRET_KEY \<equiv> 3"

lemma CryptoSymmetric_calm:
  assumes "faults s = []" and "aes_fits X cx op iv input" and "aes_out X cx op iv input = Some out" and "out \<noteq> []"
  shows "CryptoSymmetric X cx op iv input s = Ret (Inr (Some out), s\<lparr>live := live s + 1\<rparr>)"
  using assms
  by (auto simp: CryptoSymmetric_def aes_out_def aes_fits_def calm Let_def split: prod.splits if_splits)

lemma Crypto_calm:
  assumes "faults s = []" and "aes_fits X (au_context a) op iv input" and "aes_out X (au_context a) op iv input = Some out"
    and "out \<noteq> []"
    and "data = (if op = DECRYPT \<and> sc_enableBase64 (au_config a) then ssl_encode64 X input else input)"
    and b64: "base64_ok X" and "input \<noteq> []"
  shows "Crypto X op SECRET_KEY data iv a s =
    Ret (0, a\<lparr>au_output := au_output a @ [Some (Some (if op = ENCRYPT \<and> sc_enableBase64 (au_config a) then ssl_encode64 X out else out))]\<rparr>,
      s\<lparr>live := live s + 3\<rparr>)"
proof -
  note b = base64_okD [OF b64]
  have ne: "ssl_encode64 X m \<noteq> []" if "m \<noteq> []" for m
    using b(2) [of m] that by auto
  have dec: "DecodeBase64 X (ssl_encode64 X input) s = Ret (Inr input, s\<lparr>live := live s + 1\<rparr>)"
    using assms(1,7) ne b(1,2) [of input] by (simp add: DecodeBase64_def calm)
  have enc: "EncodeBase64 X out t = Ret (Inr (ssl_encode64 X out), t\<lparr>live := live t + 1\<rparr>)" if "faults t = []" for t
    using that ne assms(4) by (simp add: EncodeBase64_def calm)
  have sym: "CryptoSymmetric X (au_context a) op iv input t = Ret (Inr (Some out), t\<lparr>live := live t + 1\<rparr>)" if "faults t = []" for t
    by (rule CryptoSymmetric_calm [OF that assms(2-4)])
  show ?thesis
    using assms(1,5) dec enc sym
    by (cases op; cases "sc_enableBase64 (au_config a)")
      (simp_all add: Crypto_def crypto_input_def crypto_operation_def key_of_id_def make_output_def os_new_def crypto_send_def
        send_output_def send_message_calm give_back_update)
qed

lemma aes_encrypt:
  assumes "aes_ok X" and "secret_ready a iv" and "length data mod AES_BLOCK_SIZE \<noteq> 0"
  obtains c where "aes_fits X (au_context a) ENCRYPT iv data" "aes_out X (au_context a) ENCRYPT iv data = Some c" "c \<noteq> []"
    "aes_fits X (au_context a) DECRYPT iv c" "aes_out X (au_context a) DECRYPT iv c = Some data"
proof -
  let ?k = "take AES_KEY_SIZE (cx_secretKey (au_context a) @ [CHR 0x00])" and ?iv = "take AES_BLOCK_SIZE iv"
  from assms(1) obtain u f v w where c: "ssl_aes X ENCRYPT ?k ?iv data = (u, Some f)" "length u \<le> length data"
      "length u + length f = AES_BLOCK_SIZE * (length data div AES_BLOCK_SIZE + 1)"
      "ssl_aes X DECRYPT ?k ?iv (u @ f) = (v, Some w)" "v @ w = data" unfolding aes_ok_def by metis
  have len: "outlen data = AES_BLOCK_SIZE * (length data div AES_BLOCK_SIZE + 1)" "length data \<le> outlen data"
    using assms(3) div_mult_mod_eq [of "length data" 16] by (auto simp: outlen_eq AES_BLOCK_SIZE_def)
  have "outlen (u @ f) = length u + length f" using c(3) by (simp add: outlen_eq AES_BLOCK_SIZE_def)
  moreover have "length v \<le> length data" "length data \<le> length u + length f" using c(3,5) len by auto
  moreover have "u @ f \<noteq> []" using c(3) by (auto simp: AES_BLOCK_SIZE_def)
  ultimately show ?thesis
    using that [of "u @ f"] c len assms(2)
    by (auto simp: aes_fits_def aes_out_def secret_ready_def AES_BLOCK_SIZE_def)
qed


text \<open>
  C34. Encryption with the secret key and back, when no call fails and with or without base64: for a text that is not a multiple of the
  block size, the result of \<open>Encrypt\<close> decrypts to the text; each call returns 0, the authenticator is as before and the two
  results are what remains allocated. For any other text, the empty one included, the padding does not fit
  the buffer: \<open>Encrypt\<close> writes behind the end of a block of the heap.
\<close>

theorem secret_key_round_trip:
  assumes "aes_ok X" and "base64_ok X" and "secret_ready a iv" and "faults s = []" and "au_output a = []"
  shows "(length data mod AES_BLOCK_SIZE \<noteq> 0 \<longrightarrow>
      (\<exists>c a1 s1 s2 a3 s3. Encrypt X SECRET_KEY data iv a s = Ret (0, a1, s1) \<and> GetResult a1 s1 = Ret (0, Some (Some c), a, s2)
        \<and> Decrypt X SECRET_KEY c iv a s2 = Ret (0, a3, s3)
        \<and> GetResult a3 s3 = Ret (0, Some (Some data), a, s\<lparr>live := live s + 2\<rparr>)))
    \<and> (length data mod AES_BLOCK_SIZE = 0 \<longrightarrow> Encrypt X SECRET_KEY data iv a s = Undefined)"
proof (intro conjI impI)
  have check: "crypto_check op SECRET_KEY iv a = 0" for op
    using assms(3) by (auto simp: crypto_check_def key_of_id_def secret_ready_def AES_BLOCK_SIZE_def)
  {
    assume data: "length data mod AES_BLOCK_SIZE \<noteq> 0"
    from aes_encrypt [OF assms(1,3) data] obtain c where c: "aes_fits X (au_context a) ENCRYPT iv data"
        "aes_out X (au_context a) ENCRYPT iv data = Some c" "c \<noteq> []"
        "aes_fits X (au_context a) DECRYPT iv c" "aes_out X (au_context a) DECRYPT iv c = Some data" by blast
    let ?c = "if sc_enableBase64 (au_config a) then ssl_encode64 X c else c"
    have ne: "data \<noteq> []" using data by auto
    have "Encrypt X SECRET_KEY data iv a s = Ret (0, a\<lparr>au_output := [Some (Some ?c)]\<rparr>, s\<lparr>live := live s + 3\<rparr>)"
      using Crypto_calm [OF assms(4) c(1-3) _ assms(2) ne] assms(5) check by (simp add: Encrypt_def)
    moreover have "GetResult (a\<lparr>au_output := [Some (Some ?c)]\<rparr>) (s\<lparr>live := live s + 3\<rparr>) = Ret (0, Some (Some ?c), a, s\<lparr>live := live s + 1\<rparr>)"
      using assms(3,4,5) by (simp add: GetResult_def secret_ready_def os_call_def os_delete_def)
    moreover have "Decrypt X SECRET_KEY ?c iv a (s\<lparr>live := live s + 1\<rparr>) =
        Ret (0, a\<lparr>au_output := [Some (Some data)]\<rparr>, s\<lparr>live := live s + 4\<rparr>)"
      using Crypto_calm [of "s\<lparr>live := live s + 1\<rparr>", OF _ c(4,5) ne _ assms(2) c(3)] assms(4,5) check by (simp add: Decrypt_def)
    moreover have "GetResult (a\<lparr>au_output := [Some (Some data)]\<rparr>) (s\<lparr>live := live s + 4\<rparr>) =
        Ret (0, Some (Some data), a, s\<lparr>live := live s + 2\<rparr>)"
      using assms(3,4,5) by (simp add: GetResult_def secret_ready_def os_call_def os_delete_def)
    ultimately show "\<exists>c a1 s1 s2 a3 s3. Encrypt X SECRET_KEY data iv a s = Ret (0, a1, s1) \<and> GetResult a1 s1 = Ret (0, Some (Some c), a, s2)
        \<and> Decrypt X SECRET_KEY c iv a s2 = Ret (0, a3, s3) \<and> GetResult a3 s3 = Ret (0, Some (Some data), a, s\<lparr>live := live s + 2\<rparr>)"
      by blast
  next
    assume data: "length data mod AES_BLOCK_SIZE = 0"
    let ?k = "take AES_KEY_SIZE (cx_secretKey (au_context a) @ [CHR 0x00])" and ?iv = "take AES_BLOCK_SIZE iv"
    from assms(1) obtain u f where c: "ssl_aes X ENCRYPT ?k ?iv data = (u, Some f)" "length u \<le> length data"
        "length u + length f = AES_BLOCK_SIZE * (length data div AES_BLOCK_SIZE + 1)" unfolding aes_ok_def by metis
    have "AES_BLOCK_SIZE * (length data div AES_BLOCK_SIZE + 1) > length data" "outlen data = length data"
      using data by (auto simp: outlen_eq AES_BLOCK_SIZE_def)
    then have "CryptoSymmetric X (au_context a) ENCRYPT iv data s = Undefined"
      using c assms(3,4) by (simp add: CryptoSymmetric_def calm secret_ready_def Let_def)
    then show "Encrypt X SECRET_KEY data iv a s = Undefined"
      using check by (simp add: Encrypt_def Crypto_def crypto_input_def crypto_operation_def key_of_id_def)
  }
qed

lemma ex_ssl_aes: "aes_ok ex_ssl"
proof -
  have p: "AES_BLOCK_SIZE - n mod AES_BLOCK_SIZE < 256" "0 < AES_BLOCK_SIZE - n mod AES_BLOCK_SIZE"
    "n + (AES_BLOCK_SIZE - n mod AES_BLOCK_SIZE) = AES_BLOCK_SIZE * (n div AES_BLOCK_SIZE + 1)" for n
    unfolding AES_BLOCK_SIZE_def by presburger+
  have "length (pad m) = AES_BLOCK_SIZE * (length m div AES_BLOCK_SIZE + 1)" for m
    using p(3) [of "length m"] by (simp add: pad_def)
  moreover have "unpad (pad m) = Some m" for m
  proof -
    have "of_char (char_of (AES_BLOCK_SIZE - length m mod AES_BLOCK_SIZE) :: char) = AES_BLOCK_SIZE - length m mod AES_BLOCK_SIZE"
      using p(1) [of "length m"] by (simp add: of_char_of take_bit_eq_mod)
    then show ?thesis
      using p(2) [of "length m"] by (auto simp: unpad_def pad_def last_append)
  qed
  ultimately show ?thesis by (simp add: aes_ok_def ex_ssl_def)
qed

definition ex_auth :: authenticator where
  "ex_auth = Authenticator_new\<lparr>au_context := ex_context, au_activated := True\<rparr>"

lemma secret_key_round_trip_witness:
  "(\<exists>c a1 s1 s2 a3 s3 s4. Encrypt ex_ssl SECRET_KEY ''hello'' (replicate 16 (CHR ''i'')) ex_auth plain_os = Ret (0, a1, s1)
      \<and> GetResult a1 s1 = Ret (0, Some (Some c), ex_auth, s2)
      \<and> Decrypt ex_ssl SECRET_KEY c (replicate 16 (CHR ''i'')) ex_auth s2 = Ret (0, a3, s3)
      \<and> GetResult a3 s3 = Ret (0, Some (Some ''hello''), ex_auth, s4))
    \<and> Encrypt ex_ssl SECRET_KEY (replicate 16 (CHR ''m'')) (replicate 16 (CHR ''i'')) ex_auth plain_os = Undefined"
proof -
  have a: "secret_ready ex_auth (replicate 16 (CHR ''i''))" "au_output ex_auth = []" "faults plain_os = []"
    by (simp_all add: secret_ready_def ex_auth_def ex_context_def AES_KEY_SIZE_def AES_BLOCK_SIZE_def Authenticator_new_def plain_os_def)
  show ?thesis
    using secret_key_round_trip [OF ex_ssl_aes ex_ssl_base64 a(1,3,2), of "''hello''"]
      secret_key_round_trip [OF ex_ssl_aes ex_ssl_base64 a(1,3,2), of "replicate 16 (CHR ''m'')"]
    by (simp add: AES_BLOCK_SIZE_def) blast
qed


section \<open>Ledgers\<close>

text \<open>The objects of a message in the pipe of results, and all that an authenticator has.\<close>

definition output_objects :: "crypto_output option \<Rightarrow> int" where
  "output_objects m = (case m of None \<Rightarrow> 1 | Some None \<Rightarrow> 2 | Some (Some _) \<Rightarrow> 3)"

definition auth_objects :: "authenticator \<Rightarrow> int" where
  "auth_objects a = context_objects (au_context a) + (\<Sum>m\<leftarrow>au_output a. output_objects m) + int (length (au_events a))"

text \<open>An operation returns and keeps the ledger of the authenticator; the result satisfies \<open>P\<close>.\<close>

definition keeps_auth :: "os \<Rightarrow> authenticator \<Rightarrow> (int \<Rightarrow> authenticator \<Rightarrow> bool) \<Rightarrow> (int \<times> authenticator \<times> os) outcome \<Rightarrow> bool" where
  "keeps_auth s a P m \<longleftrightarrow> (\<exists>ret a' s'. m = Ret (ret, a', s') \<and> open_fds s' = open_fds s
    \<and> live s' - auth_objects a' = live s - auth_objects a \<and> ret \<le> 0 \<and> P ret a')"

lemma publish_eventD:
  assumes "publish_event t a s = (a', s')"
  shows "open_fds s' = open_fds s \<and> live s' - auth_objects a' = live s - auth_objects a
    \<and> (\<exists>es. a' = a\<lparr>au_events := au_events a @ es\<rparr>)"
proof (cases "au_eventObject a")
  case True
  obtain ret s1 where s1: "send_message s = (ret, s1)" by fastforce
  with True assms have "a' = (if ret < 0 then a else a\<lparr>au_events := au_events a @ [t]\<rparr>)" "s' = s1"
    by (auto simp: publish_event_def)
  with send_messageD [OF s1] show ?thesis
    by (auto simp: auth_objects_def intro: exI [of _ "[]"])
next
  case False
  with assms show ?thesis by (auto simp: publish_event_def intro: exI [of _ "[]"])
qed

lemma crypto_send_keeps:
  assumes "open_fds s1 = open_fds s" and "live s1 = live s + output_objects m - 1" and "m \<noteq> Some None"
  shows "keeps_auth s a (\<lambda>ret a'. a' = (if ret < 0 then a else a\<lparr>au_output := au_output a @ [m]\<rparr>)) (crypto_send m a s1)"
proof -
  obtain ret s2 where s2: "send_message s1 = (ret, s2)" by fastforce
  with send_messageD [OF s2] assms show ?thesis
    by (cases m) (auto simp: keeps_auth_def crypto_send_def send_output_def output_objects_def auth_objects_def)
qed

text \<open>
  What the operations can rely on: the cipher fits its buffer on every input that it is used on here, and an operation never returns the
  freed block of an empty text.
\<close>

definition crypto_fits :: "openssl \<Rightarrow> authenticator \<Rightarrow> crypto_op \<Rightarrow> int \<Rightarrow> bytes \<Rightarrow> bytes \<Rightarrow> bool" where
  "crypto_fits X a op kid data iv \<longleftrightarrow>
    (key_of_id kid = Some KEY_SECRET \<longrightarrow> (\<forall>input. input = data \<or> input = take (length data) (ssl_decode64 X data) \<longrightarrow>
      aes_fits X (au_context a) op iv input \<and> aes_out X (au_context a) op iv input \<noteq> Some []))"

text \<open>What an operation computes from its input, whatever calls fail.\<close>

definition crypto_value :: "openssl \<Rightarrow> crypto_op \<Rightarrow> int \<Rightarrow> bytes \<Rightarrow> bytes \<Rightarrow> ssl_context \<Rightarrow> bytes option" where
  "crypto_value X op kid iv input cx =
    (case key_of_id kid of
      None \<Rightarrow> None
    | Some KEY_SECRET \<Rightarrow> aes_out X cx op iv input
    | Some kid \<Rightarrow> Option.bind (asymmetric_key cx (if kid = KEY_PRIVATE then KEY_PRIVATE else KEY_PUBLIC)) (\<lambda>key. ssl_rsa X op key input))"

lemma crypto_operation_settles:
  assumes "key_of_id kid = Some KEY_SECRET \<Longrightarrow> aes_fits X cx op iv input \<and> aes_out X cx op iv input \<noteq> Some []"
  shows "settles (open_fds s) (live s) one_or_error
    (right_or_error (\<lambda>out. out \<noteq> None \<and> crypto_value X op kid iv input cx = out)) (crypto_operation X op kid iv input cx s)"
proof (cases "key_of_id kid")
  case None
  then show ?thesis by (auto intro!: settle simp: crypto_operation_def)
next
  case (Some k)
  have sym: "settles (open_fds s) (live s) one_or_error (right_or_error (\<lambda>out. out \<noteq> None \<and> aes_out X cx op iv input = out))
      (CryptoSymmetric X cx op iv input s)" if "k = KEY_SECRET"
    by (rule ends_mono [OF CryptoSymmetric_settles]) (use assms Some that in \<open>auto split: sum.splits option.splits\<close>)
  have asym: "settles (open_fds s) (live s) one_or_error
      (right_or_error (\<lambda>out. out \<noteq> None \<and> Option.bind (asymmetric_key cx k') (\<lambda>key. ssl_rsa X op key input) = out))
      (CryptoAsymmetric X cx op k' input s)" for k'
    by (rule ends_mono [OF CryptoAsymmetric_settles]) (auto split: sum.splits)
  have v: "crypto_value X op kid iv input cx = (if k = KEY_SECRET then aes_out X cx op iv input
      else Option.bind (asymmetric_key cx (if k = KEY_PRIVATE then KEY_PRIVATE else KEY_PUBLIC)) (\<lambda>key. ssl_rsa X op key input))"
    by (cases k) (simp_all add: crypto_value_def Some)
  show ?thesis
    unfolding v using sym asym [of KEY_PRIVATE] asym [of KEY_PUBLIC]
    by (cases k) (simp_all add: crypto_operation_def Some)
qed

lemma crypto_input_settles:
  "settles (open_fds s) (live s) (\<lambda>r. case r of Inl _ \<Rightarrow> 0 | Inr _ \<Rightarrow> if op = DECRYPT \<and> sc_enableBase64 cfg then 1 else 0)
    (right_or_error (\<lambda>input. input = (if op = DECRYPT \<and> sc_enableBase64 cfg then take (length data) (ssl_decode64 X data) else data)))
    (crypto_input X op data cfg s)"
  by (auto intro!: ends_Ret DecodeBase64_settles [THEN ends_mono] simp: crypto_input_def split: sum.splits)

text \<open>The text that is handed out for a value.\<close>

definition encoded :: "openssl \<Rightarrow> crypto_op \<Rightarrow> ssl_config \<Rightarrow> bytes \<Rightarrow> bytes" where
  "encoded X op cfg b = (if op = ENCRYPT \<and> sc_enableBase64 cfg then ssl_encode64 X b else b)"

lemma make_output_settles:
  assumes "open_fds s1 = open_fds s" and "live s1 = live s + one_or_error r" and "r \<noteq> Inr None"
  shows "settles (open_fds s) (live s) (\<lambda>m. output_objects m - 1)
    (\<lambda>m. m = None \<or> (\<exists>b. r = Inr (Some b) \<and> m = Some (Some (encoded X op cfg b)))) (make_output X op cfg r s1)"
proof (cases r)
  case (Inl e)
  with assms show ?thesis by (auto intro!: ends_Ret simp: make_output_def output_objects_def)
next
  case (Inr out)
  with assms obtain b where b: "out = Some b" by auto
  obtain ok s2 where s2: "os_new s1 = (ok, s2)" by fastforce
  then have l: "open_fds s2 = open_fds s1" "live s2 = live s1 + (if ok then 1 else 0)" by (auto simp: os_new_def split: if_splits)
  show ?thesis
    using assms l s2
    by (auto intro!: ends_Ret ends_bind [OF EncodeBase64_settles] simp: make_output_def Inr b encoded_def output_objects_def
        split: sum.splits)
qed




section \<open>Preparation\<close>

text \<open>What \<open>Prepare\<close> makes of the context when it makes the keys: new ones with a certificate for them, or the configured ones.\<close>

definition keys_ready :: "openssl \<Rightarrow> ssl_config \<Rightarrow> ssl_context \<Rightarrow> ssl_context \<Rightarrow> bool" where
  "keys_ready X cfg cx cx' \<longleftrightarrow>
    (if sc_privateKey cfg = [] \<and> sc_certificate cfg = [] then
       (\<exists>key cert cx1. ssl_keygen X (sc_bits cfg) (cx_entropy cx) = Some key
         \<and> cx1 = cx\<lparr>cx_keypair := Some key, cx_entropy := cx_entropy cx + 1\<rparr> \<and> self_signed X cfg cx1 cert
         \<and> cx' = cx1\<lparr>cx_x509 := Some cert\<rparr>)
     else cx' = loaded_context X cfg cx)"

lemma generate_keys_keeps:
  assumes "DAYS_TO_SECONDS (sc_days (au_config a)) \<le> INT_MAX" and "au_issuer a = None"
  shows "keeps_context s (au_context a) (\<lambda>ret cx'. (ret = 0 \<longrightarrow> keys_ready X (au_config a) (au_context a) cx')
    \<and> cx_secretKey cx' = cx_secretKey (au_context a)) (generate_keys X a s)"
proof (cases "sc_privateKey (au_config a) = [] \<and> sc_certificate (au_config a) = []")
  case True
  let ?cfg = "au_config a" and ?cx = "au_context a"
  have "keeps_context s ?cx (\<lambda>ret cx'. (ret = 0 \<longrightarrow> keys_ready X ?cfg ?cx cx') \<and> cx_secretKey cx' = cx_secretKey ?cx)
      (obind (GenerateKey X ?cfg ?cx s) (\<lambda>((ret, cx), s). if ret = 0 then GenerateCertificate X None ?cfg cx s else Ret ((ret, cx), s)))"
  proof (rule ends_bind [OF GenerateKey_keeps], goal_cases)
    case (1 r s1)
    obtain ret cx1 where r: "r = (ret, cx1)" by (cases r)
    show ?case
    proof (cases "ret = 0")
      case True
      with 1 r have l: "open_fds s1 = open_fds s" "live s1 - context_objects cx1 = live s - context_objects ?cx"
        and key: "\<exists>key. ssl_keygen X (sc_bits ?cfg) (cx_entropy ?cx) = Some key
          \<and> cx1 = ?cx\<lparr>cx_keypair := Some key, cx_entropy := cx_entropy ?cx + 1\<rparr>" by auto
      have "keeps_context s ?cx (\<lambda>ret cx'. (ret = 0 \<longrightarrow> keys_ready X ?cfg ?cx cx') \<and> cx_secretKey cx' = cx_secretKey ?cx) (GenerateCertificate X None ?cfg cx1 s1)"
        by (rule ends_mono [OF GenerateCertificate_self [OF assms(1)]])
          (use l key \<open>sc_privateKey ?cfg = [] \<and> _\<close> in \<open>auto simp: keys_ready_def\<close>)
      with r True show ?thesis by simp
    next
      case False
      with 1 r show ?thesis by (auto intro!: ends_Ret)
    qed
  qed
  then show ?thesis unfolding generate_keys_def Let_def if_P [OF True] assms(2) .
next
  case False
  have k: "keys_ready X (au_config a) (au_context a) cx' \<longleftrightarrow> cx' = loaded_context X (au_config a) (au_context a)" for cx'
    unfolding keys_ready_def if_not_P [OF False] ..
  show ?thesis
    unfolding generate_keys_def Let_def if_not_P [OF False] k by (rule LoadCertificate_keeps)
qed

text \<open>Publishing an event does not change anything else of an authenticator, nor does the rest of \<open>CommandGenerate\<close> after the keys.\<close>

lemma CommandGenerate_Ret:
  assumes "CommandGenerate X a s = Ret (ret, a', s')"
  obtains r cx s1 cx2 s2 where "generate_keys X a s = Ret ((r, cx), s1)"
    "(if cx_secretKey cx = [] then GenerateSecretKey X (au_config a) cx s1 else Ret ((r, cx), s1)) = Ret ((ret, cx2), s2)"
    "publish_event (if ret = 0 then EVENT_PREPARE_DONE else EVENT_PREPARE_ERROR) (a\<lparr>au_context := cx2\<rparr>) s2 = (a', s')"
proof -
  obtain r cx s1 where 1: "generate_keys X a s = Ret ((r, cx), s1)"
    using assms by (cases "generate_keys X a s") (auto simp: CommandGenerate_def)
  obtain ret2 cx2 s2 where 2: "(if cx_secretKey cx = [] then GenerateSecretKey X (au_config a) cx s1 else Ret ((r, cx), s1)) = Ret ((ret2, cx2), s2)"
    using assms unfolding CommandGenerate_def 1 obind.simps prod.case
    by (cases "if cx_secretKey cx = [] then GenerateSecretKey X (au_config a) cx s1 else Ret ((r, cx), s1)") auto
  obtain a2 s3 where 3: "publish_event (if ret2 = 0 then EVENT_PREPARE_DONE else EVENT_PREPARE_ERROR) (a\<lparr>au_context := cx2\<rparr>) s2 = (a2, s3)"
    by fastforce
  have "(ret, a', s') = (ret2, a2, s3)"
    using assms unfolding CommandGenerate_def 1 obind.simps prod.case 2 3 by (simp add: 3)
  with that [OF 1] 2 3 show ?thesis by simp
qed

lemma GenerateSecretKey_calm:
  "faults s = [] \<Longrightarrow> GenerateSecretKey X cfg cx s =
    Ret ((0, cx\<lparr>cx_secretKey := ssl_random X (nat (BITS_TO_BYTES (sc_secretKeyBits cfg))) (cx_entropy cx), cx_entropy := cx_entropy cx + 1\<rparr>), s)"
  by (simp add: GenerateSecretKey_def calm Let_def)

text \<open>
  C39. \<open>Prepare\<close> of an authenticator that signs for itself, for every script of failing calls. If it has a secret key already, a result
  of 0 means that the keys and the certificate are the ones that the configuration asks for. If it has none, the result says only whether there is a
  secret key now: one failing call at the start leaves it without keys and certificate, and the result is 0 and the event is
  \<open>PREPARE_DONE\<close>.
\<close>

theorem prepare_result:
  assumes "au_activated a" and "au_issuer a = None" and "DAYS_TO_SECONDS (sc_days (au_config a)) \<le> INT_MAX"
  shows "(\<forall>a' s'. cx_secretKey (au_context a) \<noteq> [] \<longrightarrow> Prepare X a s = Ret (0, a', s') \<longrightarrow>
      keys_ready X (au_config a) (au_context a) (au_context a') \<and> live s' - auth_objects a' = live s - auth_objects a)
    \<and> (\<forall>e. cx_secretKey (au_context a) = [] \<longrightarrow> sc_privateKey (au_config a) = [] \<longrightarrow> sc_certificate (au_config a) = [] \<longrightarrow>
      faults s = [Suc e] \<longrightarrow> (\<exists>a' s'. Prepare X a s = Ret (0, a', s')
        \<and> cx_keypair (au_context a') = cx_keypair (au_context a) \<and> cx_x509 (au_context a') = cx_x509 (au_context a)
        \<and> au_events a' = au_events a @ (if au_eventObject a then [EVENT_PREPARE_DONE] else [])))"
proof (intro conjI allI impI)
  fix a' s'
  assume key: "cx_secretKey (au_context a) \<noteq> []" and P: "Prepare X a s = Ret (0, a', s')"
  then have "CommandGenerate X a s = Ret (0, a', s')" using assms(1) by (simp add: Prepare_def)
  then obtain r cx s1 cx2 s2 where 1: "generate_keys X a s = Ret ((r, cx), s1)"
    "(if cx_secretKey cx = [] then GenerateSecretKey X (au_config a) cx s1 else Ret ((r, cx), s1)) = Ret ((0, cx2), s2)"
    "publish_event EVENT_PREPARE_DONE (a\<lparr>au_context := cx2\<rparr>) s2 = (a', s')"
    by (rule CommandGenerate_Ret) simp
  note K = ends_Ret_eq [OF generate_keys_keeps [OF assms(3,2)] 1(1)]
  have cx: "cx_secretKey cx = cx_secretKey (au_context a)" using K by simp
  with 1(2) key have 2: "r = 0" "cx2 = cx" "s2 = s1" by simp_all
  from publish_eventD [OF 1(3)] obtain es where a': "a' = a\<lparr>au_context := cx, au_events := au_events a @ es\<rparr>"
    "live s' - auth_objects a' = live s2 - auth_objects (a\<lparr>au_context := cx\<rparr>)" using 2 by auto
  with K 2 show "keys_ready X (au_config a) (au_context a) (au_context a')"
    and "live s' - auth_objects a' = live s - auth_objects a" by (auto simp: auth_objects_def)
next
  fix e
  assume f: "cx_secretKey (au_context a) = []" "sc_privateKey (au_config a) = []" "sc_certificate (au_config a) = []" "faults s = [Suc e]"
  have "GenerateKey X (au_config a) (au_context a) s = Ret ((- EFAULT, au_context a), s\<lparr>faults := []\<rparr>)"
    using f(4) by (simp add: GenerateKey_def acquire_def os_new_def finish_def give_back_def fault_def pop_def Let_def)
  then show "\<exists>a' s'. Prepare X a s = Ret (0, a', s')
        \<and> cx_keypair (au_context a') = cx_keypair (au_context a) \<and> cx_x509 (au_context a') = cx_x509 (au_context a)
        \<and> au_events a' = au_events a @ (if au_eventObject a then [EVENT_PREPARE_DONE] else [])"
    using assms(1) f by (simp add: Prepare_def CommandGenerate_def generate_keys_def GenerateSecretKey_calm publish_event_def send_message_calm)
qed


lemma prepare_result_witness:
  "\<exists>a' s'. Prepare ex_ssl (Authenticator_new\<lparr>au_activated := True, au_eventObject := True\<rparr>) (plain_os\<lparr>faults := [12]\<rparr>) = Ret (0, a', s')
    \<and> cx_keypair (au_context a') = None \<and> au_events a' = [EVENT_PREPARE_DONE]"
  using prepare_result [of "Authenticator_new\<lparr>au_activated := True, au_eventObject := True\<rparr>" ex_ssl "plain_os\<lparr>faults := [12]\<rparr>"]
  by (auto simp: Authenticator_new_def SSLConfig_new_def DAYS_TO_SECONDS_def DEFAULT_DAYS_def INT_MAX_def)

section \<open>Signatures\<close>


definition ex_certified :: authenticator where
  "ex_certified = Authenticator_new\<lparr>au_context := ex_context\<lparr>cx_x509 := Some (X509_new\<lparr>x_pubkey := Some 3\<rparr>)\<rparr>\<rparr>"


section \<open>Certificates of an issuer\<close>

definition key_number :: "key_id \<Rightarrow> int" where
  "key_number kid = (case kid of KEY_PRIVATE \<Rightarrow> 0 | KEY_PUBLIC \<Rightarrow> 1 | KEY_CERTIFICATE \<Rightarrow> 2 | KEY_SECRET \<Rightarrow> 3)"

text \<open>An authenticator of this module as the issuer of another one, through its interface.\<close>

definition as_issuer :: "openssl \<Rightarrow> authenticator \<Rightarrow> issuer" where
  "as_issuer X a kid s =
    obind (GetKey X (key_number kid) a s) (\<lambda>(r, s).
      case r of Inl e \<Rightarrow> Ret ((e, None), s) | Inr key \<Rightarrow> Ret ((0, Some key), s))"

definition own_keys :: "openssl \<Rightarrow> ssl_context \<Rightarrow> key_id \<Rightarrow> bytes \<Rightarrow> bool" where
  "own_keys X cx kid t \<longleftrightarrow>
    (kid = KEY_PRIVATE \<longrightarrow> (\<exists>key. cx_keypair cx = Some key \<and> t = take DEFAULT_BIO_BUFSZ (ssl_pem_private X key)))
    \<and> (kid = KEY_CERTIFICATE \<longrightarrow> (\<exists>x. cx_x509 cx = Some x \<and> t = take DEFAULT_BIO_BUFSZ (ssl_pem_x509 X x)))"

lemma GetKey_settles:
  "settles (open_fds s) (live s) one_or_error (right_or_error (own_keys X (au_context a) kid)) (GetKey X (key_number kid) a s)"
proof (cases kid)
  case KEY_PRIVATE
  then show ?thesis
    by (auto intro!: ends_mono [OF GetPrivateKey_settles] simp: GetKey_def get_auth_key_def key_number_def key_of_id_def own_keys_def split: sum.splits)
next
  case KEY_PUBLIC
  then show ?thesis
    by (auto intro!: ends_mono [OF GetPublicKey_settles] simp: GetKey_def get_auth_key_def key_number_def key_of_id_def own_keys_def split: sum.splits)
next
  case KEY_CERTIFICATE
  then show ?thesis
    by (auto intro!: ends_mono [OF GetCertificate_settles] simp: GetKey_def get_auth_key_def key_number_def key_of_id_def own_keys_def split: sum.splits)
next
  case KEY_SECRET
  then show ?thesis
    by (auto intro!: ends_mono [OF GetSecretKey_settles] simp: GetKey_def get_auth_key_def key_number_def key_of_id_def own_keys_def split: sum.splits)
qed

interpretation own_issuer: issuing_authenticator "as_issuer X a" "own_keys X (au_context a)" for X a
proof (unfold_locales, unfold as_issuer_def)
  show "ends (\<lambda>(ret, key) F l. F = open_fds s \<and>
      (if ret < 0 then l = live s else l = live s + int (held key) \<and> own_keys X (au_context a) kid (key_text key)))
      (obind (GetKey X (key_number kid) a s) (\<lambda>(r, s). case r of Inl e \<Rightarrow> Ret ((e, None), s) | Inr key \<Rightarrow> Ret ((0, Some key), s)))"
    for kid s
    by (rule ends_bind [OF GetKey_settles]) (auto intro!: ends_Ret simp: key_text_def split: sum.splits)
qed

text \<open>Documented of PEM: reading gives back what was written; for the keys at hand the text is no longer than the buffer.\<close>

definition pem_ok :: "openssl \<Rightarrow> pkey \<Rightarrow> x509 \<Rightarrow> bool" where
  "pem_ok X key x \<longleftrightarrow> ssl_read_private X (ssl_pem_private X key) = Some key \<and> ssl_read_x509 X (ssl_pem_x509 X x) = Some x
    \<and> length (ssl_pem_private X key) \<le> DEFAULT_BIO_BUFSZ \<and> length (ssl_pem_x509 X x) \<le> DEFAULT_BIO_BUFSZ"

lemma drafted_fields:
  assumes "drafted X cfg cx cert"
  shows "x_pubkey cert = cx_keypair cx \<and> x_serial cert = sc_serial cfg \<and> x_not_before cert = 0
    \<and> x_not_after cert = DAYS_TO_SECONDS (sc_days cfg) \<and> x_subject cert = certificate_subject (sc_isCA cfg)
    \<and> subseq (x_extensions cert) (readable X (certificate_subject (sc_isCA cfg)) (certificate_extensions cfg))"
  using assms by (auto simp: drafted_def extended_def unsigned_certificate_def X509_new_def)

lemma signed_by_fields:
  assumes "signed_by X cfg cx key ca cert"
  shows "x_signature cert = Some key \<and> x_issuer cert = x_subject ca \<and> x_pubkey cert = cx_keypair cx \<and> x_serial cert = sc_serial cfg
    \<and> x_not_after cert = DAYS_TO_SECONDS (sc_days cfg) \<and> x_subject cert = certificate_subject (sc_isCA cfg)"
proof -
  from assms obtain draft draft' where 1: "drafted X cfg cx draft"
    "extended X (x_subject ca) [(NID_authority_key_identifier, ''keyid:always,issuer:always'')] (draft\<lparr>x_issuer := x_subject ca\<rparr>) draft'"
    "cert = draft'\<lparr>x_signature := Some key\<rparr>" by (auto simp: signed_by_def)
  from 1(2,3) drafted_fields [OF 1(1)] show ?thesis by (auto simp: extended_def)
qed

text \<open>
  C33. An authenticator whose issuer is another authenticator of this module, for every script of failing calls: when the certificate is made, it is
  signed with the issuer's key pair, its issuer is the subject of the issuer's certificate, and it certifies the
  authenticator's own key with the configured number, time and subject; the old certificate is freed and nothing else
  remains. When it is not made, the context is as before, and the text of the issuer's private key may remain in memory.
\<close>

theorem issued_certificate:
  assumes "DAYS_TO_SECONDS (sc_days cfg) \<le> INT_MAX"
    and "cx_keypair (au_context ca) = Some key" and "cx_x509 (au_context ca) = Some x" and "pem_ok X key x"
  shows "\<exists>ret cx' s'. GenerateCertificate X (Some (as_issuer X ca)) cfg cx s = Ret ((ret, cx'), s')
    \<and> (ret < 0 \<and> cx' = cx \<and> (live s' = live s \<or> live s' = live s + 1)
      \<or> ret = 0 \<and> live s' - context_objects cx' = live s - context_objects cx
        \<and> (\<exists>cert. cx' = cx\<lparr>cx_x509 := Some cert\<rparr> \<and> x_signature cert = Some key \<and> x_issuer cert = x_subject x
            \<and> x_pubkey cert = cx_keypair cx \<and> x_serial cert = sc_serial cfg \<and> x_not_after cert = DAYS_TO_SECONDS (sc_days cfg)
            \<and> x_subject cert = certificate_subject (sc_isCA cfg)))"
proof -
  have G: "ends (issuing X (own_keys X (au_context ca)) cfg s cx) (GenerateCertificate X (Some (as_issuer X ca)) cfg cx s)"
    by (rule own_issuer.GenerateCertificate_issuer [OF assms(1)])
  then obtain r s' where 1: "GenerateCertificate X (Some (as_issuer X ca)) cfg cx s = Ret (r, s')"
    unfolding ends_def by blast
  obtain ret cx' where r: "r = (ret, cx')" by (cases r)
  note R = ends_Ret_eq [OF G 1, unfolded r prod.case]
  have signed: "signed_by X cfg cx key x cert" if "issued X (own_keys X (au_context ca)) cfg cx cert" for cert
    using that assms(2-4) by (auto simp: issued_def own_keys_def pem_ok_def)
  show ?thesis
  proof (cases "ret = 0")
    case True
    with R obtain cert where cert: "issued X (own_keys X (au_context ca)) cfg cx cert" "cx' = cx\<lparr>cx_x509 := Some cert\<rparr>" by auto
    from signed_by_fields [OF signed [OF cert(1)]] cert(2) R True 1 r show ?thesis by blast
  next
    case False
    with R 1 r show ?thesis by auto
  qed
qed

lemma issued_certificate_witness:
  "\<exists>ret cx' s'. GenerateCertificate ex_ssl (Some (as_issuer ex_ssl ex_certified)) SSLConfig_new (ex_context\<lparr>cx_keypair := Some 9\<rparr>) plain_os
      = Ret ((ret, cx'), s')
    \<and> (ret = 0 \<longrightarrow> (\<exists>cert. cx_x509 cx' = Some cert \<and> x_signature cert = Some 3 \<and> x_pubkey cert = Some 9))"
proof -
  have "pem_ok ex_ssl 3 (X509_new\<lparr>x_pubkey := Some 3\<rparr>)"
    by (simp add: pem_ok_def ex_ssl_def DEFAULT_BIO_BUFSZ_def X509_new_def)
  with issued_certificate [of SSLConfig_new ex_certified 3 "X509_new\<lparr>x_pubkey := Some 3\<rparr>" ex_ssl "ex_context\<lparr>cx_keypair := Some 9\<rparr>" plain_os]
  show ?thesis
    by (fastforce simp: SSLConfig_new_def DAYS_TO_SECONDS_def DEFAULT_DAYS_def INT_MAX_def ex_certified_def ex_context_def)
qed

end
