(* ===== verification/Auth_Async.thy ===== *)
theory Auth_Async
  imports Auth_Commands Event_Loop
begin

text \<open>
  \<^verbatim>\<open>libbeyond-authenticator_ssl/src/authenticator.cc\<close>, the asynchronous mode: the operations are commands that the thread of an
  event loop takes from a pipe; keys and signatures come back through the other end of it, the results of encryption through the pipe of
  results. Both threads work on one authenticator. Of the event loop there is its state: a loop that runs takes commands, one
  that is asked to stop runs the stop handler.
\<close>

section \<open>State\<close>

datatype auth_command = GENERATE | CLEANUP | CRYPTO crypto_op int bytes bytes | GETKEY int
  | GENERATE_SIGN bytes | VERIFY_SIGN bytes bytes

text \<open>The objects that come back: \<open>KeyInfo\<close>, \<open>GenerateSignData\<close>, \<open>VerifySignData\<close>.\<close>

datatype auth_reply = KeyInfo int "bytes option" | SignReply int "bytes option" | VerifyReply int bool

record auth_async =
  ay_auth :: authenticator
  ay_loop :: loop_state
  ay_thread :: bool \<comment> \<open>whether the thread of the loop exists\<close>
  ay_handler :: bool \<comment> \<open>whether the handler of the commands is registered\<close>
  ay_commands :: "auth_command list"
  ay_replies :: "auth_reply list"

section \<open>The thread\<close>

text \<open>A handler returns a code, which is only logged, and what it sent back.\<close>

type_synonym handled = "(int \<times> auth_reply option \<times> authenticator \<times> os) outcome"

definition CommandCrypto ::
    "openssl \<Rightarrow> crypto_op \<Rightarrow> int \<Rightarrow> bytes \<Rightarrow> bytes \<Rightarrow> authenticator \<Rightarrow> os \<Rightarrow> handled" where
  "CommandCrypto X op kid data iv a s =
    obind (Crypto X op kid data iv a s) (\<lambda>(ret, a, s).
      let (a, s) = publish_event (if ret = 0 then EVENT_CRYPTO_DONE else EVENT_CRYPTO_ERROR) a (os_delete s) in
      Ret (ret, None, a, s))"

text \<open>When the reply cannot be allocated or sent, none is sent, and the caller goes on waiting.\<close>

definition CommandGetKey :: "openssl \<Rightarrow> int \<Rightarrow> authenticator \<Rightarrow> os \<Rightarrow> handled" where
  "CommandGetKey X kid a s =
    (let (allocated, s) = os_new s in
     if \<not> allocated then Ret (- ENOMEM, None, a, s)
     else obind (get_auth_key X (au_config a) (au_context a) kid s) (\<lambda>(r, s).
       let key = (case r of Inl e \<Rightarrow> None | Inr b \<Rightarrow> Some b);
           status = (case r of Inl e \<Rightarrow> e | Inr b \<Rightarrow> 0);
           (ret, s) = send_message s in
       if ret < 0 then Ret (ret, None, a, give_back (held key + 1) s)
       else Ret (ret, Some (KeyInfo status key), a, s)))"

text \<open>When the reply cannot be sent, \<open>signedData\<close> is freed: a variable that a failed signature has not set.\<close>

definition CommandGenerateSign :: "openssl \<Rightarrow> bytes \<Rightarrow> authenticator \<Rightarrow> os \<Rightarrow> handled" where
  "CommandGenerateSign X data a s =
    obind (GenerateSign X (au_context a) data s) (\<lambda>(r, s).
      let (ret, s) = send_message s in
      case r of
        Inl e \<Rightarrow> if ret < 0 then Undefined else Ret (ret, Some (SignReply e None), a, s)
      | Inr sig \<Rightarrow> if ret < 0 then Ret (ret, None, a, give_back 2 s) else Ret (ret, Some (SignReply 0 (Some sig)), a, s))"

definition CommandVerifySign :: "openssl \<Rightarrow> bytes \<Rightarrow> bytes \<Rightarrow> authenticator \<Rightarrow> os \<Rightarrow> handled" where
  "CommandVerifySign X signedData original a s =
    obind (VerifySign X (au_context a) signedData original s) (\<lambda>((status, authentic), s).
      let (ret, s) = send_message s in
      if ret < 0 then Ret (ret, None, a, os_delete s)
      else Ret (ret, Some (VerifyReply status (authentic = Some True)), a, s))"

fun run_command :: "openssl \<Rightarrow> auth_command \<Rightarrow> authenticator \<Rightarrow> os \<Rightarrow> handled" where
  "run_command X GENERATE a s = obind (CommandGenerate X a s) (\<lambda>(ret, a, s). Ret (ret, None, a, s))"
| "run_command X CLEANUP a s = (let (ret, a, s) = CommandCleanup a s in Ret (ret, None, a, s))"
| "run_command X (CRYPTO op kid data iv) a s = CommandCrypto X op kid data iv a s"
| "run_command X (GETKEY kid) a s = CommandGetKey X kid a s"
| "run_command X (GENERATE_SIGN data) a s = CommandGenerateSign X data a s"
| "run_command X (VERIFY_SIGN signedData original) a s = CommandVerifySign X signedData original a s"

definition thread_runs :: "auth_async \<Rightarrow> bool" where
  "thread_runs st \<longleftrightarrow> ay_thread st \<and> ay_handler st \<and> (ay_loop st = START_REQUESTED \<or> ay_loop st = STARTED)"

text \<open>
  The handler of the event loop: it takes a command and runs it. A failing \<open>Recv\<close> cancels the handler. Without a command, or when
  the loop does not run, there is nothing to do.
\<close>

definition thread_turn :: "openssl \<Rightarrow> auth_async \<Rightarrow> os \<Rightarrow> (auth_async \<times> os) outcome" where
  "thread_turn X st s =
    (if \<not> thread_runs st then Ret (st, s)
     else case ay_commands st of
       [] \<Rightarrow> Ret (st\<lparr>ay_loop := STARTED\<rparr>, s)
     | cmd # cmds \<Rightarrow>
         let (ret, s) = os_call s in
         if ret < 0 then Ret (st\<lparr>ay_loop := STARTED, ay_handler := False\<rparr>, s)
         else obind (run_command X cmd (ay_auth st) (os_delete s)) (\<lambda>(_, reply, a, s).
           Ret (st\<lparr>ay_auth := a, ay_loop := STARTED, ay_commands := cmds,
             ay_replies := ay_replies st @ (case reply of None \<Rightarrow> [] | Some r \<Rightarrow> [r])\<rparr>, s)))"

text \<open>The end of the thread, with the stop handler.\<close>

definition thread_stop :: "auth_async \<Rightarrow> os \<Rightarrow> auth_async \<times> os" where
  "thread_stop st s =
    (if \<not> ay_thread st \<or> ay_loop st \<noteq> STOP_REQUESTED then (st, s)
     else let (_, a, s) = CommandCleanup (ay_auth st) s in (st\<lparr>ay_auth := a, ay_loop := STOPPED, ay_thread := False\<rparr>, s))"

section \<open>The caller\<close>

definition post_command :: "auth_command \<Rightarrow> auth_async \<Rightarrow> os \<Rightarrow> int \<times> auth_async \<times> os" where
  "post_command cmd st s =
    (let (ret, s) = send_message s in
     (ret, if ret < 0 then st else st\<lparr>ay_commands := ay_commands st @ [cmd]\<rparr>, s))"

text \<open>
  Waiting for a reply, while the thread works. Each turn of a running thread takes one command, so that one more turn than there are
  commands is enough; when the thread cannot send anything any more the caller waits for ever. The last result is the reply,
  \<open>None\<close> when \<open>Recv\<close> fails.
\<close>

fun await_reply :: "openssl \<Rightarrow> nat \<Rightarrow> auth_async \<Rightarrow> os \<Rightarrow> (int \<times> auth_reply option \<times> auth_async \<times> os) outcome" where
  "await_reply X n st s =
    (case ay_replies st of
      r # rs \<Rightarrow>
        let (ret, s) = os_call s in
        if ret < 0 then Ret (ret, None, st, s) else Ret (0, Some r, st\<lparr>ay_replies := rs\<rparr>, os_delete s)
    | [] \<Rightarrow>
        (case n of
          0 \<Rightarrow> Blocked
        | Suc n \<Rightarrow>
            if \<not> thread_runs st \<or> ay_commands st = [] then Blocked
            else obind (thread_turn X st s) (\<lambda>(st, s). await_reply X n st s)))"

declare await_reply.simps [simp del]

definition receive :: "openssl \<Rightarrow> auth_async \<Rightarrow> os \<Rightarrow> (int \<times> auth_reply option \<times> auth_async \<times> os) outcome" where
  "receive X st s = await_reply X (Suc (length (ay_commands st))) st s"

definition Prepare_async :: "auth_async \<Rightarrow> os \<Rightarrow> int \<times> auth_async \<times> os" where
  "Prepare_async st s = (if \<not> au_activated (ay_auth st) then (- EILSEQ, st, s) else post_command GENERATE st s)"

definition Crypt_async :: "crypto_op \<Rightarrow> int \<Rightarrow> bytes \<Rightarrow> bytes \<Rightarrow> auth_async \<Rightarrow> os \<Rightarrow> int \<times> auth_async \<times> os" where
  "Crypt_async op kid data iv st s =
    (let ret = crypto_check op kid iv (ay_auth st) in
     if ret < 0 then (ret, st, s)
     else let (allocated, s) = os_new s in
       if \<not> allocated then (- ENOMEM, st, s)
       else let (ret, st, s) = post_command (CRYPTO op kid data iv) st s in
         (ret, st, if ret < 0 then os_delete s else s))"

text \<open>The object of a reply is taken for what the caller expects; the one of another operation is read as something it is not.\<close>

definition GetKey_async :: "openssl \<Rightarrow> int \<Rightarrow> auth_async \<Rightarrow> os \<Rightarrow> (int \<times> bytes option \<times> auth_async \<times> os) outcome" where
  "GetKey_async X kid st s =
    (let (ret, st, s) = post_command (GETKEY kid) st s in
     if ret < 0 then Ret (ret, None, st, s)
     else obind (receive X st s) (\<lambda>(ret, reply, st, s).
       case reply of
         None \<Rightarrow> Ret (ret, None, st, s)
       | Some (KeyInfo status key) \<Rightarrow> Ret (status, key, st, os_delete s)
       | Some _ \<Rightarrow> Undefined))"

definition GenerateSignature_async ::
    "openssl \<Rightarrow> bytes \<Rightarrow> auth_async \<Rightarrow> os \<Rightarrow> (int \<times> bytes option \<times> auth_async \<times> os) outcome" where
  "GenerateSignature_async X data st s =
    (let (allocated, s) = os_new s in
     if \<not> allocated then Ret (- ENOMEM, None, st, s)
     else let (ret, st, s) = post_command (GENERATE_SIGN data) st s in
       if ret < 0 then Ret (ret, None, st, os_delete s)
       else obind (receive X st s) (\<lambda>(ret, reply, st, s).
         case reply of
           None \<Rightarrow> Ret (ret, None, st, s)
         | Some (SignReply status sig) \<Rightarrow> Ret (status, if status = 0 then sig else None, st, os_delete s)
         | Some _ \<Rightarrow> Undefined))"

definition VerifySignature_async ::
    "openssl \<Rightarrow> bytes \<Rightarrow> bytes \<Rightarrow> auth_async \<Rightarrow> os \<Rightarrow> (int \<times> bool option \<times> auth_async \<times> os) outcome" where
  "VerifySignature_async X signedData original st s =
    (let (allocated, s) = os_new s in
     if \<not> allocated then Ret (- ENOMEM, None, st, s)
     else let (ret, st, s) = post_command (VERIFY_SIGN signedData original) st s in
       if ret < 0 then Ret (ret, None, st, os_delete s)
       else obind (receive X st s) (\<lambda>(ret, reply, st, s).
         case reply of
           None \<Rightarrow> Ret (ret, None, st, s)
         | Some (VerifyReply status authentic) \<Rightarrow> Ret (status, if status = 0 then Some authentic else None, st, os_delete s)
         | Some _ \<Rightarrow> Undefined))"

text \<open>Waiting for a result works like waiting for a reply.\<close>

fun await_result :: "openssl \<Rightarrow> nat \<Rightarrow> auth_async \<Rightarrow> os \<Rightarrow> (int \<times> crypto_output option \<times> auth_async \<times> os) outcome" where
  "await_result X n st s =
    (if au_output (ay_auth st) \<noteq> [] \<or> \<not> au_activated (ay_auth st) then
       obind (GetResult (ay_auth st) s) (\<lambda>(ret, out, a, s). Ret (ret, out, st\<lparr>ay_auth := a\<rparr>, s))
     else
       case n of
         0 \<Rightarrow> Blocked
       | Suc n \<Rightarrow>
           if \<not> thread_runs st \<or> ay_commands st = [] then Blocked
           else obind (thread_turn X st s) (\<lambda>(st, s). await_result X n st s))"

declare await_result.simps [simp del]

definition GetResult_async :: "openssl \<Rightarrow> auth_async \<Rightarrow> os \<Rightarrow> (int \<times> crypto_output option \<times> auth_async \<times> os) outcome" where
  "GetResult_async X st s = await_result X (Suc (length (ay_commands st))) st s"

text \<open>
  \<open>Run\<close> of a loop that is stopped starts its thread; of any other it fails, so that activating twice ends the activation. A
  thread that cannot be created leaves the loop in a state that is not stopped.
\<close>

definition run_async_loop :: "auth_async \<Rightarrow> os \<Rightarrow> int \<times> auth_async \<times> os" where
  "run_async_loop st s =
    (if ay_loop st \<noteq> STOPPED then (- EINVAL, st, s)
     else
       let st = st\<lparr>ay_loop := START_REQUESTED\<rparr>; (ret, s) = os_call s in
       if ret \<noteq> 0 then (ret, st, s)
       else let (status, s) = os_call s; (ret, s) = os_call s in
         if status \<noteq> 0 then (status, st, s) else (ret, st\<lparr>ay_thread := True\<rparr>, s))"

definition Activate_async :: "auth_async \<Rightarrow> os \<Rightarrow> int \<times> auth_async \<times> os" where
  "Activate_async st s =
    (let (ret, st, s) = run_async_loop st s in (ret, st\<lparr>ay_auth := (ay_auth st)\<lparr>au_activated := ret = 0\<rparr>\<rparr>, s))"

definition Deactivate_async :: "auth_async \<Rightarrow> os \<Rightarrow> int \<times> auth_async \<times> os" where
  "Deactivate_async st s =
    (if \<not> au_activated (ay_auth st) then (- EILSEQ, st, s)
     else
       let (ret, s) =
         (if ay_loop st = STOP_REQUESTED then (- EALREADY, s)
          else if ay_loop st = STARTED then os_call s else (0, s)) in
       (ret, st\<lparr>ay_loop := STOP_REQUESTED, ay_auth := (ay_auth st)\<lparr>au_activated := ret \<noteq> 0\<rparr>\<rparr>, s))"

end
