(* ===== verification/Auth_Equiv.thy ===== *)
theory Auth_Equiv
  imports Auth_Async
begin

text \<open>
  The asynchronous authenticator against the synchronous one: when no call fails, the caller sees the same keys, signatures and results,
  however the turns of the thread fall between its calls.
\<close>

section \<open>Functions that do not look at the operating system\<close>

text \<open>When no call fails, the function does the same in every state; the number of live objects may change.\<close>

definition uniform :: "(os \<Rightarrow> ('r \<times> os) outcome) \<Rightarrow> bool" where
  "uniform f \<longleftrightarrow> (\<exists>v. \<forall>s. faults s = [] \<longrightarrow> (\<exists>l. f s = obind v (\<lambda>r. Ret (r, s\<lparr>live := l\<rparr>))))"

definition os0 :: os where
  "os0 = \<lparr>open_fds = {}, next_fd = 0, live = 0, faults = []\<rparr>"

definition calm_value :: "(os \<Rightarrow> ('r \<times> os) outcome) \<Rightarrow> 'r outcome" where
  "calm_value f = obind (f os0) (\<lambda>(r, s). Ret r)"

named_theorems uniforms \<comment> \<open>introduction rules for \<open>uniform\<close>\<close>

lemma uniformI: "(\<And>s. faults s = [] \<Longrightarrow> \<exists>l. f s = obind v (\<lambda>r. Ret (r, s\<lparr>live := l\<rparr>))) \<Longrightarrow> uniform f"
  by (auto simp: uniform_def)

lemma uniform_value:
  assumes "uniform f" and "faults s = []"
  shows "\<exists>l. f s = obind (calm_value f) (\<lambda>r. Ret (r, s\<lparr>live := l\<rparr>))"
proof -
  from assms(1) obtain v where v: "\<And>s. faults s = [] \<Longrightarrow> \<exists>l. f s = obind v (\<lambda>r. Ret (r, s\<lparr>live := l\<rparr>))"
    by (auto simp: uniform_def)
  from v [of os0] have "calm_value f = v" by (cases v) (auto simp: calm_value_def os0_def)
  with v [OF assms(2)] show ?thesis by simp
qed

lemma uniform_value_live:
  assumes "uniform f" and "faults s = []"
  shows "\<exists>l. f (s\<lparr>live := k\<rparr>) = obind (calm_value f) (\<lambda>r. Ret (r, s\<lparr>live := l\<rparr>))"
proof -
  have "faults (s\<lparr>live := k\<rparr>) = []" using assms(2) by simp
  from uniform_value [OF assms(1) this] show ?thesis by simp
qed

lemma uniform_finish [uniforms]: "uniform (finish r k)"
  by (rule uniformI [where v = "Ret r"]) (auto simp: calm)

lemma uniform_Ret [uniforms]: "uniform (\<lambda>s. Ret (r, s))"
proof (rule uniformI [where v = "Ret r"])
  show "\<exists>l. Ret (r, s) = obind (Ret r) (\<lambda>r. Ret (r, s\<lparr>live := l\<rparr>))" for s :: os
    by (rule exI [of _ "live s"]) simp
qed

lemma uniform_Undefined [uniforms]: "uniform (\<lambda>s. Undefined)"
  by (rule uniformI [where v = Undefined]) simp

lemma uniform_live: 
  assumes "uniform f"
  shows "uniform (\<lambda>s. f (s\<lparr>live := g s\<rparr>))"
proof -
  from assms obtain v where v: "\<forall>s. faults s = [] \<longrightarrow> (\<exists>l. f s = obind v (\<lambda>r. Ret (r, s\<lparr>live := l\<rparr>)))"
    unfolding uniform_def ..
  show ?thesis
    by (rule uniformI [where v = v]) (use v [THEN spec, of "_\<lparr>live := g _\<rparr>"] in simp)
qed

lemma uniform_if [uniforms]: "uniform f \<Longrightarrow> uniform g \<Longrightarrow> uniform (\<lambda>s. if c then f s else g s)"
  by (cases c) simp_all

lemma uniform_sum [uniforms]:
  "(\<And>e. uniform (f e)) \<Longrightarrow> (\<And>v. uniform (g v)) \<Longrightarrow> uniform (\<lambda>s. case r of Inl e \<Rightarrow> f e s | Inr v \<Rightarrow> g v s)"
  by (cases r) simp_all

lemma uniform_calm: "uniform f \<Longrightarrow> (\<And>s. faults s = [] \<Longrightarrow> g s = f s) \<Longrightarrow> uniform g"
  by (simp add: uniform_def)

lemma uniform_acquire [uniforms]: "uniform f \<Longrightarrow> uniform (acquire err k f)"
  by (rule uniform_calm [OF uniform_live [of f "\<lambda>s. live s + 1"]]) (simp_all add: calm)

lemma uniform_attempt [uniforms]: "uniform f \<Longrightarrow> uniform (attempt err k f)"
  by (rule uniform_calm [of f]) (simp_all add: calm)

lemma uniform_release [uniforms]: "uniform f \<Longrightarrow> uniform (release k f)"
  by (rule uniform_calm [OF uniform_live [of f "\<lambda>s. live s - int k"]]) (simp_all add: calm)

lemma uniform_transfer [uniforms]:
  assumes "uniform f"
  shows "uniform (transfer n unsupported err k f)"
proof (cases "0 < n")
  case True
  show ?thesis by (rule uniform_calm [OF assms]) (simp add: calm True)
next
  case False
  have "uniform (finish (if n = - 2 then unsupported else err) k)" by (rule uniform_finish)
  then show ?thesis
    by (rule uniform_calm) (use False in \<open>auto simp: transfer_def os_call_def Let_def\<close>)
qed

lemma uniform_bind [uniforms]:
  assumes "uniform m" and "\<And>r. uniform (\<lambda>s. f (r, s))"
  shows "uniform (\<lambda>s. obind (m s) f)"
proof (rule uniformI [where v = "obind (calm_value m) (\<lambda>r. calm_value (\<lambda>s. f (r, s)))"])
  fix s :: os assume s: "faults s = []"
  obtain l where l: "m s = obind (calm_value m) (\<lambda>r. Ret (r, s\<lparr>live := l\<rparr>))"
    using uniform_value [OF assms(1) s] ..
  show "\<exists>l. obind (m s) f = obind (obind (calm_value m) (\<lambda>r. calm_value (\<lambda>s. f (r, s)))) (\<lambda>r. Ret (r, s\<lparr>live := l\<rparr>))"
  proof (cases "calm_value m")
    case (Ret r)
    obtain k where "f (r, s\<lparr>live := l\<rparr>) = obind (calm_value (\<lambda>s. f (r, s))) (\<lambda>r. Ret (r, s\<lparr>live := k\<rparr>))"
      using uniform_value [OF assms(2) [of r], of "s\<lparr>live := l\<rparr>"] s by auto
    with l Ret show ?thesis by auto
  qed (use l in simp_all)
qed

text \<open>The same over the patterns in which the functions take the results apart.\<close>

lemma uniform_case_bind:
  "uniform m \<Longrightarrow> (\<And>r. uniform (g r)) \<Longrightarrow> uniform (\<lambda>s. obind (m s) (\<lambda>(r, s). g r s))"
  by (rule uniform_bind) simp_all

lemma uniform_case_bind2:
  "uniform m \<Longrightarrow> (\<And>x y. uniform (g x y)) \<Longrightarrow> uniform (\<lambda>s. obind (m s) (\<lambda>((x, y), s). g x y s))"
  by (rule uniform_bind) (auto simp: split: prod.split)

lemma uniform_option [uniforms]:
  "uniform f \<Longrightarrow> (\<And>v. uniform (g v)) \<Longrightarrow> uniform (\<lambda>s. case r of None \<Rightarrow> f s | Some v \<Rightarrow> g v s)"
  by (cases r) simp_all

lemmas uniform_binds = uniform_case_bind2 uniform_case_bind

lemma uniform_give_back: "uniform f \<Longrightarrow> uniform (\<lambda>s. f (give_back k s))"
  unfolding give_back_update by (rule uniform_live)

lemma uniform_Encode [uniforms]: "uniform (EncodeBase64 X m)"
  unfolding EncodeBase64_def by (auto intro!: uniforms)

lemma uniform_Decode [uniforms]: "uniform (DecodeBase64 X m)"
  unfolding DecodeBase64_def Let_def by (auto intro!: uniforms)

lemma uniform_CryptoAsymmetric [uniforms]: "uniform (CryptoAsymmetric X cx op kid input)"
  unfolding CryptoAsymmetric_def Let_def by (auto intro!: uniforms split: key_id.split option.split)

lemma uniform_CryptoSymmetric [uniforms]: "uniform (CryptoSymmetric X cx op iv input)"
  unfolding CryptoSymmetric_def Let_def by (auto intro!: uniforms split: prod.split option.split)

lemma uniform_bio_text [uniforms]: "uniform (bio_text t)"
  unfolding bio_text_def Let_def by (simp, intro conjI impI uniforms)

lemma uniform_get_auth_key [uniforms]: "uniform (get_auth_key X cfg cx kid)"
  unfolding get_auth_key_def GetPrivateKey_def GetPublicKey_def GetCertificate_def GetSecretKey_def
  by (auto intro!: uniforms split: key_id.split option.split)

lemma uniform_GenerateSign [uniforms]: "uniform (GenerateSign X cx data)"
  unfolding GenerateSign_def by (auto intro!: uniforms split: option.split)

lemma uniform_VerifySign [uniforms]: "uniform (VerifySign X cx sig data)"
  unfolding VerifySign_def by (auto intro!: uniforms split: option.split)

lemma uniform_GenerateKey [uniforms]: "uniform (GenerateKey X cfg cx)"
  unfolding GenerateKey_def Let_def by (auto intro!: uniforms split: option.split)

lemma uniform_GenerateSecretKey [uniforms]: "uniform (GenerateSecretKey X cfg cx)"
  unfolding GenerateSecretKey_def Let_def by (auto intro!: uniforms)

lemma uniform_LoadPrivateKey [uniforms]: "uniform (LoadPrivateKey X t)"
  unfolding LoadPrivateKey_def by (auto intro!: uniforms split: option.split)

lemma uniform_LoadX509 [uniforms]: "uniform (LoadX509 X t)"
  unfolding LoadX509_def by (auto intro!: uniforms split: option.split)

lemma uniform_load_configured [uniforms]: "uniform (load_configured_x509 X cfg ret cx)"
  unfolding load_configured_x509_def [abs_def] by (intro uniforms) (simp add: case_prod_unfold uniforms)

lemma uniform_LoadCertificate [uniforms]: "uniform (LoadCertificate X cfg cx)"
  unfolding LoadCertificate_def [abs_def] by (intro uniforms) (simp add: case_prod_unfold uniforms uniform_give_back)

lemma uniform_AddExtension [uniforms]: "uniform (AddExtension X cert n v iss)"
  unfolding AddExtension_def Let_def by (auto intro!: uniforms)

lemma uniform_add_extensions [uniforms]: "uniform (add_extensions X cert exts)"
proof (induction exts arbitrary: cert)
  case Nil
  show ?case by (simp add: uniform_Ret)
next
  case (Cons e exts)
  obtain n v where e: "e = (n, v)" by (cases e)
  have "uniform (\<lambda>s. obind (AddExtension X cert n v None s) (\<lambda>((_, cert), s). add_extensions X cert exts s))"
    by (rule uniform_bind) (auto intro!: uniforms Cons.IH split: prod.split)
  then show ?case by (rule uniform_calm) (simp add: e)
qed


text \<open>The issuer of certificates has to be such a function as well.\<close>

definition issuer_uniform :: "issuer option \<Rightarrow> bool" where
  "issuer_uniform I \<longleftrightarrow> (case I of None \<Rightarrow> True | Some f \<Rightarrow> \<forall>kid. uniform (f kid))"

lemma issuer_uniformD: "issuer_uniform (Some f) \<Longrightarrow> uniform (f kid)"
  by (simp add: issuer_uniform_def)

lemma uniform_install [uniforms]: "uniform (install_x509 cx cert)"
  unfolding install_x509_def by (rule uniform_finish)

lemma uniform_sign_with: "uniform (sign_with X cx cert key ca)"
  unfolding sign_with_def [abs_def] by (intro uniform_binds uniforms)

lemma uniform_sign_with_key:
  assumes "issuer_uniform (Some I)"
  shows "uniform (sign_with_key X I cx cert key)"
proof -
  have "uniform (case r of Inl e \<Rightarrow> finish (e, cx) 2 | Inr x509_ca \<Rightarrow> sign_with X cx cert key x509_ca)" for r
    by (cases r) (simp_all add: uniform_finish uniform_sign_with)
  then show ?thesis
    unfolding sign_with_key_def [abs_def]
    by (intro uniform_binds uniform_if uniform_finish uniform_LoadX509 uniform_release issuer_uniformD [OF assms])
qed

lemma uniform_sign_by_issuer:
  assumes "issuer_uniform (Some I)"
  shows "uniform (sign_by_issuer X I cx cert)"
  unfolding sign_by_issuer_def [abs_def]
  by (intro uniform_binds uniform_if uniform_finish uniform_LoadPrivateKey uniform_sum uniform_release
      uniform_sign_with_key [OF assms] issuer_uniformD [OF assms])

lemma uniform_GenerateCertificate:
  assumes "issuer_uniform I"
  shows "uniform (GenerateCertificate X I cfg cx)"
proof -
  have "uniform (\<lambda>s. case I of None \<Rightarrow>
        (case cx_keypair cx of
          None \<Rightarrow> finish (- EFAULT, cx) 1 s
        | Some key \<Rightarrow> attempt (- EFAULT, cx) 1 (install_x509 cx (cert\<lparr>x_issuer := x_subject cert, x_signature := Some key\<rparr>)) s)
      | Some I \<Rightarrow> sign_by_issuer X I cx cert s)" for cert
    using assms by (cases I; cases "cx_keypair cx") (simp_all add: uniforms uniform_sign_by_issuer)
  then have "uniform (\<lambda>s. obind (add_extensions X cert exts s) (\<lambda>(cert, s). case I of None \<Rightarrow>
        (case cx_keypair cx of
          None \<Rightarrow> finish (- EFAULT, cx) 1 s
        | Some key \<Rightarrow> attempt (- EFAULT, cx) 1 (install_x509 cx (cert\<lparr>x_issuer := x_subject cert, x_signature := Some key\<rparr>)) s)
      | Some I \<Rightarrow> sign_by_issuer X I cx cert s))" for cert exts
    by (intro uniform_binds uniform_add_extensions)
  then show ?thesis
    unfolding GenerateCertificate_def by (simp add: uniforms)
qed

lemma uniform_generate_keys:
  assumes "issuer_uniform (au_issuer a)"
  shows "uniform (generate_keys X a)"
  unfolding generate_keys_def [abs_def] Let_def
  by (intro uniform_binds uniforms uniform_GenerateCertificate [OF assms])

lemma uniform_crypto_input [uniforms]: "uniform (crypto_input X op data cfg)"
  unfolding crypto_input_def [abs_def] by (intro uniforms)

lemma uniform_crypto_operation [uniforms]: "uniform (crypto_operation X op kid iv input cx)"
  unfolding crypto_operation_def by (auto intro!: uniforms split: option.split key_id.split)

lemma uniform_make_output [uniforms]: "uniform (make_output X op cfg r)"
proof (cases r)
  case (Inl e)
  then show ?thesis by (simp add: make_output_def [abs_def] uniform_Ret)
next
  case (Inr out)
  have ok: "uniform (\<lambda>s. if op = ENCRYPT \<and> sc_enableBase64 cfg then
      (case out of None \<Rightarrow> Undefined
       | Some b \<Rightarrow> obind (EncodeBase64 X b s) (\<lambda>(r, s2).
           case r of Inl e \<Rightarrow> Ret (None, give_back 2 s2) | Inr t \<Rightarrow> Ret (Some (Some t), give_back 1 s2)))
      else Ret (Some out, s))"
    by (intro uniform_binds uniforms uniform_give_back [of "\<lambda>s. Ret (r, s)" for r])
  show ?thesis
    by (rule uniform_calm [OF uniform_live [OF ok, of "\<lambda>s. live s + 1"]]) (simp add: make_output_def Inr os_new_def)
qed


section \<open>What a command does\<close>

text \<open>When no call fails: the reply, the context and what is added to the results; and the code of a \<open>Crypto\<close>.\<close>

definition crypto_effect ::
    "openssl \<Rightarrow> crypto_op \<Rightarrow> int \<Rightarrow> bytes \<Rightarrow> bytes \<Rightarrow> authenticator \<Rightarrow> (int \<times> crypto_output option list) outcome" where
  "crypto_effect X op kid data iv a =
    obind (calm_value (crypto_input X op data (au_config a))) (\<lambda>r.
      case r of
        Inl e \<Rightarrow> Ret (e, [])
      | Inr input \<Rightarrow>
          obind (calm_value (crypto_operation X op kid iv input (au_context a))) (\<lambda>r.
          obind (calm_value (make_output X op (au_config a) r)) (\<lambda>m. Ret (0, [m]))))"

fun effect :: "openssl \<Rightarrow> auth_command \<Rightarrow> authenticator \<Rightarrow> (auth_reply option \<times> ssl_context \<times> crypto_output option list) outcome" where
  "effect X GENERATE a =
    obind (calm_value (generate_keys X a)) (\<lambda>(ret, cx).
    obind (if cx_secretKey cx = [] then calm_value (GenerateSecretKey X (au_config a) cx) else Ret (ret, cx)) (\<lambda>(_, cx).
    Ret (None, cx, [])))"
| "effect X CLEANUP a = Ret (None, (au_context a)\<lparr>cx_keypair := None, cx_x509 := None\<rparr>, [])"
| "effect X (CRYPTO op kid data iv) a = obind (crypto_effect X op kid data iv a) (\<lambda>(_, outs). Ret (None, au_context a, outs))"
| "effect X (GETKEY kid) a =
    obind (calm_value (get_auth_key X (au_config a) (au_context a) kid)) (\<lambda>r.
      Ret (Some (KeyInfo (case r of Inl e \<Rightarrow> e | Inr _ \<Rightarrow> 0) (case r of Inl _ \<Rightarrow> None | Inr k \<Rightarrow> Some k)), au_context a, []))"
| "effect X (GENERATE_SIGN data) a =
    obind (calm_value (GenerateSign X (au_context a) data)) (\<lambda>r.
      Ret (Some (SignReply (case r of Inl e \<Rightarrow> e | Inr _ \<Rightarrow> 0) (case r of Inl _ \<Rightarrow> None | Inr sig \<Rightarrow> Some sig)), au_context a, []))"
| "effect X (VERIFY_SIGN signedData original) a =
    obind (calm_value (VerifySign X (au_context a) signedData original)) (\<lambda>(status, authentic).
      Ret (Some (VerifyReply status (authentic = Some True)), au_context a, []))"

lemma publish_event_calm:
  "faults s = [] \<Longrightarrow> \<exists>es l. publish_event t a s = (a\<lparr>au_events := es\<rparr>, s\<lparr>live := l\<rparr>)"
  by (auto simp: publish_event_def send_message_calm intro: exI [of _ "au_events a"] exI [of _ "live s"])

lemma same_events: "\<exists>es. a = a\<lparr>au_events := es\<rparr>"
  by (rule exI [of _ "au_events a"]) simp

lemma Crypto_effect:
  assumes "faults s = []"
  shows "\<exists>l. Crypto X op kid data iv a s = obind (crypto_effect X op kid data iv a) (\<lambda>(ret, outs).
    Ret (ret, a\<lparr>au_output := au_output a @ outs\<rparr>, s\<lparr>live := l\<rparr>))"
proof -
  let ?in = "calm_value (crypto_input X op data (au_config a))"
  obtain l1 where 1: "crypto_input X op data (au_config a) s = obind ?in (\<lambda>r. Ret (r, s\<lparr>live := l1\<rparr>))"
    using uniform_value [OF uniform_crypto_input assms] ..
  show ?thesis
  proof (cases ?in)
    case (Ret r)
    show ?thesis
    proof (cases r)
      case (Inl e)
      with 1 Ret show ?thesis by (auto simp: Crypto_def crypto_effect_def)
    next
      case (Inr input)
      let ?op = "calm_value (crypto_operation X op kid iv input (au_context a))"
      obtain l2 where 2: "crypto_operation X op kid iv input (au_context a) (s\<lparr>live := l1\<rparr>) = obind ?op (\<lambda>r. Ret (r, s\<lparr>live := l2\<rparr>))"
        using uniform_value_live [OF uniform_crypto_operation assms] ..
      show ?thesis
      proof (cases ?op)
        case (Ret r2)
        let ?k = "if op = DECRYPT \<and> sc_enableBase64 (au_config a) then 1 else 0"
        let ?m = "calm_value (make_output X op (au_config a) r2)"
        obtain l3 where 3: "make_output X op (au_config a) r2 (give_back ?k (s\<lparr>live := l2\<rparr>)) = obind ?m (\<lambda>r. Ret (r, s\<lparr>live := l3\<rparr>))"
          using uniform_value_live [OF uniform_make_output [of X op "au_config a" r2] assms, of "l2 - int ?k"] by (auto simp: give_back_update)
        have 4: "crypto_send m a (s\<lparr>live := l3\<rparr>) = Ret (0, a\<lparr>au_output := au_output a @ [m]\<rparr>, s\<lparr>live := l3 + 1\<rparr>)" for m
          using assms by (simp add: crypto_send_def send_output_def send_message_calm)
        from 1 2 3 4 Ret \<open>?in = Ret r\<close> Inr show ?thesis
          by (cases ?m) (auto simp: Crypto_def crypto_effect_def)
      qed (use 1 2 \<open>?in = Ret r\<close> Inr in \<open>simp_all add: Crypto_def crypto_effect_def\<close>)
    qed
  qed (use 1 in \<open>simp_all add: Crypto_def crypto_effect_def\<close>)
qed

lemma run_command_effect:
  assumes "faults s = []" and "issuer_uniform (au_issuer a)"
  shows "\<exists>ret es l. run_command X cmd a s = obind (effect X cmd a) (\<lambda>(rep, cx, outs).
    Ret (ret, rep, a\<lparr>au_context := cx, au_output := au_output a @ outs, au_events := es\<rparr>, s\<lparr>live := l\<rparr>))"
proof (cases cmd)
  case GENERATE
  let ?k = "calm_value (generate_keys X a)"
  obtain l1 where 1: "generate_keys X a s = obind ?k (\<lambda>r. Ret (r, s\<lparr>live := l1\<rparr>))"
    using uniform_value [OF uniform_generate_keys [OF assms(2)] assms(1)] ..
  show ?thesis
  proof (cases ?k)
    case (Ret r)
    obtain ret cx where r: "r = (ret, cx)" by (cases r)
    let ?g = "if cx_secretKey cx = [] then calm_value (GenerateSecretKey X (au_config a) cx) else Ret (ret, cx)"
    have calm1: "faults (s\<lparr>live := l1\<rparr>) = []" using assms(1) by simp
    obtain l2 where 2: "(if cx_secretKey cx = [] then GenerateSecretKey X (au_config a) cx (s\<lparr>live := l1\<rparr>)
        else Ret ((ret, cx), s\<lparr>live := l1\<rparr>)) = obind ?g (\<lambda>r. Ret (r, s\<lparr>live := l2\<rparr>))"
      using uniform_value [OF uniform_GenerateSecretKey calm1, of X "au_config a" cx] by (cases "cx_secretKey cx = []") auto
    show ?thesis
    proof (cases ?g)
      case (Ret r2)
      obtain ret2 cx2 where r2: "r2 = (ret2, cx2)" by (cases r2)
      have calm2: "faults (s\<lparr>live := l2\<rparr>) = []" using assms(1) by simp
      obtain es k where 3: "publish_event (if ret2 = 0 then EVENT_PREPARE_DONE else EVENT_PREPARE_ERROR) (a\<lparr>au_context := cx2\<rparr>)
          (s\<lparr>live := l2\<rparr>) = (a\<lparr>au_context := cx2, au_events := es\<rparr>, s\<lparr>live := k\<rparr>)"
        using publish_event_calm [OF calm2] by fastforce
      have "CommandGenerate X a s = Ret (ret2, a\<lparr>au_context := cx2, au_events := es\<rparr>, s\<lparr>live := k\<rparr>)"
        unfolding CommandGenerate_def 1 \<open>?k = Ret r\<close> r obind.simps prod.case 2 Ret r2 by (simp add: 3)
      moreover have "effect X GENERATE a = Ret (None, cx2, [])"
        unfolding effect.simps \<open>?k = Ret r\<close> r obind.simps prod.case Ret r2 by simp
      ultimately show ?thesis using GENERATE by auto
    qed (use 1 2 \<open>?k = Ret r\<close> r GENERATE in \<open>simp_all add: CommandGenerate_def\<close>)
  qed (use 1 GENERATE in \<open>simp_all add: CommandGenerate_def\<close>)
next
  case CLEANUP
  obtain es l where "publish_event EVENT_DEACTIVATE_DONE (a\<lparr>au_context := (au_context a)\<lparr>cx_keypair := None, cx_x509 := None\<rparr>\<rparr>)
      (give_back (held (cx_keypair (au_context a)) + held (cx_x509 (au_context a))) s) =
      (a\<lparr>au_context := (au_context a)\<lparr>cx_keypair := None, cx_x509 := None\<rparr>, au_events := es\<rparr>, s\<lparr>live := l\<rparr>)"
    using publish_event_calm [of "give_back (held (cx_keypair (au_context a)) + held (cx_x509 (au_context a))) s"] assms(1)
    by (fastforce simp: give_back_update)
  with CLEANUP show ?thesis by (auto simp: CommandCleanup_def)
next
  case (CRYPTO op kid data iv)
  obtain l where 1: "Crypto X op kid data iv a s = obind (crypto_effect X op kid data iv a) (\<lambda>(ret, outs).
    Ret (ret, a\<lparr>au_output := au_output a @ outs\<rparr>, s\<lparr>live := l\<rparr>))" using Crypto_effect [OF assms(1)] ..
  show ?thesis
  proof (cases "crypto_effect X op kid data iv a")
    case (Ret r)
    obtain ret outs where r: "r = (ret, outs)" by (cases r)
    have calm: "faults (os_delete (s\<lparr>live := l\<rparr>)) = []" using assms(1) by simp
    obtain es k where "publish_event (if ret = 0 then EVENT_CRYPTO_DONE else EVENT_CRYPTO_ERROR) (a\<lparr>au_output := au_output a @ outs\<rparr>)
        (os_delete (s\<lparr>live := l\<rparr>)) = (a\<lparr>au_output := au_output a @ outs, au_events := es\<rparr>, s\<lparr>live := k\<rparr>)"
      using publish_event_calm [OF calm] by (fastforce simp: os_delete_def)
    with 1 Ret r CRYPTO show ?thesis by (auto simp: CommandCrypto_def)
  qed (use 1 CRYPTO in \<open>simp_all add: CommandCrypto_def\<close>)
next
  case (GETKEY kid)
  let ?v = "calm_value (get_auth_key X (au_config a) (au_context a) kid)"
  obtain l where 1: "get_auth_key X (au_config a) (au_context a) kid (s\<lparr>live := live s + 1\<rparr>) = obind ?v (\<lambda>r. Ret (r, s\<lparr>live := l\<rparr>))"
    using uniform_value_live [OF uniform_get_auth_key assms(1)] ..
  show ?thesis
    using 1 assms(1) GETKEY by (cases ?v) (auto simp: CommandGetKey_def os_new_def send_message_calm same_events)
next
  case (GENERATE_SIGN data)
  let ?v = "calm_value (GenerateSign X (au_context a) data)"
  obtain l where 1: "GenerateSign X (au_context a) data s = obind ?v (\<lambda>r. Ret (r, s\<lparr>live := l\<rparr>))"
    using uniform_value [OF uniform_GenerateSign assms(1)] ..
  show ?thesis
    using 1 assms(1) GENERATE_SIGN
    by (cases ?v) (auto simp: CommandGenerateSign_def send_message_calm same_events split: sum.split)
next
  case (VERIFY_SIGN sig data)
  let ?v = "calm_value (VerifySign X (au_context a) sig data)"
  obtain l where 1: "VerifySign X (au_context a) sig data s = obind ?v (\<lambda>r. Ret (r, s\<lparr>live := l\<rparr>))"
    using uniform_value [OF uniform_VerifySign assms(1)] ..
  show ?thesis
    using 1 assms(1) VERIFY_SIGN
    by (cases ?v) (auto simp: CommandVerifySign_def send_message_calm same_events)
qed


section \<open>The two ways to call an authenticator\<close>

datatype api_call = ApiPrepare | ApiEncrypt int bytes bytes | ApiDecrypt int bytes bytes | ApiGetResult
  | ApiGetKey int | ApiSign bytes | ApiVerify bytes bytes

text \<open>What a call hands to the caller besides a code that only says whether the call was accepted.\<close>

datatype api_value = NoValue | ResultValue int "crypto_output option" | KeyValue int "bytes option"
  | SignValue int "bytes option" | VerifyValue int "bool option"

definition key_value :: "int + bytes \<Rightarrow> int \<times> bytes option" where
  "key_value r = (case r of Inl e \<Rightarrow> (e, None) | Inr k \<Rightarrow> (0, Some k))"

fun sync_call :: "openssl \<Rightarrow> api_call \<Rightarrow> authenticator \<Rightarrow> os \<Rightarrow> (api_value \<times> authenticator \<times> os) outcome" where
  "sync_call X ApiPrepare a s = obind (Prepare X a s) (\<lambda>(_, a, s). Ret (NoValue, a, s))"
| "sync_call X (ApiEncrypt kid data iv) a s = obind (Encrypt X kid data iv a s) (\<lambda>(_, a, s). Ret (NoValue, a, s))"
| "sync_call X (ApiDecrypt kid data iv) a s = obind (Decrypt X kid data iv a s) (\<lambda>(_, a, s). Ret (NoValue, a, s))"
| "sync_call X ApiGetResult a s = obind (GetResult a s) (\<lambda>(ret, out, a, s). Ret (ResultValue ret out, a, s))"
| "sync_call X (ApiGetKey kid) a s = obind (GetKey X kid a s) (\<lambda>(r, s). Ret (case_prod KeyValue (key_value r), a, s))"
| "sync_call X (ApiSign data) a s = obind (GenerateSignature X data a s) (\<lambda>(r, s). Ret (case_prod SignValue (key_value r), a, s))"
| "sync_call X (ApiVerify signedData original) a s =
    obind (VerifySignature X signedData original a s) (\<lambda>((ret, authentic), s).
      Ret (VerifyValue ret (if ret = 0 then Some (authentic = Some True) else None), a, s))"

fun async_call :: "openssl \<Rightarrow> api_call \<Rightarrow> auth_async \<Rightarrow> os \<Rightarrow> (api_value \<times> auth_async \<times> os) outcome" where
  "async_call X ApiPrepare st s = (let (_, st, s) = Prepare_async st s in Ret (NoValue, st, s))"
| "async_call X (ApiEncrypt kid data iv) st s = (let (_, st, s) = Crypt_async ENCRYPT kid data iv st s in Ret (NoValue, st, s))"
| "async_call X (ApiDecrypt kid data iv) st s = (let (_, st, s) = Crypt_async DECRYPT kid data iv st s in Ret (NoValue, st, s))"
| "async_call X ApiGetResult st s = obind (GetResult_async X st s) (\<lambda>(ret, out, st, s). Ret (ResultValue ret out, st, s))"
| "async_call X (ApiGetKey kid) st s = obind (GetKey_async X kid st s) (\<lambda>(ret, key, st, s). Ret (KeyValue ret key, st, s))"
| "async_call X (ApiSign data) st s = obind (GenerateSignature_async X data st s) (\<lambda>(ret, sig, st, s). Ret (SignValue ret sig, st, s))"
| "async_call X (ApiVerify signedData original) st s =
    obind (VerifySignature_async X signedData original st s) (\<lambda>(ret, authentic, st, s). Ret (VerifyValue ret authentic, st, s))"

fun sync_run :: "openssl \<Rightarrow> api_call list \<Rightarrow> authenticator \<Rightarrow> os \<Rightarrow> (api_value list \<times> authenticator \<times> os) outcome" where
  "sync_run X [] a s = Ret ([], a, s)"
| "sync_run X (c # cs) a s =
    obind (sync_call X c a s) (\<lambda>(v, a, s). obind (sync_run X cs a s) (\<lambda>(vs, a, s). Ret (v # vs, a, s)))"

text \<open>A schedule: the calls of the caller and the turns of the thread.\<close>

datatype auth_step = CallStep api_call | ThreadStep

fun async_run :: "openssl \<Rightarrow> auth_step list \<Rightarrow> auth_async \<Rightarrow> os \<Rightarrow> (api_value list \<times> auth_async \<times> os) outcome" where
  "async_run X [] st s = Ret ([], st, s)"
| "async_run X (CallStep c # steps) st s =
    obind (async_call X c st s) (\<lambda>(v, st, s). obind (async_run X steps st s) (\<lambda>(vs, st, s). Ret (v # vs, st, s)))"
| "async_run X (ThreadStep # steps) st s = obind (thread_turn X st s) (\<lambda>(st, s). async_run X steps st s)"

fun calls_of :: "auth_step list \<Rightarrow> api_call list" where
  "calls_of [] = []"
| "calls_of (CallStep c # steps) = c # calls_of steps"
| "calls_of (ThreadStep # steps) = calls_of steps"

section \<open>The commands that are pending\<close>

text \<open>What the pending commands will do, one after the other: the context and what they add to the results.\<close>

fun pending :: "openssl \<Rightarrow> authenticator \<Rightarrow> auth_command list \<Rightarrow> (ssl_context \<times> crypto_output option list) outcome" where
  "pending X a [] = Ret (au_context a, [])"
| "pending X a (c # cs) =
    obind (effect X c a) (\<lambda>(_, cx, outs).
    obind (pending X (a\<lparr>au_context := cx\<rparr>) cs) (\<lambda>(cx', outs'). Ret (cx', outs @ outs')))"

text \<open>Only the configuration, the issuer and the context count.\<close>

definition same_setup :: "authenticator \<Rightarrow> authenticator \<Rightarrow> bool" where
  "same_setup a b \<longleftrightarrow> au_config a = au_config b \<and> au_issuer a = au_issuer b \<and> au_activated a = au_activated b"

lemma same_setup_simps [simp]:
  "same_setup a a" "same_setup (a\<lparr>au_context := cx\<rparr>) b = same_setup a b" "same_setup (a\<lparr>au_output := out\<rparr>) b = same_setup a b"
  "same_setup (a\<lparr>au_events := es\<rparr>) b = same_setup a b" "same_setup a (b\<lparr>au_context := cx\<rparr>) = same_setup a b"
  "same_setup a (b\<lparr>au_output := out\<rparr>) = same_setup a b" "same_setup a (b\<lparr>au_events := es\<rparr>) = same_setup a b"
  by (simp_all add: same_setup_def)

lemma effect_cong:
  assumes "same_setup a b" and "au_context a = au_context b"
  shows "effect X c a = effect X c b"
proof -
  note eq = assms(2) assms(1) [unfolded same_setup_def, THEN conjunct1] assms(1) [unfolded same_setup_def, THEN conjunct2, THEN conjunct1]
  have g: "generate_keys X a = generate_keys X b"
    unfolding generate_keys_def [abs_def] eq ..
  show ?thesis
    by (cases c) (simp_all add: g crypto_effect_def eq cong: if_cong sum.case_cong)
qed

lemma pending_cong:
  "same_setup a b \<Longrightarrow> au_context a = au_context b \<Longrightarrow> pending X a cs = pending X b cs"
proof (induction cs arbitrary: a b)
  case (Cons c cs)
  have "pending X (a\<lparr>au_context := cx\<rparr>) cs = pending X (b\<lparr>au_context := cx\<rparr>) cs" for cx
    using Cons.prems by (intro Cons.IH) simp_all
  then show ?case using effect_cong [OF Cons.prems, of X c] by simp
qed simp

lemma pending_append:
  assumes "pending X a cs = Ret (cx, outs)"
  shows "pending X a (cs @ [c]) = obind (effect X c (a\<lparr>au_context := cx\<rparr>)) (\<lambda>(_, cx, outs'). Ret (cx, outs @ outs'))"
  using assms
proof (induction cs arbitrary: a outs)
  case Nil
  then have "effect X c (a\<lparr>au_context := cx\<rparr>) = effect X c a" by (intro effect_cong) simp_all
  with Nil show ?case by (cases "effect X c a") auto
next
  case (Cons d cs)
  then obtain rep cx1 outs1 outs2 where 1: "effect X d a = Ret (rep, cx1, outs1)"
    "pending X (a\<lparr>au_context := cx1\<rparr>) cs = Ret (cx, outs2)" "outs = outs1 @ outs2" by (auto simp: obind_eq_Ret)
  from Cons.IH [OF 1(2)] 1(1,3) show ?case
    by (cases "effect X c (a\<lparr>au_context := cx\<rparr>)") auto
qed

text \<open>Commands that are not answered.\<close>

fun silent :: "auth_command \<Rightarrow> bool" where
  "silent GENERATE = True" | "silent CLEANUP = True" | "silent (CRYPTO op kid data iv) = True" | "silent _ = False"

lemma silent_effect: "silent c \<Longrightarrow> effect X c a = Ret (rep, cx, outs) \<Longrightarrow> rep = None"
  by (cases c) (auto simp: obind_eq_Ret)

text \<open>The relation of the two: the pending commands make the asynchronous one what the synchronous one is.\<close>

definition agrees :: "openssl \<Rightarrow> auth_async \<Rightarrow> authenticator \<Rightarrow> bool" where
  "agrees X st a \<longleftrightarrow> thread_runs st \<and> ay_replies st = [] \<and> list_all silent (ay_commands st) \<and> issuer_uniform (au_issuer a)
    \<and> same_setup (ay_auth st) a
    \<and> (\<exists>outs. pending X (ay_auth st) (ay_commands st) = Ret (au_context a, outs) \<and> au_output a = au_output (ay_auth st) @ outs)"


lemma agreesD:
  assumes "agrees X st a"
  shows "thread_runs st" "ay_replies st = []" "list_all silent (ay_commands st)" "issuer_uniform (au_issuer (ay_auth st))"
    "same_setup (ay_auth st) a"
  using assms by (auto simp: agrees_def same_setup_def)

text \<open>One command of the thread.\<close>

lemma thread_turn_command:
  assumes "thread_runs st" and "ay_commands st = c # cs" and "faults t = []" and "issuer_uniform (au_issuer (ay_auth st))"
    and "effect X c (ay_auth st) = Ret (rep, cx, outs)"
  shows "\<exists>es l. thread_turn X st t = Ret (st\<lparr>ay_auth := (ay_auth st)\<lparr>au_context := cx, au_output := au_output (ay_auth st) @ outs, au_events := es\<rparr>,
      ay_loop := STARTED, ay_commands := cs, ay_replies := ay_replies st @ (case rep of None \<Rightarrow> [] | Some r \<Rightarrow> [r])\<rparr>, t\<lparr>live := l\<rparr>)"
proof -
  have "faults (os_delete t) = []" using assms(3) by simp
  from run_command_effect [OF this assms(4), of X c] obtain ret es l where
    "run_command X c (ay_auth st) (os_delete t) = Ret (ret, rep,
      (ay_auth st)\<lparr>au_context := cx, au_output := au_output (ay_auth st) @ outs, au_events := es\<rparr>, (os_delete t)\<lparr>live := l\<rparr>)"
    unfolding assms(5) by auto
  with assms(1-3) show ?thesis
    by (auto simp: thread_turn_def os_call_def os_delete_def)
qed

abbreviation stepped :: "auth_async \<Rightarrow> ssl_context \<Rightarrow> crypto_output option list \<Rightarrow> evtype list \<Rightarrow> auth_command list \<Rightarrow> auth_async" where
  "stepped st cx outs es cs \<equiv> st\<lparr>ay_auth := (ay_auth st)\<lparr>au_context := cx, au_output := au_output (ay_auth st) @ outs, au_events := es\<rparr>,
    ay_loop := STARTED, ay_commands := cs\<rparr>"

lemma thread_turn_silent:
  assumes "thread_runs st" and "ay_commands st = c # cs" and "faults t = []" and "issuer_uniform (au_issuer (ay_auth st))"
    and "effect X c (ay_auth st) = Ret (None, cx, outs)"
  shows "\<exists>es l. thread_turn X st t = Ret (stepped st cx outs es cs, t\<lparr>live := l\<rparr>)"
  using thread_turn_command [OF assms] by (cases st) simp

lemma agrees_step:
  assumes "agrees X st a" and "ay_commands st = c # cs"
  shows "\<exists>cx outs. effect X c (ay_auth st) = Ret (None, cx, outs) \<and> (\<forall>es. agrees X (stepped st cx outs es cs) a)"
proof -
  note A = agreesD [OF assms(1)]
  from assms obtain outs where P: "pending X (ay_auth st) (c # cs) = Ret (au_context a, outs)" "au_output a = au_output (ay_auth st) @ outs"
    unfolding agrees_def by auto
  then obtain rep cx outs1 outs2 where 1: "effect X c (ay_auth st) = Ret (rep, cx, outs1)"
    "pending X ((ay_auth st)\<lparr>au_context := cx\<rparr>) cs = Ret (au_context a, outs2)" "outs = outs1 @ outs2"
    by (auto simp: obind_eq_Ret)
  have "rep = None" using silent_effect [OF _ 1(1)] A(3) assms(2) by simp
  moreover have "agrees X (stepped st cx outs1 es cs) a" for es
  proof -
    let ?b = "(ay_auth st)\<lparr>au_context := cx, au_output := au_output (ay_auth st) @ outs1, au_events := es\<rparr>"
    have "pending X ?b cs = Ret (au_context a, outs2)"
      using pending_cong [of ?b "(ay_auth st)\<lparr>au_context := cx\<rparr>" X cs] 1(2) by simp
    moreover have "au_output a = au_output ?b @ outs2" using P(2) 1(3) by simp
    ultimately show ?thesis
      using A assms unfolding agrees_def by (simp add: thread_runs_def)
  qed
  ultimately show ?thesis using 1(1) by blast
qed

lemma thread_turn_agrees:
  assumes "agrees X st a" and "faults t = []"
  shows "\<exists>st' l. thread_turn X st t = Ret (st', t\<lparr>live := l\<rparr>) \<and> agrees X st' a \<and> ay_commands st' = tl (ay_commands st)
    \<and> (\<exists>outs. au_output (ay_auth st') = au_output (ay_auth st) @ outs)"
proof (cases "ay_commands st")
  case Nil
  have "agrees X (st\<lparr>ay_loop := STARTED\<rparr>) a" using assms(1) by (simp add: agrees_def thread_runs_def)
  moreover have "thread_turn X st t = Ret (st\<lparr>ay_loop := STARTED\<rparr>, t\<lparr>live := live t\<rparr>)"
    using agreesD(1) [OF assms(1)] Nil by (simp add: thread_turn_def)
  ultimately show ?thesis
    using Nil by (intro exI [of _ "st\<lparr>ay_loop := STARTED\<rparr>"] exI [of _ "live t"]) simp
next
  case (Cons c cs)
  note A = agreesD [OF assms(1)]
  obtain cx outs where 1: "effect X c (ay_auth st) = Ret (None, cx, outs)" "\<forall>es. agrees X (stepped st cx outs es cs) a"
    using agrees_step [OF assms(1) Cons] by blast
  obtain es l where "thread_turn X st t = Ret (stepped st cx outs es cs, t\<lparr>live := l\<rparr>)"
    using thread_turn_silent [OF A(1) Cons assms(2) A(4) 1(1)] by blast
  with 1(2) Cons show ?thesis by auto
qed

text \<open>Waiting for the reply to the last command.\<close>

lemma await_reply_last:
  assumes "agrees X (st\<lparr>ay_commands := cs\<rparr>) a" and "ay_commands st = cs @ [c]" and "faults t = []"
    and "effect X c a = Ret (Some r, au_context a, [])" and "length cs < n"
  shows "\<exists>st' l. await_reply X n st t = Ret (0, Some r, st', t\<lparr>live := l\<rparr>) \<and> agrees X st' a"
  using assms
proof (induction cs arbitrary: st t n)
  case Nil
  note A = agreesD [OF Nil.prems(1), simplified]
  have a: "au_context (ay_auth st) = au_context a" "au_output (ay_auth st) = au_output a"
    using Nil.prems(1) by (auto simp: agrees_def)
  have e: "effect X c (ay_auth st) = Ret (Some r, au_context a, [])"
    using effect_cong [OF A(5) a(1), of X c] Nil.prems(4) by simp
  have run: "thread_runs st" using A(1) by (simp add: thread_runs_def)
  have cmd: "ay_commands st = c # []" using Nil.prems(2) by simp
  from thread_turn_command [OF run cmd Nil.prems(3) A(4) e] A(2) obtain es l where
    T: "thread_turn X st t = Ret (stepped st (au_context a) [] es []\<lparr>ay_replies := [r]\<rparr>, t\<lparr>live := l\<rparr>)" by auto
  obtain m where n: "n = Suc m" using Nil.prems(5) by (cases n) auto
  let ?st = "stepped st (au_context a) [] es []"
  have "await_reply X n st t = Ret (0, Some r, ?st\<lparr>ay_replies := []\<rparr>, t\<lparr>live := l - 1\<rparr>)"
    using T run A(2) cmd Nil.prems(3) unfolding n
    by (simp add: await_reply.simps [of X "Suc m" st t] await_reply.simps [of X m] os_call_def os_delete_def)
  moreover have "agrees X (?st\<lparr>ay_replies := []\<rparr>) a"
    using Nil.prems(1) a by (auto simp: agrees_def thread_runs_def)
  ultimately show ?case by blast
next
  case (Cons d cs)
  let ?st = "st\<lparr>ay_commands := d # cs\<rparr>"
  note A = agreesD [OF Cons.prems(1), simplified]
  have "ay_commands ?st = d # cs" by simp
  from agrees_step [OF Cons.prems(1) this] obtain cx outs where
    1: "effect X d (ay_auth st) = Ret (None, cx, outs)" "\<And>es. agrees X (stepped ?st cx outs es cs) a" by auto
  have run: "thread_runs st" using A(1) by (simp add: thread_runs_def)
  have cmd: "ay_commands st = d # (cs @ [c])" using Cons.prems(2) by simp
  from thread_turn_silent [OF run cmd Cons.prems(3) A(4) 1(1)] obtain es l where
    T: "thread_turn X st t = Ret (stepped st cx outs es (cs @ [c]), t\<lparr>live := l\<rparr>)" by blast
  obtain m where n: "n = Suc m" "length cs < m" using Cons.prems(5) by (cases n) auto
  have "agrees X ((stepped st cx outs es (cs @ [c]))\<lparr>ay_commands := cs\<rparr>) a" using 1(2) [of es] by simp
  from Cons.IH [OF this _ _ Cons.prems(4) n(2), of "t\<lparr>live := l\<rparr>"] Cons.prems(3) obtain st' k where
    "await_reply X m (stepped st cx outs es (cs @ [c])) (t\<lparr>live := l\<rparr>) = Ret (0, Some r, st', t\<lparr>live := k\<rparr>)" "agrees X st' a" by auto
  with T run A(2) cmd show ?case
    unfolding n(1) by (auto simp: await_reply.simps [of X "Suc m" st t])
qed


text \<open>Waiting for a result.\<close>

definition result_value :: "crypto_output option \<Rightarrow> int \<times> crypto_output option" where
  "result_value m = (case m of None \<Rightarrow> (- EINVAL, None) | Some out \<Rightarrow> (0, Some out))"

lemma GetResult_calm:
  assumes "faults t = []" and "au_activated a" and "au_output a = m # rest"
  shows "\<exists>l. GetResult a t = Ret (fst (result_value m), snd (result_value m), a\<lparr>au_output := rest\<rparr>, t\<lparr>live := l\<rparr>)"
  using assms by (cases m) (auto simp: GetResult_def os_call_def os_delete_def result_value_def)

lemma agrees_pop:
  assumes "agrees X st a" and "au_output (ay_auth st) = m # r" and "au_output a = m' # rest"
  shows "m = m'" and "agrees X (st\<lparr>ay_auth := (ay_auth st)\<lparr>au_output := r\<rparr>\<rparr>) (a\<lparr>au_output := rest\<rparr>)"
proof -
  from assms obtain outs where P: "pending X (ay_auth st) (ay_commands st) = Ret (au_context a, outs)" "m' # rest = (m # r) @ outs"
    unfolding agrees_def by auto
  have "pending X ((ay_auth st)\<lparr>au_output := r\<rparr>) (ay_commands st) = pending X (ay_auth st) (ay_commands st)"
    by (rule pending_cong) simp_all
  with P assms(1) show "m = m'" "agrees X (st\<lparr>ay_auth := (ay_auth st)\<lparr>au_output := r\<rparr>\<rparr>) (a\<lparr>au_output := rest\<rparr>)"
    unfolding agrees_def by (auto simp: thread_runs_def)
qed

lemma await_result_agrees:
  assumes "agrees X st a" and "au_activated a" and "au_output a = m # rest" and "faults t = []" and "length (ay_commands st) < n"
  shows "\<exists>st' l. await_result X n st t = Ret (fst (result_value m), snd (result_value m), st', t\<lparr>live := l\<rparr>)
    \<and> agrees X st' (a\<lparr>au_output := rest\<rparr>)"
  using assms
proof (induction n arbitrary: st t)
  case (Suc n)
  note A = agreesD [OF Suc.prems(1)]
  have act: "au_activated (ay_auth st)" using A(5) Suc.prems(2) by (simp add: same_setup_def)
  show ?case
  proof (cases "au_output (ay_auth st)")
    case (Cons k r)
    note P = agrees_pop [OF Suc.prems(1) Cons Suc.prems(3)]
    obtain l where "GetResult (ay_auth st) t = Ret (fst (result_value m), snd (result_value m), (ay_auth st)\<lparr>au_output := r\<rparr>, t\<lparr>live := l\<rparr>)"
      using GetResult_calm [OF Suc.prems(4) act Cons] P(1) by blast
    with Cons P(2) show ?thesis by (auto simp: await_result.simps)
  next
    case Nil
    from Suc.prems(1,3) Nil obtain c cs where cmd: "ay_commands st = c # cs"
      unfolding agrees_def by (cases "ay_commands st") auto
    obtain st1 l where 1: "thread_turn X st t = Ret (st1, t\<lparr>live := l\<rparr>)" "agrees X st1 a" "ay_commands st1 = cs"
      using thread_turn_agrees [OF Suc.prems(1,4)] cmd by auto
    have "faults (t\<lparr>live := l\<rparr>) = []" "length (ay_commands st1) < n" using Suc.prems(4,5) cmd 1(3) by simp_all
    from Suc.IH [OF 1(2) Suc.prems(2,3) this] 1(1) Nil act A(1) cmd show ?thesis
      by (auto simp: await_result.simps [of X "Suc n" st t])
  qed
qed simp

text \<open>Posting a command without a reply.\<close>

lemma agrees_post:
  assumes "agrees X st a" and "silent c" and "effect X c a = Ret (rep, cx, outs)"
  shows "agrees X (st\<lparr>ay_commands := ay_commands st @ [c]\<rparr>) (a\<lparr>au_context := cx, au_output := au_output a @ outs, au_events := es\<rparr>)"
proof -
  note A = agreesD [OF assms(1)]
  from assms(1) obtain outs0 where P: "pending X (ay_auth st) (ay_commands st) = Ret (au_context a, outs0)"
    "au_output a = au_output (ay_auth st) @ outs0" unfolding agrees_def by blast
  have "effect X c ((ay_auth st)\<lparr>au_context := au_context a\<rparr>) = effect X c a"
    by (rule effect_cong) (use A(5) in simp_all)
  with pending_append [OF P(1), of c] assms(3) have "pending X (ay_auth st) (ay_commands st @ [c]) = Ret (cx, outs0 @ outs)" by simp
  with A P(2) assms(1,2) show ?thesis
    unfolding agrees_def by (simp add: thread_runs_def)
qed

lemma post_command_calm:
  "faults t = [] \<Longrightarrow> post_command c st t = (0, st\<lparr>ay_commands := ay_commands st @ [c]\<rparr>, t\<lparr>live := live t + 1\<rparr>)"
  by (simp add: post_command_def send_message_calm)

text \<open>Posting a command and waiting for its reply.\<close>

lemma receive_agrees:
  assumes "agrees X st a" and "faults t = []" and "effect X c a = Ret (Some r, au_context a, [])"
  shows "\<exists>st' l. receive X (st\<lparr>ay_commands := ay_commands st @ [c]\<rparr>) (t\<lparr>live := k\<rparr>) = Ret (0, Some r, st', t\<lparr>live := l\<rparr>) \<and> agrees X st' a"
proof -
  let ?st = "st\<lparr>ay_commands := ay_commands st @ [c]\<rparr>"
  have 1: "agrees X (?st\<lparr>ay_commands := ay_commands st\<rparr>) a" "ay_commands ?st = ay_commands st @ [c]" using assms(1) by simp_all
  have 2: "faults (t\<lparr>live := k\<rparr>) = []" using assms(2) by simp
  show ?thesis
    unfolding receive_def using await_reply_last [OF 1 2 assms(3), of "Suc (length (ay_commands ?st))"] by simp
qed


section \<open>One call\<close>

text \<open>The state of the caller's system after a call, but for the number of live objects.\<close>

definition called :: "openssl \<Rightarrow> api_value \<Rightarrow> authenticator \<Rightarrow> os \<Rightarrow> (api_value \<times> auth_async \<times> os) outcome \<Rightarrow> bool" where
  "called X v a t q \<longleftrightarrow> (\<exists>st' l. q = Ret (v, st', t\<lparr>live := l\<rparr>) \<and> agrees X st' a)"

lemma calledI: "q = Ret (v, st', t\<lparr>live := l\<rparr>) \<Longrightarrow> agrees X st' a \<Longrightarrow> called X v a t q"
  by (auto simp: called_def)

lemma called_Ret: "agrees X st a \<Longrightarrow> called X v a t (Ret (v, st, t))"
  by (rule calledI [where l = "live t"]) simp_all

lemma prepare_called:
  assumes "agrees X st a" and "faults s = []" and "faults t = []" and "Prepare X a s = Ret (r, a', s')"
  shows "called X NoValue a' t (async_call X ApiPrepare st t) \<and> faults s' = []"
proof (cases "au_activated a")
  case False
  with assms show ?thesis
    using agreesD(5) [OF assms(1)] by (auto simp: Prepare_def Prepare_async_def same_setup_def intro: called_Ret)
next
  case True
  have act: "au_activated (ay_auth st)" using True agreesD(5) [OF assms(1)] by (simp add: same_setup_def)
  have I: "issuer_uniform (au_issuer a)" using assms(1) by (simp add: agrees_def)
  have R: "run_command X GENERATE a s = Ret (r, None, a', s')" using assms(4) True by (simp add: Prepare_def)
  with run_command_effect [OF assms(2) I, of X GENERATE] obtain ret es l where
    "obind (effect X GENERATE a) (\<lambda>(rep, cx, outs).
      Ret (ret, rep, a\<lparr>au_context := cx, au_output := au_output a @ outs, au_events := es\<rparr>, s\<lparr>live := l\<rparr>)) = Ret (r, None, a', s')"
    by metis
  then obtain rep cx outs where e: "effect X GENERATE a = Ret (rep, cx, outs)"
    "a' = a\<lparr>au_context := cx, au_output := au_output a @ outs, au_events := es\<rparr>" "s' = s\<lparr>live := l\<rparr>"
    unfolding obind_eq_Ret by auto
  have "agrees X (st\<lparr>ay_commands := ay_commands st @ [GENERATE]\<rparr>) a'"
    unfolding e(2) by (rule agrees_post [OF assms(1) _ e(1)]) simp
  with e(3) assms(2) show ?thesis
    by (auto simp: Prepare_async_def act post_command_calm [OF assms(3)] intro: calledI)
qed

lemma crypt_called:
  assumes "agrees X st a" and "faults s = []" and "faults t = []"
    and "(let ret = crypto_check op kid iv a in if ret < 0 then Ret (ret, a, s) else Crypto X op kid data iv a s) = Ret (r, a', s')"
  shows "called X NoValue a' t (let (_, st, s) = Crypt_async op kid data iv st t in Ret (NoValue, st, s)) \<and> faults s' = []"
proof -
  have check: "crypto_check op kid iv (ay_auth st) = crypto_check op kid iv a"
    using agreesD(5) [OF assms(1)] by (simp add: crypto_check_def same_setup_def)
  show ?thesis
  proof (cases "crypto_check op kid iv a < 0")
    case True
    with assms check show ?thesis by (auto simp: Crypt_async_def Let_def intro: called_Ret)
  next
    case False
    with Crypto_effect [OF assms(2), of X op kid data iv a] assms(4) obtain l where
      "obind (crypto_effect X op kid data iv a) (\<lambda>(ret, outs).
        Ret (ret, a\<lparr>au_output := au_output a @ outs\<rparr>, s\<lparr>live := l\<rparr>)) = Ret (r, a', s')" by (auto simp: Let_def)
    then obtain outs where e: "crypto_effect X op kid data iv a = Ret (r, outs)" "a' = a\<lparr>au_output := au_output a @ outs\<rparr>"
      "s' = s\<lparr>live := l\<rparr>" unfolding obind_eq_Ret by auto
    have "effect X (CRYPTO op kid data iv) a = Ret (None, au_context a, outs)" using e(1) by simp
    from agrees_post [OF assms(1) _ this, of "au_events a"] e(2)
    have "agrees X (st\<lparr>ay_commands := ay_commands st @ [CRYPTO op kid data iv]\<rparr>) a'" by simp
    with e(3) assms(2,3) False check show ?thesis
      by (auto simp: Crypt_async_def os_new_def post_command_calm intro: calledI)
  qed
qed

lemma result_called:
  assumes "agrees X st a" and "faults s = []" and "faults t = []" and "GetResult a s = Ret (ret, out, a', s')"
  shows "called X (ResultValue ret out) a' t (async_call X ApiGetResult st t) \<and> faults s' = []"
proof (cases "au_activated a")
  case False
  then have "\<not> au_activated (ay_auth st)" using agreesD(5) [OF assms(1)] by (simp add: same_setup_def)
  with False assms show ?thesis
    by (auto simp: GetResult_def GetResult_async_def await_result.simps [of X "Suc n" for n] intro: called_Ret)
next
  case True
  with assms(2,4) obtain m rest where out: "au_output a = m # rest"
    by (auto simp: GetResult_def os_call_def split: list.splits)
  obtain l where "GetResult a s = Ret (fst (result_value m), snd (result_value m), a\<lparr>au_output := rest\<rparr>, s\<lparr>live := l\<rparr>)"
    using GetResult_calm [OF assms(2) True out] ..
  moreover obtain st' k where "GetResult_async X st t = Ret (fst (result_value m), snd (result_value m), st', t\<lparr>live := k\<rparr>)"
    "agrees X st' (a\<lparr>au_output := rest\<rparr>)"
    unfolding GetResult_async_def using await_result_agrees [OF assms(1) True out assms(3) lessI] by blast
  ultimately show ?thesis using assms(2,4) by (auto intro: calledI)
qed

text \<open>The calls that post a command and wait for the reply.\<close>

lemma key_called:
  assumes "agrees X st a" and "faults s = []" and "faults t = []" and "GetKey X kid a s = Ret (r, s')"
  shows "called X (case_prod KeyValue (key_value r)) a t (async_call X (ApiGetKey kid) st t) \<and> faults s' = []"
proof -
  obtain l where "get_auth_key X (au_config a) (au_context a) kid s = obind (calm_value (get_auth_key X (au_config a) (au_context a) kid))
    (\<lambda>r. Ret (r, s\<lparr>live := l\<rparr>))" using uniform_value [OF uniform_get_auth_key assms(2)] ..
  with assms(4) have v: "calm_value (get_auth_key X (au_config a) (au_context a) kid) = Ret r" "s' = s\<lparr>live := l\<rparr>"
    by (auto simp: GetKey_def obind_eq_Ret)
  let ?rep = "KeyInfo (fst (key_value r)) (snd (key_value r))"
  have "effect X (GETKEY kid) a = Ret (Some ?rep, au_context a, [])"
    using v(1) by (cases r) (simp_all add: key_value_def)
  from receive_agrees [OF assms(1,3) this, of "live t + 1"] obtain st' l' where
    "receive X (st\<lparr>ay_commands := ay_commands st @ [GETKEY kid]\<rparr>) (t\<lparr>live := live t + 1\<rparr>) = Ret (0, Some ?rep, st', t\<lparr>live := l'\<rparr>)"
    "agrees X st' a" by auto
  with v(2) assms(2,3) show ?thesis
    by (auto simp: GetKey_async_def post_command_calm os_delete_def case_prod_unfold intro: calledI)
qed

lemma sign_called:
  assumes "agrees X st a" and "faults s = []" and "faults t = []" and "GenerateSignature X data a s = Ret (r, s')"
  shows "called X (case_prod SignValue (key_value r)) a t (async_call X (ApiSign data) st t) \<and> faults s' = []"
proof -
  obtain l where "GenerateSign X (au_context a) data s = obind (calm_value (GenerateSign X (au_context a) data))
    (\<lambda>r. Ret (r, s\<lparr>live := l\<rparr>))" using uniform_value [OF uniform_GenerateSign assms(2)] ..
  with assms(4) have v: "calm_value (GenerateSign X (au_context a) data) = Ret r" "s' = s\<lparr>live := l\<rparr>"
    by (auto simp: GenerateSignature_def obind_eq_Ret)
  let ?rep = "SignReply (fst (key_value r)) (snd (key_value r))"
  have "effect X (GENERATE_SIGN data) a = Ret (Some ?rep, au_context a, [])"
    using v(1) by (cases r) (simp_all add: key_value_def)
  from receive_agrees [OF assms(1,3) this, of "live t + 1 + 1"] obtain st' l' where
    "receive X (st\<lparr>ay_commands := ay_commands st @ [GENERATE_SIGN data]\<rparr>) (t\<lparr>live := live t + 1 + 1\<rparr>) = Ret (0, Some ?rep, st', t\<lparr>live := l'\<rparr>)"
    "agrees X st' a" by auto
  moreover have "(if fst (key_value r) = 0 then snd (key_value r) else None) = snd (key_value r)"
    by (cases r) (simp_all add: key_value_def)
  ultimately show ?thesis
    using v(2) assms(2,3)
    by (auto simp: GenerateSignature_async_def os_new_def post_command_calm os_delete_def case_prod_unfold intro: calledI)
qed

lemma verify_called:
  assumes "agrees X st a" and "faults s = []" and "faults t = []"
    and "VerifySignature X sig data a s = Ret ((ret, authentic), s')"
  shows "called X (VerifyValue ret (if ret = 0 then Some (authentic = Some True) else None)) a t (async_call X (ApiVerify sig data) st t)
    \<and> faults s' = []"
proof -
  obtain l where "VerifySign X (au_context a) sig data s = obind (calm_value (VerifySign X (au_context a) sig data))
    (\<lambda>r. Ret (r, s\<lparr>live := l\<rparr>))" using uniform_value [OF uniform_VerifySign assms(2)] ..
  with assms(4) have v: "calm_value (VerifySign X (au_context a) sig data) = Ret (ret, authentic)" "s' = s\<lparr>live := l\<rparr>"
    by (auto simp: VerifySignature_def obind_eq_Ret)
  let ?rep = "VerifyReply ret (authentic = Some True)"
  have "effect X (VERIFY_SIGN sig data) a = Ret (Some ?rep, au_context a, [])" using v(1) by simp
  from receive_agrees [OF assms(1,3) this, of "live t + 1 + 1"] obtain st' l' where
    "receive X (st\<lparr>ay_commands := ay_commands st @ [VERIFY_SIGN sig data]\<rparr>) (t\<lparr>live := live t + 1 + 1\<rparr>) = Ret (0, Some ?rep, st', t\<lparr>live := l'\<rparr>)"
    "agrees X st' a" by auto
  with v(2) assms(2,3) show ?thesis
    by (auto simp: VerifySignature_async_def os_new_def post_command_calm os_delete_def intro: calledI)
qed

lemma call_agrees:
  assumes "agrees X st a" and "faults s = []" and "faults t = []" and "sync_call X c a s = Ret (v, a', s')"
  shows "called X v a' t (async_call X c st t) \<and> faults s' = []"
proof (cases c)
  case ApiPrepare
  with assms(4) obtain r where "Prepare X a s = Ret (r, a', s')" "v = NoValue" by (auto simp: obind_eq_Ret)
  with prepare_called [OF assms(1-3)] ApiPrepare show ?thesis by simp
next
  case (ApiEncrypt kid data iv)
  with assms(4) obtain r where "Encrypt X kid data iv a s = Ret (r, a', s')" "v = NoValue" by (auto simp: obind_eq_Ret)
  with crypt_called [OF assms(1-3), of ENCRYPT kid iv data r a' s'] ApiEncrypt show ?thesis by (simp add: Encrypt_def)
next
  case (ApiDecrypt kid data iv)
  with assms(4) obtain r where "Decrypt X kid data iv a s = Ret (r, a', s')" "v = NoValue" by (auto simp: obind_eq_Ret)
  with crypt_called [OF assms(1-3), of DECRYPT kid iv data r a' s'] ApiDecrypt show ?thesis by (simp add: Decrypt_def)
next
  case ApiGetResult
  with assms(4) obtain ret out where "GetResult a s = Ret (ret, out, a', s')" "v = ResultValue ret out" by (auto simp: obind_eq_Ret)
  with result_called [OF assms(1-3)] ApiGetResult show ?thesis by simp
next
  case (ApiGetKey kid)
  with assms(4) obtain r where "GetKey X kid a s = Ret (r, s')" "a' = a" "v = case_prod KeyValue (key_value r)" by (auto simp: obind_eq_Ret)
  with key_called [OF assms(1-3)] ApiGetKey show ?thesis by simp
next
  case (ApiSign data)
  with assms(4) obtain r where "GenerateSignature X data a s = Ret (r, s')" "a' = a" "v = case_prod SignValue (key_value r)"
    by (auto simp: obind_eq_Ret)
  with sign_called [OF assms(1-3)] ApiSign show ?thesis by simp
next
  case (ApiVerify sig data)
  with assms(4) obtain ret authentic where "VerifySignature X sig data a s = Ret ((ret, authentic), s')" "a' = a"
    "v = VerifyValue ret (if ret = 0 then Some (authentic = Some True) else None)" by (auto simp: obind_eq_Ret)
  with verify_called [OF assms(1-3)] ApiVerify show ?thesis by simp
qed

section \<open>Any schedule\<close>

text \<open>An authenticator as it is created, with its loop and before any command.\<close>

definition created_auth :: "authenticator \<Rightarrow> auth_async" where
  "created_auth a = \<lparr>ay_auth = a, ay_loop = STOPPED, ay_thread = False, ay_handler = True, ay_commands = [], ay_replies = []\<rparr>"

lemma Activate_created:
  assumes "faults s = []"
  shows "Activate_async (created_auth a) s =
    (0, (created_auth (a\<lparr>au_activated := True\<rparr>))\<lparr>ay_loop := START_REQUESTED, ay_thread := True\<rparr>, s)"
  using assms by (simp add: Activate_async_def run_async_loop_def created_auth_def os_call_def)

lemma run_agrees:
  assumes "agrees X st a" and "faults s = []" and "faults t = []" and "sync_run X (calls_of steps) a s = Ret (vs, a', s')"
  shows "\<exists>st' l. async_run X steps st t = Ret (vs, st', t\<lparr>live := l\<rparr>) \<and> agrees X st' a'"
  using assms
proof (induction X steps st t arbitrary: a s vs rule: async_run.induct)
  case (1 X st t)
  then show ?case by (auto intro!: exI [of _ "live t"])
next
  case (2 X c steps st t)
  from "2.prems"(4) obtain v a1 s1 ws where 3: "sync_call X c a s = Ret (v, a1, s1)" "sync_run X (calls_of steps) a1 s1 = Ret (ws, a', s')"
    "vs = v # ws" by (auto simp: obind_eq_Ret)
  from call_agrees [OF "2.prems"(1-3) 3(1)] obtain st1 l where
    4: "async_call X c st t = Ret (v, st1, t\<lparr>live := l\<rparr>)" "agrees X st1 a1" "faults s1 = []" by (auto simp: called_def)
  have "faults (t\<lparr>live := l\<rparr>) = []" using "2.prems"(3) by simp
  from "2.IH" [OF 4(1) refl refl 4(2,3) this 3(2)] 3(3) 4(1) show ?case by auto
next
  case (3 X steps st t)
  obtain st1 l where 4: "thread_turn X st t = Ret (st1, t\<lparr>live := l\<rparr>)" "agrees X st1 a"
    using thread_turn_agrees [OF "3.prems"(1,3)] by blast
  have "faults (t\<lparr>live := l\<rparr>) = []" using "3.prems"(3) by simp
  from "3.IH" [OF 4(1) refl 4(2) "3.prems"(2) this] "3.prems"(4) 4(1) show ?case by auto
qed





text \<open>
  The activation of an asynchronous authenticator. Before it, asking for a key waits for ever, since the call does not look whether
  the authenticator is active. A second one fails, the loop runs already, and makes the authenticator count as inactive: it cannot be
  prepared or deactivated any more, while the thread goes on and still answers.
\<close>

theorem async_activation:
  assumes "faults s = []" and "thread_runs st"
  shows "GetKey_async X kid (created_auth a) s = Blocked
    \<and> (\<exists>st'. Activate_async st s = (- EINVAL, st', s) \<and> Prepare_async st' s = (- EILSEQ, st', s)
      \<and> Deactivate_async st' s = (- EILSEQ, st', s) \<and> thread_runs st' \<and> ay_commands st' = ay_commands st)"
proof
  show "GetKey_async X kid (created_auth a) s = Blocked"
    using assms(1) by (simp add: GetKey_async_def post_command_calm created_auth_def receive_def await_reply.simps [of X "Suc n" for n] thread_runs_def)
  show "\<exists>st'. Activate_async st s = (- EINVAL, st', s) \<and> Prepare_async st' s = (- EILSEQ, st', s)
    \<and> Deactivate_async st' s = (- EILSEQ, st', s) \<and> thread_runs st' \<and> ay_commands st' = ay_commands st"
    using assms(2) by (auto simp: Activate_async_def run_async_loop_def Prepare_async_def Deactivate_async_def thread_runs_def)
qed

lemma async_activation_witness:
  "\<exists>st st'. Activate_async (created_auth Authenticator_new) plain_os = (0, st, plain_os) \<and> Activate_async st plain_os = (- EINVAL, st', plain_os)
    \<and> Deactivate_async st' plain_os = (- EILSEQ, st', plain_os)"
proof -
  let ?st = "(created_auth (Authenticator_new\<lparr>au_activated := True\<rparr>))\<lparr>ay_loop := START_REQUESTED, ay_thread := True\<rparr>"
  have "faults plain_os = []" "thread_runs ?st" by (simp_all add: plain_os_def created_auth_def thread_runs_def)
  with Activate_created async_activation [of plain_os ?st] show ?thesis by blast
qed

end
