(* ===== verification/Auth_Life.thy ===== *)
theory Auth_Life
  imports Runtime_Async_Life Auth_Commands
begin

text \<open>
  \<^verbatim>\<open>libbeyond-authenticator_ssl/src/authenticator.cc\<close>, \<^verbatim>\<open>authenticator_event_object.cc\<close> and \<^verbatim>\<open>main.cc\<close>: how an
  authenticator is created, in both modes, and taken down. Keys and certificates do not matter here: neither \<open>Create\<close> nor
  \<open>Destroy\<close> touches them.
\<close>

section \<open>The event object\<close>

text \<open>
  \<^verbatim>\<open>fcntl(F_SETFD, fd, FD_CLOEXEC)\<close>: the first two arguments are in the wrong order, so that the number of the descriptor is a
  command for descriptor 2. \<open>accepts\<close> tells the commands that the system carries out there with the argument 1.
\<close>

definition swapped_fcntl :: "(int \<Rightarrow> bool) \<Rightarrow> int \<Rightarrow> os \<Rightarrow> int \<times> os" where
  "swapped_fcntl accepts fd s = (if accepts fd then os_call s else (- EINVAL, s))"

definition AuthEvent_Create :: "(int \<Rightarrow> bool) \<Rightarrow> os \<Rightarrow> event_pipe option \<times> os" where
  "AuthEvent_Create accepts s =
    (let (ret, s1, rd, wr) = os_pair s in
     if ret < 0 then (None, s1)
     else let (ret, s2) = swapped_fcntl accepts rd s1 in
     if ret < 0 then (None, close_fd wr (close_fd rd s2))
     else let (ret, s3) = swapped_fcntl accepts wr s2 in
     if ret < 0 then (None, close_fd wr (close_fd rd s3))
     else let (allocated, s4) = os_new s3 in
     if \<not> allocated then (None, close_fd wr (close_fd rd s4))
     else (Some \<lparr>ep_handle = rd, ep_publish = wr\<rparr>, s4))"

definition AuthEvent_Destroy :: "event_pipe \<Rightarrow> os \<Rightarrow> os" where
  "AuthEvent_Destroy p s = os_delete (close_fd (ep_publish p) (close_fd (ep_handle p) s))"

definition AuthEvent_Publish :: "evtype \<Rightarrow> ptr \<Rightarrow> published \<Rightarrow> int \<times> published" where
  "AuthEvent_Publish type data q =
    (let allocated = (pq_new q = [] \<or> hd (pq_new q)); q1 = q\<lparr>pq_new := tl (pq_new q)\<rparr> in
     if \<not> allocated then (- ENOMEM, q1)
     else if pq_fault q1 \<noteq> 0 then (- int (pq_fault q1), pq_step q1)
     else (0, (pq_step q1)\<lparr>pq_events := pq_events q1 @ [Some \<lparr>ed_type = type, ed_data = data\<rparr>]\<rparr>))"

text \<open>A read error, or a null pointer in the pipe, is an ERROR event.\<close>

definition auth_fetcher :: "(published \<times> 'u) event_fetcher" where
  "auth_fetcher type data s =
    (case s of (q, u) \<Rightarrow>
      let failed = pq_fault q \<noteq> 0;
          q1 = (if failed then pq_step q else (pq_step q)\<lparr>pq_events := tl (pq_events q)\<rparr>) in
      (case (if failed then None else hd (pq_events q)) of
        None \<Rightarrow>
          let q2 = q1\<lparr>pq_new := tl (pq_new q1)\<rparr> in
          if pq_new q1 \<noteq> [] \<and> \<not> hd (pq_new q1) then (RETURN_CANCEL, data, q2, u)
          else (RETURN_RENEW, Some \<lparr>ed_type = EVT_ERROR, ed_data = nullptr\<rparr>, q2, u)
      | Some ed \<Rightarrow> (RETURN_RENEW, Some (ed\<lparr>ed_type := ed_type ed OR type\<rparr>), q1, u)))"

definition AuthEvent_FetchEventData ::
    "(published \<times> 'u) event_handler \<Rightarrow> event_data option \<Rightarrow> event_object \<Rightarrow> published \<times> 'u \<Rightarrow>
     (int \<times> event_data option \<times> event_object \<times> published \<times> 'u) outcome" where
  "AuthEvent_FetchEventData cb data eo s = FetchEventData (Some auth_fetcher) cb (pipe_ready (fst s)) data eo s"

section \<open>Creating an authenticator\<close>

text \<open>The command objects are known by their descriptors; \<open>None\<close> is a null pointer.\<close>

record auth_life =
  li_eventObject :: "event_pipe option"
  li_eventLoop :: "event_loop option"
  li_handlerObject :: ptr
  li_command :: "int option"
  li_async_command :: "int option"
  li_outputConsumer :: "int option"
  li_outputProducer :: "int option"

definition auth_life_new :: auth_life where
  "auth_life_new = \<lparr>li_eventObject = None, li_eventLoop = None, li_handlerObject = nullptr, li_command = None,
    li_async_command = None, li_outputConsumer = None, li_outputProducer = None\<rparr>"

text \<open>The destructor: the command objects go with their owner, descriptors and everything behind a plain pointer stay.\<close>

definition auth_delete :: "auth_life \<Rightarrow> os \<Rightarrow> os" where
  "auth_delete a s =
    give_back (1 + held (li_command a) + held (li_async_command a) + held (li_outputConsumer a) + held (li_outputProducer a)) s"

text \<open>The pipe of results.\<close>

definition auth_outputs :: "os \<Rightarrow> (int \<times> int) option \<times> os" where
  "auth_outputs s =
    (let (ret, s1, rd, wr) = os_pair s in
     if ret < 0 then (None, auth_delete auth_life_new s1)
     else let (ret, s2) = os_call s1 in
     if ret < 0 then (None, auth_delete auth_life_new (close_all [rd, wr] s2))
     else let (ret, s3) = os_call s2 in
     if ret < 0 then (None, auth_delete auth_life_new (close_all [rd, wr] s3))
     else (Some (rd, wr), s3))"

text \<open>
  The end of a \<open>Create\<close> that fails once there is an event loop: the socket pair if there is one, the loop, the event object, the
  pipe of results, the object.
\<close>

definition auth_abandon ::
    "int list \<Rightarrow> int \<times> int \<Rightarrow> event_loop \<Rightarrow> event_pipe \<Rightarrow> auth_life \<Rightarrow> os \<Rightarrow> bool \<Rightarrow> (auth_life option \<times> os \<times> bool) outcome" where
  "auth_abandon sockets outs L event a s signalLoop =
    obind (EventLoop_Destroy L (close_all sockets s) signalLoop) (\<lambda>(_, s1, signalLoop).
      Ret (None, auth_delete a (close_all [fst outs, snd outs] (AuthEvent_Destroy event s1)), signalLoop))"

definition stop_handler :: nat where "stop_handler = 3"
definition command_handler :: nat where "command_handler = 4"

text \<open>The asynchronous half. A \<^verbatim>\<open>make_unique\<close> that throws is caught by nobody.\<close>

definition auth_async_parts ::
    "(int \<Rightarrow> bool) \<Rightarrow> int \<times> int \<Rightarrow> os \<Rightarrow> bool \<Rightarrow> (auth_life option \<times> os \<times> bool) outcome" where
  "auth_async_parts accepts outs s signalLoop =
    (case AuthEvent_Create accepts s of
      (None, s1) \<Rightarrow> Ret (None, auth_delete auth_life_new (close_all [fst outs, snd outs] s1), signalLoop)
    | (Some event, s1) \<Rightarrow>
        obind (EventLoop_Create True False s1 signalLoop) (\<lambda>(loop, s2, signalLoop).
          case loop of
            None \<Rightarrow> Ret (None, auth_delete auth_life_new (close_all [fst outs, snd outs] (AuthEvent_Destroy event s2)), signalLoop)
          | Some L \<Rightarrow>
              let (_, L, s3) = SetStopHandler (Some stop_handler) 5 L s2;
                  (ret, s4, c0, c1) = os_pair s3 in
              if ret < 0 then auth_abandon [] outs L event auth_life_new s4 signalLoop
              else let (ret, s5) = swapped_fcntl accepts c0 s4 in
              if ret < 0 then auth_abandon [c0, c1] outs L event auth_life_new s5 signalLoop
              else let (ret, s6) = swapped_fcntl accepts c1 s5 in
              if ret < 0 then auth_abandon [c0, c1] outs L event auth_life_new s6 signalLoop
              else let (allocated, s7) = os_new s6 in
              if \<not> allocated then Aborted
              else let (allocated, s8) = os_new s7 in
              if \<not> allocated then Aborted
              else
                let a = auth_life_new\<lparr>li_command := Some c0, li_async_command := Some c1\<rparr>;
                    (p, L, s9) = AddEventHandler 6 c1 (EVT_READ OR EVT_ERROR) (Some command_handler) 5 L s8 in
                if p = nullptr then auth_abandon [c0, c1] outs L event a s9 signalLoop
                else Ret (Some (a\<lparr>li_eventObject := Some event, li_eventLoop := Some L, li_handlerObject := p\<rparr>), s9, signalLoop)))"

definition Auth_Create :: "(int \<Rightarrow> bool) \<Rightarrow> bool \<Rightarrow> os \<Rightarrow> bool \<Rightarrow> (auth_life option \<times> os \<times> bool) outcome" where
  "Auth_Create accepts enableAsync s signalLoop =
    (let (allocated, s1) = os_new s in
     if \<not> allocated then Ret (None, s1, signalLoop)
     else case auth_outputs s1 of
       (None, s2) \<Rightarrow> Ret (None, s2, signalLoop)
     | (Some outs, s2) \<Rightarrow>
         obind (if enableAsync then auth_async_parts accepts outs s2 signalLoop else Ret (Some auth_life_new, s2, signalLoop))
           (\<lambda>(a, s3, signalLoop).
             case a of
               None \<Rightarrow> Ret (None, s3, signalLoop)
             | Some a \<Rightarrow>
                 let (allocated, s4) = os_new s3 in
                 if \<not> allocated then Aborted
                 else let (allocated, s5) = os_new s4 in
                 if \<not> allocated then Aborted
                 else Ret (Some (a\<lparr>li_outputConsumer := Some (fst outs), li_outputProducer := Some (snd outs)\<rparr>), s5, signalLoop)))"

text \<open>\<open>Destroy\<close>, once the thread of the loop has ended.\<close>

definition Auth_Destroy :: "auth_life \<Rightarrow> os \<Rightarrow> bool \<Rightarrow> (os \<times> bool) outcome" where
  "Auth_Destroy a s signalLoop =
    obind
      (case li_eventLoop a of
        None \<Rightarrow> Ret (s, signalLoop)
      | Some L \<Rightarrow>
          let (_, L, s1) = EventLoop_Stop L s in
          obind (EventLoop_Destroy L s1 signalLoop) (\<lambda>(_, s2, signalLoop).
            case (li_command a, li_async_command a) of
              (Some c0, Some c1) \<Rightarrow> Ret (close_all [c0, c1] s2, signalLoop)
            | _ \<Rightarrow> Undefined))
      (\<lambda>(s3, signalLoop).
        case (li_outputConsumer a, li_outputProducer a) of
          (Some rd, Some wr) \<Rightarrow> Ret (auth_delete a (close_all [rd, wr] s3), signalLoop)
        | _ \<Rightarrow> Undefined)"

section \<open>The interface of the event object\<close>

definition Auth_GetHandle :: "auth_life \<Rightarrow> int" where
  "Auth_GetHandle a = (case li_eventObject a of None \<Rightarrow> - ENOTSUP | Some p \<Rightarrow> ep_handle p)"

definition Auth_AddHandler :: "bool \<Rightarrow> nat \<Rightarrow> evtype \<Rightarrow> ptr \<Rightarrow> event_object option \<Rightarrow> int \<times> event_object option" where
  "Auth_AddHandler allocated h type data eo =
    (case eo of None \<Rightarrow> (- ENOTSUP, None) | Some e \<Rightarrow> apsnd Some (AddHandler allocated h type data e))"

definition Auth_RemoveHandler :: "nat \<Rightarrow> evtype \<Rightarrow> ptr \<Rightarrow> event_object option \<Rightarrow> int \<times> event_object option" where
  "Auth_RemoveHandler h type data eo =
    (case eo of None \<Rightarrow> (- ENOTSUP, None) | Some e \<Rightarrow> apsnd Some (RemoveHandler h type data e))"

definition Auth_FetchEventData ::
    "(published \<times> 'u) event_handler \<Rightarrow> event_data option \<Rightarrow> event_object option \<Rightarrow> published \<times> 'u \<Rightarrow>
     (int \<times> event_data option \<times> event_object option \<times> published \<times> 'u) outcome" where
  "Auth_FetchEventData cb data eo s =
    (case eo of
      None \<Rightarrow> Ret (- ENOTSUP, data, None, s)
    | Some e \<Rightarrow> obind (AuthEvent_FetchEventData cb data e s) (\<lambda>(ret, data, e, s). Ret (ret, data, Some e, s)))"

section \<open>The entry point\<close>

text \<open>
  The options of \<open>_main\<close>, as \<^verbatim>\<open>getopt_long\<close> reads them from a fresh start. The table of long options has no terminating entry, so a
  name that is in it is found, and the search for any other runs out of the table.
\<close>

fun auth_arguments :: "string list \<Rightarrow> bool \<Rightarrow> bool outcome" where
  "auth_arguments [] enableAsync = Ret enableAsync"
| "auth_arguments (arg # args) enableAsync =
    (if arg = ''--'' then Ret enableAsync
     else if take 2 arg = ''--'' then
       (let name = takeWhile (\<lambda>c. c \<noteq> CHR ''='') (drop 2 arg) in
        if name = ''help'' \<or> name = ''async'' then auth_arguments args (enableAsync \<or> drop 2 arg = ''async'')
        else Undefined)
     else if take 1 arg = ''-'' then auth_arguments args (enableAsync \<or> CHR ''a'' \<in> set (tl arg))
     else auth_arguments args enableAsync)"

definition auth_main :: "(int \<Rightarrow> bool) \<Rightarrow> string list \<Rightarrow> os \<Rightarrow> bool \<Rightarrow> (auth_life option \<times> os \<times> bool) outcome" where
  "auth_main accepts args s signalLoop =
    obind (auth_arguments args False) (\<lambda>enableAsync. Auth_Create accepts enableAsync s signalLoop)"


section \<open>What creating and destroying leave\<close>

lemma swapped_fcntlD:
  "swapped_fcntl accepts fd s = (r, s') \<Longrightarrow> os_wf s \<Longrightarrow> os_wf s' \<and> open_fds s' = open_fds s \<and> live s' = live s"
  using os_callD [of s r s'] by (auto simp: swapped_fcntl_def split: if_splits)

lemma AuthEvent_CreateD:
  assumes C: "AuthEvent_Create accepts s = (x, s')" and "os_wf s"
  shows "os_wf s' \<and>
    (case x of
      None \<Rightarrow> open_fds s' = open_fds s \<and> live s' = live s
    | Some q \<Rightarrow> open_fds s' = {ep_handle q, ep_publish q} \<union> open_fds s \<and> live s' = live s + 1
        \<and> {ep_handle q, ep_publish q} \<inter> open_fds s = {})"
proof -
  obtain r1 s1 rd wr where 1: "os_pair s = (r1, s1, rd, wr)" by (cases "os_pair s") auto
  note 1 = 1 os_pairD [OF 1 assms(2)]
  obtain r2 s2 where 2: "swapped_fcntl accepts rd s1 = (r2, s2)" by fastforce
  note 2 = 2 swapped_fcntlD [OF 2 conjunct1 [OF 1(2)]]
  obtain r3 s3 where 3: "swapped_fcntl accepts wr s2 = (r3, s3)" by fastforce
  note 3 = 3 swapped_fcntlD [OF 3 conjunct1 [OF 2(2)]]
  obtain b4 s4 where 4: "os_new s3 = (b4, s4)" by fastforce
  note 4 = 4 os_newD [OF 4 conjunct1 [OF 3(2)]]
  note C = C [unfolded AuthEvent_Create_def Let_def 1(1) 2(1) 3(1) 4(1) prod.case]
  show ?thesis
    using C 1(2) 2(2) 3(2) 4(2) by (cases "r1 < 0"; cases "r2 < 0"; cases "r3 < 0"; cases b4) auto
qed

lemma AuthEvent_Destroy_simps [simp]:
  "open_fds (AuthEvent_Destroy p s) = open_fds s - {ep_handle p, ep_publish p}"
  "live (AuthEvent_Destroy p s) = live s - 1" "os_wf s \<Longrightarrow> os_wf (AuthEvent_Destroy p s)"
  by (auto simp: AuthEvent_Destroy_def)

lemma auth_delete_simps [simp]:
  "open_fds (auth_delete a s) = open_fds s" "os_wf (auth_delete a s) = os_wf s"
  "live (auth_delete a s) = live s - 1 - int (held (li_command a)) - int (held (li_async_command a))
    - int (held (li_outputConsumer a)) - int (held (li_outputProducer a))"
  by (simp_all add: auth_delete_def give_back_update os_wf_def)

text \<open>A loop whose control handler is registered and that does not run.\<close>

definition control_loop :: "int \<Rightarrow> int \<Rightarrow> int \<Rightarrow> event_loop \<Rightarrow> bool" where
  "control_loop c n e L \<longleftrightarrow> el_spHandlerObject L = 1 \<and> el_heap L 1 = Some \<lparr>ho_object = 1, ho_fd = n,
      ho_type = EVT_READ OR EVT_ERROR, ho_data = 1, ho_handler = ctrl_handler, ho_cancel = None, ho_state = INIT, ho_in_use = False\<rparr>
    \<and> \<not> el_destructed L \<and> el_state L \<noteq> STARTED \<and> el_spfd L = (c, n) \<and> el_handle L = e \<and> 0 \<le> c \<and> 0 \<le> n \<and> 0 \<le> e"

lemma control_loop_Destroy:
  assumes "control_loop c n e L"
  shows "\<exists>s' sig'. EventLoop_Destroy L s sig = Ret (None, s', sig')
    \<and> live s' = live s - 3 \<and> open_fds s' = open_fds s - {c, n, e} \<and> (os_wf s \<longrightarrow> os_wf s')"
  using assms
  by (auto simp: control_loop_def EventLoop_Destroy_def StopLoop_def EventLoop_fail_def EventLoop_delete_def Let_def
      RemoveEventHandler_def RemoveHandlerObject_def epoll_ctl_del_def)

lemma control_loop_stop:
  assumes "control_loop c n e L"
  shows "\<exists>ret L'. EventLoop_Stop L s = (ret, L', s) \<and> control_loop c n e L'"
  using assms by (auto simp: control_loop_def EventLoop_Stop_def StopLoop_def Let_def)

lemma SetStopHandlerD:
  assumes "SetStopHandler (Some h) d L s = (ret, L', s')" and "os_wf s" and "el_stop L = None"
  shows "os_wf s' \<and> open_fds s' = open_fds s \<and> L' = L\<lparr>el_stop := el_stop L'\<rparr>
    \<and> live s' = live s + (if el_stop L' = None then 0 else 1)"
proof -
  obtain b s1 where "os_new s = (b, s1)" by fastforce
  with os_newD [OF this assms(2)] assms show ?thesis by (cases b) (auto simp: SetStopHandler_def)
qed


text \<open>The asynchronous half, from a state in which the pipe of results is open and the object allocated.\<close>

definition async_half :: "(int \<Rightarrow> bool) \<Rightarrow> os \<Rightarrow> auth_life \<Rightarrow> os \<Rightarrow> bool" where
  "async_half accepts s a s' \<longleftrightarrow> (\<exists>q L c n e c0 c1 new.
    a = \<lparr>li_eventObject = Some q, li_eventLoop = Some L, li_handlerObject = 2, li_command = Some c0,
      li_async_command = Some c1, li_outputConsumer = None, li_outputProducer = None\<rparr>
    \<and> control_loop c n e L \<and> new = {ep_handle q, ep_publish q, c, n, e, c0, c1}
    \<and> open_fds s' = new \<union> open_fds s \<and> new \<inter> open_fds s = {} \<and> {ep_handle q, ep_publish q} \<inter> {c, n, e, c0, c1} = {}
    \<and> accepts (ep_handle q) \<and> accepts (ep_publish q) \<and> (live s' = live s + 7 \<or> live s' = live s + 8) \<and> os_wf s')"

definition async_gone :: "int \<times> int \<Rightarrow> os \<Rightarrow> os \<Rightarrow> bool" where
  "async_gone outs s s' \<longleftrightarrow> open_fds s' = open_fds s - {fst outs, snd outs} \<and> (live s' = live s - 1 \<or> live s' = live s)"

lemma auth_abandon_gone:
  assumes "control_loop c n e L" and "open_fds s = set sockets \<union> {c, n, e} \<union> {ep_handle q, ep_publish q} \<union> open_fds s0"
    and "(set sockets \<union> {c, n, e} \<union> {ep_handle q, ep_publish q}) \<inter> open_fds s0 = {}"
    and "live s - int (held (li_command a)) - int (held (li_async_command a)) - live s0 \<in> {4, 5}"
    and "li_outputConsumer a = None" "li_outputProducer a = None"
  shows "\<exists>s' sig'. auth_abandon sockets outs L q a s sig = Ret (None, s', sig') \<and> async_gone outs s0 s'"
proof -
  obtain s1 sig1 where 1: "EventLoop_Destroy L (close_all sockets s) sig = Ret (None, s1, sig1)" "live s1 = live s - 3"
    "open_fds s1 = open_fds s - set sockets - {c, n, e}"
    using control_loop_Destroy [OF assms(1), of "close_all sockets s" sig] by auto
  let ?s = "auth_delete a (close_all [fst outs, snd outs] (AuthEvent_Destroy q s1))"
  have fds: "open_fds s1 - {ep_handle q, ep_publish q} = open_fds s0" using 1(3) assms(2,3) by blast
  have "async_gone outs s0 ?s"
    unfolding async_gone_def auth_delete_simps close_all_simps AuthEvent_Destroy_simps fds
    using 1(2) assms(4-6) by auto
  with 1(1) show ?thesis by (simp add: auth_abandon_def)
qed

lemma AuthEvent_Create_accepts:
  assumes C: "AuthEvent_Create accepts s = (Some q, s')"
  shows "accepts (ep_handle q) \<and> accepts (ep_publish q) \<and> ep_handle q = next_fd s \<and> ep_publish q = next_fd s + 1"
proof -
  obtain r1 s1 rd wr where 1: "os_pair s = (r1, s1, rd, wr)" by (cases "os_pair s") auto
  obtain r2 s2 where 2: "swapped_fcntl accepts rd s1 = (r2, s2)" by fastforce
  obtain r3 s3 where 3: "swapped_fcntl accepts wr s2 = (r3, s3)" by fastforce
  obtain b4 s4 where 4: "os_new s3 = (b4, s4)" by fastforce
  note C = C [unfolded AuthEvent_Create_def Let_def 1 2 3 4 prod.case]
  from C have "0 \<le> r1" "0 \<le> r2" "0 \<le> r3" "q = \<lparr>ep_handle = rd, ep_publish = wr\<rparr>" by (simp_all split: if_splits)
  with 1 2 3 show ?thesis by (simp add: os_pair_def swapped_fcntl_def EINVAL_def split: if_splits)
qed

text \<open>From the loop on.\<close>

definition async_cases :: "(int \<Rightarrow> bool) \<Rightarrow> int \<times> int \<Rightarrow> os \<Rightarrow> (auth_life option \<times> os \<times> bool) outcome \<Rightarrow> bool" where
  "async_cases accepts outs s r \<longleftrightarrow> (case r of
      Aborted \<Rightarrow> True
    | Ret (None, s', sig') \<Rightarrow> async_gone outs s s'
    | Ret (Some a, s', sig') \<Rightarrow> async_half accepts s a s'
    | _ \<Rightarrow> False)"

lemma async_cases_abandon:
  assumes "control_loop c n e L" and "open_fds s = set sockets \<union> {c, n, e} \<union> {ep_handle q, ep_publish q} \<union> open_fds s0"
    and "(set sockets \<union> {c, n, e} \<union> {ep_handle q, ep_publish q}) \<inter> open_fds s0 = {}"
    and "live s - int (held (li_command a)) - int (held (li_async_command a)) - live s0 \<in> {4, 5}"
    and "li_outputConsumer a = None" "li_outputProducer a = None"
  shows "async_cases accepts outs s0 (auth_abandon sockets outs L q a s sig)"
  using auth_abandon_gone [OF assms, of outs sig] by (auto simp: async_cases_def)

lemma async_commands_cases:
  assumes "os_wf s3" "control_loop c n e L" "el_next L = 2"
    and fds: "open_fds s3 = {c, n, e} \<union> {ep_handle q, ep_publish q} \<union> open_fds s0"
    and new: "({c, n, e} \<union> {ep_handle q, ep_publish q}) \<inter> open_fds s0 = {}" "{ep_handle q, ep_publish q} \<inter> {c, n, e} = {}"
    and "live s3 - live s0 \<in> {4, 5}" "accepts (ep_handle q)" "accepts (ep_publish q)"
  shows "async_cases accepts outs s0
      (let (ret, s4, c0, c1) = os_pair s3 in
       if ret < 0 then auth_abandon [] outs L q auth_life_new s4 sig
       else let (ret, s5) = swapped_fcntl accepts c0 s4 in
       if ret < 0 then auth_abandon [c0, c1] outs L q auth_life_new s5 sig
       else let (ret, s6) = swapped_fcntl accepts c1 s5 in
       if ret < 0 then auth_abandon [c0, c1] outs L q auth_life_new s6 sig
       else let (allocated, s7) = os_new s6 in
       if \<not> allocated then Aborted
       else let (allocated, s8) = os_new s7 in
       if \<not> allocated then Aborted
       else
         let a = auth_life_new\<lparr>li_command := Some c0, li_async_command := Some c1\<rparr>;
             (p, L, s9) = AddEventHandler 6 c1 (EVT_READ OR EVT_ERROR) (Some command_handler) 5 L s8 in
         if p = nullptr then auth_abandon [c0, c1] outs L q a s9 sig
         else Ret (Some (a\<lparr>li_eventObject := Some q, li_eventLoop := Some L, li_handlerObject := p\<rparr>), s9, sig))"
proof -
  obtain r4 s4 c0 c1 where 4: "os_pair s3 = (r4, s4, c0, c1)" by (cases "os_pair s3") auto
  note 4 = 4 os_pairD [OF 4 assms(1)]
  obtain r5 s5 where 5: "swapped_fcntl accepts c0 s4 = (r5, s5)" by fastforce
  note 5 = 5 swapped_fcntlD [OF 5 conjunct1 [OF 4(2)]]
  obtain r6 s6 where 6: "swapped_fcntl accepts c1 s5 = (r6, s6)" by fastforce
  note 6 = 6 swapped_fcntlD [OF 6 conjunct1 [OF 5(2)]]
  obtain b7 s7 where 7: "os_new s6 = (b7, s7)" by fastforce
  note 7 = 7 os_newD [OF 7 conjunct1 [OF 6(2)]]
  obtain b8 s8 where 8: "os_new s7 = (b8, s8)" by fastforce
  note 8 = 8 os_newD [OF 8 conjunct1 [OF 7(2)]]
  note U = Let_def 4(1) 5(1) 6(1) 7(1) 8(1) prod.case
  show ?thesis
  proof (cases "r4 < 0")
    case True
    with assms 4(2) show ?thesis
      unfolding U by simp (rule async_cases_abandon, auto simp: auth_life_new_def)
  next
    case r4: False
    with 4(2) have s4: "live s4 = live s3" "open_fds s4 = {c0, c1} \<union> open_fds s3" "{c0, c1} \<inter> open_fds s3 = {}" "0 \<le> c1" by auto
    have left: "async_cases accepts outs s0 (auth_abandon [c0, c1] outs L' q a s' sig)"
      if "open_fds s' = open_fds s4" "control_loop c n e L'" "li_outputConsumer a = None" "li_outputProducer a = None"
        "live s' - int (held (li_command a)) - int (held (li_async_command a)) = live s4" for s' L' a
      by (rule async_cases_abandon [OF that(2)]) (use that s4 fds new assms(7) in auto)
    show ?thesis
    proof (cases "r5 < 0 \<or> r6 < 0 \<or> \<not> b7 \<or> \<not> b8")
      case True
      have new: "li_command auth_life_new = None" "li_async_command auth_life_new = None"
        "li_outputConsumer auth_life_new = None" "li_outputProducer auth_life_new = None" by (simp_all add: auth_life_new_def)
      have 1: "async_cases accepts outs s0 (auth_abandon [c0, c1] outs L q auth_life_new s5 sig)"
        "async_cases accepts outs s0 (auth_abandon [c0, c1] outs L q auth_life_new s6 sig)"
        by (rule left; use 5(2) 6(2) assms(2) new in simp)+
      have "async_cases accepts outs s0 Aborted" by (simp add: async_cases_def)
      with True r4 1 show ?thesis
        unfolding U by (cases "r5 < 0"; cases "r6 < 0"; cases b7) simp_all
    next
      case ok: False
      have s8: "os_wf s8" "live s8 = live s4 + 2" "open_fds s8 = open_fds s4" using ok 5(2) 6(2) 7(2) 8(2) by auto
      show ?thesis
      proof (rule AddEventHandler_cases [OF s8(1) _ s4(4), of 6 "EVT_READ OR EVT_ERROR" L command_handler 5])
        fix s9 L' assume 9: "AddEventHandler 6 c1 (EVT_READ OR EVT_ERROR) (Some command_handler) 5 L s8 = (nullptr, L', s9)"
          "L' = L \<or> L' = L\<lparr>el_next := el_next L + 1\<rparr>" "live s9 = live s8" "open_fds s9 = open_fds s8"
        have "control_loop c n e L'" using 9(2) assms(2) by (auto simp: control_loop_def)
        with left [of s9 L' "auth_life_new\<lparr>li_command := Some c0, li_async_command := Some c1\<rparr>"] 9 s8 ok r4 show ?thesis
          unfolding U by (simp add: auth_life_new_def)
      next
        fix s9 L' assume 9: "AddEventHandler 6 c1 (EVT_READ OR EVT_ERROR) (Some command_handler) 5 L s8 = (el_next L, L', s9)"
          "L' = L\<lparr>el_next := el_next L + 1, el_interest := (el_interest L)(c1 \<mapsto> (el_next L, epoll_events (EVT_READ OR EVT_ERROR))),
            el_heap := (el_heap L)(el_next L \<mapsto> \<lparr>ho_object = 6, ho_fd = c1, ho_type = EVT_READ OR EVT_ERROR, ho_data = 5,
              ho_handler = command_handler, ho_cancel = None, ho_state = INIT, ho_in_use = False\<rparr>)\<rparr>"
          "os_wf s9" "live s9 = live s8 + 1" "open_fds s9 = open_fds s8"
        have L': "control_loop c n e L'" using 9(2) assms(2,3) by (simp add: control_loop_def)
        let ?a = "\<lparr>li_eventObject = Some q, li_eventLoop = Some L', li_handlerObject = 2, li_command = Some c0,
          li_async_command = Some c1, li_outputConsumer = None, li_outputProducer = None\<rparr>"
        let ?new = "{ep_handle q, ep_publish q, c, n, e, c0, c1}"
        have "open_fds s9 = ?new \<union> open_fds s0" unfolding 9(5) s8(3) s4(2) fds by blast
        moreover have "?new \<inter> open_fds s0 = {}" "{ep_handle q, ep_publish q} \<inter> {c, n, e, c0, c1} = {}"
          using s4(3) fds new by blast+
        moreover have "live s9 = live s0 + 7 \<or> live s9 = live s0 + 8" using 9(4) s8(2) s4(1) assms(7) by auto
        ultimately have "async_half accepts s0 ?a s9"
          unfolding async_half_def using L' 9(3) assms(8,9) by blast
        with 9(1) ok r4 assms(3) show ?thesis
          unfolding U by (simp add: auth_life_new_def async_cases_def)
      qed (use assms(3) in simp_all)
    qed
  qed
qed

lemma auth_async_parts_cases:
  assumes wf: "os_wf s"
  shows "async_cases accepts outs s (auth_async_parts accepts outs s sig)"
proof -
  obtain event s1 where E: "AuthEvent_Create accepts s = (event, s1)" by fastforce
  note E1 = AuthEvent_CreateD [OF E wf]
  show ?thesis
  proof (cases event)
    case None
    with E E1 show ?thesis by (auto simp: auth_async_parts_def async_cases_def async_gone_def auth_life_new_def)
  next
    case (Some q)
    have A: "accepts (ep_handle q)" "accepts (ep_publish q)" using AuthEvent_Create_accepts [OF E [unfolded Some]] by blast+
    from E1 Some have 1: "os_wf s1" "open_fds s1 = {ep_handle q, ep_publish q} \<union> open_fds s" "live s1 = live s + 1"
      "{ep_handle q, ep_publish q} \<inter> open_fds s = {}" by simp_all
    show ?thesis
    proof (rule EventLoop_Create_cases [OF 1(1), of True False sig])
      fix s2 sig2 assume 2: "EventLoop_Create True False s1 sig = Ret (None, s2, sig2)" "live s2 = live s1" "open_fds s2 = open_fds s1"
      have "open_fds s1 - {ep_handle q, ep_publish q} = open_fds s" using 1(2,4) by blast
      with E Some 1(3) 2 show ?thesis by (auto simp: auth_async_parts_def async_cases_def async_gone_def auth_life_new_def)
    next
      fix s2 sig2 c n e
      assume 2: "EventLoop_Create True False s1 sig = Ret (Some (fresh_loop True c n e), s2, sig2)" "os_wf s2"
        "live s2 = live s1 + 3" "open_fds s2 = {c, n, e} \<union> open_fds s1" "0 \<le> c" "0 \<le> n" "0 \<le> e" "{c, n, e} \<inter> open_fds s1 = {}"
      obtain r3 L s3 where 3: "SetStopHandler (Some stop_handler) 5 (fresh_loop True c n e) s2 = (r3, L, s3)"
        by (cases "SetStopHandler (Some stop_handler) 5 (fresh_loop True c n e) s2") auto
      have L0: "el_stop (fresh_loop True c n e) = None" by (simp add: fresh_loop_def EventLoop_new_def)
      note 3 = 3 SetStopHandlerD [OF 3 2(2) L0]
      then obtain z where z: "L = (fresh_loop True c n e)\<lparr>el_stop := z\<rparr>" by blast
      have L: "control_loop c n e L" "el_next L = 2"
        using 2(5-7) by (simp_all add: z control_loop_def fresh_loop_def EventLoop_new_def)
      have "os_wf s3" "open_fds s3 = {c, n, e} \<union> {ep_handle q, ep_publish q} \<union> open_fds s"
        "({c, n, e} \<union> {ep_handle q, ep_publish q}) \<inter> open_fds s = {}" "{ep_handle q, ep_publish q} \<inter> {c, n, e} = {}"
        "live s3 - live s \<in> {4, 5}" using 3(2) 1(2-4) 2(3,4,8) by auto
      from async_commands_cases [OF this(1) L this(2-5) A, of outs sig2]
      show ?thesis
        unfolding auth_async_parts_def E Some prod.case option.case 2(1) obind.simps 3(1) Let_def by simp
    qed
  qed
qed


lemma async_half_accepts:
  assumes "auth_async_parts accepts outs s sig = Ret (Some a, s', sig')"
  shows "accepts (next_fd s) \<and> accepts (next_fd s + 1)"
proof -
  obtain event s1 where E: "AuthEvent_Create accepts s = (event, s1)" by fastforce
  with assms obtain q where "event = Some q" by (cases event) (auto simp: auth_async_parts_def)
  with AuthEvent_Create_accepts E show ?thesis by metis
qed

text \<open>The pipe of results.\<close>

lemma auth_outputs_cases:
  assumes "os_wf s" and C: "auth_outputs s = (x, s')"
  shows "os_wf s' \<and> (case x of
      None \<Rightarrow> open_fds s' = open_fds s \<and> live s' = live s - 1
    | Some (rd, wr) \<Rightarrow> open_fds s' = {rd, wr} \<union> open_fds s \<and> {rd, wr} \<inter> open_fds s = {} \<and> live s' = live s
        \<and> next_fd s' = next_fd s + 2)"
proof -
  obtain r1 s1 rd wr where 1: "os_pair s = (r1, s1, rd, wr)" by (cases "os_pair s") auto
  note 1 = 1 os_pairD [OF 1 assms(1)]
  obtain r2 s2 where 2: "os_call s1 = (r2, s2)" by fastforce
  note 2 = 2 os_callD [OF 2 conjunct1 [OF 1(2)]]
  obtain r3 s3 where 3: "os_call s2 = (r3, s3)" by fastforce
  note 3 = 3 os_callD [OF 3 conjunct1 [OF 2(2)]]
  have "next_fd s3 = next_fd s + 2" if "0 \<le> r1"
    using that 1(1) 2(1) 3(1) by (auto simp: os_pair_def os_call_def split: if_splits)
  with C [unfolded auth_outputs_def Let_def 1(1) 2(1) 3(1) prod.case] 1(2) 2(2) 3(2) show ?thesis
    by (cases "r1 < 0"; cases "r2 < 0"; cases "r3 < 0") (auto simp: auth_life_new_def)
qed

text \<open>What \<open>Destroy\<close> leaves of an authenticator that is complete.\<close>

lemma Destroy_sync:
  assumes "os_wf s" and "open_fds s' = {rd, wr} \<union> open_fds s" and "{rd, wr} \<inter> open_fds s = {}" and "live s' = live s + 3"
  shows "\<exists>s'' sig'. Auth_Destroy (auth_life_new\<lparr>li_outputConsumer := Some rd, li_outputProducer := Some wr\<rparr>) s' sig = Ret (s'', sig')
    \<and> resources s'' = resources s"
  using assms by (auto simp: Auth_Destroy_def auth_life_new_def resources_def)

lemma Destroy_async:
  assumes "async_half accepts s2 a s3" and "open_fds s2 = {rd, wr} \<union> open_fds s" and "{rd, wr} \<inter> open_fds s = {}"
    and "live s2 = live s + 1" and "open_fds s4 = open_fds s3" and "live s4 = live s3 + 2"
  shows "\<exists>s'' sig' q. Auth_Destroy (a\<lparr>li_outputConsumer := Some rd, li_outputProducer := Some wr\<rparr>) s4 sig = Ret (s'', sig')
    \<and> li_eventObject a = Some q \<and> {ep_handle q, ep_publish q} \<inter> open_fds s = {}
    \<and> open_fds s'' = {ep_handle q, ep_publish q} \<union> open_fds s \<and> live s'' - live s \<in> {2, 3}"
proof -
  from assms(1) obtain q L c n e c0 c1 where 1:
    "a = \<lparr>li_eventObject = Some q, li_eventLoop = Some L, li_handlerObject = 2, li_command = Some c0,
      li_async_command = Some c1, li_outputConsumer = None, li_outputProducer = None\<rparr>"
    "control_loop c n e L" "open_fds s3 = {ep_handle q, ep_publish q, c, n, e, c0, c1} \<union> open_fds s2"
    "{ep_handle q, ep_publish q, c, n, e, c0, c1} \<inter> open_fds s2 = {}" "{ep_handle q, ep_publish q} \<inter> {c, n, e, c0, c1} = {}"
    "live s3 - live s2 \<in> {7, 8}" unfolding async_half_def by auto
  obtain ret L' where 2: "EventLoop_Stop L s4 = (ret, L', s4)" "control_loop c n e L'"
    using control_loop_stop [OF 1(2)] by blast
  obtain s5 sig5 where 3: "EventLoop_Destroy L' s4 sig = Ret (None, s5, sig5)" "live s5 = live s4 - 3"
    "open_fds s5 = open_fds s4 - {c, n, e}" using control_loop_Destroy [OF 2(2)] by blast
  let ?a = "a\<lparr>li_outputConsumer := Some rd, li_outputProducer := Some wr\<rparr>"
  let ?s = "auth_delete ?a (close_all [rd, wr] (close_all [c0, c1] s5))"
  have "Auth_Destroy ?a s4 sig = Ret (?s, sig5)"
    using 2(1) 3(1) by (simp add: Auth_Destroy_def 1(1))
  moreover have "open_fds ?s = {ep_handle q, ep_publish q} \<union> open_fds s" "{ep_handle q, ep_publish q} \<inter> open_fds s = {}"
    using 3(3) 1(3-5) assms(2,3,5) by auto
  moreover have "live ?s - live s \<in> {2, 3}" using 3(2) 1(1,6) assms(4,6) by auto
  ultimately show ?thesis using 1(1) by (intro exI [of _ ?s] exI [of _ sig5] exI [of _ q]) simp
qed


text \<open>When no call fails, no allocation does.\<close>

lemma EventLoop_Create_calm:
  assumes "faults s = []" and "0 \<le> next_fd s"
  shows "\<exists>L s'. EventLoop_Create True False s sig = Ret (Some L, s', sig) \<and> faults s' = []"
  using assms
  by (simp add: os_calm EventLoop_Create_def Let_def EventLoop_new_def AddEventHandler_def AddEventHandlerInternal_def
      epoll_ctl_add_def set_item_def)

lemma auth_abandon_returns: "auth_abandon sockets outs L q a s sig \<noteq> Aborted"
proof -
  have "EventLoop_Destroy L s sig \<noteq> Aborted" for s
    by (auto simp: EventLoop_Destroy_def EventLoop_fail_def EventLoop_delete_def RemoveEventHandler_def Let_def
        split: prod.splits option.splits)
  then show ?thesis
    unfolding auth_abandon_def by (cases "EventLoop_Destroy L (close_all sockets s) sig") (auto split: prod.splits)
qed

lemma swapped_fcntl_calm: "faults s = [] \<Longrightarrow> \<exists>r. swapped_fcntl accepts fd s = (r, s)"
  by (simp add: swapped_fcntl_def os_calm)

lemma AuthEvent_Create_calm:
  assumes "faults s = []" and "os_wf s"
  shows "\<exists>x s'. AuthEvent_Create accepts s = (x, s') \<and> os_wf s' \<and> (x \<noteq> None \<longrightarrow> faults s' = [])"
proof -
  obtain x s' where C: "AuthEvent_Create accepts s = (x, s')" by fastforce
  have "faults s' = []" if "x = Some q" for q
    using C assms(1) that by (auto simp: AuthEvent_Create_def swapped_fcntl_def os_calm Let_def split: if_splits)
  with C AuthEvent_CreateD [OF C assms(2)] show ?thesis by (cases x) auto
qed

definition calm_result :: "(auth_life option \<times> os \<times> bool) outcome \<Rightarrow> bool" where
  "calm_result r \<longleftrightarrow> (case r of Aborted \<Rightarrow> False | Ret (Some a, s', sig') \<Rightarrow> faults s' = [] | _ \<Rightarrow> True)"

lemma calm_result_abandon: "calm_result (auth_abandon sockets outs L q a s sig)"
  using auth_abandon_returns [of sockets outs L q a s sig]
  by (auto simp: calm_result_def auth_abandon_def obind_eq_Ret split: outcome.split option.split)

lemma AddEventHandler_calm:
  assumes "faults s = []"
  shows "\<exists>p L' s'. AddEventHandler obj fd type h d L s = (p, L', s') \<and> faults s' = []"
  using assms
  by (auto simp: AddEventHandler_def AddEventHandlerInternal_def epoll_ctl_add_def os_calm Let_def split: option.split)

lemma auth_async_parts_calm:
  assumes "faults s = []" and "os_wf s"
  shows "calm_result (auth_async_parts accepts outs s sig)"
proof -
  obtain event s1 where E: "AuthEvent_Create accepts s = (event, s1)" "os_wf s1" "event \<noteq> None \<longrightarrow> faults s1 = []"
    using AuthEvent_Create_calm [OF assms] by blast
  show ?thesis
  proof (cases event)
    case None
    with E(1) show ?thesis by (simp add: auth_async_parts_def calm_result_def)
  next
    case (Some q)
    with E(3) have 1: "faults s1 = []" by simp
    have "0 \<le> next_fd s1" using E(2) by (simp add: os_wf_def)
    from EventLoop_Create_calm [OF 1 this] obtain L s2 where 2: "EventLoop_Create True False s1 sig = Ret (Some L, s2, sig)" "faults s2 = []"
      by blast
    obtain r3 L3 s3 where 3: "SetStopHandler (Some stop_handler) 5 L s2 = (r3, L3, s3)" "faults s3 = []"
      using 2(2) by (auto simp: SetStopHandler_def os_calm)
    obtain r4 s4 c0 c1 where 4: "os_pair s3 = (r4, s4, c0, c1)" "faults s4 = []"
      using 3(2) by (simp add: os_calm)
    obtain r5 where 5: "swapped_fcntl accepts c0 s4 = (r5, s4)" using swapped_fcntl_calm [OF 4(2)] by blast
    obtain r6 where 6: "swapped_fcntl accepts c1 s4 = (r6, s4)" using swapped_fcntl_calm [OF 4(2)] by blast
    obtain s8 where 7: "os_new s4 = (True, s4\<lparr>live := live s4 + 1\<rparr>)" "os_new (s4\<lparr>live := live s4 + 1\<rparr>) = (True, s8)" "faults s8 = []"
      using 4(2) by (simp add: os_calm)
    obtain p L9 s9 where 9: "AddEventHandler 6 c1 (EVT_READ OR EVT_ERROR) (Some command_handler) 5 L3 s8 = (p, L9, s9)" "faults s9 = []"
      using AddEventHandler_calm [OF 7(3)] by blast
    show ?thesis
      unfolding auth_async_parts_def E(1) Some prod.case option.case 2(1) obind.simps 3(1) 4(1) 5 6 7(1,2) 9(1) Let_def
      by (auto simp: calm_result_abandon) (simp add: calm_result_def 9(2))
  qed
qed

lemma Create_calm:
  assumes "faults s = []" and "os_wf s"
  shows "Auth_Create accepts async s sig \<noteq> Aborted"
proof -
  let ?s = "s\<lparr>live := live s + 1\<rparr>"
  obtain outs s2 where 1: "auth_outputs ?s = (outs, s2)" by fastforce
  have "os_wf ?s" using assms(2) by (simp add: os_wf_def)
  with auth_outputs_cases [OF _ 1] have wf: "os_wf s2" by blast
  have 2: "faults s2 = []" if "outs \<noteq> None"
    using 1 assms(1) that by (auto simp: auth_outputs_def os_calm)
  have C: "Auth_Create accepts async s sig = (case outs of None \<Rightarrow> Ret (None, s2, sig)
     | Some outs \<Rightarrow> obind (if async then auth_async_parts accepts outs s2 sig else Ret (Some auth_life_new, s2, sig))
           (\<lambda>(a, s3, sig).
             case a of
               None \<Rightarrow> Ret (None, s3, sig)
             | Some a \<Rightarrow>
                 let (allocated, s4) = os_new s3 in
                 if \<not> allocated then Aborted
                 else let (allocated, s5) = os_new s4 in
                 if \<not> allocated then Aborted
                 else Ret (Some (a\<lparr>li_outputConsumer := Some (fst outs), li_outputProducer := Some (snd outs)\<rparr>), s5, sig)))"
    using 1 assms(1) by (simp add: Auth_Create_def os_calm)
  show ?thesis
  proof (cases outs)
    case (Some rw)
    have "calm_result (if async then auth_async_parts accepts rw s2 sig else Ret (Some auth_life_new, s2, sig))"
      using auth_async_parts_calm [OF 2 wf] 2 Some by (simp add: calm_result_def)
    then show ?thesis
      unfolding C Some
      by (cases "if async then auth_async_parts accepts rw s2 sig else Ret (Some auth_life_new, s2, sig)")
        (auto simp: calm_result_def os_calm split: option.splits)
  qed (simp add: C)
qed


definition life_ledger :: "(int \<Rightarrow> bool) \<Rightarrow> bool \<Rightarrow> os \<Rightarrow> auth_life \<Rightarrow> os \<Rightarrow> bool \<Rightarrow> bool" where
  "life_ledger accepts async s a s' sig' \<longleftrightarrow> (\<exists>s'' sig''. Auth_Destroy a s' sig' = Ret (s'', sig'')
    \<and> (if async
       then accepts (next_fd s + 2) \<and> accepts (next_fd s + 3) \<and> (\<exists>q. li_eventObject a = Some q
         \<and> {ep_handle q, ep_publish q} \<inter> open_fds s = {} \<and> open_fds s'' = {ep_handle q, ep_publish q} \<union> open_fds s)
         \<and> live s'' - live s \<in> {2, 3}
       else resources s'' = resources s))"

lemma os_new_next: "fst (os_new s) \<Longrightarrow> next_fd (snd (os_new s)) = next_fd s"
  by (auto simp: os_new_def)

lemma Create_cases:
  assumes wf: "os_wf s"
  shows "case Auth_Create accepts async s sig of
      Aborted \<Rightarrow> True
    | Ret (None, s', sig') \<Rightarrow> open_fds s' = open_fds s \<and> (live s' = live s \<or> async \<and> live s' = live s + 1)
    | Ret (Some a, s', sig') \<Rightarrow> life_ledger accepts async s a s' sig'
    | _ \<Rightarrow> False"
proof -
  obtain b s1 where 0: "os_new s = (b, s1)" by fastforce
  note 0 = 0 os_newD [OF 0 wf]
  obtain outs s2 where 1: "auth_outputs s1 = (outs, s2)" by fastforce
  note O = auth_outputs_cases [OF conjunct1 [OF 0(2)] 1]
  note C = Auth_Create_def Let_def 0(1) 1 prod.case
  show ?thesis
  proof (cases "b \<and> outs \<noteq> None")
    case False
    with 0(2) O show ?thesis unfolding C by (cases b; cases outs) simp_all
  next
    case True
    then obtain rd wr where outs: "b" "outs = Some (rd, wr)" by auto
    have next1: "next_fd s1 = next_fd s" using 0(1) outs(1) by (auto simp: os_new_def split: if_splits)
    have 2: "os_wf s2" "open_fds s2 = {rd, wr} \<union> open_fds s" "{rd, wr} \<inter> open_fds s = {}" "live s2 = live s + 1"
      "next_fd s2 = next_fd s + 2" using O outs 0(2) next1 by auto
    let ?half = "if async then auth_async_parts accepts (rd, wr) s2 sig else Ret (Some auth_life_new, s2, sig)"
    have half: "async_cases accepts (rd, wr) s2 ?half" if async using auth_async_parts_cases [OF 2(1)] that by simp
    have fds2: "open_fds s2 - {rd, wr} = open_fds s" using 2(2,3) by blast
    show ?thesis
    proof (cases ?half)
      case (Ret r)
      obtain x s3 sig3 where r: "r = (x, s3, sig3)" by (cases r)
      show ?thesis
      proof (cases x)
        case None
        then have async: async and "async_gone (rd, wr) s2 s3" using Ret r half by (auto simp: async_cases_def split: if_splits)
        then show ?thesis
          unfolding C using Ret r None outs fds2 2(4) by (simp add: async_gone_def)
      next
        case (Some a)
        obtain b4 s4 where 4: "os_new s3 = (b4, s4)" by fastforce
        obtain b5 s5 where 5: "os_new s4 = (b5, s5)" by fastforce
        let ?a = "a\<lparr>li_outputConsumer := Some rd, li_outputProducer := Some wr\<rparr>"
        have E: "Auth_Create accepts async s sig = (if b4 \<and> b5 then Ret (Some ?a, s5, sig3) else Aborted)"
          unfolding C using Ret r Some outs 4 5 by simp
        have "life_ledger accepts async s ?a s5 sig3" if "b4" "b5"
        proof (cases async)
          case True
          then have P: "auth_async_parts accepts (rd, wr) s2 sig = Ret (Some a, s3, sig3)" using Ret r Some by simp
          with half [OF True] True have H: "async_half accepts s2 a s3" by (simp add: async_cases_def)
          then have "os_wf s3" by (auto simp: async_half_def)
          with os_newD [OF 4] os_newD [OF 5] that have "open_fds s5 = open_fds s3" "live s5 = live s3 + 2" by auto
          from Destroy_async [OF H 2(2-4) this, of sig3] async_half_accepts [OF P] True show ?thesis
            by (auto simp: life_ledger_def 2(5) add.commute)
        next
          case False
          then have P: "a = auth_life_new" "s3 = s2" using Ret r Some by simp_all
          with os_newD [OF 4] os_newD [OF 5] that 2(1) have "open_fds s5 = open_fds s2" "live s5 = live s2 + 2" by auto
          then have "open_fds s5 = {rd, wr} \<union> open_fds s" "live s5 = live s + 3" using 2(2,4) by auto
          from Destroy_sync [OF wf this(1) 2(3) this(2), of sig3] False P show ?thesis by (simp add: life_ledger_def)
        qed
        then show ?thesis unfolding E by simp
      qed
    qed (use half outs in \<open>auto simp: C async_cases_def split: if_splits\<close>)
  qed
qed

text \<open>
  C38. The life of an authenticator, for every script of failing calls. \<open>Create\<close> returns, unless a command object cannot be
  allocated. When it fails no descriptor is left, and at most one object, the one of the stop handler. Destroying an authenticator
  right after its creation gives back everything if it works in the caller's thread; an asynchronous one leaves the two descriptors of its event
  object and two or three objects behind. And there is an asynchronous one only where the numbers of those descriptors
  happen to be commands that the system carries out.
\<close>

theorem authenticator_life:
  assumes "os_wf s"
  shows "case Auth_Create accepts async s sig of
      Aborted \<Rightarrow> faults s \<noteq> []
    | Ret (None, s', sig') \<Rightarrow> open_fds s' = open_fds s \<and> (live s' = live s \<or> async \<and> live s' = live s + 1)
    | Ret (Some a, s', sig') \<Rightarrow>
        \<exists>s'' sig''. Auth_Destroy a s' sig' = Ret (s'', sig'')
        \<and> (if async
           then accepts (next_fd s + 2) \<and> accepts (next_fd s + 3) \<and> (\<exists>q. li_eventObject a = Some q
             \<and> {ep_handle q, ep_publish q} \<inter> open_fds s = {} \<and> open_fds s'' = {ep_handle q, ep_publish q} \<union> open_fds s)
             \<and> live s'' - live s \<in> {2, 3}
           else resources s'' = resources s)
    | _ \<Rightarrow> False"
  using Create_cases [OF assms, where accepts = accepts and async = async and sig = sig]
    Create_calm [OF _ assms, where accepts = accepts and async = async and sig = sig]
  unfolding life_ledger_def [symmetric] by (auto split: outcome.splits option.splits)

text \<open>
  The commands of Linux on 64 bits that succeed on a terminal with the argument 1, among the small numbers: those that read or set flags and
  signals. The ones on locks take the argument for an address.
\<close>

definition linux_fcntl :: "int \<Rightarrow> bool" where
  "linux_fcntl cmd \<longleftrightarrow> cmd \<in> {1, 2, 3, 4, 8, 9, 10, 11}"

lemma authenticator_life_witness:
  "\<exists>s' sig'. auth_main linux_fcntl [''--async''] \<lparr>open_fds = {0, 1, 2}, next_fd = 3, live = 5, faults = []\<rparr> False = Ret (None, s', sig')
    \<and> open_fds s' = {0, 1, 2}"
proof -
  let ?s = "\<lparr>open_fds = {0, 1, 2}, next_fd = 3, live = 5, faults = []\<rparr>"
  have "os_wf ?s" by (simp add: os_wf_def)
  from authenticator_life [OF this, where accepts = linux_fcntl and async = True and sig = False] show ?thesis
    by (auto simp: auth_main_def linux_fcntl_def split: outcome.splits option.splits)
qed

end
