(* ===== verification/Server_Tensor.thy ===== *)
theory Server_Tensor
  imports Peer_Config Inference_Impl
begin

text \<open>
  \<^verbatim>\<open>libbeyond-peer_nn/src/peer_grpc_server_gst.cc\<close>, tensor information as text: a server passes the types and shapes of the
  tensors to the tensor filter of its pipeline as properties, and reads those of a model out of the properties of the filter. The
  library's tensors are NHWC and the filter's shapes are reversed. GStreamer's property texts are arguments here.
\<close>

section \<open>Numbers as text\<close>

definition digit :: "nat \<Rightarrow> char" where
  "digit n = char_of (48 + n)"

lemma digits_digit: "digits n = (if n < 10 then [digit n] else digits (n div 10) @ [digit (n mod 10)])"
  by (simp add: digits.simps [of n] digit_def)

definition digit_value :: "char \<Rightarrow> nat option" where
  "digit_value c = (let n = of_char c in if 48 \<le> n \<and> n \<le> 57 then Some (n - 48) else None)"

text \<open>\<^verbatim>\<open>%d\<close> of \<^verbatim>\<open>sscanf\<close>: white space, a sign, digits.\<close>

fun scan_digits :: "nat \<Rightarrow> string \<Rightarrow> nat \<times> string" where
  "scan_digits n [] = (n, [])"
| "scan_digits n (c # cs) = (case digit_value c of None \<Rightarrow> (n, c # cs) | Some d \<Rightarrow> scan_digits (10 * n + d) cs)"

definition scan_nat :: "string \<Rightarrow> (nat \<times> string) option" where
  "scan_nat s = (case s of [] \<Rightarrow> None | c # _ \<Rightarrow> if digit_value c = None then None else Some (scan_digits 0 s))"

definition is_space :: "char \<Rightarrow> bool" where
  "is_space c \<longleftrightarrow> c = CHR '' '' \<or> (9 \<le> (of_char c :: nat) \<and> (of_char c :: nat) \<le> 13)"

definition scan_int :: "string \<Rightarrow> (int \<times> string) option" where
  "scan_int s =
    (case dropWhile is_space s of
      [] \<Rightarrow> None
    | c # cs \<Rightarrow>
        if c = CHR ''-'' then map_option (\<lambda>(n, rest). (- int n, rest)) (scan_nat cs)
        else if c = CHR ''+'' then map_option (\<lambda>(n, rest). (int n, rest)) (scan_nat cs)
        else map_option (\<lambda>(n, rest). (int n, rest)) (scan_nat (c # cs)))"

text \<open>The numbers that \<^verbatim>\<open>sscanf\<close> converts for \<open>n\<close> conversions with colons between them.\<close>

fun scan_ints :: "nat \<Rightarrow> string \<Rightarrow> int list" where
  "scan_ints 0 s = []"
| "scan_ints (Suc n) s =
    (case scan_int s of
      None \<Rightarrow> []
    | Some (i, rest) \<Rightarrow> i # (case rest of [] \<Rightarrow> [] | c # cs \<Rightarrow> if c = CHR '':'' then scan_ints n cs else []))"

section \<open>Shapes\<close>

text \<open>The product of numbers of the C type \<^verbatim>\<open>int\<close>; an overflow is undefined.\<close>

definition INT_LIMIT :: int where "INT_LIMIT = 2147483648"

definition int_fits :: "int \<Rightarrow> bool" where
  "int_fits i \<longleftrightarrow> - INT_LIMIT \<le> i \<and> i < INT_LIMIT"

definition int_times :: "int \<Rightarrow> int \<Rightarrow> int outcome" where
  "int_times a b = (if int_fits (a * b) then Ret (a * b) else Undefined)"

fun int_product :: "int \<Rightarrow> int list \<Rightarrow> int outcome" where
  "int_product a [] = Ret a"
| "int_product a (b # bs) = obind (int_times a b) (\<lambda>c. int_product c bs)"

text \<open>
  The four parsers: the result, and the elements of \<open>values\<close> that are set. A number that is no \<^verbatim>\<open>int\<close> is undefined in
  \<^verbatim>\<open>sscanf\<close>. The parser of rank 4 has one more number in its text and sets the first element from it.
\<close>

definition parsed :: "int list \<Rightarrow> int list \<Rightarrow> (int \<times> int list) outcome" where
  "parsed factors values = obind (int_product (hd factors) (tl factors)) (\<lambda>p. Ret (p, values))"

definition sscanf_ints :: "nat \<Rightarrow> string \<Rightarrow> int list outcome" where
  "sscanf_ints n str = (let xs = scan_ints n str in if list_all int_fits xs then Ret xs else Undefined)"

definition DimsParser1 :: "string \<Rightarrow> (int \<times> int list) outcome" where
  "DimsParser1 str = obind (sscanf_ints 1 str) (\<lambda>xs. case xs of
      [v1] \<Rightarrow> parsed [v1] [1, v1]
    | _ \<Rightarrow> Ret (- EINVAL, []))"

definition DimsParser2 :: "string \<Rightarrow> (int \<times> int list) outcome" where
  "DimsParser2 str = obind (sscanf_ints 2 str) (\<lambda>xs. case xs of
      [v2, v1] \<Rightarrow> parsed [v1, v2] [1, v1, v2]
    | _ \<Rightarrow> Ret (- EINVAL, []))"

definition DimsParser3 :: "string \<Rightarrow> (int \<times> int list) outcome" where
  "DimsParser3 str = obind (sscanf_ints 3 str) (\<lambda>xs. case xs of
      [v3, v2, v1] \<Rightarrow> parsed [v1, v2, v3] [1, v1, v2, v3]
    | _ \<Rightarrow> Ret (- EINVAL, []))"

definition DimsParser4 :: "string \<Rightarrow> (int \<times> int list) outcome" where
  "DimsParser4 str = obind (sscanf_ints 4 str) (\<lambda>xs. case xs of
      [v3, v2, v1, v0] \<Rightarrow> parsed [v0, v1, v2, v3] [v0, v1, v2, v3]
    | _ \<Rightarrow> Ret (- EINVAL, []))"

text \<open>\<open>DIMS_PARSER\<close>: the table has four entries.\<close>

definition dims_parser :: "nat \<Rightarrow> string \<Rightarrow> (int \<times> int list) outcome" where
  "dims_parser rank str =
    (if rank = 1 then DimsParser1 str else if rank = 2 then DimsParser2 str else if rank = 3 then DimsParser3 str
     else if rank = 4 then DimsParser4 str else Undefined)"

section \<open>Types\<close>

text \<open>The enumerators; any other number is treated as the unsupported type.\<close>

definition tensor_type_code :: "beyond_tensor_type \<Rightarrow> int" where
  "tensor_type_code t = (case t of TENSOR_INT8 \<Rightarrow> 0x00 | TENSOR_INT16 \<Rightarrow> 0x01 | TENSOR_INT32 \<Rightarrow> 0x02 | TENSOR_INT64 \<Rightarrow> 0x04
    | TENSOR_UINT8 \<Rightarrow> 0x10 | TENSOR_UINT16 \<Rightarrow> 0x11 | TENSOR_UINT32 \<Rightarrow> 0x12 | TENSOR_UINT64 \<Rightarrow> 0x14
    | TENSOR_FLOAT16 \<Rightarrow> 0x21 | TENSOR_FLOAT32 \<Rightarrow> 0x22 | TENSOR_UNSUPPORTED \<Rightarrow> 0xff)"

definition tensor_type_of :: "int \<Rightarrow> beyond_tensor_type" where
  "tensor_type_of n =
    (case find (\<lambda>t. tensor_type_code t = n) [TENSOR_INT8, TENSOR_INT16, TENSOR_INT32, TENSOR_INT64, TENSOR_UINT8, TENSOR_UINT16,
      TENSOR_UINT32, TENSOR_UINT64, TENSOR_FLOAT16, TENSOR_FLOAT32] of None \<Rightarrow> TENSOR_UNSUPPORTED | Some t \<Rightarrow> t)"

section \<open>Writing the properties\<close>

fun join :: "char \<Rightarrow> string list \<Rightarrow> string" where
  "join c [] = []"
| "join c [s] = s"
| "join c (s # t # ts) = s @ c # join c (t # ts)"

text \<open>The shape of a tensor with one to four dimensions, filled up to four; of any other number of dimensions nothing is written.\<close>

definition dims_text :: "int list \<Rightarrow> string" where
  "dims_text dims =
    (case dims of
      [d0] \<Rightarrow> to_string d0 @ '':1:1:1''
    | [d0, d1] \<Rightarrow> to_string d1 @ '':'' @ to_string d0 @ '':1:1''
    | [d0, d1, d2] \<Rightarrow> to_string d2 @ '':'' @ to_string d1 @ '':'' @ to_string d0 @ '':1''
    | [d0, d1, d2, d3] \<Rightarrow> to_string d3 @ '':'' @ to_string d2 @ '':'' @ to_string d1 @ '':'' @ to_string d0
    | _ \<Rightarrow> [])"

definition types_property :: "tensor_info list \<Rightarrow> string" where
  "types_property info = join (CHR '','') (map (\<lambda>x. TensorTypeToString (tensor_type_of (ti_type x))) info)"

definition dims_property :: "tensor_info list \<Rightarrow> string" where
  "dims_property info = join (CHR '','') (map (\<lambda>x. dims_text (the (ti_dims x))) info)"

text \<open>A null pointer in \<open>dims\<close> is dereferenced.\<close>

definition TensorInfoToProperties :: "string \<Rightarrow> tensor_info list option \<Rightarrow> string outcome" where
  "TensorInfoToProperties type info =
    (case info of
      None \<Rightarrow> Ret []
    | Some info \<Rightarrow>
        if \<exists>x \<in> set info. ti_dims x = None then Undefined
        else Ret ('' '' @ type @ ''type='' @ types_property info @ '' '' @ type @ ''='' @ dims_property info))"

section \<open>Reading the properties of the filter\<close>

text \<open>The ranks: numbers with their digits from the lowest to the highest; a character that is neither a digit nor a comma ends the loop.\<close>

fun rank_loop :: "string \<Rightarrow> nat \<Rightarrow> nat \<Rightarrow> nat list \<Rightarrow> nat list" where
  "rank_loop [] rank mult ranks = ranks @ [rank]"
| "rank_loop (c # cs) rank mult ranks =
    (case digit_value c of
      Some d \<Rightarrow> rank_loop cs (rank + mult * d) (mult * 10) ranks
    | None \<Rightarrow> if c = CHR '','' then rank_loop cs 0 1 (ranks @ [rank]) else ranks)"

definition read_ranks :: "string option \<Rightarrow> nat list" where
  "read_ranks prop = (case prop of None \<Rightarrow> [] | Some [] \<Rightarrow> [] | Some s \<Rightarrow> rank_loop s 0 1 [])"

text \<open>The parts of a text between commas.\<close>

fun split_commas :: "string \<Rightarrow> string \<Rightarrow> string list" where
  "split_commas part [] = [part]"
| "split_commas part (c # cs) = (if c = CHR '','' then part # split_commas [] cs else split_commas (part @ [c]) cs)"

text \<open>
  The array of the tensor information. A rank or a shape that is missing is read behind the end of its vector. \<open>junk\<close> is the number that
  the fifth dimension of a tensor of rank 4 has: nothing sets it. The error of a shape with a negative product is the product.
\<close>

fun extract_infos ::
    "int \<Rightarrow> nat list \<Rightarrow> beyond_tensor_type list \<Rightarrow> string list \<Rightarrow> tensor_info list \<Rightarrow> os \<Rightarrow> (int \<times> tensor_info list option \<times> os) outcome" where
  "extract_infos junk ranks [] shapes infos s = Ret (0, Some infos, s)"
| "extract_infos junk ranks (t # ts) shapes infos s =
    (let i = length infos in
     if ranks \<noteq> [] \<and> length ranks \<le> i then Undefined
     else
       let rank = (if ranks = [] then 3 else ranks ! i);
           (ok, s1) = os_new s in
       if \<not> ok then Ret (- ENOMEM, None, snd (snd (FreeTensorInfo (Some infos) i s1)))
       else if length shapes \<le> i then Undefined
       else obind (dims_parser rank (shapes ! i)) (\<lambda>(ret, values).
         if ret < 0 then Ret (ret, None, snd (snd (FreeTensorInfo (Some infos) i (os_delete s1))))
         else obind (int_times (TensorTypeToSize t) ret) (\<lambda>bytes.
           extract_infos junk ranks ts shapes
             (infos @ [\<lparr>ti_type = tensor_type_code t, ti_size = bytes, ti_name = None,
               ti_dims = Some (values @ replicate (rank + 1 - length values) junk)\<rparr>]) s1)))"

definition ExtractTensorInfo ::
    "int \<Rightarrow> string option \<Rightarrow> string option \<Rightarrow> string option \<Rightarrow> os \<Rightarrow> (int \<times> tensor_info list option \<times> os) outcome" where
  "ExtractTensorInfo junk ranks types dims s =
    (case types of
      Some (c # cs) \<Rightarrow>
        (case dims of
          Some (d # ds) \<Rightarrow>
            let (ok, s1) = os_new s in
            if \<not> ok then Ret (- ENOMEM, None, s1)
            else extract_infos junk (read_ranks ranks) (map TensorTypeStringToType (split_commas [] (c # cs)))
              (split_commas [] (d # ds)) [] s1
        | _ \<Rightarrow> Ret (- EFAULT, None, s))
    | _ \<Rightarrow> Ret (- EFAULT, None, s))"

section \<open>Properties\<close>

lemma digit_value_digit [simp]: "n < 10 \<Longrightarrow> digit_value (digit n) = Some n"
  by (simp add: digit_value_def digit_def of_char_of Let_def)

text \<open>The characters that end a number and a part of a property.\<close>

lemma digit_value_separators [simp]: "digit_value (CHR '':'') = None" "digit_value (CHR '','') = None" "digit_value (CHR ''-'') = None"
  by (simp_all add: digit_value_def Let_def)

definition ends_number :: "string \<Rightarrow> bool" where
  "ends_number s \<longleftrightarrow> (case s of [] \<Rightarrow> True | c # _ \<Rightarrow> digit_value c = None)"

lemma ends_number_simps [simp]: "ends_number []" "ends_number (c # s) \<longleftrightarrow> digit_value c = None"
  by (simp_all add: ends_number_def)

lemma scan_digits_end: "ends_number s \<Longrightarrow> scan_digits n s = (n, s)"
  by (cases s) simp_all

lemma scan_digits_show: "\<exists>k. \<forall>m. scan_digits m (digits n @ s) = scan_digits (m * 10 ^ k + n) s"
proof (induction n arbitrary: s rule: digits.induct)
  case (1 n)
  show ?case
  proof (cases "n < 10")
    case True
    then show ?thesis by (intro exI [of _ 1]) (simp add: digits_digit [of n] mult.commute)
  next
    case False
    then obtain k where k: "\<And>m. scan_digits m (digits (n div 10) @ digit (n mod 10) # s)
        = scan_digits (m * 10 ^ k + n div 10) (digit (n mod 10) # s)"
      using 1 [of "digit (n mod 10) # s"] by auto
    have "10 * (m * 10 ^ k + n div 10) + n mod 10 = m * 10 ^ Suc k + n" for m :: nat by simp
    with False k show ?thesis by (intro exI [of _ "Suc k"]) (simp add: digits_digit [of n] algebra_simps)
  qed
qed

lemma digits_Cons: "\<exists>d cs. digits n = digit d # cs \<and> d < 10"
proof (induction n rule: digits.induct)
  case (1 n)
  then show ?case by (cases "n < 10") (auto simp: digits_digit [of n])
qed

lemma scan_digits_number:
  assumes "ends_number s"
  shows "scan_digits 0 (digits n @ s) = (n, s)"
proof -
  obtain k where "\<And>m. scan_digits m (digits n @ s) = scan_digits (m * 10 ^ k + n) s" using scan_digits_show [of n s] by blast
  with scan_digits_end [OF assms] show ?thesis by simp
qed

lemma digits_not_Nil [simp]: "digits n \<noteq> []"
  using digits_Cons [of n] by auto

lemma scan_nat_show: "ends_number s \<Longrightarrow> scan_nat (digits n @ s) = Some (n, s)"
  using digits_Cons [of n] scan_digits_number [of s n] by (auto simp: scan_nat_def simp del: scan_digits.simps)

lemma digit_not_space: "d < 10 \<Longrightarrow> \<not> is_space (digit d) \<and> digit d \<noteq> CHR ''-'' \<and> digit d \<noteq> CHR ''+''"
proof -
  assume d: "d < 10"
  have o: "(of_char (digit d) :: nat) = 48 + d" using d by (simp add: digit_def of_char_of)
  have n: "digit d \<noteq> c" if "(of_char c :: nat) < 48" for c using o that by auto
  show ?thesis by (simp add: is_space_def o n)
qed

lemma scan_int_show:
  assumes "0 \<le> i" and "ends_number s"
  shows "scan_int (to_string i @ s) = Some (i, s)"
proof -
  obtain d cs where c: "digits (nat i) = digit d # cs" "d < 10" using digits_Cons by blast
  with digit_not_space [OF c(2)] scan_nat_show [OF assms(2), of "nat i"] assms(1) show ?thesis
    by (simp add: scan_int_def to_string_def)
qed

lemma scan_ints_colon: "0 \<le> i \<Longrightarrow> scan_ints (Suc n) (to_string i @ CHR '':'' # s) = i # scan_ints n s"
  by (simp add: scan_int_show)

lemma scan_ints_last: "0 \<le> i \<Longrightarrow> ends_number s \<Longrightarrow> scan_ints (Suc 0) (to_string i @ s) = [i]"
  using scan_int_show [of i s] by (cases s) simp_all

lemma prod_list_positive: "list_all (\<lambda>d. 0 < d) bs \<Longrightarrow> 0 < (prod_list bs :: int)"
  by (induction bs) simp_all

lemma int_product_fits:
  assumes "0 < a" and "list_all (\<lambda>d. 0 < d) bs" and "int_fits (a * prod_list bs)"
  shows "int_product a bs = Ret (a * prod_list bs)"
  using assms
proof (induction bs arbitrary: a)
  case (Cons b bs)
  have p: "0 < prod_list bs" using Cons.prems(2) by (simp add: prod_list_positive)
  have "0 < a * b" using Cons.prems by simp
  moreover from this p have "a * b \<le> a * b * prod_list bs"
    by (metis int_one_le_iff_zero_less less_le mult_cancel_left1 mult_le_cancel_left_pos)
  ultimately have "int_fits (a * b)" using Cons.prems(3) by (simp add: int_fits_def mult.assoc)
  with Cons.IH [of "a * b"] Cons.prems \<open>0 < a * b\<close> show ?case by (simp add: int_times_def mult.assoc)
qed simp

lemma prod_list_bound:
  assumes "list_all (\<lambda>d. 0 < d) bs" and "b \<in> set bs"
  shows "0 < prod_list bs \<and> b \<le> (prod_list bs :: int)"
  using assms
proof (induction bs)
  case (Cons a bs)
  have p: "0 < prod_list bs" using Cons.prems(1) by (simp add: prod_list_positive)
  have a: "0 < a" using Cons.prems(1) by simp
  have "b \<le> a * prod_list bs"
  proof (cases "b = a")
    case True
    with a p show ?thesis by (metis int_one_le_iff_zero_less mult.right_neutral mult_left_mono less_le)
  next
    case False
    with Cons have "b \<le> prod_list bs" by simp
    also have "\<dots> \<le> a * prod_list bs" using a p by (metis int_one_le_iff_zero_less mult.left_neutral mult_right_mono less_le)
    finally show ?thesis .
  qed
  with a p show ?case by simp
qed simp

lemma fits_elements:
  assumes "list_all (\<lambda>d. 0 < d) bs" and "int_fits (prod_list bs)"
  shows "list_all int_fits bs"
  using assms prod_list_bound [OF assms(1)] by (fastforce simp: list_all_iff int_fits_def INT_LIMIT_def)

lemma dims_parser_text:
  assumes "2 \<le> length ds" and "length ds \<le> 4" and "0 \<le> hd ds" and "list_all (\<lambda>d. 0 < d) (tl ds)" and "int_fits (prod_list (tl ds))"
  shows "dims_parser (length ds - 1) (dims_text ds) = Ret (prod_list (tl ds), 1 # tl ds)"
proof -
  note f = fits_elements [OF assms(4,5)]
  consider (two) d0 d1 where "ds = [d0, d1]" | (three) d0 d1 d2 where "ds = [d0, d1, d2]"
    | (four) d0 d1 d2 d3 where "ds = [d0, d1, d2, d3]"
    using assms(1,2) by (auto simp: numeral_eq_Suc le_Suc_eq length_Suc_conv)
  then show ?thesis
  proof cases
    case two
    have "scan_ints (Suc 0) (to_string d1 @ CHR '':'' # to_string d0 @ '':1:1'') = [d1]"
      using two assms(4) by (intro scan_ints_last) simp_all
    with two f show ?thesis
      by (simp add: dims_parser_def DimsParser1_def sscanf_ints_def dims_text_def parsed_def del: scan_ints.simps)
  next
    case three
    have "scan_ints (Suc (Suc 0)) (to_string d2 @ CHR '':'' # to_string d1 @ CHR '':'' # to_string d0 @ '':1'') = [d2, d1]"
      using three assms(4) by (simp add: scan_ints_colon scan_ints_last scan_ints_last [where s = "[]", simplified] del: scan_ints.simps(2))
    with three f int_product_fits [of d1 "[d2]"] assms(4,5) show ?thesis
      by (simp add: dims_parser_def DimsParser2_def sscanf_ints_def dims_text_def parsed_def numeral_2_eq_2 del: scan_ints.simps)
  next
    case four
    have "scan_ints (Suc (Suc (Suc 0))) (to_string d3 @ CHR '':'' # to_string d2 @ CHR '':'' # to_string d1 @ CHR '':'' # to_string d0) = [d3, d2, d1]"
      using four assms(4) by (simp add: scan_ints_colon scan_ints_last scan_ints_last [where s = "[]", simplified] del: scan_ints.simps(2))
    with four f int_product_fits [of d1 "[d2, d3]"] assms(4,5) show ?thesis
      by (simp add: dims_parser_def DimsParser3_def sscanf_ints_def dims_text_def parsed_def numeral_3_eq_3 del: scan_ints.simps)
  qed
qed

section \<open>Lists between commas\<close>

lemma split_commas_part: "CHR '','' \<notin> set s \<Longrightarrow> split_commas part (s @ t) = split_commas (part @ s) t"
  by (induction s arbitrary: part) auto

lemma split_commas_join:
  assumes "list_all (\<lambda>s. CHR '','' \<notin> set s) ss" and "ss \<noteq> []"
  shows "split_commas [] (join (CHR '','') ss) = ss"
  using assms
proof (induction "CHR '',''" ss rule: join.induct)
  case (2 s)
  then show ?case using split_commas_part [of s "[]" "[]"] by simp
next
  case (3 s t ts)
  then show ?case using split_commas_part [of s "[]" "CHR '','' # join (CHR '','') (t # ts)"] by simp
qed simp

lemma digit_not_comma: "d < 10 \<Longrightarrow> digit d \<noteq> CHR '',''"
  using digit_value_digit digit_value_separators(2) by fastforce

lemma digits_no_comma: "CHR '','' \<notin> set (digits n)"
proof (induction n rule: digits.induct)
  case (1 n)
  have "digit (n mod 10) \<noteq> CHR '',''" by (simp add: digit_not_comma)
  with 1 digit_not_comma [of n] show ?case by (cases "n < 10") (auto simp: digits_digit [of n])
qed

lemma to_string_no_comma: "CHR '','' \<notin> set (to_string i)"
  by (simp add: to_string_def digits_no_comma)

lemma dims_text_no_comma: "CHR '','' \<notin> set (dims_text ds)"
  by (simp add: dims_text_def to_string_no_comma split: list.split)

lemma type_name_no_comma: "CHR '','' \<notin> set (TensorTypeToString t)"
  by (cases t) simp_all

lemma type_name_not_Nil: "[] \<noteq> TensorTypeToString t"
  by (cases t) simp_all

lemma join_not_empty: "ss \<noteq> [] \<Longrightarrow> hd ss \<noteq> [] \<Longrightarrow> join c ss \<noteq> []"
  by (cases "(c, ss)" rule: join.cases) simp_all

section \<open>The round trip\<close>

text \<open>
  A tensor the properties can carry: of two to four dimensions, a type with a name that is known, and a size that is an \<^verbatim>\<open>int\<close>.
  What comes back has no name and the batch size 1.
\<close>

definition carried :: "tensor_info \<Rightarrow> bool" where
  "carried x \<longleftrightarrow> (case ti_dims x of None \<Rightarrow> False | Some ds \<Rightarrow>
     2 \<le> length ds \<and> length ds \<le> 4 \<and> 0 \<le> hd ds \<and> list_all (\<lambda>d. 0 < d) (tl ds)
     \<and> int_fits (TensorTypeToSize (tensor_type_of (ti_type x)) * prod_list (tl ds))
     \<and> tensor_type_of (ti_type x) \<noteq> TENSOR_UNSUPPORTED \<and> tensor_type_of (ti_type x) \<noteq> TENSOR_UINT64)"

definition of_batch_one :: "tensor_info \<Rightarrow> tensor_info" where
  "of_batch_one x = \<lparr>ti_type = ti_type x,
     ti_size = TensorTypeToSize (tensor_type_of (ti_type x)) * prod_list (tl (the (ti_dims x))),
     ti_name = None, ti_dims = Some (1 # tl (the (ti_dims x)))\<rparr>"

definition rank_of :: "tensor_info \<Rightarrow> nat" where
  "rank_of x = length (the (ti_dims x)) - 1"

lemma tensor_type_of_code: "tensor_type_of n \<noteq> TENSOR_UNSUPPORTED \<Longrightarrow> tensor_type_code (tensor_type_of n) = n"
  by (auto simp: tensor_type_of_def tensor_type_code_def split: if_splits)

lemma type_name_read:
  "t \<noteq> TENSOR_UINT64 \<Longrightarrow> TensorTypeStringToType (TensorTypeToString t) = t"
  by (cases t) (simp_all add: TensorTypeStringToType_def)

lemma carried_parsed:
  assumes "carried x"
  shows "dims_parser (rank_of x) (dims_text (the (ti_dims x))) = Ret (prod_list (tl (the (ti_dims x))), 1 # tl (the (ti_dims x)))"
    and "0 < prod_list (tl (the (ti_dims x)))"
proof -
  let ?ds = "the (ti_dims x)" and ?t = "tensor_type_of (ti_type x)"
  have c: "2 \<le> length ?ds" "length ?ds \<le> 4" "0 \<le> hd ?ds" "list_all (\<lambda>d. 0 < d) (tl ?ds)"
    "int_fits (TensorTypeToSize ?t * prod_list (tl ?ds))" "?t \<noteq> TENSOR_UNSUPPORTED"
    using assms by (auto simp: carried_def split: option.splits)
  show p: "0 < prod_list (tl ?ds)" using c(4) by (rule prod_list_positive)
  have "1 \<le> TensorTypeToSize ?t" using c(6) by (cases ?t) simp_all
  with p have "prod_list (tl ?ds) \<le> TensorTypeToSize ?t * prod_list (tl ?ds)" by simp
  with c(5) p have "int_fits (prod_list (tl ?ds))" unfolding int_fits_def INT_LIMIT_def by linarith
  with dims_parser_text [OF c(1-4)] show "dims_parser (rank_of x) (dims_text ?ds) = Ret (prod_list (tl ?ds), 1 # tl ?ds)"
    by (simp add: rank_of_def)
qed

lemma carried_rank: "carried x \<Longrightarrow> rank_of x < 10"
  by (auto simp: carried_def rank_of_def split: option.splits)

lemma carried_text:
  assumes "carried x"
  shows "[] \<noteq> dims_text (the (ti_dims x))"
proof
  assume n: "[] = dims_text (the (ti_dims x))"
  have "rank_of x = 1 \<or> rank_of x = 2 \<or> rank_of x = 3"
    using assms by (auto simp: carried_def rank_of_def split: option.splits)
  then show False
    using carried_parsed(1) [OF assms] n
    by (auto simp: dims_parser_def DimsParser1_def DimsParser2_def DimsParser3_def sscanf_ints_def scan_int_def numeral_2_eq_2 numeral_3_eq_3)
qed

lemma read_infos:
  assumes "list_all carried (infos @ xs)"
  shows "\<exists>ret r s'. extract_infos junk (map rank_of (infos @ xs)) (map (\<lambda>x. tensor_type_of (ti_type x)) xs)
      (map (\<lambda>x. dims_text (the (ti_dims x))) (infos @ xs)) (map of_batch_one infos) s = Ret (ret, r, s') \<and>
    open_fds s' = open_fds s \<and>
    (ret = 0 \<and> r = Some (map of_batch_one (infos @ xs)) \<and> live s' = live s + int (length xs)
     \<or> ret = - ENOMEM \<and> r = None \<and> live s' = live s - int (length infos) - (if infos = [] \<and> \<not> fst (os_new s) then 0 else 1))"
  using assms
proof (induction xs arbitrary: infos s)
  case (Cons x xs)
  have c: "carried x" using Cons.prems by simp
  obtain ds where ds: "ti_dims x = Some ds" using c by (auto simp: carried_def split: option.splits)
  have fits: "int_fits (TensorTypeToSize (tensor_type_of (ti_type x)) * prod_list (tl ds))"
    and code: "tensor_type_code (tensor_type_of (ti_type x)) = ti_type x" and len: "2 \<le> length ds"
    using c ds tensor_type_of_code by (simp_all add: carried_def)
  obtain ok s1 where 1: "os_new s = (ok, s1)" by fastforce
  note r = os_new_resources [OF 1]
  have b: "info_blocks (map of_batch_one infos) = int (length infos)"
    by (induction infos) (simp_all add: of_batch_one_def block_def)
  show ?case
  proof (cases ok)
    case True
    have len': "rank_of x + 1 - length (1 # tl ds) = 0" using len ds by (simp add: rank_of_def)
    have "extract_infos junk (map rank_of (infos @ x # xs)) (map (\<lambda>x. tensor_type_of (ti_type x)) (x # xs))
        (map (\<lambda>x. dims_text (the (ti_dims x))) (infos @ x # xs)) (map of_batch_one infos) s =
      extract_infos junk (map rank_of ((infos @ [x]) @ xs)) (map (\<lambda>x. tensor_type_of (ti_type x)) xs)
        (map (\<lambda>x. dims_text (the (ti_dims x))) ((infos @ [x]) @ xs)) (map of_batch_one (infos @ [x])) s1"
      using True 1 carried_parsed [OF c] ds fits code len'
      by (simp add: nth_append int_times_def of_batch_one_def)
    moreover have "list_all carried ((infos @ [x]) @ xs)" using Cons.prems by simp
    from Cons.IH [OF this, of s1] obtain ret r' s' where
      "extract_infos junk (map rank_of ((infos @ [x]) @ xs)) (map (\<lambda>x. tensor_type_of (ti_type x)) xs)
        (map (\<lambda>x. dims_text (the (ti_dims x))) ((infos @ [x]) @ xs)) (map of_batch_one (infos @ [x])) s1 = Ret (ret, r', s')"
      "open_fds s' = open_fds s1"
      "ret = 0 \<and> r' = Some (map of_batch_one ((infos @ [x]) @ xs)) \<and> live s' = live s1 + int (length xs)
       \<or> ret = - ENOMEM \<and> r' = None \<and> live s' = live s1 - int (length (infos @ [x])) - 1" by auto
    ultimately show ?thesis using True r 1 by (auto simp del: extract_infos.simps)
  next
    case False
    with 1 r b show ?thesis by (cases "infos = []") (simp_all add: FreeTensorInfo_def)
  qed
qed simp

lemma rank_digits: "list_all (\<lambda>n. n < 10) ns \<Longrightarrow> ns \<noteq> [] \<Longrightarrow>
  rank_loop (join (CHR '','') (map digits ns)) 0 1 ranks = ranks @ ns"
proof (induction ns arbitrary: ranks)
  case (Cons n ns)
  then show ?case by (cases ns) (simp_all add: digits_digit)
qed simp


lemma read_ranks_loop: "s \<noteq> [] \<Longrightarrow> read_ranks (Some s) = rank_loop s 0 1 []"
  by (auto simp: read_ranks_def neq_Nil_conv simp del: rank_loop.simps)

text \<open>
  C15. Tensor information survives the pipeline. What \<open>TensorInfoToProperties\<close> writes for tensors of two to four dimensions with
  known types is read by \<open>ExtractTensorInfo\<close>, when the filter reports the ranks, as an array with the same types, the same
  dimensions after the first and the sizes in bytes; the first dimension, the batch size, always comes back as 1 and the names are
  lost. When memory runs out nothing is read, and of the allocations at most the array is left.
\<close>

theorem tensor_properties_round_trip:
  assumes "list_all carried infos" and "infos \<noteq> []"
  shows "TensorInfoToProperties ty (Some infos) =
      Ret ('' '' @ ty @ ''type='' @ types_property infos @ '' '' @ ty @ ''='' @ dims_property infos) \<and>
    (\<exists>ret r s'. ExtractTensorInfo junk (Some (join (CHR '','') (map (\<lambda>x. digits (rank_of x)) infos)))
        (Some (types_property infos)) (Some (dims_property infos)) s = Ret (ret, r, s') \<and> open_fds s' = open_fds s \<and>
      (ret = 0 \<and> r = Some (map of_batch_one infos) \<and> live s' = live s + 1 + int (length infos)
       \<or> ret = - ENOMEM \<and> r = None \<and> live s \<le> live s' \<and> live s' \<le> live s + 1))"
proof -
  have dims: "\<forall>x \<in> set infos. ti_dims x \<noteq> None" using assms(1) by (auto simp: list_all_iff carried_def split: option.splits)
  have "list_all (\<lambda>n. n < 10) (map rank_of infos)"
    using assms(1) by (simp add: list_all_iff carried_rank)
  then have "rank_loop (join (CHR '','') (map digits (map rank_of infos))) 0 1 [] = map rank_of infos"
    using rank_digits [of "map rank_of infos" "[]"] assms(2) by simp
  moreover have "join (CHR '','') (map digits (map rank_of infos)) \<noteq> []"
    using assms(2) by (intro join_not_empty) (simp_all add: hd_map)
  ultimately have ranks: "read_ranks (Some (join (CHR '','') (map (\<lambda>x. digits (rank_of x)) infos))) = map rank_of infos"
    by (simp add: read_ranks_loop comp_def)
  have types: "split_commas [] (types_property infos) = map (\<lambda>x. TensorTypeToString (tensor_type_of (ti_type x))) infos"
    unfolding types_property_def using assms(2) by (intro split_commas_join) (auto simp: list_all_iff type_name_no_comma)
  have shapes: "split_commas [] (dims_property infos) = map (\<lambda>x. dims_text (the (ti_dims x))) infos"
    unfolding dims_property_def using assms(2) by (intro split_commas_join) (auto simp: list_all_iff dims_text_no_comma)
  have read: "map TensorTypeStringToType (map (\<lambda>x. TensorTypeToString (tensor_type_of (ti_type x))) infos)
      = map (\<lambda>x. tensor_type_of (ti_type x)) infos"
    using assms(1) by (auto simp: list_all_iff carried_def type_name_read split: option.splits)
  obtain c cs where t: "types_property infos = c # cs"
    using types assms(2) by (cases "types_property infos") (auto simp: type_name_not_Nil)
  obtain d ds where d: "dims_property infos = d # ds"
    using shapes assms(2) carried_text by (cases "dims_property infos") (use assms(1) in auto)
  obtain ok s1 where 1: "os_new s = (ok, s1)" by fastforce
  note r = os_new_resources [OF 1]
  show ?thesis
  proof (cases ok)
    case True
    have "ExtractTensorInfo junk (Some (join (CHR '','') (map (\<lambda>x. digits (rank_of x)) infos)))
        (Some (types_property infos)) (Some (dims_property infos)) s =
      extract_infos junk (map rank_of infos) (map (\<lambda>x. tensor_type_of (ti_type x)) infos)
        (map (\<lambda>x. dims_text (the (ti_dims x))) infos) [] s1"
      using 1 True ranks types shapes read
      by (simp add: ExtractTensorInfo_def t d del: map_map split_commas.simps map_eq_conv)
    with read_infos [of "[]" infos junk s1] assms r True dims show ?thesis
      by (auto simp: TensorInfoToProperties_def)
  next
    case False
    with 1 r dims show ?thesis by (auto simp: ExtractTensorInfo_def t d TensorInfoToProperties_def)
  qed
qed

lemma tensor_properties_round_trip_witness:
  "\<exists>s'. ExtractTensorInfo 7 (Some ''3'') (Some ''uint8'') (Some ''3:224:224:2'')
      \<lparr>open_fds = {}, next_fd = 0, live = 0, faults = []\<rparr> =
    Ret (0, Some [\<lparr>ti_type = 0x10, ti_size = 150528, ti_name = None, ti_dims = Some [1, 224, 224, 3]\<rparr>], s')"
proof -
  let ?x = "\<lparr>ti_type = 0x10, ti_size = 0, ti_name = Some ''in'', ti_dims = Some [2, 224, 224, 3]\<rparr>"
  let ?s = "\<lparr>open_fds = {}, next_fd = 0, live = 0, faults = []\<rparr>"
  have t: "tensor_type_of 16 = TENSOR_UINT8" by (simp add: tensor_type_of_def tensor_type_code_def)
  have c: "list_all carried [?x]" by (simp add: carried_def t int_fits_def INT_LIMIT_def)
  have p: "types_property [?x] = ''uint8''" "dims_property [?x] = ''3:224:224:2''"
    "digits (rank_of ?x) = ''3''"
    by (simp_all add: types_property_def dims_property_def dims_text_def t to_string_def digits_digit digit_def char_of_def rank_of_def bit_Suc_0_iff bit_0)
  have ok: "\<exists>r s'. ExtractTensorInfo 7 (Some ''3'') (Some ''uint8'') (Some ''3:224:224:2'') ?s = Ret (0, r, s')"
    by (simp add: ExtractTensorInfo_def read_ranks_def digit_value_def os_new_def pop_def TensorTypeStringToType_def dims_parser_def
      DimsParser3_def sscanf_ints_def scan_int_def is_space_def scan_nat_def numeral_3_eq_3 parsed_def int_times_def int_fits_def
      INT_LIMIT_def)
  show ?thesis
    using tensor_properties_round_trip [OF c, where ty = "''input''" and junk = 7 and s = ?s] ok
    by (auto simp: p of_batch_one_def t errno_defs)
qed

end
