(* ===== verification/Server_Gst.thy ===== *)
theory Server_Gst
  imports Server_Tensor
begin

text \<open>
  \<^verbatim>\<open>libbeyond-peer_nn/src/peer_grpc_server_gst.cc\<close>: the pipeline a server runs for one client. Each has a thread with a GLib
  loop; the caller and the thread exchange commands through a pair of sockets, and the caller waits for the answer, so that a
  preparation is one sequence of steps in two threads. GStreamer itself (what becomes of a pipeline description, the ports, the
  properties of the filter) is a parameter. Objects of GLib and GStreamer count as live objects like blocks of the heap; an event source
  belongs to the context it is attached to and does not count of its own.
\<close>

section \<open>GStreamer\<close>

text \<open>
  What launching a description gives: whether there is an error, a pipeline, its bus, a watch for it and the three elements that are
  looked up by their names, whether it can be set to playing, and then the values of the elements' properties.
\<close>

record launched =
  la_error :: bool
  la_pipeline :: bool
  la_bus :: bool
  la_watch :: bool
  la_elements :: bool
  la_playing :: bool
  la_source_port :: "string \<Rightarrow> int"
  la_sink_port :: "string \<Rightarrow> int"
  la_filter :: "string \<Rightarrow> string option"

text \<open>With it the two things the C++ code leaves to the machine: whether \<^verbatim>\<open>char\<close> is signed, and what unset memory holds.\<close>

record 'e gstreamer =
  gs_launch :: "string \<Rightarrow> 'e \<Rightarrow> launched \<times> 'e"
  gs_signed_char :: bool
  gs_junk :: int

section \<open>State\<close>

text \<open>The payload is not set before the input is configured, the nonce not before keys are exchanged.\<close>

record rtp_config =
  rt_depayloader :: string
  rt_encodingName :: string
  rt_payload :: "int option"

text \<open>
  \<open>sg_watching\<close> says that the thread's loop still takes commands; \<open>sg_lost\<close> counts what no code gives back:
  references to objects of GStreamer, and commands the thread does not take.
\<close>

record server_gst =
  sg_peerId :: string
  sg_framework :: string
  sg_accel :: string
  sg_preprocessing :: string
  sg_postprocessing :: string
  sg_secretKey :: string
  sg_rtp :: rtp_config
  sg_nonce :: "64 word option"
  sg_model :: peer_model
  sg_fds :: "int \<times> int"
  sg_watching :: bool
  sg_lost :: nat

definition Gst_new :: "string \<Rightarrow> int \<times> int \<Rightarrow> server_gst" where
  "Gst_new peerId fds = \<lparr>sg_peerId = peerId, sg_framework = ''tensorflow-lite'', sg_accel = [], sg_preprocessing = [],
    sg_postprocessing = [], sg_secretKey = [], sg_rtp = \<lparr>rt_depayloader = [], rt_encodingName = [], rt_payload = None\<rparr>,
    sg_nonce = None, sg_model = Model_new, sg_fds = fds, sg_watching = True, sg_lost = 0\<rparr>"

section \<open>Creation and the end\<close>

text \<open>
  \<open>Thread::Main\<close> up to its loop: the context, the loop, the source and the message that it is ready. When one of these fails the thread
  ends without a message, and \<open>Create\<close> waits for ever. The loop is not given back then.
\<close>

definition Gst_Main :: "os \<Rightarrow> os outcome" where
  "Gst_Main s =
    (let (ok, s1) = os_new s in if \<not> ok then Blocked
     else let (ok, s2) = os_new s1 in if \<not> ok then Blocked
     else let (attached, s3) = os_call s2 in if attached < 0 then Blocked
     else let (ret, s4) = send_message s3 in if ret < 0 then Blocked else Ret s4)"

text \<open>
  \<open>Create\<close>. A model or a command object that cannot be allocated throws, which nobody catches. When the first message cannot be received
  the object is deleted while its thread works with it.
\<close>

definition Gst_Create :: "string \<Rightarrow> os \<Rightarrow> (server_gst option \<times> os) outcome" where
  "Gst_Create peerId s =
    (let (ok, s1) = os_new s in
     if \<not> ok then Ret (None, s1)
     else let (ok, s2) = os_new s1 in
     if \<not> ok then Aborted
     else let (ret, s3, fd0, fd1) = os_pair s2 in
     if ret < 0 then Ret (None, os_delete (os_delete s3))
     else let (ok, s4) = os_new s3 in
     if \<not> ok then Aborted
     else let (ok, s5) = os_new s4 in
     if \<not> ok then Aborted
     else let (status, s6) = os_call s5 in
     if status \<noteq> 0 then Ret (None, (os_delete ^^ 4) (close_fd fd1 (close_fd fd0 s6)))
     else obind (Gst_Main s6) (\<lambda>s7.
       let (ret, s8) = os_call s7 in
       if ret < 0 then Undefined else Ret (Some (Gst_new peerId (fd0, fd1)), os_delete s8)))"

text \<open>
  One command that the thread takes out of the socket; when it cannot be received the thread takes no other. The command stays
  in the socket then.
\<close>

definition thread_takes :: "server_gst \<Rightarrow> os \<Rightarrow> bool \<times> server_gst \<times> os" where
  "thread_takes g s =
    (if \<not> sg_watching g then (False, g\<lparr>sg_lost := sg_lost g + 1\<rparr>, s)
     else let (ret, s1) = os_call s in
       if ret < 0 then (False, g\<lparr>sg_watching := False, sg_lost := sg_lost g + 1\<rparr>, s1) else (True, g, os_delete s1))"

text \<open>
  \<open>Destroy\<close> waits for the thread, which ends with the command to exit. The loop and the context of the thread go, then the sockets
  and the object with its two command objects and its model. The pipeline and its bus stay.
\<close>

definition Gst_Destroy :: "server_gst \<Rightarrow> os \<Rightarrow> os outcome" where
  "Gst_Destroy g s =
    (let (ret, s1) = send_message s in
     if ret < 0 then Blocked
     else let (taken, g1, s2) = thread_takes g s1 in
     if \<not> taken then Blocked
     else let (status, s3) = os_call ((os_delete ^^ 2) s2) in
       Ret ((os_delete ^^ 4) (Model_delete (sg_model g1) (close_fd (snd (sg_fds g1)) (close_fd (fst (sg_fds g1)) s3)))))"

section \<open>Configuration\<close>

definition INPUT_TYPE_VIDEO :: int where "INPUT_TYPE_VIDEO = 1"
definition INPUT_TYPE_IMAGE :: int where "INPUT_TYPE_IMAGE = 2"

definition Gst_Configure :: "server_description \<Rightarrow> server_gst \<Rightarrow> int \<times> server_gst" where
  "Gst_Configure server g =
    (0, g\<lparr>sg_rtp :=
        (if sd_input_type server = INPUT_TYPE_IMAGE
         then \<lparr>rt_depayloader = ''rtpjpegdepay'', rt_encodingName = ''JPEG'', rt_payload = Some 26\<rparr>
         else if sd_input_type server = INPUT_TYPE_VIDEO
         then \<lparr>rt_depayloader = ''rtpvp8depay'', rt_encodingName = ''VP8'', rt_payload = Some 96\<rparr>
         else sg_rtp g),
      sg_preprocessing := (case sd_preprocessing server of None \<Rightarrow> sg_preprocessing g | Some p \<Rightarrow> p),
      sg_postprocessing := (case sd_postprocessing server of None \<Rightarrow> sg_postprocessing g | Some p \<Rightarrow> p),
      sg_framework := (case sd_framework server of None \<Rightarrow> ''tensorflow-lite'' | Some f \<Rightarrow> if f = [] then ''tensorflow-lite'' else f),
      sg_accel := ''accelerator=true:'' @ (case sd_accel server of None \<Rightarrow> ''gpu'' | Some a \<Rightarrow> if a = [] then ''gpu'' else a)\<rparr>)"

definition Gst_SetSecret :: "string \<Rightarrow> server_gst \<Rightarrow> server_gst" where
  "Gst_SetSecret secret g = g\<lparr>sg_secretKey := secret\<rparr>"

definition Gst_SetNonce :: "64 word \<Rightarrow> server_gst \<Rightarrow> server_gst" where
  "Gst_SetNonce nonce g = g\<lparr>sg_nonce := Some nonce\<rparr>"

text \<open>Reading the nonce before it is set is undefined.\<close>

definition Gst_GetNonce :: "server_gst \<Rightarrow> 64 word outcome" where
  "Gst_GetNonce g = (case sg_nonce g of None \<Rightarrow> Undefined | Some nonce \<Rightarrow> Ret nonce)"

section \<open>The description of the pipeline\<close>

text \<open>
  \<^verbatim>\<open>%.2X\<close> of a \<^verbatim>\<open>char\<close> in a buffer for two digits: a negative character is extended to eight digits, of which the first two remain.
\<close>

definition hex_digit :: "nat \<Rightarrow> char" where
  "hex_digit n = (if n < 10 then char_of (48 + n) else char_of (55 + n))"

definition hex_byte :: "bool \<Rightarrow> char \<Rightarrow> string" where
  "hex_byte schar c =
    (let n = of_char c in if schar \<and> 128 \<le> n then ''FF'' else [hex_digit (n div 16), hex_digit (n mod 16)])"

definition MASTER_KEY_SIZE :: nat where "MASTER_KEY_SIZE = 30"

definition master_key_text :: "bool \<Rightarrow> string \<Rightarrow> string" where
  "master_key_text schar key = concat (map (hex_byte schar) (takeWhile (\<lambda>c. c \<noteq> CHR 0x00) (take MASTER_KEY_SIZE key)))"

definition pre_pipeline :: "bool \<Rightarrow> server_gst \<Rightarrow> string outcome" where
  "pre_pipeline schar g =
    (if sg_preprocessing g = [] then Ret ''tcpserversrc name=serverSource host=0.0.0.0 port=0 ! gdpdepay''
     else case rt_payload (sg_rtp g) of
       None \<Rightarrow> Undefined
     | Some payload \<Rightarrow>
         if sg_secretKey g \<noteq> [] then
           Ret (''udpsrc name=serverSource address=0.0.0.0 port=0 caps=\"application/x-srtp, encoding-name='' @ rt_encodingName (sg_rtp g)
             @ '', payload='' @ to_string payload @ '', ssrc=(uint)'' @ sg_peerId g @ '', roc=(uint)0, srtp-key=(buffer)''
             @ master_key_text schar (sg_secretKey g)
             @ '', srtp-cipher=(string)aes-128-icm, srtp-auth=(string)hmac-sha1-80, srtcp-cipher=(string)aes-128-icm, srtcp-auth=(string)hmac-sha1-80\" ! srtpdec ! ''
             @ rt_depayloader (sg_rtp g))
         else
           Ret (''udpsrc name=serverSource address=0.0.0.0 port=0 caps=\"application/x-rtp, encoding-name='' @ rt_encodingName (sg_rtp g)
             @ '', payload='' @ to_string payload @ ''\" ! '' @ rt_depayloader (sg_rtp g)))"

text \<open>The properties of one side: none when the model has no tensor information for it.\<close>

definition side_properties :: "string \<Rightarrow> tensor_info list option \<Rightarrow> string outcome" where
  "side_properties type info = (case info of None \<Rightarrow> Ret [] | Some [] \<Rightarrow> Ret [] | Some xs \<Rightarrow> TensorInfoToProperties type (Some xs))"

definition pipeline_text :: "server_gst \<Rightarrow> string \<Rightarrow> string \<Rightarrow> string \<Rightarrow> string \<Rightarrow> string" where
  "pipeline_text g pre path input output =
    pre @ '' ! '' @ sg_preprocessing g @ '' tensor_filter name=tensorFilter framework='' @ sg_framework g @ '' model='' @ path @ '' ''
    @ sg_accel g @ '' '' @ input @ '' '' @ output
    @ '' ! tensor_decoder mode=flatbuf ! gdppay ! tcpserversink name=serverSink host=0.0.0.0 port=0''"

section \<open>Preparation\<close>

definition read_filter :: "int \<Rightarrow> launched \<Rightarrow> string \<Rightarrow> os \<Rightarrow> (int \<times> tensor_info list option \<times> os) outcome" where
  "read_filter junk l type s =
    ExtractTensorInfo junk (la_filter l (type @ ''ranks'')) (la_filter l (type @ ''type'')) (la_filter l type) s"

text \<open>Tensor information that the model does not have yet is taken from the filter; when that fails the model stays without.\<close>

definition learn_input :: "int \<Rightarrow> launched \<Rightarrow> peer_model \<Rightarrow> os \<Rightarrow> (peer_model \<times> os) outcome" where
  "learn_input junk l m s =
    (if pm_input m \<noteq> None \<and> pm_input m \<noteq> Some [] then Ret (m, s)
     else obind (read_filter junk l ''input'' s) (\<lambda>(ret, info, s1).
       if ret = 0 then let (_, m1, s2) = Model_SetInput info m s1 in Ret (m1, s2) else Ret (m, s1)))"

definition learn_output :: "int \<Rightarrow> launched \<Rightarrow> peer_model \<Rightarrow> os \<Rightarrow> (peer_model \<times> os) outcome" where
  "learn_output junk l m s =
    (if pm_output m \<noteq> None \<and> pm_output m \<noteq> Some [] then Ret (m, s)
     else obind (read_filter junk l ''output'' s) (\<lambda>(ret, info, s1).
       if ret = 0 then let (_, m1, s2) = Model_SetOutput info m s1 in Ret (m1, s2) else Ret (m, s1)))"

definition lose :: "nat \<Rightarrow> server_gst \<Rightarrow> os \<Rightarrow> server_gst \<times> os" where
  "lose n g s = (g\<lparr>sg_lost := sg_lost g + n\<rparr>, s\<lparr>live := live s + int n\<rparr>)"

text \<open>
  \<open>CommandHandlerPrepare\<close> up to its answer: the status and the two ports. The ports share their memory with the address of the
  description, which is null by then, so that they are 0 when they are not set. A launched pipeline, its bus and its three elements are
  never given back; with an error, a pipeline that comes with it. When an element is missing the watch, which is no \<^verbatim>\<open>GObject\<close>, is
  given to \<^verbatim>\<open>g_object_unref\<close>.
\<close>

definition CommandHandlerPrepare ::
    "'e gstreamer \<Rightarrow> string \<Rightarrow> server_gst \<Rightarrow> os \<times> 'e \<Rightarrow> ((int \<times> int \<times> int) \<times> server_gst \<times> os \<times> 'e) outcome" where
  "CommandHandlerPrepare G description g w =
    (case w of (s, e) \<Rightarrow>
      let (l, e1) = gs_launch G description e; s1 = os_delete s; failed = (- EFAULT, 0, 0) in
      if la_error l then let (g1, s2) = lose (if la_pipeline l then 1 else 0) g s1 in Ret (failed, g1, s2, e1)
      else if \<not> la_pipeline l \<or> \<not> la_bus l \<or> \<not> la_watch l then Ret (failed, g, s1, e1)
      else if \<not> la_elements l then Undefined
      else let (g1, s2) = lose 5 g s1 in
        if \<not> la_playing l then Ret (failed, g1, s2, e1)
        else
          let request = la_source_port l (if sg_preprocessing g = [] then ''current-port'' else ''port'');
              response = la_sink_port l ''current-port'' in
          obind (learn_input (gs_junk G) l (sg_model g1) s2) (\<lambda>(m, s3).
          obind (learn_output (gs_junk G) l m s3) (\<lambda>(m, s4).
            Ret ((0, request, response), g1\<lparr>sg_model := m\<rparr>, s4, e1))))"

text \<open>
  The exchange with the thread. Whenever the thread cannot take the command or answer it, the caller waits for ever; when the answer cannot be
  received the data is deleted while the thread uses it.
\<close>

definition prepare_in_thread ::
    "'e gstreamer \<Rightarrow> string \<Rightarrow> server_gst \<Rightarrow> os \<times> 'e \<Rightarrow> ((int \<times> int \<times> int) \<times> server_gst \<times> os \<times> 'e) outcome" where
  "prepare_in_thread G description g w =
    (case w of (s, e) \<Rightarrow>
      let (ret, s1) = send_message s in
      if ret < 0 then Ret ((ret, 0, 0), g, os_delete (os_delete s1), e)
      else let (taken, g1, s2) = thread_takes g s1 in
      if \<not> taken then Blocked
      else obind (CommandHandlerPrepare G description g1 (s2, e)) (\<lambda>(answer, g2, s3, e1).
        let (ret, s4) = send_message s3 in
        if ret < 0 then Blocked
        else let (ret, s5) = os_call s4 in
        if ret < 0 then Undefined else Ret (answer, g2, os_delete (os_delete s5), e1)))"

definition Gst_Prepare ::
    "'e gstreamer \<Rightarrow> server_gst \<Rightarrow> os \<times> 'e \<Rightarrow> ((int \<times> int \<times> int) \<times> server_gst \<times> os \<times> 'e) outcome" where
  "Gst_Prepare G g w =
    (case w of (s, e) \<Rightarrow>
      case pm_path (sg_model g) of
        None \<Rightarrow> Ret ((- EILSEQ, 0, 0), g, s, e)
      | Some path \<Rightarrow>
          let (ok, s1) = os_new s in
          if \<not> ok then Ret ((- ENOMEM, 0, 0), g, s1, e)
          else
            obind (side_properties ''input'' (pm_input (sg_model g))) (\<lambda>input.
            obind (side_properties ''output'' (pm_output (sg_model g))) (\<lambda>output.
            obind (pre_pipeline (gs_signed_char G) g) (\<lambda>pre.
              let (ok, s2) = os_new s1 in
              if \<not> ok then Ret ((- ENOMEM, 0, 0), g, os_delete s2, e)
              else let (ok, s3) = os_new s2; s4 = os_delete s3 in
              if \<not> ok then Ret ((- ENOMEM, 0, 0), g, os_delete s4, e)
              else prepare_in_thread G (pipeline_text g pre path input output) g (s4, e)))))"

text \<open>\<open>Stop\<close>: the thread does nothing with the command.\<close>

definition Gst_Stop :: "server_gst \<Rightarrow> os \<Rightarrow> int \<times> server_gst \<times> os" where
  "Gst_Stop g s =
    (let (ret, s1) = send_message s in
     if ret < 0 then (ret, g, s1) else let (_, g1, s2) = thread_takes g s1 in (ret, g1, s2))"

section \<open>Ledgers\<close>

lemma os_delete_pow_table [simp]: "live ((os_delete ^^ n) s) = live s - int n" "open_fds ((os_delete ^^ n) s) = open_fds s"
  "next_fd ((os_delete ^^ n) s) = next_fd s"
  by (induction n) auto

text \<open>What the table of descriptors is for: a step opens and closes none, and the numbers of new ones stay new.\<close>

definition same_table :: "os \<Rightarrow> os \<Rightarrow> bool" where
  "same_table s s' \<longleftrightarrow> open_fds s' = open_fds s \<and> next_fd s' = next_fd s"

lemma same_table_refl [simp]: "same_table s s"
  by (simp add: same_table_def)

lemma same_table_trans [trans]: "same_table s s1 \<Longrightarrow> same_table s1 s2 \<Longrightarrow> same_table s s2"
  by (simp add: same_table_def)

lemma same_table_wf: "same_table s s' \<Longrightarrow> os_wf s' = os_wf s"
  by (simp add: same_table_def os_wf_def)

lemma same_table_simps [simp]:
  "same_table s (os_delete s') = same_table s s'" "same_table s ((os_delete ^^ n) s') = same_table s s'"
  "same_table s (pop s') = same_table s s'" "same_table s (s'\<lparr>live := l\<rparr>) = same_table s s'"
  "same_table (os_delete s) s' = same_table s s'" "same_table ((os_delete ^^ n) s) s' = same_table s s'"
  "same_table (s\<lparr>live := l\<rparr>) s' = same_table s s'"
  by (simp_all add: same_table_def)

lemma os_new_table: "os_new s = (ok, s') \<Longrightarrow> same_table s s' \<and> live s' = live s + (if ok then 1 else 0)"
  by (auto simp: os_new_def split: if_splits)

lemma os_call_table: "os_call s = (ret, s') \<Longrightarrow> same_table s s' \<and> live s' = live s"
  by (auto simp: os_call_def)

lemma send_message_table:
  "send_message s = (ret, s') \<Longrightarrow> same_table s s' \<and> ret \<le> 0 \<and> live s' = live s + (if ret < 0 then 0 else 1)"
  by (auto simp: send_message_def os_new_def os_call_def errno_defs split: if_splits)

lemma free_table [simp]: "same_table s (free_block p s') = same_table s s'" "same_table s (free_tensor_infos xs s') = same_table s s'"
  "same_table s (free_infos info s') = same_table s s'"
proof -
  show b: "same_table s (free_block p s') = same_table s s'" for p :: "'a option" and s' by (simp add: free_block_def split: option.split)
  have t: "same_table s (free_tensor_infos xs s') = same_table s s'" for xs s'
    by (induction xs arbitrary: s') (simp_all add: free_block_def split: option.split)
  show "same_table s (free_tensor_infos xs s') = same_table s s'" by (rule t)
  show "same_table s (free_infos info s') = same_table s s'" by (simp add: free_infos_def FreeTensorInfo_def t split: option.split)
qed

text \<open>The information of a filter: arrays without names. When reading it fails at most the array itself is left.\<close>

definition nameless :: "tensor_info list \<Rightarrow> bool" where
  "nameless xs \<longleftrightarrow> list_all (\<lambda>x. ti_name x = None \<and> ti_dims x \<noteq> None) xs"

lemma nameless_simps [simp]: "nameless []" "nameless (xs @ [x]) \<longleftrightarrow> nameless xs \<and> ti_name x = None \<and> ti_dims x \<noteq> None"
  by (auto simp: nameless_def)

lemma nameless_blocks: "nameless xs \<Longrightarrow> info_blocks xs = int (length xs)"
  by (induction xs) (simp_all add: nameless_def block_def)

lemma FreeTensorInfo_nameless:
  assumes "nameless xs"
  shows "\<exists>s'. snd (snd (FreeTensorInfo (Some xs) (length xs) s)) = s' \<and> same_table s s'
    \<and> live s - int (length xs) - 1 \<le> live s' \<and> live s' \<le> live s - int (length xs)"
  using nameless_blocks [OF assms] by (cases "xs = []") (simp_all add: FreeTensorInfo_def)

lemma extract_infos_ledger:
  assumes "extract_infos junk ranks ts shapes infos s = Ret (ret, r, s')" and "nameless infos"
  shows "same_table s s' \<and>
    (ret = 0 \<and> (\<exists>xs. r = Some xs \<and> nameless xs \<and> length xs = length infos + length ts \<and> live s' = live s + int (length ts))
     \<or> ret < 0 \<and> r = None \<and> live s - int (length infos) - 1 \<le> live s' \<and> live s' \<le> live s - int (length infos))"
  using assms
proof (induction ts arbitrary: infos s)
  case Nil
  then show ?case by auto
next
  case (Cons t ts)
  obtain ok s1 where 1: "os_new s = (ok, s1)" by fastforce
  note l1 = os_new_table [OF 1]
  define rank :: nat where "rank = (if ranks = [] then 3 else ranks ! length infos)"
  have step: "\<not> (ranks \<noteq> [] \<and> length ranks \<le> length infos)" using Cons.prems(1) by auto
  show ?case
  proof (cases ok)
    case False
    then have "ret = - ENOMEM" "r = None" "s' = snd (snd (FreeTensorInfo (Some infos) (length infos) s1))"
      using Cons.prems(1) step 1 by (simp_all add: Let_def split: if_splits)
    with FreeTensorInfo_nameless [OF Cons.prems(2), of s1] l1 False show ?thesis
      by (auto simp: errno_defs intro: same_table_trans)
  next
    case True
    obtain p vals where p: "dims_parser rank (shapes ! length infos) = Ret (p, vals)"
      and more: "(if p < 0 then Ret (p, None, snd (snd (FreeTensorInfo (Some infos) (length infos) (os_delete s1))))
         else obind (int_times (TensorTypeToSize t) p) (\<lambda>bytes.
           extract_infos junk ranks ts shapes
             (infos @ [\<lparr>ti_type = tensor_type_code t, ti_size = bytes, ti_name = None,
               ti_dims = Some (vals @ replicate (rank + 1 - length vals) junk)\<rparr>]) s1)) = Ret (ret, r, s')"
      using Cons.prems(1) step 1 True
      by (auto simp: Let_def rank_def obind_eq_Ret split: if_splits)
    show ?thesis
    proof (cases "p < 0")
      case neg: True
      with more have "ret = p" "r = None" "s' = snd (snd (FreeTensorInfo (Some infos) (length infos) (os_delete s1)))" by simp_all
      with FreeTensorInfo_nameless [OF Cons.prems(2), of "os_delete s1"] l1 True neg show ?thesis
        by (auto intro: same_table_trans)
    next
      case pos: False
      with more obtain bytes where "extract_infos junk ranks ts shapes
             (infos @ [\<lparr>ti_type = tensor_type_code t, ti_size = bytes, ti_name = None,
               ti_dims = Some (vals @ replicate (rank + 1 - length vals) junk)\<rparr>]) s1 = Ret (ret, r, s')"
        by (auto simp: obind_eq_Ret)
      from Cons.IH [OF this] Cons.prems(2) have "same_table s1 s' \<and>
          (ret = 0 \<and> (\<exists>xs. r = Some xs \<and> nameless xs \<and> length xs = Suc (length infos) + length ts \<and> live s' = live s1 + int (length ts))
           \<or> ret < 0 \<and> r = None \<and> live s1 - int (Suc (length infos)) - 1 \<le> live s' \<and> live s' \<le> live s1 - int (Suc (length infos)))" by simp
      with l1 True show ?thesis by (auto intro: same_table_trans)
    qed
  qed
qed

lemma split_commas_not_Nil: "split_commas part s \<noteq> []"
  by (induction part s rule: split_commas.induct) auto

lemma ExtractTensorInfo_ledger:
  assumes "ExtractTensorInfo junk ranks types dims s = Ret (ret, r, s')"
  shows "same_table s s' \<and>
    (ret = 0 \<and> r \<noteq> None \<and> live s' = live s + array_blocks r \<or> ret < 0 \<and> r = None \<and> live s \<le> live s' \<and> live s' \<le> live s + 1)"
proof -
  obtain ok s1 where 1: "os_new s = (ok, s1)" by fastforce
  note l1 = os_new_table [OF 1]
  consider (error) e where "ret = - e" "0 < e" "r = None" "s' = s \<or> s' = s1 \<and> \<not> ok"
    | (read) ts ds where "ok" "ts \<noteq> []" "extract_infos junk (read_ranks ranks) ts ds [] s1 = Ret (ret, r, s')"
  proof -
    consider "types = None \<or> types = Some [] \<or> dims = None \<or> dims = Some []"
      | (texts) c cs d ds where "types = Some (c # cs)" "dims = Some (d # ds)"
      by (cases types; cases dims; cases "the types"; cases "the dims") auto
    then show ?thesis
    proof cases
      case 1
      with assms have "ret = - EFAULT \<and> r = None \<and> s' = s"
        by (auto simp: ExtractTensorInfo_def split: option.splits list.splits)
      then show ?thesis using error [of EFAULT] by (simp add: errno_defs)
    next
      case texts
      show ?thesis
      proof (cases ok)
        case True
        with assms 1 texts show ?thesis
          by (intro read [of "map TensorTypeStringToType (split_commas [] (c # cs))" "split_commas [] (d # ds)"])
            (simp_all add: ExtractTensorInfo_def split_commas_not_Nil del: split_commas.simps)
      next
        case False
        with assms 1 texts error [of ENOMEM] show ?thesis by (simp add: ExtractTensorInfo_def errno_defs del: split_commas.simps)
      qed
    qed
  qed
  then show ?thesis
  proof cases
    case error
    with l1 show ?thesis by auto
  next
    case read
    have n: "nameless xs \<Longrightarrow> length xs = length ts \<Longrightarrow> array_blocks (Some xs) = 1 + int (length ts)" for xs
      using read(2) by (auto simp: array_blocks_def nameless_blocks)
    from extract_infos_ledger [OF read(3), simplified] l1 read(1) n show ?thesis
      by (elim conjE disjE exE) (auto intro: same_table_trans)
  qed
qed

text \<open>
  What belongs to a pipeline: the object, its model and the two command objects, the loop and the context of the thread, what the model
  holds, and what is lost.
\<close>

definition gst_objects :: "server_gst \<Rightarrow> int" where
  "gst_objects g = 6 + block (pm_path (sg_model g)) + array_blocks (pm_input (sg_model g)) + array_blocks (pm_output (sg_model g))
    + int (sg_lost g)"

lemma learn_input_ledger:
  assumes "learn_input junk l m s = Ret (m', s')"
  shows "same_table s s' \<and> pm_path m' = pm_path m \<and> pm_output m' = pm_output m
    \<and> live s - array_blocks (pm_input m) \<le> live s' - array_blocks (pm_input m')
    \<and> live s' - array_blocks (pm_input m') \<le> live s - array_blocks (pm_input m) + 1"
proof (cases "pm_input m \<noteq> None \<and> pm_input m \<noteq> Some []")
  case True
  with assms show ?thesis by (simp add: learn_input_def)
next
  case False
  with assms obtain ret info s1 where r: "read_filter junk l ''input'' s = Ret (ret, info, s1)"
    and m: "(if ret = 0 then let (_, m1, s2) = Model_SetInput info m s1 in Ret (m1, s2) else Ret (m, s1)) = Ret (m', s')"
    by (auto simp: learn_input_def obind_eq_Ret)
  from r m ExtractTensorInfo_ledger [OF r [unfolded read_filter_def]] show ?thesis
    by (auto simp: Model_SetInput_def split: if_splits)
qed

lemma learn_output_ledger:
  assumes "learn_output junk l m s = Ret (m', s')"
  shows "same_table s s' \<and> pm_path m' = pm_path m \<and> pm_input m' = pm_input m
    \<and> live s - array_blocks (pm_output m) \<le> live s' - array_blocks (pm_output m')
    \<and> live s' - array_blocks (pm_output m') \<le> live s - array_blocks (pm_output m) + 1"
proof (cases "pm_output m \<noteq> None \<and> pm_output m \<noteq> Some []")
  case True
  with assms show ?thesis by (simp add: learn_output_def)
next
  case False
  with assms obtain ret info s1 where r: "read_filter junk l ''output'' s = Ret (ret, info, s1)"
    and m: "(if ret = 0 then let (_, m1, s2) = Model_SetOutput info m s1 in Ret (m1, s2) else Ret (m, s1)) = Ret (m', s')"
    by (auto simp: learn_output_def obind_eq_Ret)
  from r m ExtractTensorInfo_ledger [OF r [unfolded read_filter_def]] show ?thesis
    by (auto simp: Model_SetOutput_def split: if_splits)
qed

text \<open>Only the model and what is lost change in a preparation, and of the model not the path.\<close>

definition only_model :: "server_gst \<Rightarrow> server_gst \<Rightarrow> bool" where
  "only_model g g' \<longleftrightarrow> pm_path (sg_model g') = pm_path (sg_model g)
    \<and> g' = g\<lparr>sg_model := sg_model g', sg_lost := sg_lost g'\<rparr>"

lemma only_model_refl [simp]: "only_model g g"
  by (simp add: only_model_def)

definition gst_ledger :: "int \<Rightarrow> int \<Rightarrow> server_gst \<Rightarrow> os \<Rightarrow> server_gst \<Rightarrow> os \<Rightarrow> bool" where
  "gst_ledger low high g s g' s' \<longleftrightarrow> same_table s s'
    \<and> live s - gst_objects g + low \<le> live s' - gst_objects g' \<and> live s' - gst_objects g' \<le> live s - gst_objects g + high"

lemma thread_takes_ledger:
  assumes "thread_takes g s = (taken, g', s')"
  shows "gst_ledger (-1) (-1) g s g' s' \<and> g' = g\<lparr>sg_watching := sg_watching g', sg_lost := sg_lost g'\<rparr> \<and> (taken \<longrightarrow> g' = g)"
  using assms by (auto simp: thread_takes_def os_call_def gst_ledger_def gst_objects_def split: if_splits)

lemma Prepare_handler_ledger:
  assumes "CommandHandlerPrepare G description g (s, e) = Ret (answer, g', s', e')"
  shows "gst_ledger (-1) 1 g s g' s' \<and> only_model g g'"
proof -
  obtain l e1 where l: "gs_launch G description e = (l, e1)" by fastforce
  let ?s1 = "os_delete s"
  show ?thesis
  proof (cases "la_error l \<or> \<not> la_pipeline l \<or> \<not> la_bus l \<or> \<not> la_watch l \<or> \<not> la_elements l \<or> \<not> la_playing l")
    case True
    with assms l show ?thesis
      by (auto simp: CommandHandlerPrepare_def lose_def gst_ledger_def gst_objects_def only_model_def Let_def split: if_splits)
  next
    case False
    obtain g1 s2 where 1: "lose 5 g ?s1 = (g1, s2)" by fastforce
    obtain m3 s3 m4 s4 where m: "learn_input (gs_junk G) l (sg_model g1) s2 = Ret (m3, s3)"
        "learn_output (gs_junk G) l m3 s3 = Ret (m4, s4)" "g' = g1\<lparr>sg_model := m4\<rparr>" "s' = s4"
      using assms l False 1 by (auto simp: CommandHandlerPrepare_def Let_def obind_eq_Ret)
    from learn_input_ledger [OF m(1)] learn_output_ledger [OF m(2)] 1 m(3,4) show ?thesis
      by (auto simp: lose_def gst_ledger_def gst_objects_def only_model_def intro: same_table_trans)
  qed
qed

lemma prepare_in_thread_ledger:
  assumes "prepare_in_thread G description g (s, e) = Ret (answer, g', s', e')"
  shows "gst_ledger (-2) 0 g s g' s' \<and> only_model g g'"
proof -
  obtain ret s1 where 1: "send_message s = (ret, s1)" by fastforce
  note l1 = send_message_table [OF 1]
  show ?thesis
  proof (cases "ret < 0")
    case True
    with assms 1 l1 show ?thesis by (auto simp: prepare_in_thread_def gst_ledger_def)
  next
    case False
    obtain taken g1 s2 where 2: "thread_takes g s1 = (taken, g1, s2)" by (cases "thread_takes g s1")
    with assms 1 False have taken by (auto simp: prepare_in_thread_def split: if_splits)
    with thread_takes_ledger [OF 2] have l2: "gst_ledger (-1) (-1) g s1 g s2" "g1 = g" by auto
    obtain a2 g2 s3 e1 where h: "CommandHandlerPrepare G description g (s2, e) = Ret (a2, g2, s3, e1)"
      and rest: "(let (ret, s4) = send_message s3 in if ret < 0 then Blocked
        else let (ret, s5) = os_call s4 in if ret < 0 then Undefined else Ret (a2, g2, os_delete (os_delete s5), e1)) = Ret (answer, g', s', e')"
      using assms 1 2 False \<open>taken\<close> l2(2) by (auto simp: prepare_in_thread_def obind_eq_Ret)
    obtain ret2 s4 where 4: "send_message s3 = (ret2, s4)" by fastforce
    obtain ret3 s5 where 5: "os_call s4 = (ret3, s5)" by fastforce
    have 3: "CommandHandlerPrepare G description g (s2, e) = Ret (a2, g2, s3, e1)"
        "send_message s3 = (ret2, s4)" "\<not> ret2 < 0" "os_call s4 = (ret3, s5)" "g' = g2" "s' = os_delete (os_delete s5)"
      using h rest 4 5 by (auto simp: Let_def split: if_splits)
    from Prepare_handler_ledger [OF 3(1)] send_message_table [OF 3(2)] os_call_table [OF 3(4)] 3(3,5,6) l1 l2 False show ?thesis
      by (auto simp: gst_ledger_def same_table_def)
  qed
qed

lemma Gst_Prepare_ledger:
  assumes "Gst_Prepare G g (s, e) = Ret (answer, g', s', e')"
  shows "gst_ledger 0 2 g s g' s' \<and> only_model g g'"
proof (cases "pm_path (sg_model g)")
  case None
  with assms show ?thesis by (simp add: Gst_Prepare_def gst_ledger_def)
next
  case (Some path)
  obtain ok s1 where 1: "os_new s = (ok, s1)" by fastforce
  note l1 = os_new_table [OF 1]
  obtain ok2 s2 where 2: "os_new s1 = (ok2, s2)" by fastforce
  note l2 = os_new_table [OF 2]
  obtain ok3 s3 where 3: "os_new s2 = (ok3, s3)" by fastforce
  note l3 = os_new_table [OF 3]
  show ?thesis
  proof (cases "ok \<and> ok2 \<and> ok3")
    case True
    with assms Some 1 2 3 obtain t where "prepare_in_thread G t g (os_delete s3, e) = Ret (answer, g', s', e')"
      by (auto simp: Gst_Prepare_def obind_eq_Ret Let_def)
    from prepare_in_thread_ledger [OF this] True l1 l2 l3 show ?thesis
      by (auto simp: gst_ledger_def same_table_def)
  next
    case False
    with assms Some 1 2 3 have "g' = g \<and> (\<not> ok \<and> s' = s1 \<or> ok \<and> \<not> ok2 \<and> s' = os_delete s2 \<or> ok \<and> ok2 \<and> \<not> ok3 \<and> s' = os_delete (os_delete s3))"
      by (auto simp: Gst_Prepare_def obind_eq_Ret Let_def split: if_splits)
    with l1 l2 l3 show ?thesis by (auto simp: gst_ledger_def same_table_def)
  qed
qed

lemma Gst_Stop_ledger:
  assumes "Gst_Stop g s = (ret, g', s')"
  shows "gst_ledger 0 0 g s g' s' \<and> g' = g\<lparr>sg_watching := sg_watching g', sg_lost := sg_lost g'\<rparr> \<and> ret \<le> 0"
proof -
  obtain r s1 where 1: "send_message s = (r, s1)" by fastforce
  obtain taken g1 s2 where 2: "thread_takes g s1 = (taken, g1, s2)" by (cases "thread_takes g s1")
  from assms 1 2 send_message_table [OF 1] thread_takes_ledger [OF 2] show ?thesis
    by (cases "r < 0") (auto simp: Gst_Stop_def gst_ledger_def intro: same_table_trans)
qed

lemma Gst_Destroy_ledger:
  assumes "Gst_Destroy g s = Ret s'"
  shows "open_fds s' = open_fds s - {fst (sg_fds g), snd (sg_fds g)} \<and> next_fd s' = next_fd s
    \<and> live s' = live s - gst_objects g + int (sg_lost g)"
proof -
  obtain r s1 where 1: "send_message s = (r, s1)" by fastforce
  obtain taken g1 s2 where 2: "thread_takes g s1 = (taken, g1, s2)" by (cases "thread_takes g s1")
  with assms 1 have t: taken "\<not> r < 0" by (auto simp: Gst_Destroy_def split: if_splits)
  obtain status s3 where 3: "os_call ((os_delete ^^ 2) s2) = (status, s3)" by fastforce
  have s': "s' = (os_delete ^^ 4) (Model_delete (sg_model g1) (close_fd (snd (sg_fds g1)) (close_fd (fst (sg_fds g1)) s3)))"
    using assms 1 2 3 t by (simp add: Gst_Destroy_def)
  have "next_fd (free_infos x y) = next_fd y" "next_fd (free_block z y) = next_fd y" for x y and z :: "string option"
    using free_table(1) [of y z y] free_table(3) [of y x y] by (simp_all add: same_table_def)
  then show ?thesis
    using s' t send_message_table [OF 1] thread_takes_ledger [OF 2] os_call_table [OF 3]
    by (auto simp: gst_ledger_def gst_objects_def same_table_def Model_delete_def)
qed

lemma Gst_Main_table: "Gst_Main s = Ret s' \<Longrightarrow> same_table s s' \<and> live s' = live s + 3"
  by (auto simp: Gst_Main_def Let_def split: prod.splits if_splits
      dest!: os_new_table os_call_table send_message_table intro: same_table_trans)

lemma Gst_Create_ledger:
  assumes "Gst_Create peerId s = Ret (r, s')" and "os_wf s"
  shows "next_fd s \<le> next_fd s' \<and> (case r of
      None \<Rightarrow> open_fds s' = open_fds s \<and> live s' = live s
    | Some g \<Rightarrow> g = Gst_new peerId (next_fd s, next_fd s + 1) \<and> next_fd s' = next_fd s + 2
        \<and> open_fds s' = insert (next_fd s) (insert (next_fd s + 1) (open_fds s)) \<and> live s' = live s + gst_objects g)"
proof -
  obtain ok s1 where 1: "os_new s = (ok, s1)" by fastforce
  obtain ok2 s2 where 2: "os_new s1 = (ok2, s2)" by fastforce
  obtain ret s3 fd0 fd1 where 3: "os_pair s2 = (ret, s3, fd0, fd1)" by (cases "os_pair s2")
  obtain ok4 s4 where 4: "os_new s3 = (ok4, s4)" by fastforce
  obtain ok5 s5 where 5: "os_new s4 = (ok5, s5)" by fastforce
  obtain status s6 where 6: "os_call s5 = (status, s6)" by fastforce
  note l = os_new_table [OF 1] os_new_table [OF 2] os_new_table [OF 4] os_new_table [OF 5] os_call_table [OF 6]
  have l3: "live s3 = live s2" "ret < 0 \<longrightarrow> same_table s2 s3"
      "\<not> ret < 0 \<longrightarrow> fd0 = next_fd s2 \<and> fd1 = next_fd s2 + 1 \<and> next_fd s3 = next_fd s2 + 2
        \<and> open_fds s3 = insert (next_fd s2) (insert (next_fd s2 + 1) (open_fds s2))"
    using 3 by (auto simp: os_pair_def split: if_splits)
  have new: "next_fd s \<notin> open_fds s" "next_fd s + 1 \<notin> open_fds s" using assms(2) by (auto simp: os_wf_def)
  consider (no_object) "\<not> ok" "r = None" "s' = s1"
    | (no_pair) "ok" "ok2" "ret < 0" "r = None" "s' = os_delete (os_delete s3)"
    | (no_thread) "ok" "ok2" "\<not> ret < 0" "ok4" "ok5" "r = None" "s' = (os_delete ^^ 4) (close_fd fd1 (close_fd fd0 s6))"
    | (created) s7 ret8 s8 where "ok" "ok2" "\<not> ret < 0" "ok4" "ok5" "Gst_Main s6 = Ret s7" "os_call s7 = (ret8, s8)"
        "r = Some (Gst_new peerId (fd0, fd1))" "s' = os_delete s8"
  proof (cases "ok \<and> ok2 \<and> \<not> ret < 0 \<and> ok4 \<and> ok5 \<and> status = 0")
    case True
    with assms(1) 1 2 3 4 5 6 obtain s7 where m: "Gst_Main s6 = Ret s7"
      and rest: "(let (ret, s8) = os_call s7 in if ret < 0 then Undefined else Ret (Some (Gst_new peerId (fd0, fd1)), os_delete s8)) = Ret (r, s')"
      by (auto simp: Gst_Create_def obind_eq_Ret)
    obtain ret8 s8 where 8: "os_call s7 = (ret8, s8)" by fastforce
    from True m rest 8 show thesis by (intro created [of s7 ret8 s8]) (auto split: if_splits)
  next
    case False
    with assms(1) 1 2 3 4 5 6 show thesis
      by (auto simp: Gst_Create_def intro: no_object no_pair no_thread split: if_splits)
  qed
  then show ?thesis
  proof cases
    case no_object
    with l show ?thesis by (simp add: same_table_def)
  next
    case no_pair
    with l l3 show ?thesis by (simp add: same_table_def)
  next
    case no_thread
    with l l3 new show ?thesis by (auto simp: same_table_def)
  next
    case created
    from Gst_Main_table [OF created(6)] os_call_table [OF created(7)] created l l3 show ?thesis
      by (simp add: same_table_def gst_objects_def Gst_new_def Model_new_def block_def array_blocks_def)
  qed
qed

section \<open>Properties\<close>

text \<open>The part of a key that is written, and the bytes as far as their text tells them apart.\<close>

definition usable :: "string \<Rightarrow> string" where
  "usable key = takeWhile (\<lambda>c. c \<noteq> CHR 0x00) (take MASTER_KEY_SIZE key)"

definition told_apart :: "bool \<Rightarrow> char \<Rightarrow> char" where
  "told_apart schar c = (if schar \<and> 128 \<le> (of_char c :: nat) then CHR 0xFF else c)"

definition hex_value :: "char \<Rightarrow> nat" where
  "hex_value c = (let n = of_char c in if n < 65 then n - 48 else n - 55)"

lemma hex_value_digit [simp]: "n < 16 \<Longrightarrow> hex_value (hex_digit n) = n"
  by (simp add: hex_value_def hex_digit_def of_char_of)

lemma hex_digit_inj: "a < 16 \<Longrightarrow> b < 16 \<Longrightarrow> hex_digit a = hex_digit b \<longleftrightarrow> a = b"
  by (metis hex_value_digit)

lemma char_halves: "c = d \<longleftrightarrow> of_char c div 16 = (of_char d div 16 :: nat) \<and> of_char c mod 16 = (of_char d mod 16 :: nat)"
  by (metis div_mod_decomp of_char_eq_iff)

lemma of_char_less: "(of_char c :: nat) < 256"
  by (metis char_of_char of_char_of mod_less_divisor zero_less_numeral)

lemma hex_byte_plain: "hex_byte False c = hex_byte False d \<longleftrightarrow> c = d"
proof -
  have "(of_char c :: nat) div 16 < 16" "(of_char d :: nat) div 16 < 16" using of_char_less [of c] of_char_less [of d] by linarith+
  then show ?thesis by (simp add: hex_byte_def Let_def hex_digit_inj char_halves [of c d])
qed

lemma of_char_F: "(of_char (CHR ''F'') :: nat) = 70"
  by simp

lemma hex_byte_told_apart: "hex_byte schar c = hex_byte False (told_apart schar c)"
proof (cases "schar \<and> 128 \<le> (of_char c :: nat)")
  case True
  have "(of_char (CHR 0xFF) :: nat) = 255" by simp
  moreover have "char_of (70 :: nat) = CHR ''F''" by (metis char_of_char of_char_F)
  ultimately show ?thesis using True by (simp add: hex_byte_def told_apart_def hex_digit_def)
next
  case False
  then show ?thesis by (auto simp: hex_byte_def told_apart_def Let_def)
qed

lemma length_hex_byte: "length (hex_byte schar c) = 2"
  by (simp add: hex_byte_def Let_def)

lemma concat_hex: "concat (map (hex_byte False) cs) = concat (map (hex_byte False) ds) \<longleftrightarrow> cs = ds"
proof (induction cs arbitrary: ds)
  case Nil
  then show ?case by (cases ds) (auto simp: hex_byte_def Let_def)
next
  case (Cons c cs)
  show ?case
  proof (cases ds)
    case Nil
    then show ?thesis by (simp add: hex_byte_def Let_def)
  next
    case (Cons d ds')
    with Cons.IH [of ds'] show ?thesis
      by (simp add: append_eq_append_conv length_hex_byte hex_byte_plain)
  qed
qed

text \<open>
  C17. The key in the description of a secured pipeline. It has two hexadecimal digits for every byte of the first 30 up to a zero
  byte. Where \<^verbatim>\<open>char\<close> is unsigned, different keys have different texts; where it is signed, all bytes from 128 on are written FF,
  and two keys have the same text exactly when they agree but for these bytes.
\<close>

theorem srtp_key_text:
  "length (master_key_text schar key) = 2 * length (usable key) \<and> length (master_key_text schar key) \<le> 60
   \<and> (master_key_text schar key = master_key_text schar key' \<longleftrightarrow> map (told_apart schar) (usable key) = map (told_apart schar) (usable key'))
   \<and> (master_key_text False key = master_key_text False key' \<longleftrightarrow> usable key = usable key')
   \<and> master_key_text True [CHR 0x80, CHR 0x41] = master_key_text True [CHR 0xC3, CHR 0x41]"
proof -
  have t: "master_key_text sc k = concat (map (hex_byte False) (map (told_apart sc) (usable k)))" for sc k
    by (simp add: master_key_text_def usable_def comp_def flip: hex_byte_told_apart)
  have n: "told_apart False = id" by (simp add: told_apart_def fun_eq_iff)
  have len: "length (concat (map (hex_byte sc) ks)) = 2 * length ks" for sc ks
    by (induction ks) (simp_all add: length_hex_byte)
  have u: "length (usable k) \<le> 30" for k
    using length_takeWhile_le [of "\<lambda>c. c \<noteq> CHR 0x00" "take 30 k"] by (simp add: usable_def MASTER_KEY_SIZE_def del: length_takeWhile_le)
  have c: "master_key_text True [CHR 0x80, CHR 0x41] = master_key_text True [CHR 0xC3, CHR 0x41]"
    by (simp add: master_key_text_def MASTER_KEY_SIZE_def hex_byte_def)
  show ?thesis
    using u [of key] c by (simp add: t len concat_hex n del: map_map)
qed


text \<open>What can be read of the properties of one side.\<close>

definition reports :: "int \<Rightarrow> launched \<Rightarrow> string \<Rightarrow> tensor_info list option \<Rightarrow> bool" where
  "reports junk l type info \<longleftrightarrow> (\<exists>s s'. read_filter junk l type s = Ret (0, info, s'))"

lemma reportsI: "read_filter junk l type s = Ret (0, info, s') \<Longrightarrow> reports junk l type info"
  by (auto simp: reports_def)

lemma learn_input_result:
  assumes "learn_input junk l m s = Ret (m', s')"
  shows "m' = m \<or> pm_input m \<in> {None, Some []} \<and> reports junk l ''input'' (pm_input m') \<and> pm_output m' = pm_output m"
  using assms by (auto simp: learn_input_def obind_eq_Ret Model_SetInput_def reportsI split: if_splits)

lemma learn_output_result:
  assumes "learn_output junk l m s = Ret (m', s')"
  shows "m' = m \<or> pm_output m \<in> {None, Some []} \<and> reports junk l ''output'' (pm_output m') \<and> pm_input m' = pm_input m"
  using assms by (auto simp: learn_output_def obind_eq_Ret Model_SetOutput_def reportsI split: if_splits)

text \<open>The tensor information after a successful launch: what was there, or what the filter reports.\<close>

definition learned :: "int \<Rightarrow> launched \<Rightarrow> peer_model \<Rightarrow> peer_model \<Rightarrow> bool" where
  "learned junk l m m' \<longleftrightarrow>
    (pm_input m' = pm_input m \<or> pm_input m \<in> {None, Some []} \<and> reports junk l ''input'' (pm_input m'))
    \<and> (pm_output m' = pm_output m \<or> pm_output m \<in> {None, Some []} \<and> reports junk l ''output'' (pm_output m'))"

definition launches ::
    "'e gstreamer \<Rightarrow> string \<Rightarrow> server_gst \<Rightarrow> 'e \<Rightarrow> int \<times> int \<times> int \<Rightarrow> server_gst \<Rightarrow> 'e \<Rightarrow> bool" where
  "launches G description g e answer g' e' \<longleftrightarrow>
    (case answer of (ret, request, response) \<Rightarrow>
      if ret \<noteq> 0 then ret < 0 \<and> request = 0 \<and> response = 0 \<and> sg_model g' = sg_model g
      else \<exists>l. gs_launch G description e = (l, e') \<and> la_playing l
        \<and> request = la_source_port l (if sg_preprocessing g = [] then ''current-port'' else ''port'')
        \<and> response = la_sink_port l ''current-port'' \<and> learned (gs_junk G) l (sg_model g) (sg_model g'))"

lemma Prepare_handler_launches:
  assumes "CommandHandlerPrepare G description g (s, e) = Ret (answer, g', s', e')"
  shows "launches G description g e answer g' e'"
proof -
  obtain l e1 where l: "gs_launch G description e = (l, e1)" by fastforce
  show ?thesis
  proof (cases "la_error l \<or> \<not> la_pipeline l \<or> \<not> la_bus l \<or> \<not> la_watch l \<or> \<not> la_elements l \<or> \<not> la_playing l")
    case True
    with assms l show ?thesis
      by (auto simp: CommandHandlerPrepare_def lose_def launches_def errno_defs Let_def split: if_splits)
  next
    case False
    obtain g1 s2 where 1: "lose 5 g (os_delete s) = (g1, s2)" by fastforce
    obtain m3 s3 m4 s4 where m: "learn_input (gs_junk G) l (sg_model g1) s2 = Ret (m3, s3)"
        "learn_output (gs_junk G) l m3 s3 = Ret (m4, s4)" "g' = g1\<lparr>sg_model := m4\<rparr>"
      and a: "answer = (0, la_source_port l (if sg_preprocessing g = [] then ''current-port'' else ''port''), la_sink_port l ''current-port'')"
        "e' = e1"
      using assms l False 1 by (auto simp: CommandHandlerPrepare_def Let_def obind_eq_Ret)
    have "sg_model g1 = sg_model g" using 1 by (auto simp: lose_def)
    with learn_input_result [OF m(1)] learn_output_result [OF m(2)] m(3) have "learned (gs_junk G) l (sg_model g) (sg_model g')"
      by (auto simp: learned_def)
    with l a False show ?thesis by (auto simp: launches_def)
  qed
qed

lemma prepare_in_thread_launches:
  assumes "prepare_in_thread G description g (s, e) = Ret (answer, g', s', e')"
  shows "launches G description g e answer g' e'"
proof -
  obtain ret s1 where 1: "send_message s = (ret, s1)" by fastforce
  show ?thesis
  proof (cases "ret < 0")
    case True
    with assms 1 show ?thesis by (auto simp: prepare_in_thread_def launches_def)
  next
    case False
    obtain taken g1 s2 where 2: "thread_takes g s1 = (taken, g1, s2)" by (cases "thread_takes g s1")
    with assms 1 False have t: taken by (auto simp: prepare_in_thread_def split: if_splits)
    with thread_takes_ledger [OF 2] have g1: "g1 = g" by auto
    obtain a2 g2 s3 e1 where h: "CommandHandlerPrepare G description g (s2, e) = Ret (a2, g2, s3, e1)"
      and rest: "(let (ret, s4) = send_message s3 in if ret < 0 then Blocked
        else let (ret, s5) = os_call s4 in if ret < 0 then Undefined else Ret (a2, g2, os_delete (os_delete s5), e1)) = Ret (answer, g', s', e')"
      using assms 1 2 False t g1 by (auto simp: prepare_in_thread_def obind_eq_Ret)
    from rest have "answer = a2" "g' = g2" "e' = e1" by (auto simp: Let_def split: prod.splits if_splits)
    with Prepare_handler_launches [OF h] show ?thesis by simp
  qed
qed

text \<open>
  C16. What a preparation achieves. It fails with both ports 0 and leaves the model alone, or it has launched exactly the pipeline of the
  model's path, the configuration and the properties of the tensor information that is known, and returns the ports of its source and
  sink. Then tensor information the model had is still there; the rest is what the filter of the pipeline reports, when it can be read.
\<close>

theorem prepare_launches:
  assumes "Gst_Prepare G g (s, e) = Ret ((ret, request, response), g', s', e')"
  shows "if ret \<noteq> 0 then ret < 0 \<and> request = 0 \<and> response = 0 \<and> sg_model g' = sg_model g
    else \<exists>path input output pre l. pm_path (sg_model g) = Some path
      \<and> side_properties ''input'' (pm_input (sg_model g)) = Ret input \<and> side_properties ''output'' (pm_output (sg_model g)) = Ret output
      \<and> pre_pipeline (gs_signed_char G) g = Ret pre \<and> gs_launch G (pipeline_text g pre path input output) e = (l, e')
      \<and> la_playing l \<and> request = la_source_port l (if sg_preprocessing g = [] then ''current-port'' else ''port'')
      \<and> response = la_sink_port l ''current-port'' \<and> learned (gs_junk G) l (sg_model g) (sg_model g')"
proof (cases "pm_path (sg_model g)")
  case None
  with assms show ?thesis by (simp add: Gst_Prepare_def errno_defs)
next
  case (Some path)
  obtain ok s1 where 1: "os_new s = (ok, s1)" by fastforce
  obtain ok2 s2 where 2: "os_new s1 = (ok2, s2)" by fastforce
  obtain ok3 s3 where 3: "os_new s2 = (ok3, s3)" by fastforce
  show ?thesis
  proof (cases "ok \<and> ok2 \<and> ok3")
    case True
    with assms Some 1 2 3 obtain i r pre where p: "side_properties ''input'' (pm_input (sg_model g)) = Ret i"
        "side_properties ''output'' (pm_output (sg_model g)) = Ret r" "pre_pipeline (gs_signed_char G) g = Ret pre"
        "prepare_in_thread G (pipeline_text g pre path i r) g (os_delete s3, e) = Ret ((ret, request, response), g', s', e')"
      by (auto simp: Gst_Prepare_def obind_eq_Ret Let_def)
    from prepare_in_thread_launches [OF p(4)] p Some show ?thesis by (auto simp: launches_def)
  next
    case False
    with assms Some 1 2 3 show ?thesis by (auto simp: Gst_Prepare_def obind_eq_Ret Let_def errno_defs split: if_splits)
  qed
qed

text \<open>A machine on which every pipeline plays and whose filter reports one image.\<close>

definition ex_launched :: launched where
  "ex_launched = \<lparr>la_error = False, la_pipeline = True, la_bus = True, la_watch = True, la_elements = True, la_playing = True,
    la_source_port = \<lambda>p. 5001, la_sink_port = \<lambda>p. 5002,
    la_filter = \<lambda>p. if p = ''inputranks'' then Some ''3'' else if p = ''inputtype'' then Some ''uint8''
      else if p = ''input'' then Some ''3:224:224:1'' else None\<rparr>"

definition ex_gstreamer :: "unit gstreamer" where
  "ex_gstreamer = \<lparr>gs_launch = \<lambda>d e. (ex_launched, e), gs_signed_char = True, gs_junk = 0\<rparr>"

definition ex_gst :: server_gst where
  "ex_gst = (Gst_new ''0'' (3, 4))\<lparr>sg_model := Model_new\<lparr>pm_path := Some ''/m/a.tflite''\<rparr>\<rparr>"

lemma prepare_launches_witness:
  "\<exists>g' s'. Gst_Prepare ex_gstreamer ex_gst (\<lparr>open_fds = {3, 4}, next_fd = 5, live = 7, faults = []\<rparr>, ()) = Ret ((0, 5001, 5002), g', s', ())
    \<and> learned 0 ex_launched (sg_model ex_gst) (sg_model g')"
proof -
  let ?s = "\<lparr>open_fds = {3, 4}, next_fd = 5, live = 7, faults = []\<rparr> :: os"
  have "\<exists>g' s'. Gst_Prepare ex_gstreamer ex_gst (?s, ()) = Ret ((0, 5001, 5002), g', s', ())"
    by (simp add: Gst_Prepare_def ex_gst_def Gst_new_def Model_new_def ex_gstreamer_def side_properties_def pre_pipeline_def os_new_def
      os_call_def pop_def prepare_in_thread_def send_message_def thread_takes_def CommandHandlerPrepare_def lose_def learn_input_def
      learn_output_def Model_SetInput_def free_infos_def FreeTensorInfo_def
      read_filter_def ex_launched_def ExtractTensorInfo_def read_ranks_def digit_value_def
      TensorTypeStringToType_def dims_parser_def DimsParser3_def sscanf_ints_def scan_int_def is_space_def scan_nat_def numeral_3_eq_3
      parsed_def int_times_def int_fits_def INT_LIMIT_def errno_defs Let_def)
  then obtain g' s' where p: "Gst_Prepare ex_gstreamer ex_gst (?s, ()) = Ret ((0, 5001, 5002), g', s', ())" by blast
  from prepare_launches [OF p] p show ?thesis by (auto simp: ex_gstreamer_def)
qed

end
