(* ===== verification/Server_Grpc.thy ===== *)
theory Server_Grpc
  imports Server_Gst Peer_Info
begin

text \<open>
  \<^verbatim>\<open>libbeyond-peer_nn/src/peer_grpc_server.cc\<close> and \<^verbatim>\<open>peer_grpc_server_auth.cc\<close>: the server of a peer, which keeps one pipeline for every
  client it has exchanged keys with and answers the calls of \<^verbatim>\<open>proto/peer_nn.proto\<close>. gRPC calls the metadata processor first when the
  channel is secured, then the method. What gRPC, the authenticator, the files and GStreamer do are parameters; a request carries
  texts without zero bytes. The requests are those of the client (\<open>Peer_Client\<close>).
\<close>

section \<open>State\<close>

text \<open>The peer the server belongs to, as far as the server uses it.\<close>

record server_peer =
  sp_info :: "nn_info option"
  sp_caAuthenticator :: ptr
  sp_authenticator :: ptr
  sp_storagePath :: string

text \<open>\<^verbatim>\<open>clientMap\<close> is sorted by the ids; a null pointer is None.\<close>

type_synonym client_map = "(string \<times> server_gst option) list"

record grpc_server =
  gr_peer :: server_peer
  gr_nextPeerId :: "64 word"
  gr_clients :: client_map

text \<open>The order of \<^verbatim>\<open>std::string\<close>, and assignment through \<open>operator[]\<close>.\<close>

fun before :: "string \<Rightarrow> string \<Rightarrow> bool" where
  "before s [] = False"
| "before [] (d # ds) = True"
| "before (c # cs) (d # ds) = (of_char c < (of_char d :: nat) \<or> c = d \<and> before cs ds)"

fun insert_client :: "string \<Rightarrow> server_gst option \<Rightarrow> client_map \<Rightarrow> client_map" where
  "insert_client k v [] = [(k, v)]"
| "insert_client k v ((k', v') # m) = (if before k k' then (k, v) # (k', v') # m else (k', v') # insert_client k v m)"

fun replace_client :: "string \<Rightarrow> server_gst option \<Rightarrow> client_map \<Rightarrow> client_map" where
  "replace_client k v [] = []"
| "replace_client k v ((k', v') # m) = (if k' = k then (k, v) # m else (k', v') # replace_client k v m)"

definition put_client :: "string \<Rightarrow> server_gst option \<Rightarrow> client_map \<Rightarrow> client_map" where
  "put_client k v m =
    (if map_of m k = None then insert_client k v m else replace_client k v m)"

record 'e service = "'e gstreamer" +
  se_listen :: "string \<Rightarrow> bool \<Rightarrow> 'e \<Rightarrow> int option \<times> 'e" \<comment> \<open>the port a server at an address listens on, secured or not\<close>
  se_decrypt :: "ptr \<Rightarrow> string \<Rightarrow> 'e \<Rightarrow> int \<times> 'e" \<comment> \<open>with the private key of an authenticator\<close>
  se_result :: "ptr \<Rightarrow> 'e \<Rightarrow> (int \<times> string option) \<times> 'e"
  se_readable :: "string \<Rightarrow> 'e \<Rightarrow> bool \<times> 'e" \<comment> \<open>\<^verbatim>\<open>access\<close>\<close>
  se_fopen :: "string \<Rightarrow> 'e \<Rightarrow> int \<times> 'e" \<comment> \<open>the error of opening a file for writing, 0 when it can be opened\<close>
  se_fwrite :: "string \<Rightarrow> string \<Rightarrow> 'e \<Rightarrow> (int \<times> int) \<times> 'e" \<comment> \<open>the number of bytes written, and \<^verbatim>\<open>ferror\<close>\<close>
  se_contents :: "string \<Rightarrow> 'e \<Rightarrow> string list \<times> 'e" \<comment> \<open>the messages of an upload\<close>
  se_resources :: "string \<Rightarrow> 'e \<Rightarrow> (64 word \<times> 64 word) \<times> 'e" \<comment> \<open>free memory and free storage\<close>

section \<open>Start and end\<close>

definition Server_new :: "server_peer \<Rightarrow> grpc_server" where
  "Server_new peer = \<lparr>gr_peer = peer, gr_nextPeerId = 0, gr_clients = []\<rparr>"

text \<open>\<open>Create\<close>: the channel is secured when there are a certificate and a private key. The port goes into the peer's information.\<close>

definition Server_Create ::
    "'e service \<Rightarrow> server_peer \<Rightarrow> string option \<Rightarrow> string option \<Rightarrow> string option \<Rightarrow> os \<times> 'e \<Rightarrow> grpc_server option \<times> server_peer \<times> os \<times> 'e" where
  "Server_Create E peer address certificate privateKey w =
    (case w of (s, e) \<Rightarrow>
      case address of
        None \<Rightarrow> (None, peer, s, e)
      | Some address \<Rightarrow>
          let (ok, s1) = os_new s in
          if \<not> ok then (None, peer, s1, e)
          else let (port, e1) = se_listen E address (certificate \<noteq> None \<and> privateKey \<noteq> None) e in
            (case port of
              None \<Rightarrow> (None, peer, os_delete s1, e1)
            | Some port \<Rightarrow>
                let peer = peer\<lparr>sp_info := map_option (\<lambda>i. i\<lparr>ni_port := word_of_int port\<rparr>) (sp_info peer)\<rparr>;
                    (status, s2) = os_call s1 in
                if status \<noteq> 0 then (None, peer, os_delete s2, e1) else (Some (Server_new peer), peer, s2, e1)))"

fun destroy_clients :: "client_map \<Rightarrow> os \<Rightarrow> os outcome" where
  "destroy_clients [] s = Ret s"
| "destroy_clients ((pid, g) # m) s = (case g of None \<Rightarrow> Undefined | Some g \<Rightarrow> obind (Gst_Destroy g s) (destroy_clients m))"

definition Server_Destroy :: "grpc_server \<Rightarrow> os \<Rightarrow> os outcome" where
  "Server_Destroy gr s = (let (status, s1) = os_call s in obind (destroy_clients (gr_clients gr) s1) (\<lambda>s2. Ret (os_delete s2)))"

section \<open>Responses\<close>

definition response :: "int \<Rightarrow> rpc_response" where
  "response status = \<lparr>rr_ok = True, rr_status = status, rr_id = [], rr_infos = [], rr_ports = (0, 0), rr_runtimes = [],
    rr_free_memory = 0, rr_free_storage = 0\<rparr>"

text \<open>A call that does not end with OK, with the status its message has.\<close>

definition refused :: "int \<Rightarrow> rpc_response" where
  "refused status = (response status)\<lparr>rr_ok := False\<rparr>"

section \<open>The client of a call\<close>

text \<open>
  \<open>GetGst\<close> with the id of the metadata, if there is one. An id that is not in the map is put into it with a null pointer, and the null
  pointer is a success.
\<close>

definition GetGst :: "string option \<Rightarrow> grpc_server \<Rightarrow> int \<times> server_gst option \<times> grpc_server" where
  "GetGst peerId gr =
    (case peerId of
      None \<Rightarrow> (- EINVAL, None, gr)
    | Some [] \<Rightarrow> (- ENOENT, None, gr)
    | Some pid \<Rightarrow>
        (case map_of (gr_clients gr) pid of
          None \<Rightarrow> (0, None, gr\<lparr>gr_clients := put_client pid None (gr_clients gr)\<rparr>)
        | Some g \<Rightarrow> (0, g, gr)))"

type_synonym ('w, 'e) answered = "(rpc_response \<times> 'w \<times> os \<times> 'e) outcome"

definition with_gst ::
    "string option \<Rightarrow> (server_gst \<Rightarrow> os \<times> 'e \<Rightarrow> (server_gst, 'e) answered) \<Rightarrow> grpc_server \<Rightarrow> os \<times> 'e \<Rightarrow> (grpc_server, 'e) answered" where
  "with_gst peerId f gr w =
    (let (ret, gst, gr1) = GetGst peerId gr in
     if ret < 0 then Ret (refused (- ENOENT), gr1, w)
     else case gst of
       None \<Rightarrow> Undefined
     | Some g \<Rightarrow> obind (f g w) (\<lambda>(r, g', w'). Ret (r, gr1\<lparr>gr_clients := put_client (the peerId) (Some g') (gr_clients gr1)\<rparr>, w')))"

section \<open>Configuration\<close>

text \<open>Every text of a message is there, the empty one when the client did not set it.\<close>

definition message_text :: "string option \<Rightarrow> string option" where
  "message_text t = Some (case t of None \<Rightarrow> [] | Some t \<Rightarrow> t)"

definition configure_session :: "server_description \<Rightarrow> server_gst \<Rightarrow> os \<times> 'e \<Rightarrow> (server_gst, 'e) answered" where
  "configure_session request g w =
     (let (ret, g') = Gst_Configure \<lparr>sd_input_type = sd_input_type request,
          sd_preprocessing = message_text (sd_preprocessing request), sd_postprocessing = message_text (sd_postprocessing request),
          sd_framework = message_text (sd_framework request), sd_accel = message_text (sd_accel request)\<rparr> g in
      Ret (response ret, g', w))"

definition Server_Configure :: "string option \<Rightarrow> server_description \<Rightarrow> grpc_server \<Rightarrow> os \<times> 'e \<Rightarrow> (grpc_server, 'e) answered" where
  "Server_Configure peerId request = with_gst peerId (configure_session request)"

section \<open>The exchange of keys\<close>

text \<open>
  The credential in a block of memory: the bytes of numbers, lowest first, and \<^verbatim>\<open>strncmp\<close> of a uuid with the block from an offset on.
  \<open>None\<close> is a read behind the end of the block, whose size nobody compares with anything.
\<close>

definition chars_value :: "string \<Rightarrow> nat" where
  "chars_value s = le_value (map (\<lambda>c. word_of_nat (of_char c)) s)"

fun same_text :: "string \<Rightarrow> string \<Rightarrow> bool option" where
  "same_text [] cred = Some True"
| "same_text (c # cs) [] = None"
| "same_text (c # cs) (b # bs) = (if c = b then same_text cs bs else Some False)"

definition PAYLOAD :: nat where "PAYLOAD = 49"

definition cred_nonce :: "string \<Rightarrow> 64 word" where
  "cred_nonce cred = word_of_nat (chars_value (take 8 cred))"

definition cred_length :: "string \<Rightarrow> int" where
  "cred_length cred = sint (word_of_nat (chars_value (take 4 (drop 8 cred))) :: 32 word)"

text \<open>A negative length is a huge one for \<^verbatim>\<open>std::string\<close>, which throws.\<close>

definition cred_key :: "string \<Rightarrow> string outcome" where
  "cred_key cred =
    (if cred_length cred < 0 then Aborted
     else if int (length cred) < int PAYLOAD + cred_length cred then Undefined
     else Ret (take (nat (cred_length cred)) (drop PAYLOAD cred)))"

text \<open>A client gets its id, its pipeline and what the credential sets; a pipeline that was under the id is overwritten.\<close>

definition register :: "(server_gst \<Rightarrow> server_gst outcome) \<Rightarrow> grpc_server \<Rightarrow> os \<Rightarrow> (rpc_response \<times> grpc_server \<times> os) outcome" where
  "register init gr s =
    (let pid = to_string (uint (gr_nextPeerId gr)) in
     obind (Gst_Create pid s) (\<lambda>(gst, s1).
       case gst of
         None \<Rightarrow> Ret (response (- EFAULT), gr, s1)
       | Some g \<Rightarrow> obind (init g) (\<lambda>g.
           Ret ((response 0)\<lparr>rr_id := pid\<rparr>,
             gr\<lparr>gr_clients := put_client pid (Some g) (gr_clients gr), gr_nextPeerId := gr_nextPeerId gr + 1\<rparr>, s1))))"

text \<open>With an authenticator the request has to decrypt to a credential with the uuid of the peer, whose information has to exist.\<close>

definition exchange_credential :: "string \<Rightarrow> grpc_server \<Rightarrow> os \<Rightarrow> (rpc_response \<times> grpc_server \<times> os) outcome" where
  "exchange_credential cred gr s =
    (case sp_info (gr_peer gr) of
      None \<Rightarrow> Undefined
    | Some info \<Rightarrow>
        (case same_text (ni_uuid info) (drop 12 cred) of
          None \<Rightarrow> Undefined
        | Some False \<Rightarrow> Ret (response (- EINVAL), gr, s)
        | Some True \<Rightarrow>
            register (\<lambda>g. obind (cred_key cred) (\<lambda>key. Ret (Gst_SetNonce (cred_nonce cred) (Gst_SetSecret key g)))) gr s))"

definition Server_ExchangeKey :: "'e service \<Rightarrow> string \<Rightarrow> grpc_server \<Rightarrow> os \<times> 'e \<Rightarrow> (grpc_server, 'e) answered" where
  "Server_ExchangeKey E key gr w =
    (case w of (s, e) \<Rightarrow>
      let auth = (if sp_caAuthenticator (gr_peer gr) \<noteq> nullptr then sp_caAuthenticator (gr_peer gr) else sp_authenticator (gr_peer gr)) in
      if auth \<noteq> nullptr then
        let (ret, e1) = se_decrypt E auth key e in
        if ret < 0 then Ret (response ret, gr, s, e1)
        else let ((ret, result), e2) = se_result E auth e1 in
        if ret < 0 then Ret (response ret, gr, s, e2)
        else case result of
          None \<Rightarrow> Ret (response (- EFAULT), gr, s, e2)
        | Some [] \<Rightarrow> Ret (response (- EFAULT), gr, s, e2)
        | Some cred \<Rightarrow> obind (exchange_credential cred gr s) (\<lambda>(r, gr, s). Ret (r, gr, s, e2))
      else obind (register (\<lambda>g. Ret (Gst_SetSecret [] g)) gr s) (\<lambda>(r, gr, s). Ret (r, gr, s, e)))"

section \<open>Models\<close>

text \<open>The name of a file without its directories.\<close>

definition base_name :: "string \<Rightarrow> string" where
  "base_name filename = rev (takeWhile (\<lambda>c. c \<noteq> CHR ''/'' \<and> c \<noteq> CHR 0x5C) (rev filename))"

definition stored_path :: "string \<Rightarrow> string \<Rightarrow> string" where
  "stored_path storagePath filename =
    (if storagePath \<noteq> []
     then storagePath @ (if last storagePath \<noteq> CHR ''/'' then ''/'' else []) @ base_name filename
     else base_name filename)"

definition load_session :: "'e service \<Rightarrow> string \<Rightarrow> server_gst \<Rightarrow> os \<times> 'e \<Rightarrow> (server_gst, 'e) answered" where
  "load_session E path g w =
    (case w of (s, e) \<Rightarrow>
      let (ret, m, s1) = SetModelPath path (sg_model g) s;
          g' = g\<lparr>sg_model := m\<rparr> in
      if ret \<noteq> 0 then Ret (response ret, g', s1, e)
      else let (readable, e1) = se_readable E path e in Ret (response (if readable then 0 else - ENOENT), g', s1, e1))"

definition Server_LoadModel :: "'e service \<Rightarrow> string option \<Rightarrow> string \<Rightarrow> grpc_server \<Rightarrow> os \<times> 'e \<Rightarrow> (grpc_server, 'e) answered" where
  "Server_LoadModel E peerId filename gr =
    with_gst peerId (load_session E (stored_path (sp_storagePath (gr_peer gr)) filename)) gr"

text \<open>
  Writing the messages of an upload. A message that is not written as a whole ends the loop with the error flag of the file, which
  is no error number, and an empty message ends it with success.
\<close>

fun write_chunks :: "'e service \<Rightarrow> string \<Rightarrow> string list \<Rightarrow> 'e \<Rightarrow> int \<times> 'e" where
  "write_chunks E path [] e = (0, e)"
| "write_chunks E path (c # cs) e =
    (let ((sz, flag), e1) = se_fwrite E path c e in
     if sz \<le> 0 \<or> sz \<noteq> int (length c) then (- flag, e1) else write_chunks E path cs e1)"

definition upload_session :: "'e service \<Rightarrow> string list \<Rightarrow> server_gst \<Rightarrow> os \<times> 'e \<Rightarrow> (server_gst, 'e) answered" where
  "upload_session E chunks g w =
    (case w of (s, e) \<Rightarrow>
      case pm_path (sg_model g) of
        None \<Rightarrow> Ret (refused 0, g, s, e)
      | Some path \<Rightarrow>
          let (errno, e1) = se_fopen E path e in
          if errno \<noteq> 0 then Ret (response (- errno), g, s, e1)
          else let (ret, e2) = write_chunks E path chunks e1 in Ret (response ret, g, s, e2))"

definition Server_UploadModel :: "'e service \<Rightarrow> string option \<Rightarrow> string list \<Rightarrow> grpc_server \<Rightarrow> os \<times> 'e \<Rightarrow> (grpc_server, 'e) answered" where
  "Server_UploadModel E peerId chunks = with_gst peerId (upload_session E chunks)"

section \<open>Tensor information\<close>

text \<open>\<open>InfoToResponse\<close>; a null \<open>dims\<close> is dereferenced.\<close>

fun InfoToResponse :: "tensor_info list \<Rightarrow> (int \<times> int \<times> string \<times> int list) list outcome" where
  "InfoToResponse [] = Ret []"
| "InfoToResponse (x # xs) =
    (case ti_dims x of
      None \<Rightarrow> Undefined
    | Some dims \<Rightarrow> obind (InfoToResponse xs) (\<lambda>infos.
        Ret ((ti_type x, ti_size x, (case ti_name x of None \<Rightarrow> [] | Some n \<Rightarrow> n), dims) # infos)))"

text \<open>\<open>RequestToInfo\<close> builds the array by the same steps as a copy; every element has a name.\<close>

definition RequestToInfo ::
    "(int \<times> int \<times> string \<times> int list) list \<Rightarrow> os \<Rightarrow> (int \<times> tensor_info list option \<times> os) outcome" where
  "RequestToInfo request s =
    (let (ok, s1) = os_new s in
     if \<not> ok then Ret (- ENOMEM, None, s1)
     else dup_tensor_infos []
       (map (\<lambda>(type, sz, name, dims). \<lparr>ti_type = type, ti_size = sz, ti_name = Some name, ti_dims = Some dims\<rparr>) request) s1)"

text \<open>
  A get: in a debug build a model without information aborts the server. \<open>nd\<close> says that \<^verbatim>\<open>NDEBUG\<close> is defined.
\<close>

definition get_infos :: "bool \<Rightarrow> tensor_info list option \<Rightarrow> rpc_response outcome" where
  "get_infos nd info =
    (if \<not> nd \<and> (info = None \<or> info = Some []) then Aborted
     else obind (InfoToResponse (case info of None \<Rightarrow> [] | Some xs \<Rightarrow> xs)) (\<lambda>infos. Ret ((response 0)\<lparr>rr_infos := infos\<rparr>)))"

definition get_input_session :: "bool \<Rightarrow> server_gst \<Rightarrow> os \<times> 'e \<Rightarrow> (server_gst, 'e) answered" where
  "get_input_session nd g w = obind (get_infos nd (pm_input (sg_model g))) (\<lambda>r. Ret (r, g, w))"

definition Server_GetInputTensorInfo :: "bool \<Rightarrow> string option \<Rightarrow> grpc_server \<Rightarrow> os \<times> 'e \<Rightarrow> (grpc_server, 'e) answered" where
  "Server_GetInputTensorInfo nd peerId = with_gst peerId (get_input_session nd)"

definition get_output_session :: "bool \<Rightarrow> server_gst \<Rightarrow> os \<times> 'e \<Rightarrow> (server_gst, 'e) answered" where
  "get_output_session nd g w = obind (get_infos nd (pm_output (sg_model g))) (\<lambda>r. Ret (r, g, w))"

definition Server_GetOutputTensorInfo :: "bool \<Rightarrow> string option \<Rightarrow> grpc_server \<Rightarrow> os \<times> 'e \<Rightarrow> (grpc_server, 'e) answered" where
  "Server_GetOutputTensorInfo nd peerId = with_gst peerId (get_output_session nd)"

definition set_input_session ::
    "(int \<times> int \<times> string \<times> int list) list \<Rightarrow> server_gst \<Rightarrow> os \<times> 'e \<Rightarrow> (server_gst, 'e) answered" where
  "set_input_session request g w =
    (case w of (s, e) \<Rightarrow> obind (RequestToInfo request s) (\<lambda>(ret, info, s1).
      if ret < 0 then Ret (refused ret, g, s1, e)
      else let (ret, m, s2) = Model_SetInput info (sg_model g) s1 in Ret (response ret, g\<lparr>sg_model := m\<rparr>, s2, e)))"

definition Server_SetInputTensorInfo ::
    "string option \<Rightarrow> (int \<times> int \<times> string \<times> int list) list \<Rightarrow> grpc_server \<Rightarrow> os \<times> 'e \<Rightarrow> (grpc_server, 'e) answered" where
  "Server_SetInputTensorInfo peerId request = with_gst peerId (set_input_session request)"

definition set_output_session ::
    "(int \<times> int \<times> string \<times> int list) list \<Rightarrow> server_gst \<Rightarrow> os \<times> 'e \<Rightarrow> (server_gst, 'e) answered" where
  "set_output_session request g w =
    (case w of (s, e) \<Rightarrow> obind (RequestToInfo request s) (\<lambda>(ret, info, s1).
      if ret < 0 then Ret (refused ret, g, s1, e)
      else let (ret, m, s2) = Model_SetOutput info (sg_model g) s1 in Ret (response ret, g\<lparr>sg_model := m\<rparr>, s2, e)))"

definition Server_SetOutputTensorInfo ::
    "string option \<Rightarrow> (int \<times> int \<times> string \<times> int list) list \<Rightarrow> grpc_server \<Rightarrow> os \<times> 'e \<Rightarrow> (grpc_server, 'e) answered" where
  "Server_SetOutputTensorInfo peerId request = with_gst peerId (set_output_session request)"

section \<open>Preparation, stop and information\<close>

definition prepare_session :: "'e service \<Rightarrow> server_gst \<Rightarrow> os \<times> 'e \<Rightarrow> (server_gst, 'e) answered" where
  "prepare_session E g w =
    obind (Gst_Prepare (gstreamer.truncate E) g w) (\<lambda>((ret, request, resp), g', w').
      Ret ((response ret)\<lparr>rr_ports := (request, resp)\<rparr>, g', w'))"

definition Server_Prepare :: "'e service \<Rightarrow> string option \<Rightarrow> grpc_server \<Rightarrow> os \<times> 'e \<Rightarrow> (grpc_server, 'e) answered" where
  "Server_Prepare E peerId = with_gst peerId (prepare_session E)"

definition stop_session :: "server_gst \<Rightarrow> os \<times> 'e \<Rightarrow> (server_gst, 'e) answered" where
  "stop_session g w = (case w of (s, e) \<Rightarrow> let (ret, g', s1) = Gst_Stop g s in Ret (response ret, g', s1, e))"

definition Server_Stop :: "string option \<Rightarrow> grpc_server \<Rightarrow> os \<times> 'e \<Rightarrow> (grpc_server, 'e) answered" where
  "Server_Stop peerId = with_gst peerId stop_session"

text \<open>\<open>GetInfo\<close>: null names are undefined. What is free is measured and kept in the peer's information.\<close>

definition runtime_names :: "runtime_info list option \<Rightarrow> device_runtimes option" where
  "runtime_names runtimes =
    (let rs = (case runtimes of None \<Rightarrow> [] | Some rs \<Rightarrow> rs);
         devices = (\<lambda>r. case ri_devices r of None \<Rightarrow> [] | Some ds \<Rightarrow> ds) in
     if list_all (\<lambda>r. ri_name r \<noteq> None \<and> list_all (\<lambda>d. d \<noteq> None) (devices r)) rs
     then Some (map (\<lambda>r. (the (ri_name r), map the (devices r))) rs) else None)"

definition Server_GetInfo :: "'e service \<Rightarrow> grpc_server \<Rightarrow> os \<times> 'e \<Rightarrow> (grpc_server, 'e) answered" where
  "Server_GetInfo E gr w =
    (case w of (s, e) \<Rightarrow>
      case sp_info (gr_peer gr) of
        None \<Rightarrow> Ret (refused 0, gr, s, e)
      | Some info \<Rightarrow>
          (case runtime_names (ni_runtimes info) of
            None \<Rightarrow> Undefined
          | Some runtimes \<Rightarrow>
              let ((mem, storage), e1) = se_resources E (sp_storagePath (gr_peer gr)) e;
                  info = info\<lparr>ni_free_memory := mem, ni_free_storage := storage\<rparr> in
              Ret ((response 0)\<lparr>rr_runtimes := runtimes, rr_free_memory := mem, rr_free_storage := storage\<rparr>,
                gr\<lparr>gr_peer := (gr_peer gr)\<lparr>sp_info := Some info\<rparr>\<rparr>, s, e1)))"

section \<open>A call\<close>

definition service_call ::
    "'e service \<Rightarrow> bool \<Rightarrow> string option \<Rightarrow> rpc_request \<Rightarrow> grpc_server \<Rightarrow> os \<times> 'e \<Rightarrow> (grpc_server, 'e) answered" where
  "service_call E nd peerId request gr w =
    (case request of
      RpcConfigure server \<Rightarrow> Server_Configure peerId server gr w
    | RpcExchangeKey key \<Rightarrow> Server_ExchangeKey E key gr w
    | RpcLoadModel filename \<Rightarrow> Server_LoadModel E peerId filename gr w
    | RpcUploadModel filename \<Rightarrow>
        let (chunks, e1) = se_contents E filename (snd w) in Server_UploadModel E peerId chunks gr (fst w, e1)
    | RpcGetInputTensorInfo \<Rightarrow> Server_GetInputTensorInfo nd peerId gr w
    | RpcGetOutputTensorInfo \<Rightarrow> Server_GetOutputTensorInfo nd peerId gr w
    | RpcSetInputTensorInfo infos \<Rightarrow> Server_SetInputTensorInfo peerId infos gr w
    | RpcSetOutputTensorInfo infos \<Rightarrow> Server_SetOutputTensorInfo peerId infos gr w
    | RpcPrepare \<Rightarrow> Server_Prepare E peerId gr w
    | RpcStop \<Rightarrow> Server_Stop peerId gr w
    | RpcGetInfo \<Rightarrow> Server_GetInfo E gr w)"

section \<open>Authentication\<close>

text \<open>\<^verbatim>\<open>strncmp\<close> finds no difference in the first \<open>n\<close> characters of two texts.\<close>

fun strncmp_same :: "nat \<Rightarrow> string \<Rightarrow> string \<Rightarrow> bool" where
  "strncmp_same 0 a b = True"
| "strncmp_same (Suc n) [] b = (b = [])"
| "strncmp_same (Suc n) (c # cs) [] = False"
| "strncmp_same (Suc n) (c # cs) (d # ds) = (c = d \<and> strncmp_same n cs ds)"

record metadata =
  md_method :: "string option"
  md_id :: "string option"
  md_nonce :: "string option"

datatype auth_status = AuthOK | Unauthenticated | InvalidArgument | NotFound

text \<open>\<open>Process\<close> believes the name of the method that the client puts into the metadata, of which any beginning of ExchangeKey is enough.\<close>

definition Auth_Process :: "metadata \<Rightarrow> grpc_server \<Rightarrow> (auth_status \<times> grpc_server) outcome" where
  "Auth_Process md gr =
    (case md_method md of
      None \<Rightarrow> Ret (Unauthenticated, gr)
    | Some [] \<Rightarrow> Ret (Unauthenticated, gr)
    | Some m \<Rightarrow>
        if strncmp_same (length m) m ''ExchangeKey'' then Ret (AuthOK, gr)
        else case md_id md of
          None \<Rightarrow> Ret (InvalidArgument, gr)
        | Some [] \<Rightarrow> Ret (InvalidArgument, gr)
        | Some pid \<Rightarrow>
            let (_, gst, gr1) = GetGst (Some pid) gr in
            (case gst of
              None \<Rightarrow> Ret (NotFound, gr1)
            | Some g \<Rightarrow> obind (Gst_GetNonce g) (\<lambda>nonce.
                case md_nonce md of
                  None \<Rightarrow> Ret (Unauthenticated, gr1)
                | Some [] \<Rightarrow> Ret (Unauthenticated, gr1)
                | Some text \<Rightarrow>
                    if to_string (uint nonce) \<noteq> text then Ret (Unauthenticated, gr1)
                    else Ret (AuthOK, gr1\<lparr>gr_clients := put_client pid (Some (Gst_SetNonce (nonce + 1) g)) (gr_clients gr1)\<rparr>))))"

text \<open>A call over the channel of the server: on a secured one the processor comes first.\<close>

definition Server_call ::
    "'e service \<Rightarrow> bool \<Rightarrow> bool \<Rightarrow> metadata \<Rightarrow> rpc_request \<Rightarrow> grpc_server \<Rightarrow> os \<times> 'e \<Rightarrow> (grpc_server, 'e) answered" where
  "Server_call E nd secured md request gr w =
    (if \<not> secured then service_call E nd (md_id md) request gr w
     else obind (Auth_Process md gr) (\<lambda>(status, gr).
       if status = AuthOK then service_call E nd (md_id md) request gr w else Ret (refused 0, gr, w)))"

text \<open>A sequence of calls, as they arrive.\<close>

fun run_calls ::
    "'e service \<Rightarrow> bool \<Rightarrow> bool \<Rightarrow> (metadata \<times> rpc_request) list \<Rightarrow> grpc_server \<Rightarrow> os \<times> 'e \<Rightarrow> (rpc_response list \<times> grpc_server \<times> os \<times> 'e) outcome" where
  "run_calls E nd secured [] gr w = Ret ([], gr, w)"
| "run_calls E nd secured ((md, request) # calls) gr w =
    obind (Server_call E nd secured md request gr w) (\<lambda>(r, gr, w).
    obind (run_calls E nd secured calls gr w) (\<lambda>(rs, gr, w). Ret (r # rs, gr, w)))"

section \<open>The map\<close>

lemma set_insert_client: "set (insert_client k v m) = insert (k, v) (set m)"
  by (induction k v m rule: insert_client.induct) auto

lemma insert_client_new:
  assumes "map_of m k = None"
  shows "map_of (insert_client k v m) = (map_of m)(k \<mapsto> v)"
    and "distinct (map fst m) \<Longrightarrow> distinct (map fst (insert_client k v m))"
proof -
  show "map_of (insert_client k v m) = (map_of m)(k \<mapsto> v)"
    using assms by (induction k v m rule: insert_client.induct) (auto split: if_splits)
  have "k \<notin> fst ` set m" using assms by (simp add: map_of_eq_None_iff)
  then show "distinct (map fst m) \<Longrightarrow> distinct (map fst (insert_client k v m))"
    by (induction k v m rule: insert_client.induct) (auto simp: set_insert_client)
qed

lemma replace_client_old:
  assumes "map_of m k \<noteq> None"
  shows "map_of (replace_client k v m) = (map_of m)(k \<mapsto> v)"
    and "map fst (replace_client k v m) = map fst m"
proof -
  show "map_of (replace_client k v m) = (map_of m)(k \<mapsto> v)"
    using assms by (induction k v m rule: replace_client.induct) (auto split: if_splits)
  show "map fst (replace_client k v m) = map fst m"
    by (induction k v m rule: replace_client.induct) auto
qed

lemma map_of_put_client [simp]: "map_of (put_client k v m) = (map_of m)(k \<mapsto> v)"
  by (simp add: put_client_def insert_client_new replace_client_old)

lemma distinct_put_client: "distinct (map fst m) \<Longrightarrow> distinct (map fst (put_client k v m))"
  by (simp add: put_client_def insert_client_new replace_client_old)

text \<open>Sums over the entries.\<close>

definition over_clients :: "(server_gst \<Rightarrow> int) \<Rightarrow> client_map \<Rightarrow> int" where
  "over_clients f m = (\<Sum>(k, v) \<leftarrow> m. case v of None \<Rightarrow> 0 | Some g \<Rightarrow> f g)"

lemma over_clients_simps [simp]:
  "over_clients f [] = 0"
  "over_clients f ((k, v) # m) = (case v of None \<Rightarrow> 0 | Some g \<Rightarrow> f g) + over_clients f m"
  by (simp_all add: over_clients_def)

lemma over_clients_insert: "over_clients f (insert_client k v m) = (case v of None \<Rightarrow> 0 | Some g \<Rightarrow> f g) + over_clients f m"
  by (induction k v m rule: insert_client.induct) auto

lemma over_clients_replace:
  "map_of m k = Some u \<Longrightarrow> over_clients f (replace_client k v m) =
    over_clients f m - (case u of None \<Rightarrow> 0 | Some g \<Rightarrow> f g) + (case v of None \<Rightarrow> 0 | Some g \<Rightarrow> f g)"
  by (induction k v m rule: replace_client.induct) (auto split: if_splits)

lemma over_clients_put:
  "over_clients f (put_client k v m) =
    over_clients f m - (case map_of m k of Some (Some g) \<Rightarrow> f g | _ \<Rightarrow> 0) + (case v of None \<Rightarrow> 0 | Some g \<Rightarrow> f g)"
  by (cases "map_of m k") (simp_all add: put_client_def over_clients_insert over_clients_replace split: option.split)

section \<open>Operations on a client\<close>

text \<open>
  What every operation on the pipeline of one client keeps: the table of descriptors, the identity and the secrets of the client, and
  it never frees more than the pipeline has.
\<close>

definition session_keeps :: "server_gst \<Rightarrow> os \<Rightarrow> server_gst \<Rightarrow> os \<Rightarrow> bool" where
  "session_keeps g s g' s' \<longleftrightarrow> same_table s s' \<and> live s - gst_objects g \<le> live s' - gst_objects g'
    \<and> sg_fds g' = sg_fds g \<and> sg_peerId g' = sg_peerId g \<and> sg_secretKey g' = sg_secretKey g \<and> sg_nonce g' = sg_nonce g"

text \<open>The descriptors of the clients.\<close>

definition fds_of :: "server_gst option option \<Rightarrow> int set" where
  "fds_of x = (case x of Some (Some g) \<Rightarrow> {fst (sg_fds g), snd (sg_fds g)} | _ \<Rightarrow> {})"

definition client_fds :: "client_map \<Rightarrow> int set" where
  "client_fds m = (\<Union>p. fds_of (map_of m p))"

lemma fds_of_simps [simp]: "fds_of None = {}" "fds_of (Some None) = {}" "fds_of (Some (Some g)) = {fst (sg_fds g), snd (sg_fds g)}"
  by (simp_all add: fds_of_def)

text \<open>
  The invariant of a server, with the descriptors \<open>F\<close> of others and the number of their objects, counted from below: the
  clients' descriptors are open and nobody else's, their objects are there, and the ids of the clients were given out already.
\<close>

definition server_ok :: "int set \<Rightarrow> int \<Rightarrow> grpc_server \<Rightarrow> os \<Rightarrow> bool" where
  "server_ok F base gr s \<longleftrightarrow> os_wf s \<and> distinct (map fst (gr_clients gr))
    \<and> open_fds s = F \<union> client_fds (gr_clients gr) \<and> F \<inter> client_fds (gr_clients gr) = {}
    \<and> base \<le> live s - over_clients gst_objects (gr_clients gr)
    \<and> (\<forall>p g. map_of (gr_clients gr) p = Some (Some g) \<longrightarrow> p \<in> to_string ` {0..<uint (gr_nextPeerId gr)})"

lemma client_fds_put:
  "fds_of (map_of m k) = fds_of (Some v) \<Longrightarrow> client_fds (put_client k v m) = client_fds m"
  "fds_of (map_of m k) = {} \<Longrightarrow> client_fds (put_client k v m) = fds_of (Some v) \<union> client_fds m"
proof -
  have u: "fds_of (((map_of m)(k \<mapsto> v)) p) = (if p = k then fds_of (Some v) else fds_of (map_of m p))" for p by simp
  show "fds_of (map_of m k) = fds_of (Some v) \<Longrightarrow> client_fds (put_client k v m) = client_fds m"
    unfolding client_fds_def map_of_put_client u by auto
  show "fds_of (map_of m k) = {} \<Longrightarrow> client_fds (put_client k v m) = fds_of (Some v) \<union> client_fds m"
    unfolding client_fds_def map_of_put_client u by auto
qed

lemma with_gst_cases:
  assumes "with_gst peerId f gr w = Ret (r, gr', w')"
  obtains (no_id) "peerId = None \<or> peerId = Some []" "r = refused (- ENOENT)" "gr' = gr" "w' = w"
  | (session) pid g g' where "peerId = Some pid" "pid \<noteq> []" "map_of (gr_clients gr) pid = Some (Some g)" "f g w = Ret (r, g', w')"
      "gr' = gr\<lparr>gr_clients := put_client pid (Some g') (gr_clients gr)\<rparr>"
proof -
  obtain ret gst gr1 where G: "GetGst peerId gr = (ret, gst, gr1)" by (cases "GetGst peerId gr")
  show ?thesis
  proof (cases "peerId = None \<or> peerId = Some []")
    case True
    with assms G have "r = refused (- ENOENT)" "gr' = gr" "w' = w" by (auto simp: with_gst_def GetGst_def errno_defs)
    with True show ?thesis by (rule no_id)
  next
    case False
    then obtain pid where p: "peerId = Some pid" "pid \<noteq> []" by auto
    then obtain c cs where "pid = c # cs" by (cases pid) auto
    with p G have "ret = 0" "gst = (case map_of (gr_clients gr) pid of None \<Rightarrow> None | Some g \<Rightarrow> g)"
        "map_of (gr_clients gr) pid \<noteq> None \<longrightarrow> gr1 = gr" by (auto simp: GetGst_def split: option.splits)
    with assms G p obtain g g' where "gst = Some g" "map_of (gr_clients gr) pid = Some (Some g)" "gr1 = gr" "f g w = Ret (r, g', w')"
        "gr' = gr1\<lparr>gr_clients := put_client pid (Some g') (gr_clients gr1)\<rparr>"
      by (auto simp: with_gst_def obind_eq_Ret split: option.splits)
    with p show ?thesis by (intro session) auto
  qed
qed

text \<open>A call that changes at most the entry of its own client, and not its secret or its nonce.\<close>

definition isolated :: "string option \<Rightarrow> grpc_server \<Rightarrow> grpc_server \<Rightarrow> bool" where
  "isolated peerId gr gr' \<longleftrightarrow> gr_nextPeerId gr' = gr_nextPeerId gr
    \<and> (\<forall>p. peerId \<noteq> Some p \<longrightarrow> map_of (gr_clients gr') p = map_of (gr_clients gr) p)
    \<and> (\<forall>p. map_option (map_option (\<lambda>g. (sg_secretKey g, sg_nonce g))) (map_of (gr_clients gr') p)
        = map_option (map_option (\<lambda>g. (sg_secretKey g, sg_nonce g))) (map_of (gr_clients gr) p))"

lemma isolated_refl: "gr_clients gr' = gr_clients gr \<Longrightarrow> gr_nextPeerId gr' = gr_nextPeerId gr \<Longrightarrow> isolated peerId gr gr'"
  by (simp add: isolated_def)

locale session_handler =
  fixes handler :: "server_gst \<Rightarrow> os \<times> 'e \<Rightarrow> (server_gst, 'e) answered"
  assumes keeps: "handler g (s, e) = Ret (r, g', s', e') \<Longrightarrow> session_keeps g s g' s'"
begin

lemma server_keeps:
  assumes "with_gst peerId handler gr (s, e) = Ret (r, gr', s', e')" and "server_ok F base gr s"
  shows "server_ok F base gr' s'"
  using assms(1)
proof (cases rule: with_gst_cases)
  case no_id
  with assms(2) show ?thesis by simp
next
  case (session pid g g')
  from keeps [OF session(4)] have k: "session_keeps g s g' s'" .
  have fds: "client_fds (put_client pid (Some g') (gr_clients gr)) = client_fds (gr_clients gr)"
    using k session(3) by (intro client_fds_put(1)) (simp add: session_keeps_def)
  have wf: "os_wf s'" "open_fds s' = open_fds s"
    using k assms(2) same_table_wf [of s s'] by (auto simp: session_keeps_def server_ok_def same_table_def)
  have ids: "q \<in> to_string ` {0..<uint (gr_nextPeerId gr)}" if "map_of (gr_clients gr') q = Some (Some h)" for q h
    using that assms(2) session(3,5) by (auto simp: server_ok_def split: if_splits)
  show ?thesis
    using assms(2) k session(3,5) fds wf ids
    by (auto simp: server_ok_def session_keeps_def over_clients_put distinct_put_client)
qed

lemma isolates:
  assumes "with_gst peerId handler gr (s, e) = Ret (r, gr', s', e')"
  shows "isolated peerId gr gr'"
  using assms
proof (cases rule: with_gst_cases)
  case no_id
  then show ?thesis by (simp add: isolated_refl)
next
  case (session pid g g')
  from keeps [OF session(4)] session show ?thesis by (auto simp: isolated_def session_keeps_def)
qed

end

lemma dup_element_table:
  assumes "dup_element x s = (ok, s')"
  shows "same_table s s'"
proof -
  obtain ok1 s1 where 1: "(case ti_name x of None \<Rightarrow> (True, s) | Some n \<Rightarrow> os_new s) = (ok1, s1)" by fastforce
  have t1: "same_table s s1" using 1 os_new_table by (auto split: option.splits)
  obtain ok2 s2 where 2: "os_new s1 = (ok2, s2)" by fastforce
  with os_new_table [OF 2] t1 1 assms show ?thesis
    by (auto simp: dup_element_def split: if_splits intro: same_table_trans)
qed

lemma dup_tensor_infos_result:
  assumes "list_all (\<lambda>x. ti_dims x \<noteq> None) xs" and "dup_tensor_infos dest xs s = Ret (ret, r, s')"
  shows "same_table s s' \<and> (ret = 0 \<and> r = Some (dest @ xs) \<and> live s' = live s + info_blocks xs
    \<or> ret < 0 \<and> r = None \<and> live s - 1 - info_blocks dest \<le> live s' \<and> (dest = [] \<longrightarrow> xs \<noteq> []))"
  using assms
proof (induction xs arbitrary: dest s)
  case (Cons x xs)
  obtain ok s1 where 1: "dup_element x s = (ok, s1)" by fastforce
  have d: "ti_dims x \<noteq> None" using Cons.prems(1) by simp
  note l = dup_element_ledger [OF d 1] dup_element_table [OF 1]
  show ?case
  proof (cases ok)
    case True
    with Cons.prems 1 have "dup_tensor_infos (dest @ [x]) xs s1 = Ret (ret, r, s')" by (simp add: dup_tensor_infos_Cons)
    with Cons.IH [OF _ this] Cons.prems(1) l True show ?thesis by (auto intro: same_table_trans)
  next
    case False
    with Cons.prems 1 have "ret = - ENOMEM" "r = None" "s' = snd (snd (FreeTensorInfo (Some dest) (length dest) s1))"
      by (simp_all add: dup_tensor_infos_Cons)
    with l False show ?thesis by (cases "dest = []") (auto simp: errno_defs)
  qed
qed simp

lemma RequestToInfo_result:
  assumes "RequestToInfo request s = Ret (ret, r, s')"
  shows "same_table s s' \<and>
    (ret = 0 \<and> r = Some (map (\<lambda>(type, sz, name, dims). \<lparr>ti_type = type, ti_size = sz, ti_name = Some name, ti_dims = Some dims\<rparr>) request)
       \<and> live s + array_blocks r \<le> live s'
     \<or> ret < 0 \<and> r = None \<and> live s \<le> live s')"
proof -
  obtain ok s1 where 1: "os_new s = (ok, s1)" by fastforce
  note l = os_new_table [OF 1]
  let ?xs = "map (\<lambda>(type, sz, name, dims). \<lparr>ti_type = type, ti_size = sz, ti_name = Some name, ti_dims = Some dims\<rparr>) request"
  have d: "list_all (\<lambda>x. ti_dims x \<noteq> None) ?xs" by (auto simp: list_all_iff)
  show ?thesis
  proof (cases ok)
    case True
    with assms 1 have "dup_tensor_infos [] ?xs s1 = Ret (ret, r, s')" by (simp add: RequestToInfo_def)
    from dup_tensor_infos_result [OF d this] l True show ?thesis
      by (auto simp: array_blocks_def intro: same_table_trans)
  next
    case False
    with assms 1 l show ?thesis by (auto simp: RequestToInfo_def errno_defs)
  qed
qed

lemma SetModelPath_result:
  assumes "SetModelPath path m s = (ret, m', s')"
  shows "same_table s s' \<and> live s' - block (pm_path m') = live s - block (pm_path m)
    \<and> m' = m\<lparr>pm_path := if ret = 0 then Some path else None\<rparr> \<and> (ret = 0 \<or> ret = - ENOMEM)"
proof -
  obtain ok s1 where 1: "os_new (free_block (pm_path m) s) = (ok, s1)" by fastforce
  with os_new_table [OF 1] assms show ?thesis
    by (cases ok) (auto simp: SetModelPath_def block_def errno_defs same_table_def free_block_def split: option.splits)
qed

lemma set_input_keeps:
  assumes "set_input_session request g (s, e) = Ret (r, g', s', e')"
  shows "session_keeps g s g' s'"
proof -
  obtain ret info s1 where 1: "RequestToInfo request s = Ret (ret, info, s1)"
    using assms by (cases "RequestToInfo request s") (auto simp: set_input_session_def)
  with assms RequestToInfo_result [OF 1] show ?thesis
    by (auto simp: set_input_session_def session_keeps_def Model_SetInput_def gst_objects_def Let_def split: if_splits)
qed

lemma set_output_keeps:
  assumes "set_output_session request g (s, e) = Ret (r, g', s', e')"
  shows "session_keeps g s g' s'"
proof -
  obtain ret info s1 where 1: "RequestToInfo request s = Ret (ret, info, s1)"
    using assms by (cases "RequestToInfo request s") (auto simp: set_output_session_def)
  with assms RequestToInfo_result [OF 1] show ?thesis
    by (auto simp: set_output_session_def session_keeps_def Model_SetOutput_def gst_objects_def Let_def split: if_splits)
qed

lemma load_keeps:
  assumes "load_session E path g (s, e) = Ret (r, g', s', e')"
  shows "session_keeps g s g' s'"
proof -
  obtain ret m s1 where 1: "SetModelPath path (sg_model g) s = (ret, m, s1)" by (cases "SetModelPath path (sg_model g) s")
  with assms SetModelPath_result [OF 1] have "g' = g\<lparr>sg_model := m\<rparr>" "s' = s1"
    by (auto simp: load_session_def Let_def split: if_splits prod.splits)
  with SetModelPath_result [OF 1] show ?thesis by (auto simp: session_keeps_def gst_objects_def)
qed

lemma prepare_keeps:
  assumes "prepare_session E g (s, e) = Ret (r, g', s', e')"
  shows "session_keeps g s g' s'"
proof -
  obtain a where "Gst_Prepare (gstreamer.truncate E) g (s, e) = Ret (a, g', s', e')"
    using assms by (auto simp: prepare_session_def obind_eq_Ret)
  from Gst_Prepare_ledger [OF this] have "gst_ledger 0 2 g s g' s'" and m: "g' = g\<lparr>sg_model := sg_model g', sg_lost := sg_lost g'\<rparr>"
    by (auto simp: only_model_def)
  moreover have "sg_fds g' = sg_fds g" "sg_peerId g' = sg_peerId g" "sg_secretKey g' = sg_secretKey g" "sg_nonce g' = sg_nonce g"
    by (subst m, simp)+
  ultimately show ?thesis by (auto simp: session_keeps_def gst_ledger_def)
qed

lemma stop_keeps:
  assumes "stop_session g (s, e) = Ret (r, g', s', e')"
  shows "session_keeps g s g' s'"
proof -
  obtain ret where "Gst_Stop g s = (ret, g', s')" using assms by (auto simp: stop_session_def split: prod.splits)
  from Gst_Stop_ledger [OF this] have "gst_ledger 0 0 g s g' s'" and m: "g' = g\<lparr>sg_watching := sg_watching g', sg_lost := sg_lost g'\<rparr>"
    by auto
  moreover have "sg_fds g' = sg_fds g" "sg_peerId g' = sg_peerId g" "sg_secretKey g' = sg_secretKey g" "sg_nonce g' = sg_nonce g"
    by (subst m, simp)+
  ultimately show ?thesis by (auto simp: session_keeps_def gst_ledger_def)
qed

lemma session_keeps_refl [simp]: "session_keeps g s g s"
  by (simp add: session_keeps_def)

interpretation configure: session_handler "configure_session request"
  by unfold_locales (auto simp: configure_session_def Gst_Configure_def session_keeps_def gst_objects_def)

interpretation load: session_handler "load_session E path"
  by unfold_locales (rule load_keeps)

interpretation upload: session_handler "upload_session E chunks"
  by unfold_locales (auto simp: upload_session_def Let_def split: option.splits prod.splits if_splits)

interpretation get_input: session_handler "get_input_session nd"
  by unfold_locales (auto simp: get_input_session_def obind_eq_Ret)

interpretation get_output: session_handler "get_output_session nd"
  by unfold_locales (auto simp: get_output_session_def obind_eq_Ret)

interpretation set_input: session_handler "set_input_session request"
  by unfold_locales (rule set_input_keeps)

interpretation set_output: session_handler "set_output_session request"
  by unfold_locales (rule set_output_keeps)

interpretation prepare: session_handler "prepare_session E"
  by unfold_locales (rule prepare_keeps)

interpretation stop: session_handler stop_session
  by unfold_locales (rule stop_keeps)

section \<open>Calls\<close>

lemma to_string_inj: "0 \<le> i \<Longrightarrow> 0 \<le> j \<Longrightarrow> to_string i = to_string j \<longleftrightarrow> i = j"
  using scan_int_show [of i "[]"] scan_int_show [of j "[]"] by (metis append.right_neutral ends_number_simps(1) option.inject prod.inject)

lemma uint_next: "uint n + 1 < 2 ^ 64 \<Longrightarrow> uint (n + 1 :: 64 word) = uint n + 1"
  by (simp add: uint_word_ariths)

text \<open>The id that the next client gets is not in use.\<close>

lemma next_id_free:
  assumes "server_ok F base gr s"
  shows "fds_of (map_of (gr_clients gr) (to_string (uint (gr_nextPeerId gr)))) = {}"
    and "(case map_of (gr_clients gr) (to_string (uint (gr_nextPeerId gr))) of Some (Some g) \<Rightarrow> f g | _ \<Rightarrow> 0) = (0 :: int)"
proof -
  have "map_of (gr_clients gr) (to_string (uint (gr_nextPeerId gr))) \<noteq> Some (Some g)" for g
  proof
    assume "map_of (gr_clients gr) (to_string (uint (gr_nextPeerId gr))) = Some (Some g)"
    with assms have "to_string (uint (gr_nextPeerId gr)) \<in> to_string ` {0..<uint (gr_nextPeerId gr)}"
      unfolding server_ok_def by blast
    then obtain k where "0 \<le> k" "k < uint (gr_nextPeerId gr)" "to_string (uint (gr_nextPeerId gr)) = to_string k" by auto
    then show False by (simp add: to_string_inj)
  qed
  then show "fds_of (map_of (gr_clients gr) (to_string (uint (gr_nextPeerId gr)))) = {}"
    "(case map_of (gr_clients gr) (to_string (uint (gr_nextPeerId gr))) of Some (Some g) \<Rightarrow> f g | _ \<Rightarrow> 0) = (0 :: int)"
    by (auto simp: fds_of_def split: option.split)
qed

text \<open>What a call changes in the counter of ids.\<close>

definition counts :: "grpc_server \<Rightarrow> grpc_server \<Rightarrow> bool" where
  "counts gr gr' \<longleftrightarrow> gr_nextPeerId gr' = gr_nextPeerId gr \<or> gr_nextPeerId gr' = gr_nextPeerId gr + 1"

lemma register_cases:
  assumes "register init gr s = Ret (r, gr', s')"
  obtains (failed) "Gst_Create (to_string (uint (gr_nextPeerId gr))) s = Ret (None, s')" "gr' = gr" "r = response (- EFAULT)"
  | (registered) g g' where "Gst_Create (to_string (uint (gr_nextPeerId gr))) s = Ret (Some g, s')" "init g = Ret g'"
      "gr' = gr\<lparr>gr_clients := put_client (to_string (uint (gr_nextPeerId gr))) (Some g') (gr_clients gr),
        gr_nextPeerId := gr_nextPeerId gr + 1\<rparr>" "r = (response 0)\<lparr>rr_id := to_string (uint (gr_nextPeerId gr))\<rparr>"
proof -
  let ?pid = "to_string (uint (gr_nextPeerId gr))"
  obtain gst s1 where c: "Gst_Create ?pid s = Ret (gst, s1)"
    using assms by (auto simp: register_def Let_def obind_eq_Ret)
  show ?thesis
  proof (cases gst)
    case None
    with assms c have "s1 = s'" "gr' = gr" "r = response (- EFAULT)" by (auto simp: register_def Let_def)
    with c None show ?thesis by (intro failed) simp_all
  next
    case (Some g)
    with assms c obtain g' where "init g = Ret g'" by (auto simp: register_def obind_eq_Ret Let_def)
    with assms c Some have "s1 = s'" "gr' = gr\<lparr>gr_clients := put_client ?pid (Some g') (gr_clients gr),
        gr_nextPeerId := gr_nextPeerId gr + 1\<rparr>" "r = (response 0)\<lparr>rr_id := ?pid\<rparr>" by (auto simp: register_def Let_def)
    with c Some \<open>init g = Ret g'\<close> show ?thesis by (intro registered [of g g']) simp_all
  qed
qed

lemma register_keeps:
  assumes "register init gr s = Ret (r, gr', s')" and "server_ok F base gr s" and "uint (gr_nextPeerId gr) + 1 < 2 ^ 64"
    and init: "\<And>g g'. init g = Ret g' \<Longrightarrow> sg_fds g' = sg_fds g \<and> gst_objects g' = gst_objects g"
  shows "server_ok F base gr' s' \<and> counts gr gr'"
  using assms(1)
proof (cases rule: register_cases)
  case failed
  have wf: "os_wf s" using assms(2) by (simp add: server_ok_def)
  from Gst_Create_ledger [OF failed(1) wf] have l: "open_fds s' = open_fds s" "live s' = live s" "next_fd s \<le> next_fd s'" by simp_all
  have "os_wf s'" using wf l unfolding os_wf_def by fastforce
  with l failed(2) assms(2) show ?thesis by (simp add: server_ok_def counts_def)
next
  case (registered g g')
  let ?m = "gr_clients gr" and ?pid = "to_string (uint (gr_nextPeerId gr))"
  have wf: "os_wf s" using assms(2) by (simp add: server_ok_def)
  from Gst_Create_ledger [OF registered(1) wf] have c: "g = Gst_new ?pid (next_fd s, next_fd s + 1)" "next_fd s' = next_fd s + 2"
      "open_fds s' = insert (next_fd s) (insert (next_fd s + 1) (open_fds s))" "live s' = live s + gst_objects g" by auto
  from init [OF registered(2)] c(1) have g': "sg_fds g' = (next_fd s, next_fd s + 1)" "gst_objects g' = gst_objects g"
    by (simp_all add: Gst_new_def)
  have fds: "client_fds (put_client ?pid (Some g') ?m) = {next_fd s, next_fd s + 1} \<union> client_fds ?m"
    using client_fds_put(2) [OF next_id_free(1) [OF assms(2)], of "Some g'"] g' by simp
  have objects: "over_clients gst_objects (put_client ?pid (Some g') ?m) = over_clients gst_objects ?m + gst_objects g"
    using next_id_free(2) [OF assms(2), of gst_objects] g' by (simp add: over_clients_put)
  have new: "next_fd s \<notin> F" "next_fd s + 1 \<notin> F" 
  proof -
    have "F \<subseteq> open_fds s" using assms(2) unfolding server_ok_def by blast
    with wf have "\<forall>fd \<in> F. fd < next_fd s" unfolding os_wf_def by blast
    then show "next_fd s \<notin> F" "next_fd s + 1 \<notin> F" by fastforce+
  qed
  have wf': "os_wf s'" using wf c(2,3) unfolding os_wf_def by fastforce
  have ids: "p \<in> to_string ` {0..<uint (gr_nextPeerId gr + 1)}" if "map_of (put_client ?pid (Some g') ?m) p = Some (Some h)" for p h
  proof (cases "p = ?pid")
    case False
    with that have "map_of ?m p = Some (Some h)" by simp
    with assms(2) have "p \<in> to_string ` {0..<uint (gr_nextPeerId gr)}" unfolding server_ok_def by blast
    with uint_next [OF assms(3)] show ?thesis by auto
  qed (use uint_next [OF assms(3)] in simp)
  have old: "distinct (map fst ?m)" "open_fds s = F \<union> client_fds ?m" "F \<inter> client_fds ?m = {}" "base \<le> live s - over_clients gst_objects ?m"
    using assms(2) by (simp_all add: server_ok_def)
  have m': "gr_clients gr' = put_client ?pid (Some g') ?m" "gr_nextPeerId gr' = gr_nextPeerId gr + 1"
    using registered(3) by simp_all
  have "server_ok F base gr' s'"
    unfolding server_ok_def m'
  proof (intro conjI allI impI)
    show "os_wf s'" by (rule wf')
    show "distinct (map fst (put_client ?pid (Some g') ?m))" by (rule distinct_put_client [OF old(1)])
    show "open_fds s' = F \<union> client_fds (put_client ?pid (Some g') ?m)" using c(3) old(2) fds by auto
    show "F \<inter> client_fds (put_client ?pid (Some g') ?m) = {}" using old(3) new fds by auto
    show "base \<le> live s' - over_clients gst_objects (put_client ?pid (Some g') ?m)" using c(4) old(4) objects by simp
    fix p h assume "map_of (put_client ?pid (Some g') ?m) p = Some (Some h)"
    then show "p \<in> to_string ` {0..<uint (gr_nextPeerId gr + 1)}" by (rule ids)
  qed
  with registered(3) show ?thesis by (simp add: counts_def)
qed

definition exchange_authenticator :: "grpc_server \<Rightarrow> ptr" where
  "exchange_authenticator gr =
    (if sp_caAuthenticator (gr_peer gr) \<noteq> nullptr then sp_caAuthenticator (gr_peer gr) else sp_authenticator (gr_peer gr))"

lemma exchange_cases:
  assumes "Server_ExchangeKey E key gr (s, e) = Ret (r, gr', s', e')"
  obtains (nothing) "gr' = gr" "s' = s" "rr_status r \<noteq> 0"
  | (credential) cred where "exchange_credential cred gr s = Ret (r, gr', s')"
  | (insecure) "register (\<lambda>g. Ret (Gst_SetSecret [] g)) gr s = Ret (r, gr', s')"
proof (cases "exchange_authenticator gr = nullptr")
  case True
  with assms insecure show ?thesis
    by (auto simp: Server_ExchangeKey_def Let_def obind_eq_Ret exchange_authenticator_def split: if_splits)
next
  case False
  let ?auth = "exchange_authenticator gr"
  obtain ret e1 where d: "se_decrypt E ?auth key e = (ret, e1)" by fastforce
  obtain ret2 result e2 where g: "se_result E ?auth e1 = ((ret2, result), e2)" by (cases "se_result E ?auth e1") auto
  from assms False d g have m: "(if ret < 0 then Ret (response ret, gr, s, e1) else if ret2 < 0 then Ret (response ret2, gr, s, e2)
      else case result of None \<Rightarrow> Ret (response (- EFAULT), gr, s, e2) | Some [] \<Rightarrow> Ret (response (- EFAULT), gr, s, e2)
        | Some cred \<Rightarrow> obind (exchange_credential cred gr s) (\<lambda>(r, gr, s). Ret (r, gr, s, e2))) = Ret (r, gr', s', e')"
    by (simp add: Server_ExchangeKey_def exchange_authenticator_def Let_def split: if_splits)
  show ?thesis
  proof (cases "ret < 0 \<or> ret2 < 0 \<or> result = None \<or> result = Some []")
    case True
    with m have "gr' = gr" "s' = s" "rr_status r \<noteq> 0" by (auto simp: response_def errno_defs split: if_splits)
    then show ?thesis by (rule nothing)
  next
    case False
    then obtain c cs where "result = Some (c # cs)" by (cases result; cases "the result") auto
    with m False credential [of "c # cs"] show ?thesis by (auto simp: obind_eq_Ret)
  qed
qed

lemma exchange_keeps:
  assumes "Server_ExchangeKey E key gr (s, e) = Ret (r, gr', s', e')" and "server_ok F base gr s" and "uint (gr_nextPeerId gr) + 1 < 2 ^ 64"
  shows "server_ok F base gr' s' \<and> counts gr gr'"
proof -
  consider "gr' = gr" "s' = s"
    | cred where "exchange_credential cred gr s = Ret (r, gr', s')"
    | "register (\<lambda>g. Ret (Gst_SetSecret [] g)) gr s = Ret (r, gr', s')"
    by (rule exchange_cases [OF assms(1)])
  then show ?thesis
  proof cases
    case 1
    with assms show ?thesis by (simp add: counts_def)
  next
    case 2
    then consider "gr' = gr" "s' = s"
      | "register (\<lambda>g. obind (cred_key cred) (\<lambda>key. Ret (Gst_SetNonce (cred_nonce cred) (Gst_SetSecret key g)))) gr s = Ret (r, gr', s')"
      by (auto simp: exchange_credential_def split: option.splits bool.splits)
    then show ?thesis
    proof cases
      case 1
      with assms show ?thesis by (simp add: counts_def)
    next
      case 2
      show ?thesis
        by (rule register_keeps [OF 2 assms(2,3)]) (auto simp: obind_eq_Ret Gst_SetNonce_def Gst_SetSecret_def gst_objects_def)
    qed
  next
    case 3
    show ?thesis by (rule register_keeps [OF 3 assms(2,3)]) (auto simp: Gst_SetSecret_def gst_objects_def)
  qed
qed

lemma with_gst_counts: "with_gst peerId f gr w = Ret (r, gr', w') \<Longrightarrow> counts gr gr'"
  by (erule with_gst_cases) (simp_all add: counts_def)

lemmas methods_keep = configure.server_keeps load.server_keeps upload.server_keeps get_input.server_keeps get_output.server_keeps
  set_input.server_keeps set_output.server_keeps prepare.server_keeps stop.server_keeps

lemmas method_defs = Server_Configure_def Server_LoadModel_def Server_UploadModel_def Server_GetInputTensorInfo_def
  Server_GetOutputTensorInfo_def Server_SetInputTensorInfo_def Server_SetOutputTensorInfo_def Server_Prepare_def Server_Stop_def

lemma GetInfo_keeps:
  assumes "Server_GetInfo E gr (s, e) = Ret (r, gr', s', e')"
  shows "gr_clients gr' = gr_clients gr \<and> gr_nextPeerId gr' = gr_nextPeerId gr \<and> s' = s"
  using assms by (auto simp: Server_GetInfo_def Let_def split: option.splits prod.splits)

lemma serve_keeps:
  assumes "service_call E nd peerId request gr (s, e) = Ret (r, gr', s', e')" and "server_ok F base gr s" and "uint (gr_nextPeerId gr) + 1 < 2 ^ 64"
  shows "server_ok F base gr' s' \<and> counts gr gr'"
proof (cases request)
  case (RpcExchangeKey key)
  with assms exchange_keeps show ?thesis by (simp add: service_call_def)
next
  case RpcGetInfo
  with assms(1) have "Server_GetInfo E gr (s, e) = Ret (r, gr', s', e')" by (simp add: service_call_def)
  with GetInfo_keeps [OF this] assms(2) show ?thesis by (simp add: server_ok_def counts_def)
qed (use assms(1,2) in \<open>auto simp: service_call_def method_defs split: prod.splits intro: methods_keep with_gst_counts\<close>)

text \<open>The processor looks a client up like a method, and counts its nonce.\<close>

lemma GetGst_Some:
  assumes "pid \<noteq> []"
  shows "GetGst (Some pid) gr = (case map_of (gr_clients gr) pid of
      None \<Rightarrow> (0, None, gr\<lparr>gr_clients := put_client pid None (gr_clients gr)\<rparr>) | Some g \<Rightarrow> (0, g, gr))"
proof -
  obtain c cs where p: "pid = c # cs" using assms by (cases pid) auto
  show ?thesis unfolding p by (simp add: GetGst_def)
qed

lemma Auth_Process_cases:
  assumes "Auth_Process md gr = Ret (status, gr')"
  obtains (exchange) m where "md_method md = Some m" "m \<noteq> []" "strncmp_same (length m) m ''ExchangeKey''" "status = AuthOK" "gr' = gr"
  | (refused) "status \<noteq> AuthOK" "gr' = gr"
  | (unknown) pid where "md_id md = Some pid" "pid \<noteq> []" "map_of (gr_clients gr) pid = None" "status = NotFound"
      "gr' = gr\<lparr>gr_clients := put_client pid None (gr_clients gr)\<rparr>"
  | (counted) m pid g nonce where "md_method md = Some m" "\<not> strncmp_same (length m) m ''ExchangeKey''" "md_id md = Some pid" "pid \<noteq> []"
      "map_of (gr_clients gr) pid = Some (Some g)" "sg_nonce g = Some nonce" "md_nonce md = Some (to_string (uint nonce))" "status = AuthOK"
      "gr' = gr\<lparr>gr_clients := put_client pid (Some (Gst_SetNonce (nonce + 1) g)) (gr_clients gr)\<rparr>"
proof (cases "md_method md = None \<or> md_method md = Some []")
  case True
  with assms have "status = Unauthenticated" "gr' = gr" by (auto simp: Auth_Process_def)
  then show ?thesis by (intro refused) simp_all
next
  case False
  then obtain m where m: "md_method md = Some m" "m \<noteq> []" by auto
  show ?thesis
  proof (cases "strncmp_same (length m) m ''ExchangeKey''")
    case True
    with assms m have "status = AuthOK" "gr' = gr" by (auto simp: Auth_Process_def split: list.splits)
    with True m show ?thesis by (intro exchange)
  next
    case no: False
    show ?thesis
    proof (cases "md_id md = None \<or> md_id md = Some []")
      case True
      with assms m no have "status = InvalidArgument" "gr' = gr" by (auto simp: Auth_Process_def split: list.splits)
      then show ?thesis by (intro refused) simp_all
    next
      case False
      then obtain pid where pid: "md_id md = Some pid" "pid \<noteq> []" by auto
      obtain c cs where m': "m = c # cs" using m(2) by (cases m) auto
      obtain d ds where p': "pid = d # ds" using pid(2) by (cases pid) auto
      have A: "Auth_Process md gr = (let (_, gst, gr1) = GetGst (Some pid) gr in
            (case gst of
              None \<Rightarrow> Ret (NotFound, gr1)
            | Some g \<Rightarrow> obind (Gst_GetNonce g) (\<lambda>nonce.
                case md_nonce md of
                  None \<Rightarrow> Ret (Unauthenticated, gr1)
                | Some [] \<Rightarrow> Ret (Unauthenticated, gr1)
                | Some text \<Rightarrow>
                    if to_string (uint nonce) \<noteq> text then Ret (Unauthenticated, gr1)
                    else Ret (AuthOK, gr1\<lparr>gr_clients := put_client pid (Some (Gst_SetNonce (nonce + 1) g)) (gr_clients gr1)\<rparr>))))"
        using m no pid unfolding m' p' by (auto simp: Auth_Process_def)
      show ?thesis
      proof (cases "map_of (gr_clients gr) pid")
        case None
        with assms A pid have "status = NotFound" "gr' = gr\<lparr>gr_clients := put_client pid None (gr_clients gr)\<rparr>"
          by (auto simp: GetGst_Some)
        with None pid show ?thesis by (intro unknown)
      next
        case (Some gst)
        show ?thesis
        proof (cases gst)
          case None
          with assms A pid Some have "status = NotFound" "gr' = gr" by (auto simp: GetGst_Some)
          then show ?thesis by (intro refused) simp_all
        next
          case s: (Some g)
          from assms A pid Some s obtain nonce where n: "sg_nonce g = Some nonce"
            by (auto simp: GetGst_Some Gst_GetNonce_def split: option.splits)
          show ?thesis
          proof (cases "md_nonce md = Some (to_string (uint nonce))")
            case True
            have "to_string (uint nonce) \<noteq> []" by (simp add: to_string_def)
            with True assms A pid Some s n have "status = AuthOK"
                "gr' = gr\<lparr>gr_clients := put_client pid (Some (Gst_SetNonce (nonce + 1) g)) (gr_clients gr)\<rparr>"
              by (auto simp: GetGst_Some Gst_GetNonce_def split: list.splits)
            with m no pid Some s n True show ?thesis by (intro counted) simp_all
          next
            case False
            with assms A pid Some s n have "status = Unauthenticated" "gr' = gr"
              by (auto simp: GetGst_Some Gst_GetNonce_def split: option.splits list.splits if_splits)
            then show ?thesis by (intro refused) simp_all
          qed
        qed
      qed
    qed
  qed
qed

lemma Auth_Process_keeps:
  assumes "Auth_Process md gr = Ret (status, gr')" and "server_ok F base gr s"
  shows "server_ok F base gr' s \<and> gr_nextPeerId gr' = gr_nextPeerId gr"
  using assms(1)
proof (cases rule: Auth_Process_cases)
  case (unknown pid)
  have f: "client_fds (put_client pid None (gr_clients gr)) = client_fds (gr_clients gr)"
    using unknown(3) by (intro client_fds_put(1)) simp
  have ids: "p \<in> to_string ` {0..<uint (gr_nextPeerId gr)}" if "map_of (gr_clients gr') p = Some (Some g)" for p g
    using that unknown(5) assms(2) by (auto simp: server_ok_def split: if_splits)
  show ?thesis using assms(2) f ids unknown(3,5) by (auto simp: server_ok_def distinct_put_client over_clients_put)
next
  case (counted m pid g nonce)
  let ?g = "Gst_SetNonce (nonce + 1) g"
  have f: "client_fds (put_client pid (Some ?g) (gr_clients gr)) = client_fds (gr_clients gr)"
    using counted(5) by (intro client_fds_put(1)) (simp add: Gst_SetNonce_def)
  have ids: "p \<in> to_string ` {0..<uint (gr_nextPeerId gr)}" if "map_of (gr_clients gr') p = Some (Some h)" for p h
    using that counted(5,9) assms(2) by (auto simp: server_ok_def split: if_splits)
  have "gst_objects ?g = gst_objects g" by (simp add: Gst_SetNonce_def gst_objects_def)
  then show ?thesis using assms(2) f ids counted(5,9) by (auto simp: server_ok_def distinct_put_client over_clients_put)
qed (use assms(2) in simp_all)

lemma Server_call_keeps:
  assumes "Server_call E nd secured md request gr (s, e) = Ret (r, gr', s', e')" and "server_ok F base gr s"
    and "uint (gr_nextPeerId gr) + 1 < 2 ^ 64"
  shows "server_ok F base gr' s' \<and> counts gr gr'"
proof (cases secured)
  case False
  with assms serve_keeps show ?thesis by (simp add: Server_call_def)
next
  case True
  with assms(1) obtain status gr1 where a: "Auth_Process md gr = Ret (status, gr1)"
    and r: "(if status = AuthOK then service_call E nd (md_id md) request gr1 (s, e) else Ret (refused 0, gr1, s, e)) = Ret (r, gr', s', e')"
    by (auto simp: Server_call_def obind_eq_Ret)
  note k = Auth_Process_keeps [OF a assms(2)]
  show ?thesis
  proof (cases "status = AuthOK")
    case True
    with serve_keeps [of E nd "md_id md" request gr1 s e r gr' s' e' F base] r k assms(3) show ?thesis
      by (auto simp: counts_def)
  next
    case False
    with r k show ?thesis by (auto simp: counts_def)
  qed
qed

lemma run_calls_keeps:
  assumes "run_calls E nd secured calls gr (s, e) = Ret (rs, gr', s', e')" and "server_ok F base gr s"
    and "uint (gr_nextPeerId gr) + int (length calls) < 2 ^ 64"
  shows "server_ok F base gr' s'"
  using assms
proof (induction calls arbitrary: gr s e rs)
  case (Cons c calls)
  obtain md request where c: "c = (md, request)" by fastforce
  obtain r gr1 s1 e1 where 1: "Server_call E nd secured md request gr (s, e) = Ret (r, gr1, s1, e1)"
    using Cons.prems(1) c by (auto simp: obind_eq_Ret)
  have small: "uint (gr_nextPeerId gr) + 1 < 2 ^ 64" using Cons.prems(3) by simp
  from Server_call_keeps [OF 1 Cons.prems(2) small] have k: "server_ok F base gr1 s1" "counts gr gr1" by simp_all
  from k(2) uint_next [OF small] Cons.prems(3) have "uint (gr_nextPeerId gr1) + int (length calls) < 2 ^ 64"
    by (auto simp: counts_def)
  moreover obtain rs' where "run_calls E nd secured calls gr1 (s1, e1) = Ret (rs', gr', s', e')"
    using Cons.prems(1) c 1 by (auto simp: obind_eq_Ret)
  ultimately show ?case using Cons.IH k(1) by blast
qed simp

section \<open>Properties\<close>

lemma destroy_clients_ledger:
  assumes "destroy_clients m s = Ret s'"
  shows "open_fds s' = open_fds s - \<Union> (fds_of ` Some ` snd ` set m) \<and> next_fd s' = next_fd s
    \<and> live s - over_clients gst_objects m \<le> live s' \<and> (\<forall>p. (p, None) \<notin> set m)"
  using assms
proof (induction m arbitrary: s)
  case (Cons x m)
  obtain p v where x: "x = (p, v)" by fastforce
  with Cons.prems obtain g s1 where g: "v = Some g" "Gst_Destroy g s = Ret s1" "destroy_clients m s1 = Ret s'"
    by (auto simp: obind_eq_Ret split: option.splits)
  from Gst_Destroy_ledger [OF g(2)] Cons.IH [OF g(3)] x g(1) show ?case by auto
qed simp

lemma client_fds_set: "distinct (map fst m) \<Longrightarrow> client_fds m = \<Union> (fds_of ` Some ` snd ` set m)"
proof -
  assume d: "distinct (map fst m)"
  have "fds_of (map_of m p) \<subseteq> \<Union> (fds_of ` Some ` snd ` set m)" for p
  proof (cases "map_of m p")
    case (Some v)
    then have "(p, v) \<in> set m" by (rule map_of_SomeD)
    then have "fds_of (Some v) \<in> fds_of ` Some ` snd ` set m" by force
    with Some show ?thesis by auto
  qed simp
  moreover have "fds_of (Some v) \<subseteq> client_fds m" if "(p, v) \<in> set m" for p v
  proof -
    have "map_of m p = Some v" using d that by (rule map_of_is_SomeI)
    then show ?thesis unfolding client_fds_def by (metis UNIV_I UN_upper)
  qed
  ultimately show ?thesis by (fastforce simp: client_fds_def)
qed

text \<open>
  C10. The life of a server. Whatever calls arrive, with whatever metadata and over a secured channel or not, and whatever allocations and
  system calls fail: when all of them return and then the server is destroyed and that returns, the table of descriptors is
  as it was, and nothing was given back that was not the server's.
\<close>

theorem server_life:
  assumes "os_wf s" and "length calls < 2 ^ 64"
    and "run_calls E nd secured calls (Server_new peer) (s, e) = Ret (rs, gr, s', e')" and "Server_Destroy gr s' = Ret s''"
  shows "open_fds s'' = open_fds s \<and> live s - 1 \<le> live s''"
proof -
  have "server_ok (open_fds s) (live s) (Server_new peer) s"
    using assms(1) by (simp add: server_ok_def Server_new_def client_fds_def over_clients_def)
  moreover have "uint (gr_nextPeerId (Server_new peer)) + int (length calls) < 2 ^ 64"
    using assms(2) by (simp add: Server_new_def)
  ultimately have ok: "server_ok (open_fds s) (live s) gr s'" using run_calls_keeps [OF assms(3)] by blast
  obtain status s1 where 1: "os_call s' = (status, s1)" by fastforce
  obtain s2 where 2: "destroy_clients (gr_clients gr) s1 = Ret s2" "s'' = os_delete s2"
    using assms(4) 1 by (auto simp: Server_Destroy_def obind_eq_Ret)
  have d: "distinct (map fst (gr_clients gr))" using ok by (simp add: server_ok_def)
  have "open_fds s2 = open_fds s' - client_fds (gr_clients gr)"
    using destroy_clients_ledger [OF 2(1)] client_fds_set [OF d] os_call_table [OF 1] by (simp add: same_table_def)
  moreover have "open_fds s' = open_fds s \<union> client_fds (gr_clients gr)" "open_fds s \<inter> client_fds (gr_clients gr) = {}"
      "live s \<le> live s' - over_clients gst_objects (gr_clients gr)" using ok by (simp_all add: server_ok_def)
  ultimately show ?thesis using destroy_clients_ledger [OF 2(1)] os_call_table [OF 1] 2(2) by auto
qed

lemma serve_isolates:
  assumes "service_call E nd peerId request gr (s, e) = Ret (r, gr', s', e')" and "\<And>key. request \<noteq> RpcExchangeKey key"
  shows "isolated peerId gr gr'"
proof (cases request)
  case (RpcExchangeKey key)
  with assms(2) show ?thesis by blast
next
  case RpcGetInfo
  with assms(1) have "Server_GetInfo E gr (s, e) = Ret (r, gr', s', e')" by (simp add: service_call_def)
  from GetInfo_keeps [OF this] show ?thesis by (simp add: isolated_refl)
qed (use assms(1) in \<open>auto simp: service_call_def method_defs split: prod.splits intro: configure.isolates load.isolates upload.isolates
  get_input.isolates get_output.isolates set_input.isolates set_output.isolates prepare.isolates stop.isolates\<close>)

lemma register_isolates:
  assumes "register init gr s = Ret (r, gr', s')"
  shows "gr' = gr \<and> rr_status r \<noteq> 0 \<or> rr_status r = 0 \<and> rr_id r = to_string (uint (gr_nextPeerId gr))
    \<and> (\<exists>g. gr_clients gr' = put_client (rr_id r) (Some g) (gr_clients gr)) \<and> gr_nextPeerId gr' = gr_nextPeerId gr + 1"
  using assms by (cases rule: register_cases) (auto simp: response_def errno_defs)

text \<open>
  C11. Clients do not reach each other. Every call but an exchange of keys changes at most the entry of the client whose id it carries, and
  neither a secret nor a nonce. An exchange of keys changes nothing when it fails; otherwise it adds a client under the next id,
  which it returns.
\<close>

theorem clients_are_isolated:
  assumes "service_call E nd peerId request gr (s, e) = Ret (r, gr', s', e')"
  shows "if \<forall>key. request \<noteq> RpcExchangeKey key then isolated peerId gr gr'
    else gr' = gr \<and> rr_status r \<noteq> 0
      \<or> rr_status r = 0 \<and> rr_id r = to_string (uint (gr_nextPeerId gr)) \<and> gr_nextPeerId gr' = gr_nextPeerId gr + 1
        \<and> (\<forall>p. p \<noteq> rr_id r \<longrightarrow> map_of (gr_clients gr') p = map_of (gr_clients gr) p)"
proof (cases "\<forall>key. request \<noteq> RpcExchangeKey key")
  case True
  with serve_isolates [OF assms] show ?thesis by simp
next
  case False
  then obtain key where key: "request = RpcExchangeKey key" by auto
  with assms have x: "Server_ExchangeKey E key gr (s, e) = Ret (r, gr', s', e')" by (simp add: service_call_def)
  then have "gr' = gr \<and> rr_status r \<noteq> 0 \<or> rr_status r = 0 \<and> rr_id r = to_string (uint (gr_nextPeerId gr))
    \<and> (\<exists>g. gr_clients gr' = put_client (rr_id r) (Some g) (gr_clients gr)) \<and> gr_nextPeerId gr' = gr_nextPeerId gr + 1"
  proof (cases rule: exchange_cases)
    case (credential cred)
    then consider "gr' = gr" "r = response (- EINVAL)"
      | "register (\<lambda>g. obind (cred_key cred) (\<lambda>key. Ret (Gst_SetNonce (cred_nonce cred) (Gst_SetSecret key g)))) gr s = Ret (r, gr', s')"
      by (auto simp: exchange_credential_def split: option.splits bool.splits)
    then show ?thesis by cases (simp add: response_def errno_defs, rule register_isolates)
  qed (simp, rule register_isolates)
  with key show ?thesis by auto
qed

text \<open>The methods of a client.\<close>

definition of_client :: "rpc_request \<Rightarrow> bool" where
  "of_client request \<longleftrightarrow> (case request of RpcExchangeKey _ \<Rightarrow> False | RpcGetInfo \<Rightarrow> False | _ \<Rightarrow> True)"

text \<open>
  C18. An id that the server has not given out. Every method of a client called with it dereferences a null pointer; on a secured
  channel the call is refused instead, but the null pointer stays in the map, and destroying the server dereferences it.
\<close>

theorem unknown_id:
  assumes "map_of (gr_clients gr) pid = None" and "pid \<noteq> []"
  shows "(of_client request \<longrightarrow> service_call E nd (Some pid) request gr w = Undefined)
    \<and> (\<exists>gr'. Server_call E nd True \<lparr>md_method = Some ''Configure'', md_id = Some pid, md_nonce = nonce\<rparr> request gr w = Ret (refused 0, gr', w)
        \<and> (\<forall>s s'. Server_Destroy gr' s \<noteq> Ret s'))"
proof (intro conjI impI)
  have "with_gst (Some pid) f gr v = Undefined" for f :: "server_gst \<Rightarrow> os \<times> 'a \<Rightarrow> (server_gst, 'a) answered" and v
    using assms by (simp add: with_gst_def GetGst_Some)
  moreover assume "of_client request"
  ultimately show "service_call E nd (Some pid) request gr w = Undefined"
    by (auto simp: of_client_def service_call_def method_defs split: rpc_request.splits prod.splits)
next
  let ?gr = "gr\<lparr>gr_clients := put_client pid None (gr_clients gr)\<rparr>"
  obtain c cs where p: "pid = c # cs" using assms(2) by (cases pid) auto
  have "Auth_Process \<lparr>md_method = Some ''Configure'', md_id = Some pid, md_nonce = nonce\<rparr> gr = Ret (NotFound, ?gr)"
    using assms unfolding p by (simp add: Auth_Process_def GetGst_Some)
  moreover have "Server_Destroy ?gr s \<noteq> Ret s'" for s s'
  proof
    assume "Server_Destroy ?gr s = Ret s'"
    then obtain s1 s2 where "destroy_clients (put_client pid None (gr_clients gr)) s1 = Ret s2"
      by (auto simp: Server_Destroy_def obind_eq_Ret split: prod.splits)
    from destroy_clients_ledger [OF this] have "(pid, None) \<notin> set (put_client pid None (gr_clients gr))" by blast
    moreover have "map_of (put_client pid None (gr_clients gr)) pid = Some None" by simp
    ultimately show False using map_of_SomeD by metis
  qed
  ultimately show "\<exists>gr'. Server_call E nd True \<lparr>md_method = Some ''Configure'', md_id = Some pid, md_nonce = nonce\<rparr> request gr w = Ret (refused 0, gr', w)
        \<and> (\<forall>s s'. Server_Destroy gr' s \<noteq> Ret s')"
    by (auto simp: Server_call_def)
qed

text \<open>
  C14. The nonce. A call with the name of another method gets through to it only with the id of a client and the nonce the server expects
  from that client next, which is then counted up by one, so that the same metadata are refused the second time. But the name is
  what the client says it is: with a single letter in its place no nonce and no id are asked for, whatever the method.
\<close>

theorem nonce_is_used_once:
  assumes "md_method md = Some m" and "\<not> strncmp_same (length m) m ''ExchangeKey''" and "Auth_Process md gr = Ret (AuthOK, gr')"
  shows "(\<exists>pid g nonce. md_id md = Some pid \<and> map_of (gr_clients gr) pid = Some (Some g) \<and> sg_nonce g = Some nonce
      \<and> md_nonce md = Some (to_string (uint nonce))
      \<and> map_of (gr_clients gr') = (map_of (gr_clients gr))(pid \<mapsto> Some (Gst_SetNonce (nonce + 1) g)))
    \<and> Auth_Process md gr' = Ret (Unauthenticated, gr')
    \<and> Server_call E nd True (md\<lparr>md_method := Some ''E''\<rparr>) request gr w = service_call E nd (md_id md) request gr w"
  using assms(3)
proof (cases rule: Auth_Process_cases)
  case (counted m' pid g nonce)
  have "nonce + 1 \<noteq> nonce" by simp
  then have "uint (nonce + 1) \<noteq> uint nonce" by (metis word_uint_eqI)
  then have ne: "to_string (uint (nonce + 1)) \<noteq> to_string (uint nonce)" by (simp add: to_string_inj)
  obtain c cs where m: "m = c # cs" using assms(2) by (cases m) auto
  obtain d ds where p: "pid = d # ds" using counted(4) by (cases pid) auto
  have "to_string (uint nonce) \<noteq> []" by (simp add: to_string_def)
  then obtain n ns where n: "to_string (uint nonce) = n # ns" by (cases "to_string (uint nonce)") auto
  have "Auth_Process md gr' = Ret (Unauthenticated, gr')"
    using assms(1,2) counted ne n unfolding m p
    by (auto simp: Auth_Process_def GetGst_Some Gst_GetNonce_def Gst_SetNonce_def)
  with counted show ?thesis by (auto simp: Server_call_def Auth_Process_def)
qed (use assms in auto)

lemma Gst_Create_calm:
  "faults s = [] \<Longrightarrow> Gst_Create pid s = Ret (Some (Gst_new pid (next_fd s, next_fd s + 1)),
    s\<lparr>open_fds := insert (next_fd s) (insert (next_fd s + 1) (open_fds s)), next_fd := next_fd s + 2, live := live s + 6\<rparr>)"
  by (simp add: Gst_Create_def Gst_Main_def os_new_def os_pair_def os_call_def pop_def send_message_def os_delete_def)

text \<open>A service on a machine where every call succeeds; what is decrypted is what was sent.\<close>

definition ex_service :: "string service" where
  "ex_service = \<lparr>gs_launch = \<lambda>d e. (ex_launched, e), gs_signed_char = True, gs_junk = 0,
    se_listen = \<lambda>a secured e. (Some 3000, e), se_decrypt = \<lambda>p key e. (0, key), se_result = \<lambda>p e. ((0, Some e), e),
    se_readable = \<lambda>f e. (True, e), se_fopen = \<lambda>f e. (0, e), se_fwrite = \<lambda>f c e. ((int (length c), 0), e),
    se_contents = \<lambda>f e. ([], e), se_resources = \<lambda>f e. ((0, 0), e)\<rparr>"

definition ex_server_peer :: server_peer where
  "ex_server_peer = \<lparr>sp_info = None, sp_caAuthenticator = nullptr, sp_authenticator = nullptr, sp_storagePath = ''/m''\<rparr>"

definition ex_metadata :: "string option \<Rightarrow> metadata" where
  "ex_metadata pid = \<lparr>md_method = Some ''LoadModel'', md_id = pid, md_nonce = Some ''41''\<rparr>"

definition calm_os :: os where
  "calm_os = \<lparr>open_fds = {}, next_fd = 3, live = 1, faults = []\<rparr>"

lemma server_life_witness:
  "\<exists>rs gr s' e' s''. run_calls ex_service False False
      [(ex_metadata None, RpcExchangeKey ''insecure''), (ex_metadata (Some ''0''), RpcLoadModel ''a.tflite'')] (Server_new ex_server_peer) (calm_os, [])
      = Ret (rs, gr, s', e') \<and> Server_Destroy gr s' = Ret s'' \<and> open_fds s'' = {} \<and> 0 \<le> live s''"
proof -
  let ?calls = "[(ex_metadata None, RpcExchangeKey ''insecure''), (ex_metadata (Some ''0''), RpcLoadModel ''a.tflite'')]"
  have "\<exists>rs gr s' e' s''. run_calls ex_service False False ?calls (Server_new ex_server_peer) (calm_os, []) = Ret (rs, gr, s', e')
      \<and> Server_Destroy gr s' = Ret s''"
    by (simp add: calm_os_def Server_call_def service_call_def Server_ExchangeKey_def register_def Server_new_def ex_server_peer_def
      Gst_Create_calm put_client_def ex_metadata_def to_string_def digits.simps char_of_def bit_Suc_0_iff
      Server_LoadModel_def with_gst_def GetGst_def load_session_def SetModelPath_def Gst_SetSecret_def Gst_new_def Model_new_def
      stored_path_def base_name_def free_block_def ex_service_def os_new_def os_call_def pop_def
      Server_Destroy_def Gst_Destroy_def send_message_def thread_takes_def Let_def)
  then obtain rs gr s' e' s'' where r: "run_calls ex_service False False ?calls (Server_new ex_server_peer) (calm_os, []) = Ret (rs, gr, s', e')"
    "Server_Destroy gr s' = Ret s''" by blast
  have "os_wf calm_os" by (simp add: os_wf_def calm_os_def)
  from server_life [OF this _ r] r show ?thesis by (auto simp: calm_os_def)
qed

text \<open>A server with one client whose nonce is 41.\<close>

definition ex_server :: grpc_server where
  "ex_server = \<lparr>gr_peer = ex_server_peer, gr_nextPeerId = 1, gr_clients = [(''0'', Some (Gst_SetNonce 41 ex_gst)), (''9'', Some ex_gst)]\<rparr>"

lemma clients_are_isolated_witness:
  "\<exists>gr'. service_call ex_service False (Some ''0'') (RpcConfigure \<lparr>sd_input_type = 2, sd_preprocessing = Some ''p'', sd_postprocessing = None,
      sd_framework = None, sd_accel = None\<rparr>) ex_server (calm_os, []) = Ret (response 0, gr', calm_os, [])
    \<and> map_of (gr_clients gr') ''9'' = Some (Some ex_gst)"
proof -
  let ?r = "RpcConfigure \<lparr>sd_input_type = 2, sd_preprocessing = Some ''p'', sd_postprocessing = None, sd_framework = None, sd_accel = None\<rparr>"
  have "\<exists>gr'. service_call ex_service False (Some ''0'') ?r ex_server (calm_os, []) = Ret (response 0, gr', calm_os, [])"
    by (simp add: service_call_def Server_Configure_def with_gst_def GetGst_def ex_server_def configure_session_def Gst_Configure_def)
  then obtain gr' where r: "service_call ex_service False (Some ''0'') ?r ex_server (calm_os, []) = Ret (response 0, gr', calm_os, [])" by blast
  from clients_are_isolated [OF r] r show ?thesis by (auto simp: isolated_def ex_server_def)
qed

lemma unknown_id_witness:
  "service_call ex_service False (Some ''7'') RpcPrepare ex_server (calm_os, []) = Undefined
    \<and> (\<exists>gr'. Server_call ex_service False True \<lparr>md_method = Some ''Configure'', md_id = Some ''7'', md_nonce = None\<rparr> RpcPrepare ex_server
        (calm_os, []) = Ret (refused 0, gr', (calm_os, [])))"
  using unknown_id [of ex_server "''7''" RpcPrepare ex_service False "(calm_os, [])" None] by (auto simp: ex_server_def of_client_def)

lemma nonce_is_used_once_witness:
  "\<exists>gr'. Auth_Process (ex_metadata (Some ''0'')) ex_server = Ret (AuthOK, gr')
    \<and> Auth_Process (ex_metadata (Some ''0'')) gr' = Ret (Unauthenticated, gr')"
proof -
  have "\<exists>gr'. Auth_Process (ex_metadata (Some ''0'')) ex_server = Ret (AuthOK, gr')"
    by (simp add: Auth_Process_def ex_metadata_def GetGst_def ex_server_def Gst_GetNonce_def Gst_SetNonce_def to_string_def digits.simps
      char_of_def bit_Suc_0_iff)
  then obtain gr' where r: "Auth_Process (ex_metadata (Some ''0'')) ex_server = Ret (AuthOK, gr')" by blast
  have "md_method (ex_metadata (Some ''0'')) = Some ''LoadModel''" "\<not> strncmp_same (length ''LoadModel'') ''LoadModel'' ''ExchangeKey''"
    by (simp_all add: ex_metadata_def)
  from nonce_is_used_once [OF this r] r show ?thesis by blast
qed

lemma base_name_split: "\<exists>dirs. filename = dirs @ base_name filename"
proof -
  have "rev filename = takeWhile (\<lambda>c. c \<noteq> CHR ''/'' \<and> c \<noteq> CHR 0x5C) (rev filename)
      @ dropWhile (\<lambda>c. c \<noteq> CHR ''/'' \<and> c \<noteq> CHR 0x5C) (rev filename)" by simp
  then have "filename = rev (dropWhile (\<lambda>c. c \<noteq> CHR ''/'' \<and> c \<noteq> CHR 0x5C) (rev filename)) @ base_name filename"
    unfolding base_name_def by (metis rev_append rev_rev_ident)
  then show ?thesis by blast
qed

lemma base_name_plain: "CHR ''/'' \<notin> set (base_name filename) \<and> CHR 0x5C \<notin> set (base_name filename)"
  by (auto simp: base_name_def dest: set_takeWhileD)

lemma takeWhile_rev_all:
  assumes "\<forall>x\<in>set f. P x"
  shows "takeWhile P (rev f) = rev f"
  using assms by (metis set_rev takeWhile_eq_all_conv)

lemma takeWhile_rev_slash:
  assumes "\<not> P c"
  shows "rev (takeWhile P (rev (d @ c # f))) = rev (takeWhile P (rev f))"
  using assms by (auto simp: takeWhile_append takeWhile_rev_all simp del: takeWhile_eq_all_conv)

lemma base_name_slash: "base_name (d @ CHR ''/'' # f) = base_name f"
  unfolding base_name_def by (rule takeWhile_rev_slash) simp

lemma base_name_base: "base_name (base_name f) = base_name f"
proof -
  have "base_name (base_name f) = rev (takeWhile (\<lambda>c. c \<noteq> CHR ''/'' \<and> c \<noteq> CHR 0x5C) (rev (base_name f)))"
    by (rule base_name_def)
  also have "\<dots> = rev (rev (base_name f))"
    by (rule arg_cong [of _ _ rev], rule takeWhile_rev_all) (use base_name_plain [of f] in auto)
  finally show ?thesis by simp
qed


end
