(* ===== verification/Client_Server.thy ===== *)
theory Client_Server
  imports Server_Grpc Peer_NN
begin

text \<open>
  \<^verbatim>\<open>libbeyond-peer_nn/src/peer_grpc_client_auth.cc\<close> and the composition of the two ends: a client (\<open>Peer_Client\<close>) whose calls are answered
  by a server (\<open>Server_Grpc\<close>). Of the world between them only the transport is made up, which brings every call to the server once.
\<close>

section \<open>The client's metadata\<close>

text \<open>
  The pipeline's nonce is the one to send next (None: there is no pipeline, and it is dereferenced). It is counted when the metadata
  is made, whatever becomes of the call.
\<close>

definition Client_GetMetadata :: "string \<Rightarrow> string \<Rightarrow> 64 word option \<Rightarrow> (metadata \<times> 64 word option) outcome" where
  "Client_GetMetadata mname peerId nonce =
    (if strncmp_same (length mname) ''ExchangeKey'' mname
     then Ret (\<lparr>md_method = Some mname, md_id = None, md_nonce = None\<rparr>, nonce)
     else case nonce of
       None \<Rightarrow> Undefined
     | Some n \<Rightarrow> Ret (\<lparr>md_method = Some mname, md_id = Some peerId, md_nonce = Some (to_string (uint n))\<rparr>, Some (n + 1)))"

fun method_name :: "rpc_request \<Rightarrow> string" where
  "method_name (RpcConfigure d) = ''Configure''"
| "method_name (RpcExchangeKey k) = ''ExchangeKey''"
| "method_name (RpcLoadModel f) = ''LoadModel''"
| "method_name (RpcUploadModel f) = ''UploadModel''"
| "method_name RpcGetInputTensorInfo = ''GetInputTensorInfo''"
| "method_name RpcGetOutputTensorInfo = ''GetOutputTensorInfo''"
| "method_name (RpcSetInputTensorInfo i) = ''SetInputTensorInfo''"
| "method_name (RpcSetOutputTensorInfo i) = ''SetOutputTensorInfo''"
| "method_name RpcPrepare = ''Prepare''"
| "method_name RpcStop = ''Stop''"
| "method_name RpcGetInfo = ''GetInfo''"

section \<open>The two ends\<close>

text \<open>
  What lies beyond the client's own objects: the server with its resources (None: one of the two processes has crashed), and the
  secret and the nonce the client has given to its pipeline.
\<close>

record 'e link =
  lk_server :: "(grpc_server \<times> os \<times> 'e) option"
  lk_secret :: string
  lk_nonce :: "64 word option"

text \<open>
  A call: on a secured channel the client adds the metadata, otherwise only the id, which \<open>ExchangeKey\<close> and \<open>GetInfo\<close> leave out.
  A crash is a call that fails.
\<close>

definition transport :: "'e service \<Rightarrow> bool \<Rightarrow> bool \<Rightarrow> string \<Rightarrow> rpc_request \<Rightarrow> 'e link \<Rightarrow> rpc_response \<times> 'e link" where
  "transport SE nd secured peerId request l =
    (case lk_server l of
      None \<Rightarrow> (refused 0, l)
    | Some (gr, s, e) \<Rightarrow>
        (case (if secured then Client_GetMetadata (method_name request) peerId (lk_nonce l)
               else Ret (\<lparr>md_method = None, md_id = Some peerId, md_nonce = None\<rparr>, lk_nonce l)) of
          Ret (md, nonce) \<Rightarrow>
            (case Server_call SE nd secured md request gr (s, e) of
              Ret (r, gr', s', e') \<Rightarrow> (r, l\<lparr>lk_server := Some (gr', s', e'), lk_nonce := nonce\<rparr>)
            | _ \<Rightarrow> (refused 0, l\<lparr>lk_server := None\<rparr>))
        | _ \<Rightarrow> (refused 0, l\<lparr>lk_server := None\<rparr>)))"

definition pipeline_effect :: "gst_call \<Rightarrow> 'e link \<Rightarrow> 'e link" where
  "pipeline_effect call l =
    (case call of GstSetSecret secret \<Rightarrow> l\<lparr>lk_secret := secret\<rparr> | GstSetNonce nonce \<Rightarrow> l\<lparr>lk_nonce := Some nonce\<rparr> | _ \<Rightarrow> l)"

text \<open>The client's environment when the server answers; the rest of it is that of \<open>E\<close>.\<close>

definition connected :: "'e service \<Rightarrow> bool \<Rightarrow> bool \<Rightarrow> 'c environment \<Rightarrow> ('c \<times> 'e link) environment" where
  "connected SE nd secured E =
    \<lparr>env_stub = \<lambda>a rootCA (c, l). let (r, c1) = env_stub E a rootCA c in (r, c1, l),
     env_rpc = \<lambda>peerId request (c, l). let (r, l1) = transport SE nd secured peerId request l in (r, c, l1),
     env_gst = \<lambda>call (c, l). let (r, c1) = env_gst E call c in (r, c1, pipeline_effect call l),
     env_auth = \<lambda>p call (c, l). let (r, c1) = env_auth E p call c in (r, c1, l),
     env_server = \<lambda>a (c, l). let (r, c1) = env_server E a c in (r, c1, l),
     env_file = \<lambda>f (c, l). let (r, c1) = env_file E f c in (r, c1, l),
     env_random = \<lambda>(c, l). let (r, c1) = env_random E c in (r, c1, l),
     env_junk = env_junk E\<rparr>"

section \<open>The credential\<close>

lemma chars_value_byte_chars: "chars_value (byte_chars bs) = le_value bs"
proof -
  have "word_of_nat (of_char (char_of (unat b) :: char)) = (b :: 8 word)" for b
  proof -
    have "unat b < 2 ^ LENGTH(8)" by (rule unsigned_less)
    then show ?thesis by (simp add: of_char_of)
  qed
  then show ?thesis by (simp add: chars_value_def byte_chars_def comp_def)
qed

lemma length_byte_chars [simp]: "length (byte_chars bs) = length bs"
  by (simp add: byte_chars_def)

lemma same_text_append: "same_text a (a @ b) = Some True"
  by (induction a) auto

lemma same_text_prefix: "same_text a b = Some True \<Longrightarrow> \<exists>c. b = a @ c"
  by (induction a b rule: same_text.induct) (auto split: if_splits)

text \<open>The parts of a credential; the uuid takes 37 bytes.\<close>

lemma credential_parts:
  assumes "length key < 2 ^ 31" and "length uuid < UUID_LEN"
  shows "cred_nonce (credential junk nonce uuid key) = nonce"
    and "cred_length (credential junk nonce uuid key) = int (length key)"
    and "cred_key (credential junk nonce uuid key) = Ret key"
    and "drop 12 (credential junk nonce uuid key) = uuid @ CHR 0x00 # drop (13 + length uuid) (credential junk nonce uuid key)"
proof -
  obtain t where t: "take 7 (junk @ replicate 7 (CHR 0x00)) = t" "length t = 7" by simp
  obtain u where u: "take UUID_LEN (uuid @ CHR 0x00 # junk @ replicate UUID_LEN (CHR 0x00)) = u" "length u = 37"
    by (simp add: UUID_LEN_def)
  have u': "u = uuid @ CHR 0x00 # drop (1 + length uuid) u"
    using assms(2) u by (auto simp: UUID_LEN_def take_Cons')
  have c: "credential junk nonce uuid key = byte_chars (le_bytes 8 (unat nonce)) @ byte_chars (le_bytes 4 (length key)) @ u @ key @ t"
    by (simp only: credential_def t u)
  have "unat nonce < 2 ^ LENGTH(64)" by (rule unsigned_less)
  then show "cred_nonce (credential junk nonce uuid key) = nonce"
    by (simp add: cred_nonce_def c chars_value_byte_chars le_value_bytes)
  have "sint (word_of_nat (length key) :: 32 word) = int (length key)"
    using assms(1) by (simp add: sint_uint signed_take_bit_int_eq_self unsigned_of_nat take_bit_nat_eq_self)
  then show cl: "cred_length (credential junk nonce uuid key) = int (length key)"
    using assms(1) by (simp add: cred_length_def c chars_value_byte_chars le_value_bytes)
  have "drop PAYLOAD (credential junk nonce uuid key) = key @ t"
    using u(2) by (simp add: c PAYLOAD_def)
  moreover have "length (credential junk nonce uuid key) = 49 + length key + 7" using u(2) t(2) by (simp add: c)
  ultimately show "cred_key (credential junk nonce uuid key) = Ret key" using cl by (simp add: cred_key_def PAYLOAD_def)
  have d: "drop 12 (credential junk nonce uuid key) = u @ key @ t" by (simp add: c)
  have "drop (13 + length uuid) (credential junk nonce uuid key) = drop (1 + length uuid) (u @ key @ t)"
    by (simp add: d [symmetric] add.commute)
  also have "\<dots> = drop (1 + length uuid) u @ key @ t" using u(2) assms(2) by (simp add: UUID_LEN_def)
  finally show "drop 12 (credential junk nonce uuid key) = uuid @ CHR 0x00 # drop (13 + length uuid) (credential junk nonce uuid key)"
    unfolding d by (subst u') simp
qed

section \<open>The exchange of keys\<close>

text \<open>
  What the two authenticators promise each other: the server's decrypts what the client's has sealed, and a key has a length that fits
  into an \<^verbatim>\<open>int\<close>.
\<close>

definition seals :: "'c environment \<Rightarrow> ptr \<Rightarrow> 'e service \<Rightarrow> ptr \<Rightarrow> bool" where
  "seals E auth SE p \<longleftrightarrow>
    (\<forall>cred x ret out x1 ret' sealed x2 e. env_auth E auth (AuthSeal KEY_PUBLIC cred) x = ((ret, out), x1) \<and> 0 \<le> ret
        \<and> env_auth E auth AuthResult x1 = ((ret', Some sealed), x2) \<and> 0 \<le> ret'
      \<longrightarrow> (\<exists>e1 e2. se_decrypt SE p sealed e = (0, e1) \<and> se_result SE p e1 = ((0, Some cred), e2)))
    \<and> (\<forall>x ret key x1. env_auth E auth (AuthKey KEY_SECRET) x = ((ret, Some key), x1) \<longrightarrow> length key < 2 ^ 31)"

lemma connected_simps [simp]:
  "env_rpc (connected SE nd secured E) peerId request (x, l) = (case transport SE nd secured peerId request l of (r, l1) \<Rightarrow> (r, x, l1))"
  "env_gst (connected SE nd secured E) call (x, l) = (case env_gst E call x of (r, x1) \<Rightarrow> (r, x1, pipeline_effect call l))"
  "env_auth (connected SE nd secured E) p acall (x, l) = (case env_auth E p acall x of (r, x1) \<Rightarrow> (r, x1, l))"
  "env_random (connected SE nd secured E) (x, l) = (case env_random E x of (n, x1) \<Rightarrow> (n, x1, l))"
  "env_junk (connected SE nd secured E) = env_junk E"
  by (simp_all add: connected_def Let_def)

lemma exchange_request_connected:
  assumes "exchange_request (connected SE nd secured E) auth uuid nonce (s, x, l) = (Inr (request, secret), s1, x1, l1)"
  shows "l1 = l \<and> (auth = nullptr \<and> request = ''insecure'' \<and> secret = []
    \<or> auth \<noteq> nullptr \<and> (\<exists>x0 ret xa ret' xb ret'' out xc. env_auth E auth (AuthKey KEY_SECRET) x0 = ((ret, Some secret), xa)
        \<and> env_auth E auth (AuthSeal KEY_PUBLIC (credential (env_junk E) nonce uuid secret)) xa = ((ret', out), xb) \<and> 0 \<le> ret'
        \<and> env_auth E auth AuthResult xb = ((ret'', Some request), xc) \<and> 0 \<le> ret''))"
proof (cases "auth = nullptr")
  case True
  with assms show ?thesis by (auto simp: exchange_request_def)
next
  case False
  obtain ret key xa where k: "env_auth E auth (AuthKey KEY_SECRET) x = ((ret, key), xa)" by (cases "env_auth E auth (AuthKey KEY_SECRET) x") auto
  obtain ret' out xb where q: "env_auth E auth (AuthSeal KEY_PUBLIC (credential (env_junk E) nonce uuid (the key))) xa = ((ret', out), xb)"
    by (cases "env_auth E auth (AuthSeal KEY_PUBLIC (credential (env_junk E) nonce uuid (the key))) xa") auto
  obtain ret'' sealed xc where o: "env_auth E auth AuthResult xb = ((ret'', sealed), xc)" by (cases "env_auth E auth AuthResult xb") auto
  obtain ok s0 where n: "os_new s = (ok, s0)" by fastforce
  have "l1 = l \<and> key = Some secret \<and> sealed = Some request \<and> 0 \<le> ret' \<and> 0 \<le> ret''"
    using assms False k q o n by (auto simp: exchange_request_def Let_def split: if_splits option.splits list.splits)
  with False k q o show ?thesis by fastforce
qed

lemma strncmp_same_refl [simp]: "strncmp_same n a a"
proof (induction n arbitrary: a)
  case (Suc n)
  then show ?case by (cases a) simp_all
qed simp

lemma transport_exchange:
  assumes "lk_server l = Some (gr, t, e)" and "transport SE nd secured peerId (RpcExchangeKey key) l = (r, l')" and "rr_ok r"
  obtains gr' t' e' where "Server_ExchangeKey SE key gr (t, e) = Ret (r, gr', t', e')" "l' = l\<lparr>lk_server := Some (gr', t', e')\<rparr>"
proof -
  have n: "l\<lparr>lk_server := z, lk_nonce := lk_nonce l\<rparr> = l\<lparr>lk_server := z\<rparr>" for z by (cases l) simp
  have "transport SE nd secured peerId (RpcExchangeKey key) l =
      (case Server_ExchangeKey SE key gr (t, e) of Ret (r, gr', t', e') \<Rightarrow> (r, l\<lparr>lk_server := Some (gr', t', e')\<rparr>)
        | _ \<Rightarrow> (refused 0, l\<lparr>lk_server := None\<rparr>))"
    using assms(1)
    by (cases secured) (auto simp: transport_def Client_GetMetadata_def Server_call_def Auth_Process_def service_call_def n split: outcome.split)
  with assms(2,3) that show ?thesis by (auto simp: refused_def split: outcome.splits)
qed

lemma credential_Nil [simp]: "credential junk nonce uuid key \<noteq> []"
proof -
  have "length (byte_chars (le_bytes 8 (unat nonce))) = 8" by simp
  then have "byte_chars (le_bytes 8 (unat nonce)) \<noteq> []" by fastforce
  then show ?thesis by (simp add: credential_def)
qed

lemma Server_exchange_sealed:
  assumes "se_decrypt SE (exchange_authenticator gr) key e = (0, e1)" and "se_result SE (exchange_authenticator gr) e1 = ((0, Some cred), e2)"
    and "exchange_authenticator gr \<noteq> nullptr" and "cred \<noteq> []"
    and "Server_ExchangeKey SE key gr (t, e) = Ret (r, gr', t', e')"
  shows "exchange_credential cred gr t = Ret (r, gr', t')"
proof -
  obtain b bs where c: "cred = b # bs" using assms(4) by (cases cred) auto
  have "Server_ExchangeKey SE key gr (t, e) = obind (exchange_credential cred gr t) (\<lambda>(r, gr, s). Ret (r, gr, s, e2))"
    using assms(1-3) unfolding Server_ExchangeKey_def Let_def exchange_authenticator_def [symmetric] by (simp add: c)
  with assms(5) show ?thesis by (auto simp: obind_eq_Ret)
qed

lemma exchange_credential_ok:
  assumes "exchange_credential (credential junk nonce uuid key) gr t = Ret (r, gr', t')" and "rr_status r = 0"
    and "length key < 2 ^ 31" and "length uuid < UUID_LEN"
  obtains info g where "sp_info (gr_peer gr) = Some info" "\<exists>rest. ni_uuid info = take (length (ni_uuid info)) (uuid @ CHR 0x00 # rest)"
    "rr_id r = to_string (uint (gr_nextPeerId gr))" "map_of (gr_clients gr') (rr_id r) = Some (Some g)"
    "sg_secretKey g = key" "sg_nonce g = Some nonce"
proof -
  let ?cred = "credential junk nonce uuid key"
  note parts = credential_parts [OF assms(3,4), of junk nonce]
  obtain info where i: "sp_info (gr_peer gr) = Some info" using assms(1) by (auto simp: exchange_credential_def split: option.splits)
  have st: "same_text (ni_uuid info) (drop 12 ?cred) = Some True"
    using assms(1,2) i by (auto simp: exchange_credential_def response_def errno_defs split: option.splits bool.splits)
  from same_text_prefix [OF this] parts(4) obtain rest c where "uuid @ CHR 0x00 # rest = ni_uuid info @ c" by metis
  then have u: "\<exists>rest. ni_uuid info = take (length (ni_uuid info)) (uuid @ CHR 0x00 # rest)"
    by (metis append_eq_conv_conj)
  have "register (\<lambda>g. Ret (Gst_SetNonce nonce (Gst_SetSecret key g))) gr t = Ret (r, gr', t')"
    using assms(1) i st parts by (simp add: exchange_credential_def)
  then show ?thesis
  proof (cases rule: register_cases)
    case failed
    with assms(2) show ?thesis by (simp add: response_def errno_defs)
  next
    case (registered g g')
    with i u show ?thesis by (intro that [of info g']) (auto simp: Gst_SetNonce_def Gst_SetSecret_def)
  qed
qed

text \<open>
  C9. The exchange of keys. A client and a server with authenticators, of which the server's decrypts what the client's seals, are in
  the same state when \<open>ExchangeKey\<close> has succeeded: the server has a pipeline for the new client, under the id the client was
  given, whose key for the encrypted tensors is the client's and whose next nonce is the one the client will send; and the uuid that the
  client knows begins with the server's own.
\<close>

theorem key_exchange_agrees:
  assumes "Client_ExchangeKey (connected SE nd secured E) auth uuid c (s, x, l) = (0, c', s', x', l')"
    and "lk_server l = Some (gr, t, e)" and "auth \<noteq> nullptr" and "exchange_authenticator gr \<noteq> nullptr"
    and "seals E auth SE (exchange_authenticator gr)" and "length uuid < UUID_LEN"
  shows "\<exists>gr' t' e' info g rest. lk_server l' = Some (gr', t', e')
    \<and> gc_peerId c' = to_string (uint (gr_nextPeerId gr)) \<and> gc_gst c' = Some Model_new
    \<and> map_of (gr_clients gr') (gc_peerId c') = Some (Some g)
    \<and> sg_secretKey g = lk_secret l' \<and> sg_nonce g = lk_nonce l' \<and> lk_nonce l' \<noteq> None
    \<and> sp_info (gr_peer gr) = Some info \<and> ni_uuid info = take (length (ni_uuid info)) (uuid @ CHR 0x00 # rest)"
proof -
  let ?E = "connected SE nd secured E"
  obtain nonce x0 where n: "env_random E x = (nonce, x0)" by fastforce
  obtain q s1 w1 where q: "exchange_request ?E auth uuid nonce (s, x0, l) = (q, s1, w1)" by (cases "exchange_request ?E auth uuid nonce (s, x0, l)")
  obtain x1 l1 where w1: "w1 = (x1, l1)" by fastforce
  show ?thesis
  proof (cases q)
    case (Inl ret)
    then have "ret < 0" using q by (auto simp: exchange_request_def Let_def errno_defs split: if_splits option.splits list.splits prod.splits)
    with assms(1) n q Inl show ?thesis by (simp add: Client_ExchangeKey_def)
  next
    case (Inr a)
    obtain request secret where a: "a = (request, secret)" by fastforce
    from exchange_request_connected [of SE nd secured E auth uuid nonce s x0 l request secret s1 x1 l1] q w1 Inr a assms(3)
    obtain y0 ret xa ret' xb ret'' out xc where l: "l1 = l" and k: "env_auth E auth (AuthKey KEY_SECRET) y0 = ((ret, Some secret), xa)"
      "env_auth E auth (AuthSeal KEY_PUBLIC (credential (env_junk E) nonce uuid secret)) xa = ((ret', out), xb)" "0 \<le> ret'"
      "env_auth E auth AuthResult xb = ((ret'', Some request), xc)" "0 \<le> ret''" by auto
    have len: "length secret < 2 ^ 31" using assms(5) k(1) unfolding seals_def by blast
    from assms(5) k(2-5) obtain e1 e2 where d: "se_decrypt SE (exchange_authenticator gr) request e = (0, e1)"
      "se_result SE (exchange_authenticator gr) e1 = ((0, Some (credential (env_junk E) nonce uuid secret)), e2)"
      unfolding seals_def by blast
    obtain r l2 where r: "transport SE nd secured [] (RpcExchangeKey request) l = (r, l2)" by fastforce
    have ok: "rr_ok r" "rr_status r = 0"
      using assms(1) n q w1 Inr a l r by (auto simp: Client_ExchangeKey_def Let_def errno_defs split: if_splits)
    from transport_exchange [OF assms(2) r ok(1)] obtain gr' t' e' where
      x: "Server_ExchangeKey SE request gr (t, e) = Ret (r, gr', t', e')" "l2 = l\<lparr>lk_server := Some (gr', t', e')\<rparr>" .
    from Server_exchange_sealed [OF d assms(4) _ x(1)] have "exchange_credential (credential (env_junk E) nonce uuid secret) gr t = Ret (r, gr', t')"
      by simp
    from exchange_credential_ok [OF this ok(2) len assms(6)] obtain info g where
      g: "sp_info (gr_peer gr) = Some info" "\<exists>rest. ni_uuid info = take (length (ni_uuid info)) (uuid @ CHR 0x00 # rest)"
      "rr_id r = to_string (uint (gr_nextPeerId gr))" "map_of (gr_clients gr') (rr_id r) = Some (Some g)" "sg_secretKey g = secret" "sg_nonce g = Some nonce" .
    have "c' = c\<lparr>gc_peerId := rr_id r, gc_gst := Some Model_new\<rparr>" "l' = l2\<lparr>lk_secret := secret, lk_nonce := Some nonce\<rparr>"
      using assms(1) n q w1 Inr a l r ok
      by (auto simp: Client_ExchangeKey_def Let_def errno_defs pipeline_effect_def split: if_splits prod.splits)
    with g x(2) show ?thesis by auto
  qed
qed

section \<open>The nonces of the two ends\<close>

text \<open>
  Attempts of a client on a secured channel: the method, and whether the call arrives. An attempt is accepted when it arrives and
  the server's processor lets it pass.
\<close>

fun attempts :: "string \<Rightarrow> (string \<times> bool) list \<Rightarrow> 64 word option \<Rightarrow> grpc_server \<Rightarrow> (bool list \<times> 64 word option \<times> grpc_server) outcome" where
  "attempts peerId [] nonce gr = Ret ([], nonce, gr)"
| "attempts peerId ((mname, arrives) # rest) nonce gr =
    obind (Client_GetMetadata mname peerId nonce) (\<lambda>(md, nonce').
    obind (if arrives then Auth_Process md gr else Ret (NotFound, gr)) (\<lambda>(status, gr').
    obind (attempts peerId rest nonce' gr') (\<lambda>(accepted, w). Ret ((status = AuthOK) # accepted, w))))"

lemma strncmp_same_commute: "strncmp_same n a b = strncmp_same n b a"
  by (induction n a b rule: strncmp_same.induct) (auto elim: strncmp_same.elims)

lemma Auth_Process_numbered:
  assumes "mname \<noteq> []" and "\<not> strncmp_same (length mname) mname ''ExchangeKey''" and "peerId \<noteq> []"
    and "map_of (gr_clients gr) peerId = Some (Some g)" and "sg_nonce g = Some m"
  shows "Auth_Process \<lparr>md_method = Some mname, md_id = Some peerId, md_nonce = Some (to_string (uint n))\<rparr> gr =
    (if n = m then Ret (AuthOK, gr\<lparr>gr_clients := put_client peerId (Some (Gst_SetNonce (m + 1) g)) (gr_clients gr)\<rparr>)
     else Ret (Unauthenticated, gr))"
proof -
  obtain a as where m: "mname = a # as" using assms(1) by (cases mname) auto
  obtain b bs where p: "peerId = b # bs" using assms(3) by (cases peerId) auto
  have "to_string (uint n) \<noteq> []" by (simp add: to_string_def)
  then obtain d ds where t: "to_string (uint n) = d # ds" by (cases "to_string (uint n)") auto
  have "to_string (uint m) = to_string (uint n) \<longleftrightarrow> n = m"
    by (simp add: to_string_inj) (metis word_uint_eqI)
  then show ?thesis using assms(2,4,5) unfolding m p t
    by (auto simp: Auth_Process_def GetGst_Some Gst_GetNonce_def t)
qed

lemma attempts_behind:
  assumes "list_all (\<lambda>(mname, arrives). mname \<noteq> [] \<and> \<not> strncmp_same (length mname) mname ''ExchangeKey'') calls" and "peerId \<noteq> []"
    and "map_of (gr_clients gr) peerId = Some (Some g)" and "sg_nonce g = Some m"
    and "\<forall>i < length calls. n + word_of_nat i \<noteq> m"
  shows "attempts peerId calls (Some n) gr = Ret (replicate (length calls) False, Some (n + word_of_nat (length calls)), gr)"
  using assms(1,5)
proof (induction calls arbitrary: n)
  case (Cons c calls)
  obtain mname arrives where c: "c = (mname, arrives)" by fastforce
  have "\<forall>i < length calls. (n + 1) + word_of_nat i \<noteq> m"
    using Cons.prems(2) by (metis (no_types, lifting) Suc_less_eq add.assoc add.commute length_Cons of_nat_Suc)
  from Cons.IH [OF _ this] Cons.prems(1)
  have "attempts peerId calls (Some (n + 1)) gr = Ret (replicate (length calls) False, Some (n + 1 + word_of_nat (length calls)), gr)" by simp
  moreover have "n \<noteq> m" using Cons.prems(2) by force
  ultimately show ?case
    using Cons.prems(1) assms(2-4)
    by (auto simp: c Client_GetMetadata_def strncmp_same_commute [of _ "''ExchangeKey''"] Auth_Process_numbered add.assoc)
qed simp

text \<open>
  C13. The nonces of client and server. Of the calls of a client whose nonce is the server's, those before the first one that is lost
  are accepted, and from that one on none ever is: the client counts a call when it makes the metadata, the server when it
  accepts one, so that one lost call puts the client ahead of the server for good.
\<close>

theorem nonce_lockstep:
  assumes "list_all (\<lambda>(mname, arrives). mname \<noteq> [] \<and> \<not> strncmp_same (length mname) mname ''ExchangeKey'') calls" and "peerId \<noteq> []"
    and "map_of (gr_clients gr) peerId = Some (Some g)" and "sg_nonce g = Some n" and "length calls \<le> 2 ^ 64"
  shows "\<exists>gr' g'. let k = length (takeWhile snd calls) in
    attempts peerId calls (Some n) gr
      = Ret (replicate k True @ replicate (length calls - k) False, Some (n + word_of_nat (length calls)), gr')
    \<and> map_of (gr_clients gr') peerId = Some (Some g') \<and> sg_nonce g' = Some (n + word_of_nat k)"
  using assms(1,3,4,5)
proof (induction calls arbitrary: n gr g)
  case (Cons c calls)
  obtain mname arrives where c: "c = (mname, arrives)" by fastforce
  from Cons.prems(1) have m: "mname \<noteq> []" "\<not> strncmp_same (length mname) mname ''ExchangeKey''" by (simp_all add: c)
  have md: "Client_GetMetadata mname peerId (Some n)
      = Ret (\<lparr>md_method = Some mname, md_id = Some peerId, md_nonce = Some (to_string (uint n))\<rparr>, Some (n + 1))"
    using m(2) by (simp add: Client_GetMetadata_def strncmp_same_commute [of _ "''ExchangeKey''"])
  show ?case
  proof (cases arrives)
    case True
    let ?gr = "gr\<lparr>gr_clients := put_client peerId (Some (Gst_SetNonce (n + 1) g)) (gr_clients gr)\<rparr>"
    have a: "Auth_Process \<lparr>md_method = Some mname, md_id = Some peerId, md_nonce = Some (to_string (uint n))\<rparr> gr = Ret (AuthOK, ?gr)"
      using Auth_Process_numbered [OF m assms(2) Cons.prems(2,3), of n] by simp
    have "map_of (gr_clients ?gr) peerId = Some (Some (Gst_SetNonce (n + 1) g))" "sg_nonce (Gst_SetNonce (n + 1) g) = Some (n + 1)"
      by (simp_all add: Gst_SetNonce_def)
    from Cons.IH [OF _ this] Cons.prems(1,4) md a True show ?thesis by (auto simp: c Let_def add.assoc)
  next
    case False
    have "n + 1 + word_of_nat i \<noteq> n" if "i < length calls" for i
    proof -
      have "Suc i < 2 ^ LENGTH(64)" using that Cons.prems(4) by simp
      then have "unat (word_of_nat (Suc i) :: 64 word) = Suc i" by (simp only: unsigned_of_nat take_bit_nat_eq_self of_nat_id)
      then have "(word_of_nat (Suc i) :: 64 word) \<noteq> 0" by (metis nat.distinct(1) unat_0)
      moreover have "n + 1 + word_of_nat i = n + (word_of_nat (Suc i) :: 64 word)" by (simp add: add.assoc)
      ultimately show ?thesis by (metis add_cancel_right_right)
    qed
    then have b: "attempts peerId calls (Some (n + 1)) gr = Ret (replicate (length calls) False, Some (n + 1 + word_of_nat (length calls)), gr)"
      using attempts_behind [OF _ assms(2) Cons.prems(2,3), of calls "n + 1"] Cons.prems(1) by simp
    show ?thesis
      by (intro exI [of _ gr] exI [of _ g]) (use md b False Cons.prems(2,3) in \<open>simp add: c Let_def add.assoc\<close>)
  qed
qed simp

section \<open>Tensor information\<close>

text \<open>A client that the server knows and, on a secured channel, whose nonce is the server's.\<close>

definition in_step :: "bool \<Rightarrow> string \<Rightarrow> 'e link \<Rightarrow> bool" where
  "in_step secured peerId l \<longleftrightarrow> peerId \<noteq> [] \<and> (case lk_server l of None \<Rightarrow> False | Some (gr, t, e) \<Rightarrow> faults t = []
    \<and> (case map_of (gr_clients gr) peerId of Some (Some g) \<Rightarrow> \<not> secured \<or> sg_nonce g = lk_nonce l \<and> lk_nonce l \<noteq> None | _ \<Rightarrow> False))"

text \<open>The tensor information the server has of a client.\<close>

definition server_side :: "bool \<Rightarrow> string \<Rightarrow> 'e link \<Rightarrow> tensor_info list option" where
  "server_side isInput peerId l = (case lk_server l of None \<Rightarrow> None | Some (gr, _) \<Rightarrow>
    (case map_of (gr_clients gr) peerId of Some (Some g) \<Rightarrow> (if isInput then pm_input else pm_output) (sg_model g) | _ \<Rightarrow> None))"

text \<open>A name that is null arrives as the empty one.\<close>

definition named :: "tensor_info \<Rightarrow> tensor_info" where
  "named x = x\<lparr>ti_name := Some (case ti_name x of None \<Rightarrow> [] | Some n \<Rightarrow> n)\<rparr>"

lemma SetRequest_named:
  "SetRequest xs = Ret (Some request) \<Longrightarrow>
    map (\<lambda>(type, sz, name, dims). \<lparr>ti_type = type, ti_size = sz, ti_name = Some name, ti_dims = Some dims\<rparr>) request = map named xs
    \<and> InfoToResponse (map named xs) = Ret request \<and> (xs \<noteq> [] \<longrightarrow> request \<noteq> [])"
proof (induction xs arbitrary: request)
  case (Cons x xs)
  then obtain d ds where d: "ti_dims x = Some (d # ds)" by (auto split: option.splits list.splits)
  with Cons.prems obtain rest where r: "SetRequest xs = Ret (Some rest)"
    "request = (ti_type x, ti_size x, (case ti_name x of None \<Rightarrow> [] | Some n \<Rightarrow> n), d # ds) # rest"
    by (auto simp: obind_eq_Ret)
  from Cons.IH [OF r(1)] d r(2) show ?case by (cases x) (simp add: named_def)
qed simp

lemma strncmp_same_numeral [simp]:
  "strncmp_same (numeral k) (c # cs) (d # ds) = (c = d \<and> strncmp_same (pred_numeral k) cs ds)"
  by (simp add: numeral_eq_Suc)

lemma transport_in_step:
  assumes "lk_server l = Some (gr, t, e)" and "peerId \<noteq> []" and "map_of (gr_clients gr) peerId = Some (Some g)"
    and "secured \<Longrightarrow> sg_nonce g = Some n \<and> lk_nonce l = Some n"
    and "method_name request = c # cs" and "c \<noteq> CHR ''E''"
    and "\<And>gr w. service_call SE nd (Some peerId) request gr w = with_gst (Some peerId) h gr w"
    and "h (if secured then Gst_SetNonce (n + 1) g else g) (t, e) = Ret (r, g', t', e')"
  shows "\<exists>gr'. transport SE nd secured peerId request l
      = (r, l\<lparr>lk_server := Some (gr', t', e'), lk_nonce := if secured then Some (n + 1) else lk_nonce l\<rparr>)
    \<and> map_of (gr_clients gr') peerId = Some (Some g')"
proof (cases secured)
  case True
  let ?gr = "gr\<lparr>gr_clients := put_client peerId (Some (Gst_SetNonce (n + 1) g)) (gr_clients gr)\<rparr>"
  let ?md = "\<lparr>md_method = Some (c # cs), md_id = Some peerId, md_nonce = Some (to_string (uint n))\<rparr>"
  have o: "\<not> strncmp_same (length (c # cs)) (c # cs) ''ExchangeKey''" using assms(6) by simp
  have a: "Auth_Process ?md gr = Ret (AuthOK, ?gr)"
    using Auth_Process_numbered [OF _ o assms(2,3), of n n] assms(4) True by simp
  have w: "with_gst (Some peerId) h ?gr (t, e)
      = Ret (r, ?gr\<lparr>gr_clients := put_client peerId (Some g') (gr_clients ?gr)\<rparr>, t', e')"
    using assms(2,8) True by (simp add: with_gst_def GetGst_Some)
  have m: "Client_GetMetadata (c # cs) peerId (Some n) = Ret (?md, Some (n + 1))"
    using o by (simp only: Client_GetMetadata_def strncmp_same_commute [of _ "''ExchangeKey''"]) simp
  show ?thesis
    by (intro exI [of _ "?gr\<lparr>gr_clients := put_client peerId (Some g') (gr_clients ?gr)\<rparr>"])
      (use True assms(1,4,5) a w m in \<open>simp add: transport_def Server_call_def assms(7)\<close>)
next
  case False
  with assms(1,2,3,8) show ?thesis
    by (intro exI [of _ "gr\<lparr>gr_clients := put_client peerId (Some g') (gr_clients gr)\<rparr>"])
      (simp add: transport_def Server_call_def assms(7) with_gst_def GetGst_Some)
qed

lemma faults_free_infos [simp]: "faults (free_infos info s) = faults s"
proof -
  have "faults (free_tensor_infos xs s) = faults s" for xs
    by (induction xs arbitrary: s) (simp_all add: free_block_def os_delete_def split: option.split)
  then show ?thesis by (simp add: free_infos_def FreeTensorInfo_def os_delete_def split: option.split)
qed

lemma RequestToInfo_calm:
  assumes "faults t = []"
  shows "\<exists>t'. RequestToInfo request t =
    Ret (0, Some (map (\<lambda>(type, sz, name, dims). \<lparr>ti_type = type, ti_size = sz, ti_name = Some name, ti_dims = Some dims\<rparr>) request), t')
    \<and> faults t' = []"
proof -
  let ?xs = "map (\<lambda>(type, sz, name, dims). \<lparr>ti_type = type, ti_size = sz, ti_name = Some name, ti_dims = Some dims\<rparr>) request"
  obtain t1 where 1: "os_new t = (True, t1)" "faults t1 = []" using os_new_calm assms by blast
  have "list_all (\<lambda>x. ti_dims x \<noteq> None) ?xs" by (auto simp: list_all_iff)
  from dup_tensor_infos_calm [OF this 1(2), of "[]"] 1(1) show ?thesis by (simp add: RequestToInfo_def)
qed

lemma GetTensorInfoFromResponse_calm:
  assumes "faults t = []" and "request \<noteq> []"
  shows "\<exists>t'. GetTensorInfoFromResponse nd request t =
    Ret (0, Some (map (\<lambda>(type, sz, name, dims). \<lparr>ti_type = type, ti_size = sz, ti_name = Some name, ti_dims = Some dims\<rparr>) request), t')"
  using RequestToInfo_calm [OF assms(1), of request] assms(2) by (auto simp: RequestToInfo_def GetTensorInfoFromResponse_def)

text \<open>The sessions of the two sides, and the clients' calls.\<close>

definition set_side :: "bool \<Rightarrow> (int \<times> int \<times> string \<times> int list) list \<Rightarrow> server_gst \<Rightarrow> os \<times> 'e \<Rightarrow> (server_gst, 'e) answered" where
  "set_side isInput = (if isInput then set_input_session else set_output_session)"

definition get_side :: "bool \<Rightarrow> bool \<Rightarrow> server_gst \<Rightarrow> os \<times> 'e \<Rightarrow> (server_gst, 'e) answered" where
  "get_side isInput = (if isInput then get_input_session else get_output_session)"

definition Client_Set :: "bool \<Rightarrow> 'c environment \<Rightarrow> tensor_info list \<Rightarrow> grpc_client \<Rightarrow> os \<times> 'c \<Rightarrow> (int \<times> grpc_client \<times> os \<times> 'c) outcome" where
  "Client_Set isInput = (if isInput then Client_SetInputTensorInfo else Client_SetOutputTensorInfo)"

definition Client_Get ::
    "bool \<Rightarrow> 'c environment \<Rightarrow> bool \<Rightarrow> grpc_client \<Rightarrow> os \<times> 'c \<Rightarrow> (int \<times> tensor_info list option \<times> grpc_client \<times> os \<times> 'c) outcome" where
  "Client_Get isInput = (if isInput then Client_GetInputTensorInfo else Client_GetOutputTensorInfo)"

lemma set_side_calm:
  assumes "SetRequest info = Ret (Some request)" and "faults t = []"
  shows "\<exists>m t'. set_side isInput request g (t, e) = Ret (response 0, g\<lparr>sg_model := m\<rparr>, t', e) \<and> faults t' = []
    \<and> (if isInput then pm_input else pm_output) m = Some (map named info)"
proof -
  obtain t' where "RequestToInfo request t = Ret (0, Some (map named info), t')" "faults t' = []"
    using RequestToInfo_calm [OF assms(2), of request] SetRequest_named [OF assms(1)] by auto
  then show ?thesis
    by (auto simp: set_side_def set_input_session_def set_output_session_def Model_SetInput_def Model_SetOutput_def)
qed

lemma get_side_named:
  assumes "SetRequest info = Ret (Some request)" and "info \<noteq> []" and "(if isInput then pm_input else pm_output) (sg_model g) = Some (map named info)"
  shows "get_side isInput nd g w = Ret ((response 0)\<lparr>rr_infos := request\<rparr>, g, w)"
  using assms SetRequest_named [OF assms(1)]
  by (cases isInput) (simp_all add: get_side_def get_input_session_def get_output_session_def get_infos_def)

lemma in_step_cases:
  assumes "in_step secured peerId l"
  obtains gr t e g n where "lk_server l = Some (gr, t, e)" "peerId \<noteq> []" "map_of (gr_clients gr) peerId = Some (Some g)" "faults t = []"
    "secured \<longrightarrow> sg_nonce g = Some n \<and> lk_nonce l = Some n"
proof -
  obtain gr t e where l: "lk_server l = Some (gr, t, e)" using assms by (auto simp: in_step_def split: option.splits)
  obtain g where g: "map_of (gr_clients gr) peerId = Some (Some g)"
    using assms l by (cases "map_of (gr_clients gr) peerId"; cases "the (map_of (gr_clients gr) peerId)") (auto simp: in_step_def)
  from assms l g have "peerId \<noteq> []" "faults t = []" "secured \<longrightarrow> sg_nonce g = lk_nonce l \<and> lk_nonce l \<noteq> None" by (simp_all add: in_step_def)
  then have "secured \<longrightarrow> sg_nonce g = Some (the (lk_nonce l)) \<and> lk_nonce l = Some (the (lk_nonce l))" by auto
  with that l g \<open>peerId \<noteq> []\<close> \<open>faults t = []\<close> show ?thesis by blast
qed

lemma in_stepI:
  assumes "lk_server l = Some (gr, t, e)" and "peerId \<noteq> []" and "map_of (gr_clients gr) peerId = Some (Some g)" and "faults t = []"
    and "secured \<Longrightarrow> sg_nonce g = Some n \<and> lk_nonce l = Some n"
  shows "in_step secured peerId l"
  using assms by (simp add: in_step_def)

lemma Client_Set_travels:
  assumes "in_step secured peerId l" and "gc_peerId c = peerId" and "gc_gst c = Some m" and "SetRequest info = Ret (Some request)"
    and "faults s = []"
  shows "\<exists>c' s' l'. Client_Set isInput (connected SE nd secured E) info c (s, x, l) = Ret (0, c', s', x, l')
    \<and> in_step secured peerId l' \<and> server_side isInput peerId l' = Some (map named info)"
proof -
  from assms(1) obtain gr t e g n where l: "lk_server l = Some (gr, t, e)" "peerId \<noteq> []" "map_of (gr_clients gr) peerId = Some (Some g)"
    "faults t = []" "secured \<longrightarrow> sg_nonce g = Some n \<and> lk_nonce l = Some n" by (rule in_step_cases)
  let ?rpc = "(if isInput then RpcSetInputTensorInfo else RpcSetOutputTensorInfo) request"
  let ?g = "if secured then Gst_SetNonce (n + 1) g else g"
  from set_side_calm [OF assms(4) l(4), of isInput ?g e] obtain m' t' where h: "set_side isInput request ?g (t, e) = Ret (response 0, ?g\<lparr>sg_model := m'\<rparr>, t', e)"
    "faults t' = []" "(if isInput then pm_input else pm_output) m' = Some (map named info)" by blast
  have v: "service_call SE nd (Some peerId) ?rpc gr w = with_gst (Some peerId) (set_side isInput request) gr w" for gr w
    by (simp add: service_call_def Server_SetInputTensorInfo_def Server_SetOutputTensorInfo_def set_side_def)
  have "method_name ?rpc = CHR ''S'' # tl (method_name ?rpc)" by simp
  from transport_in_step [OF l(1-3) l(5) [rule_format] this _ v h(1)] obtain gr' where
    r: "transport SE nd secured peerId ?rpc l
      = (response 0, l\<lparr>lk_server := Some (gr', t', e), lk_nonce := if secured then Some (n + 1) else lk_nonce l\<rparr>)"
      "map_of (gr_clients gr') peerId = Some (Some (?g\<lparr>sg_model := m'\<rparr>))" by auto
  let ?l = "l\<lparr>lk_server := Some (gr', t', e), lk_nonce := if secured then Some (n + 1) else lk_nonce l\<rparr>"
  have "in_step secured peerId ?l"
    by (rule in_stepI [of _ gr' t' e _ _ _ "n + 1"]) (use l h r in \<open>auto simp: Gst_SetNonce_def\<close>)
  moreover have "server_side isInput peerId ?l = Some (map named info)" using r(2) h(3) by (simp add: server_side_def)
  moreover obtain s' where "DupTensorInfo info s = Ret (0, Some info, s')" using DupTensorInfo_calm [OF assms(4,5)] by blast
  then have "\<exists>c' s'. Client_Set isInput (connected SE nd secured E) info c (s, x, l) = Ret (0, c', s', x, ?l)"
    using assms(2-4) r(1)
    by (cases isInput) (auto simp: Client_Set_def Client_SetInputTensorInfo_def Client_SetOutputTensorInfo_def Let_def response_def
      Model_SetInput_def Model_SetOutput_def)
  ultimately show ?thesis by blast
qed

lemma Client_Get_travels:
  assumes "in_step secured peerId l" and "gc_peerId c = peerId" and "gc_gst c = Some m" and "(if isInput then pm_input else pm_output) m = None"
    and "SetRequest info = Ret (Some request)" and "info \<noteq> []" and "server_side isInput peerId l = Some (map named info)" and "faults s = []"
  shows "\<exists>c' s' l'. Client_Get isInput (connected SE nd secured E) nd' c (s, x, l) = Ret (0, Some (map named info), c', s', x, l')
    \<and> in_step secured peerId l'"
proof -
  from assms(1) obtain gr t e g n where l: "lk_server l = Some (gr, t, e)" "peerId \<noteq> []" "map_of (gr_clients gr) peerId = Some (Some g)"
    "faults t = []" "secured \<longrightarrow> sg_nonce g = Some n \<and> lk_nonce l = Some n" by (rule in_step_cases)
  let ?rpc = "if isInput then RpcGetInputTensorInfo else RpcGetOutputTensorInfo"
  let ?g = "if secured then Gst_SetNonce (n + 1) g else g"
  let ?r = "(response 0)\<lparr>rr_infos := request\<rparr>"
  have i: "(if isInput then pm_input else pm_output) (sg_model ?g) = Some (map named info)"
    using assms(7) l(1,3) by (cases isInput) (simp_all add: server_side_def Gst_SetNonce_def)
  note h = get_side_named [OF assms(5,6) i, of nd "(t, e)"]
  have v: "service_call SE nd (Some peerId) ?rpc gr w = with_gst (Some peerId) (get_side isInput nd) gr w" for gr w
    by (simp add: service_call_def Server_GetInputTensorInfo_def Server_GetOutputTensorInfo_def get_side_def)
  have "method_name ?rpc = CHR ''G'' # tl (method_name ?rpc)" by simp
  from transport_in_step [OF l(1-3) l(5) [rule_format] this _ v h] obtain gr' where
    r: "transport SE nd secured peerId ?rpc l
      = (?r, l\<lparr>lk_server := Some (gr', t, e), lk_nonce := if secured then Some (n + 1) else lk_nonce l\<rparr>)"
      "map_of (gr_clients gr') peerId = Some (Some ?g)" by auto
  let ?l = "l\<lparr>lk_server := Some (gr', t, e), lk_nonce := if secured then Some (n + 1) else lk_nonce l\<rparr>"
  have "in_step secured peerId ?l"
    by (rule in_stepI [of _ gr' t e _ _ _ "n + 1"]) (use l r in \<open>auto simp: Gst_SetNonce_def\<close>)
  moreover obtain s' where "GetTensorInfoFromResponse nd' request s = Ret (0, Some (map named info), s')"
    using GetTensorInfoFromResponse_calm [OF assms(8), of request nd'] SetRequest_named [OF assms(5)] assms(6) by auto
  then have "\<exists>c' s'. Client_Get isInput (connected SE nd secured E) nd' c (s, x, l) = Ret (0, Some (map named info), c', s', x, ?l)"
    using assms(2-4) r(1)
    by (cases isInput) (auto simp: Client_Get_def Client_GetInputTensorInfo_def Client_GetOutputTensorInfo_def Let_def response_def
      Model_SetInput_def Model_SetOutput_def)
  ultimately show ?thesis by blast
qed

text \<open>
  C12. Tensor information travels. A client that the server knows, and on a secured channel is in step with it, sets information of the
  input or the output, without a shortage of memory on either side: the call succeeds, the server's pipeline of this client has what
  was set, an absent name as the empty one, and a client of that id that has nothing cached gets exactly that back. The
  two ends stay in step.
\<close>

theorem tensor_information_travels:
  assumes "in_step secured peerId l" and "gc_peerId c = peerId" and "gc_gst c = Some m" and "SetRequest info = Ret (Some request)"
    and "info \<noteq> []" and "faults s = []"
  shows "\<exists>c' s' l'. Client_Set isInput (connected SE nd secured E) info c (s, x, l) = Ret (0, c', s', x, l')
    \<and> in_step secured peerId l' \<and> server_side isInput peerId l' = Some (map named info)
    \<and> (\<forall>c2 m2 s2 x2. gc_peerId c2 = peerId \<and> gc_gst c2 = Some m2 \<and> (if isInput then pm_input else pm_output) m2 = None \<and> faults s2 = [] \<longrightarrow>
        (\<exists>c3 s3 l3. Client_Get isInput (connected SE nd secured E) nd' c2 (s2, x2, l') = Ret (0, Some (map named info), c3, s3, x2, l3)
          \<and> in_step secured peerId l3))"
proof -
  from Client_Set_travels [OF assms(1-4,6), of isInput SE nd E x] obtain c' s' l' where
    r: "Client_Set isInput (connected SE nd secured E) info c (s, x, l) = Ret (0, c', s', x, l')"
      "in_step secured peerId l'" "server_side isInput peerId l' = Some (map named info)" by blast
  have "\<exists>c3 s3 l3. Client_Get isInput (connected SE nd secured E) nd' c2 (s2, x2, l') = Ret (0, Some (map named info), c3, s3, x2, l3)
      \<and> in_step secured peerId l3"
    if "gc_peerId c2 = peerId \<and> gc_gst c2 = Some m2 \<and> (if isInput then pm_input else pm_output) m2 = None \<and> faults s2 = []" for c2 m2 s2 x2
    using that by (intro Client_Get_travels [OF r(2) _ _ _ assms(4,5) r(3)]) auto
  with r show ?thesis by blast
qed

section \<open>Witnesses\<close>

text \<open>A client whose authenticator has the secret key \<open>k\<close> and seals a text by remembering it, and the server of \<open>ex_service\<close>.\<close>

definition ex_client :: "string environment" where
  "ex_client = \<lparr>env_stub = \<lambda>a rootCA e. (True, e), env_rpc = \<lambda>i request e. (refused 0, e),
    env_gst = \<lambda>call e. (ret_only 0, e),
    env_auth = \<lambda>p call e. (case call of AuthKey k \<Rightarrow> ((0, Some ''k''), e) | AuthSeal k text \<Rightarrow> ((0, None), text) | AuthResult \<Rightarrow> ((0, Some e), e)),
    env_server = \<lambda>a e. (True, e), env_file = \<lambda>f e. (0, e), env_random = \<lambda>e. (41, e), env_junk = []\<rparr>"

definition ex_link :: "string link" where
  "ex_link = \<lparr>lk_server = Some (Server_new (ex_server_peer\<lparr>sp_info := Some (ex_info\<lparr>ni_uuid := ''u''\<rparr>), sp_authenticator := 7\<rparr>), calm_os, []),
    lk_secret = [], lk_nonce = None\<rparr>"

lemma ex_seals: "seals ex_client 7 ex_service 7"
  by (auto simp: seals_def ex_client_def ex_service_def)

lemma key_exchange_agrees_witness:
  "\<exists>c' s' x' l' gr' t' e' g. Client_ExchangeKey (connected ex_service True True ex_client) 7 ''u'' \<lparr>gc_peerId = [], gc_gst = None\<rparr> (calm_os, [], ex_link)
      = (0, c', s', x', l')
    \<and> lk_server l' = Some (gr', t', e') \<and> map_of (gr_clients gr') (gc_peerId c') = Some (Some g) \<and> sg_nonce g = lk_nonce l' \<and> lk_nonce l' \<noteq> None"
proof -
  let ?c = "credential [] 41 ''u'' ''k''"
  have parts: "cred_nonce ?c = 41" "cred_key ?c = Ret ''k''" "same_text ''u'' (drop 12 ?c) = Some True"
    using credential_parts [of "''k''" "''u''" "[]" 41] by (simp_all add: UUID_LEN_def)
  obtain b bs where c: "?c = b # bs" by (cases ?c) auto
  have "\<exists>c' s' x' l'. Client_ExchangeKey (connected ex_service True True ex_client) 7 ''u'' \<lparr>gc_peerId = [], gc_gst = None\<rparr> (calm_os, [], ex_link)
      = (0, c', s', x', l')"
    using parts
    by (simp add: Client_ExchangeKey_def exchange_request_def ex_client_def c os_new_def pop_def calm_os_def ex_link_def transport_def
      Client_GetMetadata_def Server_call_def Auth_Process_def service_call_def Server_ExchangeKey_def Server_new_def ex_server_peer_def ex_service_def
      exchange_credential_def register_def Gst_Create_calm response_def ex_info_def Let_def)
  then obtain c' s' x' l' where r: "Client_ExchangeKey (connected ex_service True True ex_client) 7 ''u'' \<lparr>gc_peerId = [], gc_gst = None\<rparr>
      (calm_os, [], ex_link) = (0, c', s', x', l')" by blast
  have a: "exchange_authenticator (Server_new (ex_server_peer\<lparr>sp_info := Some (ex_info\<lparr>ni_uuid := ''u''\<rparr>), sp_authenticator := 7\<rparr>)) = 7"
    by (simp add: exchange_authenticator_def Server_new_def ex_server_peer_def)
  have "\<exists>gr' t' e' g. lk_server l' = Some (gr', t', e') \<and> map_of (gr_clients gr') (gc_peerId c') = Some (Some g) \<and> sg_nonce g = lk_nonce l'
      \<and> lk_nonce l' \<noteq> None"
    using key_exchange_agrees [OF r, of "Server_new (ex_server_peer\<lparr>sp_info := Some (ex_info\<lparr>ni_uuid := ''u''\<rparr>), sp_authenticator := 7\<rparr>)" calm_os "[]"]
      ex_seals a by (auto simp: ex_link_def UUID_LEN_def)
  with r show ?thesis by blast
qed

lemma nonce_lockstep_witness:
  "\<exists>gr' w. attempts ''0'' [(''LoadModel'', True), (''Prepare'', False), (''Prepare'', True)] (Some 41) ex_server
    = Ret ([True, False, False], w, gr')"
proof -
  have "map_of (gr_clients ex_server) ''0'' = Some (Some (Gst_SetNonce 41 ex_gst))" "sg_nonce (Gst_SetNonce 41 ex_gst) = Some 41"
    by (simp_all add: ex_server_def Gst_SetNonce_def)
  from nonce_lockstep [OF _ _ this, of "[(''LoadModel'', True), (''Prepare'', False), (''Prepare'', True)]"]
  moreover have "replicate 2 False = [False, False]" by (simp add: numeral_2_eq_2)
  ultimately show ?thesis by (auto simp: Let_def simp del: attempts.simps)
qed

lemma tensor_information_travels_witness:
  "\<exists>c' s' l'. Client_Set True (connected ex_service True True ex_client) [\<lparr>ti_type = 0, ti_size = 4, ti_name = None, ti_dims = Some [2, 2]\<rparr>]
      \<lparr>gc_peerId = ''0'', gc_gst = Some Model_new\<rparr> (calm_os, [], \<lparr>lk_server = Some (ex_server, calm_os, []), lk_secret = [], lk_nonce = Some 41\<rparr>)
      = Ret (0, c', s', [], l')
    \<and> server_side True ''0'' l' = Some [\<lparr>ti_type = 0, ti_size = 4, ti_name = Some [], ti_dims = Some [2, 2]\<rparr>]"
proof -
  let ?info = "[\<lparr>ti_type = 0, ti_size = 4, ti_name = None, ti_dims = Some [2, 2]\<rparr>]"
  have "in_step True ''0'' \<lparr>lk_server = Some (ex_server, calm_os, []), lk_secret = [], lk_nonce = Some 41\<rparr>"
    by (simp add: in_step_def ex_server_def calm_os_def Gst_SetNonce_def)
  moreover have "SetRequest ?info = Ret (Some [(0, 4, [], [2, 2])])" by simp
  moreover have "faults calm_os = []" by (simp add: calm_os_def)
  ultimately show ?thesis
    using tensor_information_travels [where c = "\<lparr>gc_peerId = ''0'', gc_gst = Some Model_new\<rparr>" and info = ?info and isInput = True and x = "[]"
        and s = calm_os and peerId = "''0''" and m = Model_new and SE = ex_service and E = ex_client and nd = True and secured = True and nd' = True
        and l = "\<lparr>lk_server = Some (ex_server, calm_os, []), lk_secret = [], lk_nonce = Some 41\<rparr>" and request = "[(0, 4, [], [2, 2])]"]
    by (fastforce simp: named_def)
qed

end
